(* ===== verification/Prelude.thy ===== *)
theory Prelude
  imports Complex_Main "HOL-Library.Multiset" "HOL-Library.List_Lexorder" "HOL-Library.Char_ord" "HOL-Library.Product_Lexorder"
begin

text \<open>
  Shared vocabulary of the development: the named collections the component theories
  fill, the types every component uses, the identifier checks the models repeat, and the
  generic facts on lists and strings that carry the component proofs.

  A UUID is modelled by its canonical text (what \<open>str(uuid)\<close> gives), so \<open>str\<close> of an
  identifier is the identity and the TEXT columns of the store hold identifiers as they
  are. A Python string is a \<^typ>\<open>string\<close>, one character per code point.
\<close>

named_theorems queue_simps \<open>equations of the delivery queue operations\<close>
named_theorems ledger_simps \<open>equations of the revision ledgers\<close>
named_theorems sync_simps \<open>equations of the upload worker\<close>

type_synonym uuid = string

text \<open>
  A raised exception is a value: the class and the constant part of its message. A
  fallible operation returns \<open>Inl\<close> the exception or \<open>Inr\<close> its result.
\<close>

datatype py_error =
    ValueError string
  | TypeError string
  | RuntimeError string
  | LookupError string
  | OverflowError string
  | AttributeError string
  | InvalidOperation string

text \<open>Run a check that returns an exception or nothing, then continue.\<close>

fun first_error :: "(bool \<times> py_error) list \<Rightarrow> py_error option" where
  "first_error [] = None"
| "first_error ((bad, e) # cs) = (if bad then Some e else first_error cs)"

lemma first_error_None: "first_error cs = None \<longleftrightarrow> (\<forall>(bad, e) \<in> set cs. \<not> bad)"
  by (induction cs rule: first_error.induct) auto

text \<open>A list comprehension whose element expression can raise: the first exception wins.\<close>

fun collect :: "('a \<Rightarrow> py_error + 'b) \<Rightarrow> 'a list \<Rightarrow> py_error + 'b list" where
  "collect f [] = Inr []"
| "collect f (x # xs) =
     (case f x of Inl e \<Rightarrow> Inl e | Inr y \<Rightarrow> map_sum id (Cons y) (collect f xs))"

lemma collect_map:
  "collect f xs = Inr ys \<longleftrightarrow> map f xs = map Inr ys"
proof (induction xs arbitrary: ys)
  case (Cons x xs)
  show ?case
    using Cons.IH [of "tl ys"] by (cases ys; cases "f x"; cases "collect f xs") auto
qed auto

lemma collect_total:
  assumes "\<forall>x \<in> set xs. \<exists>y. f x = Inr y"
  shows "\<exists>ys. collect f xs = Inr ys"
  using assms by (induction xs) (auto simp: map_sum_def split: sum.splits)

section \<open>Identifiers\<close>

definition is_lower_alnum :: "char \<Rightarrow> bool" where
  "is_lower_alnum c \<longleftrightarrow>
     (CHR ''a'' \<le> c \<and> c \<le> CHR ''z'') \<or> (CHR ''0'' \<le> c \<and> c \<le> CHR ''9'')"

text \<open>The regular expression \<open>^[a-z0-9][a-z0-9._-]{0,127}$\<close>, matched in full.\<close>

fun canonical_name :: "string \<Rightarrow> bool" where
  "canonical_name [] = False"
| "canonical_name (c # cs) =
     (is_lower_alnum c \<and> length cs \<le> 127 \<and>
      list_all (\<lambda>d. is_lower_alnum d \<or> d \<in> set ''._-'') cs)"

definition bounded_text :: "nat \<Rightarrow> string \<Rightarrow> bool" where
  "bounded_text maximum s \<longleftrightarrow> 1 \<le> length s \<and> length s \<le> maximum"

section \<open>Lists\<close>

lemma lex_append_same_length:
  fixes xs ys us vs :: "'a::linorder list"
  assumes "length xs = length ys"
  shows "xs @ us < ys @ vs \<longleftrightarrow> xs < ys \<or> xs = ys \<and> us < vs"
  using assms
proof (induction xs ys rule: list_induct2)
  case Nil
  show ?case by simp
next
  case (Cons x xs y ys)
  then show ?case by auto
qed

lemma lex_Cons_less_head:
  fixes x y :: "'a::linorder"
  shows "x < y \<Longrightarrow> x # xs < y # ys"
  by simp

lemma lex_Cons_not_less_head:
  fixes x y :: "'a::linorder"
  shows "y < x \<Longrightarrow> \<not> x # xs < y # ys"
  by auto

lemma map_of_filter_keys:
  "P k \<Longrightarrow> map_of (filter (\<lambda>(k, v). P k) xs) k = map_of xs k"
  by (induction xs) auto

lemma count_list_filter_le: "count_list (filter P xs) x \<le> count_list xs x"
  by (induction xs) auto

lemma sum_list_filter_split:
  fixes f :: "'a \<Rightarrow> 'b::comm_monoid_add"
  shows "sum_list (map f xs) =
    sum_list (map f (filter P xs)) + sum_list (map f (filter (\<lambda>x. \<not> P x) xs))"
  by (induction xs) (auto simp: ac_simps)

lemma find_append: "find P (xs @ ys) = (case find P xs of None \<Rightarrow> find P ys | Some x \<Rightarrow> Some x)"
  by (induction xs) auto

lemma mset_take_drop: "mset (take n xs) + mset (drop n xs) = mset xs"
  by (metis append_take_drop_id mset_append)

lemma half_lengths:
  assumes "1 < length xs"
  shows "length (take (length xs div 2) xs) < length xs"
    and "length (drop (length xs div 2) xs) < length xs"
    and "0 < length (take (length xs div 2) xs)"
    and "0 < length (drop (length xs div 2) xs)"
  using assms by (auto simp: min_def)

section \<open>Mixed-radix numbers\<close>

lemma radix_less:
  fixes x x' y y' k :: nat
  assumes "x < k" "x' < k"
  shows "y * k + x < y' * k + x' \<longleftrightarrow> y < y' \<or> y = y' \<and> x < x'"
proof (cases y y' rule: linorder_cases)
  case less
  then have "Suc y * k \<le> y' * k" by (intro mult_le_mono1) simp
  with less assms show ?thesis by simp
next
  case greater
  then have "Suc y' * k \<le> y * k" by (intro mult_le_mono1) simp
  with greater assms show ?thesis by simp
qed simp

lemma radix_eq:
  fixes x x' y y' k :: nat
  assumes "x < k" "x' < k"
  shows "y * k + x = y' * k + x' \<longleftrightarrow> y = y' \<and> x = x'"
  using radix_less [OF assms, of y y'] radix_less [OF assms(2,1), of y' y]
  by (metis linorder_neq_iff)

end
