(* ===== verification/Timestamps.thy ===== *)
theory Timestamps
  imports Prelude
begin

text \<open>
  Timestamps as the SDK stores and sends them (\<open>models/_serde.py\<close>, and the
  \<open>isoformat\<close> texts of \<open>storage/sqlite.py\<close>).

  A \<^theory_text>\<open>record\<close> holds the fields of an aware datetime normalised to UTC, the only
  kind the SDK itself creates (\<open>datetime.now(timezone.utc)\<close>); other offsets are not
  modelled. Years are four digits wide (\<open>valid_dt\<close>), because \<open>strftime("%Y")\<close> does not
  pad shorter years on every platform.
\<close>

record dt =
  year :: nat
  month :: nat
  day :: nat
  hour :: nat
  minute :: nat
  second :: nat
  microsecond :: nat

definition is_leap :: "nat \<Rightarrow> bool" where
  "is_leap y \<longleftrightarrow> 4 dvd y \<and> (\<not> 100 dvd y \<or> 400 dvd y)"

definition days_in_month :: "nat \<Rightarrow> nat \<Rightarrow> nat" where
  "days_in_month y m =
     (if m = 2 then (if is_leap y then 29 else 28) else if m \<in> {4, 6, 9, 11} then 30 else 31)"

text \<open>The fields \<open>datetime\<close> accepts, and the years whose text is four digits wide everywhere.\<close>

definition datetime_ok :: "dt \<Rightarrow> bool" where
  "datetime_ok d \<longleftrightarrow> 1 \<le> year d \<and> year d < 10000 \<and> 1 \<le> month d \<and> month d \<le> 12 \<and>
     1 \<le> day d \<and> day d \<le> 31 \<and> day d \<le> days_in_month (year d) (month d) \<and>
     hour d < 24 \<and> minute d < 60 \<and> second d < 60 \<and> microsecond d < 1000000"

definition valid_dt :: "dt \<Rightarrow> bool" where
  "valid_dt d \<longleftrightarrow> 1000 \<le> year d \<and> datetime_ok d"

section \<open>Fixed-width decimal fields\<close>

definition digit_char :: "nat \<Rightarrow> char" where
  "digit_char n = ''0123456789'' ! (n mod 10)"

fun digit_value :: "char \<Rightarrow> nat option" where
  "digit_value c =
     (if CHR ''0'' \<le> c \<and> c \<le> CHR ''9'' then Some (of_char c - 48) else None)"

text \<open>The last \<open>k\<close> decimal digits of \<open>n\<close>: \<open>f"{n:0kd}"\<close> for \<open>n < 10 ^ k\<close>.\<close>

fun pad :: "nat \<Rightarrow> nat \<Rightarrow> string" where
  "pad 0 n = []"
| "pad (Suc k) n = pad k (n div 10) @ [digit_char n]"

fun read_digits :: "nat \<Rightarrow> string \<Rightarrow> nat option" where
  "read_digits acc [] = Some acc"
| "read_digits acc (c # cs) =
     (case digit_value c of None \<Rightarrow> None | Some d \<Rightarrow> read_digits (acc * 10 + d) cs)"

lemma less_10_cases:
  "(n::nat) < 10 \<Longrightarrow> n \<in> {0, 1, 2, 3, 4, 5, 6, 7, 8, 9}"
  by auto

lemma digit_value_digit_char: "digit_value (digit_char n) = Some (n mod 10)"
proof -
  have "n mod 10 < 10" by simp
  from less_10_cases [OF this] show ?thesis
    by (auto simp: digit_char_def)
qed

lemma digit_char_mono: "digit_char a < digit_char b \<longleftrightarrow> a mod 10 < b mod 10"
proof -
  have "a mod 10 < 10" "b mod 10 < 10" by simp_all
  from less_10_cases [OF this(1)] less_10_cases [OF this(2)] show ?thesis
    by (elim insertE emptyE) (simp_all add: digit_char_def)
qed

lemma digit_char_inj: "digit_char a = digit_char b \<longleftrightarrow> a mod 10 = b mod 10"
  by (metis digit_char_mono linorder_neq_iff)

lemma length_pad [simp]: "length (pad k n) = k"
  by (induction k arbitrary: n) auto

lemma read_digits_append:
  "read_digits acc (xs @ [c]) =
     (case read_digits acc xs of None \<Rightarrow> None
      | Some v \<Rightarrow> (case digit_value c of None \<Rightarrow> None | Some d \<Rightarrow> Some (v * 10 + d)))"
  by (induction xs arbitrary: acc) (auto simp del: digit_value.simps split: option.splits)

lemma read_digits_pad: "n < 10 ^ k \<Longrightarrow> read_digits 0 (pad k n) = Some n"
proof (induction k arbitrary: n)
  case 0
  then show ?case by simp
next
  case (Suc k)
  then have "n div 10 < 10 ^ k" by (simp add: less_mult_imp_div_less)
  with Suc.IH [of "n div 10"] show ?case
    by (simp add: read_digits_append digit_value_digit_char del: digit_value.simps)
qed

lemma pad_inj: "\<lbrakk>a < 10 ^ k; b < 10 ^ k\<rbrakk> \<Longrightarrow> pad k a = pad k b \<longleftrightarrow> a = b"
  by (metis read_digits_pad option.inject)

lemma pad_less: "\<lbrakk>a < 10 ^ k; b < 10 ^ k\<rbrakk> \<Longrightarrow> pad k a < pad k b \<longleftrightarrow> a < b"
proof (induction k arbitrary: a b)
  case 0
  then show ?case by simp
next
  case (Suc k)
  from Suc.prems have bounds: "a div 10 < 10 ^ k" "b div 10 < 10 ^ k"
    by (simp_all add: less_mult_imp_div_less)
  have "pad (Suc k) a < pad (Suc k) b \<longleftrightarrow>
      a div 10 < b div 10 \<or> a div 10 = b div 10 \<and> a mod 10 < b mod 10"
    by (simp add: lex_append_same_length Suc.IH [OF bounds] pad_inj [OF bounds] digit_char_mono)
  also have "\<dots> \<longleftrightarrow> a < b"
    using div_mult_mod_eq [of a 10] div_mult_mod_eq [of b 10]
      pos_mod_bound [of 10 "a mod 10"] mod_less_divisor [of 10 a] mod_less_divisor [of 10 b]
    by linarith
  finally show ?case .
qed

section \<open>Text forms\<close>

definition date_text :: "dt \<Rightarrow> string" where
  "date_text d = pad 4 (year d) @ ''-'' @ pad 2 (month d) @ ''-'' @ pad 2 (day d)"

definition clock_text :: "dt \<Rightarrow> string" where
  "clock_text d = pad 2 (hour d) @ '':'' @ pad 2 (minute d) @ '':'' @ pad 2 (second d)"

text \<open>\<open>strftime("%Y-%m-%dT%H:%M:%S")\<close> and the canonical RFC3339 microsecond form.\<close>

definition iso_canonical :: "dt \<Rightarrow> string" where
  "iso_canonical d =
     date_text d @ ''T'' @ clock_text d @ ''.'' @ pad 6 (microsecond d) @ ''Z''"

text \<open>
  \<open>datetime.isoformat()\<close> of a UTC datetime, which the store writes to its TEXT columns:
  the fraction is left out when the microseconds are zero.
\<close>

definition isoformat :: "dt \<Rightarrow> string" where
  "isoformat d = date_text d @ ''T'' @ clock_text d @
     (if microsecond d = 0 then [] else ''.'' @ pad 6 (microsecond d)) @ ''+00:00''"

text \<open>SQLite's \<open>datetime(...)\<close> result: a blank between date and time, no fraction.\<close>

definition sqlite_datetime :: "dt \<Rightarrow> string" where
  "sqlite_datetime d = date_text d @ '' '' @ clock_text d"

text \<open>
  \<open>datetime.fromisoformat\<close> on the forms with a zero offset, which are the ones the SDK
  writes; every other text is a \<open>ValueError\<close> (None).
\<close>

definition read_fraction :: "string \<Rightarrow> nat option" where
  "read_fraction s =
     (if s = ''+00:00'' then Some 0
      else if length s = 13 \<and> take 1 s = ''.'' \<and> drop 7 s = ''+00:00''
      then read_digits 0 (take 6 (drop 1 s))
      else None)"

definition fromisoformat :: "string \<Rightarrow> dt option" where
  "fromisoformat s =
     (case s of
        y1 # y2 # y3 # y4 # x1 # m1 # m2 # x2 # d1 # d2 # x3 #
          h1 # h2 # x4 # i1 # i2 # x5 # s1 # s2 # rest \<Rightarrow>
        if [x1, x2, x3, x4, x5] = ''--T::''
        then
          (case (read_digits 0 [y1, y2, y3, y4], read_digits 0 [m1, m2],
                 read_digits 0 [d1, d2], read_digits 0 [h1, h2],
                 read_digits 0 [i1, i2], read_digits 0 [s1, s2], read_fraction rest) of
             (Some y, Some mo, Some da, Some h, Some mi, Some se, Some us) \<Rightarrow>
               let d = \<lparr>year = y, month = mo, day = da, hour = h, minute = mi, second = se,
                        microsecond = us\<rparr>
               in if datetime_ok d then Some d else None
           | _ \<Rightarrow> None)
        else None
      | _ \<Rightarrow> None)"

definition parse_canonical :: "string \<Rightarrow> dt option" where
  "parse_canonical value =
     fromisoformat
       (if value \<noteq> [] \<and> last value = CHR ''Z'' then butlast value @ ''+00:00'' else value)"

section \<open>Round trips\<close>

lemma date_text_length [simp]: "length (date_text d) = 10"
  by (simp add: date_text_def)

lemma clock_text_length [simp]: "length (clock_text d) = 8"
  by (simp add: clock_text_def)

lemma pad_2_eq: "pad 2 n = [digit_char (n div 10), digit_char n]"
  by (simp only: numeral_2_eq_2 pad.simps append.simps)

lemma pad_4_eq:
  "pad 4 n = [digit_char (n div 10 div 10 div 10), digit_char (n div 10 div 10),
     digit_char (n div 10), digit_char n]"
proof -
  have "(4::nat) = Suc (Suc (Suc (Suc 0)))" by simp
  then show ?thesis by (simp only: pad.simps append.simps)
qed

lemma pad2: "\<exists>a b. pad 2 n = [a, b]"
  by (rule exI)+ (rule pad_2_eq)

lemma pad4: "\<exists>a b c e. pad 4 n = [a, b, c, e]"
  by (rule exI)+ (rule pad_4_eq)

lemma read_pad2: "n < 100 \<Longrightarrow> read_digits 0 (pad 2 n) = Some n"
  using read_digits_pad [of n 2] by simp

lemma read_pad4: "n < 10000 \<Longrightarrow> read_digits 0 (pad 4 n) = Some n"
  using read_digits_pad [of n 4] by simp

lemma read_pad6: "n < 1000000 \<Longrightarrow> read_digits 0 (pad 6 n) = Some n"
  using read_digits_pad [of n 6] by simp

lemma fromisoformat_fields:
  assumes "valid_dt d" and "read_fraction rest = Some (microsecond d)"
  shows "fromisoformat (date_text d @ ''T'' @ clock_text d @ rest) = Some d"
proof -
  obtain y1 y2 y3 y4 where y: "pad 4 (year d) = [y1, y2, y3, y4]" using pad4 by blast
  obtain m1 m2 where m: "pad 2 (month d) = [m1, m2]" using pad2 by blast
  obtain d1 d2 where d: "pad 2 (day d) = [d1, d2]" using pad2 by blast
  obtain h1 h2 where h: "pad 2 (hour d) = [h1, h2]" using pad2 by blast
  obtain i1 i2 where i: "pad 2 (minute d) = [i1, i2]" using pad2 by blast
  obtain s1 s2 where s: "pad 2 (second d) = [s1, s2]" using pad2 by blast
  have whole: "date_text d @ ''T'' @ clock_text d @ rest =
      [y1, y2, y3, y4, CHR ''-'', m1, m2, CHR ''-'', d1, d2, CHR ''T'', h1, h2, CHR '':'',
       i1, i2, CHR '':'', s1, s2] @ rest"
    by (simp add: date_text_def clock_text_def y m d h i s)
  from assms(1) have bounds: "year d < 10000" "month d < 100" "day d < 100" "hour d < 100"
      "minute d < 100" "second d < 100"
    by (simp_all add: valid_dt_def datetime_ok_def)
  have fields: "read_digits 0 [y1, y2, y3, y4] = Some (year d)"
      "read_digits 0 [m1, m2] = Some (month d)" "read_digits 0 [d1, d2] = Some (day d)"
      "read_digits 0 [h1, h2] = Some (hour d)" "read_digits 0 [i1, i2] = Some (minute d)"
      "read_digits 0 [s1, s2] = Some (second d)"
    using read_pad4 [OF bounds(1)] read_pad2 [OF bounds(2)] read_pad2 [OF bounds(3)]
      read_pad2 [OF bounds(4)] read_pad2 [OF bounds(5)] read_pad2 [OF bounds(6)]
    by (simp_all only: y m d h i s)
  have eta: "\<lparr>year = year d, month = month d, day = day d, hour = hour d, minute = minute d,
      second = second d, microsecond = microsecond d\<rparr> = d"
    by (cases d) simp
  have "datetime_ok d" using assms(1) by (simp add: valid_dt_def)
  then show ?thesis
    unfolding whole fromisoformat_def
    using assms fields by (simp add: Let_def eta del: read_digits.simps)
qed

lemma read_fraction_isoformat:
  assumes "microsecond d < 1000000"
  shows "read_fraction ((if microsecond d = 0 then [] else ''.'' @ pad 6 (microsecond d)) @
           ''+00:00'') = Some (microsecond d)"
  using read_pad6 [OF assms] by (auto simp: read_fraction_def)

lemma parse_isoformat: "valid_dt d \<Longrightarrow> parse_canonical (isoformat d) = Some d"
  using fromisoformat_fields [OF _ read_fraction_isoformat, of d]
  by (auto simp: parse_canonical_def isoformat_def valid_dt_def datetime_ok_def)

lemma parse_iso_canonical_aux: "valid_dt d \<Longrightarrow> parse_canonical (iso_canonical d) = Some d"
proof -
  assume v: "valid_dt d"
  then have us: "microsecond d < 1000000" by (simp add: valid_dt_def datetime_ok_def)
  have "read_fraction (''.'' @ pad 6 (microsecond d) @ ''+00:00'') = Some (microsecond d)"
    using read_pad6 [OF us] by (simp add: read_fraction_def)
  from fromisoformat_fields [OF v this] show ?thesis
    by (simp add: parse_canonical_def iso_canonical_def butlast_append)
qed

section \<open>Order of the stored texts\<close>

text \<open>The fields as one mixed-radix number: chronological order of UTC datetimes.\<close>

definition date_key :: "dt \<Rightarrow> nat" where
  "date_key d = (year d * 100 + month d) * 100 + day d"

definition clock_key :: "dt \<Rightarrow> nat" where
  "clock_key d = (hour d * 100 + minute d) * 100 + second d"

definition dt_key :: "dt \<Rightarrow> nat" where
  "dt_key d = (date_key d * 1000000 + clock_key d) * 1000000 + microsecond d"

lemma append_eq_same_length:
  "length xs = length ys \<Longrightarrow> xs @ us = ys @ vs \<longleftrightarrow> xs = ys \<and> us = vs"
  by simp

lemmas field_bounds = pad_less [of _ 2, simplified] pad_less [of _ 4, simplified]
  pad_less [of _ 6, simplified] pad_inj [of _ 2, simplified] pad_inj [of _ 4, simplified]
  pad_inj [of _ 6, simplified]

lemma date_text_less:
  assumes "valid_dt a" "valid_dt b"
  shows "date_text a < date_text b \<longleftrightarrow> date_key a < date_key b"
proof -
  have "date_text a < date_text b \<longleftrightarrow>
      year a < year b \<or> year a = year b \<and>
        (month a < month b \<or> month a = month b \<and> day a < day b)"
    using assms by (simp add: date_text_def lex_append_same_length field_bounds valid_dt_def datetime_ok_def)
  also have "\<dots> \<longleftrightarrow> date_key a < date_key b"
    using assms by (auto simp: date_key_def valid_dt_def datetime_ok_def radix_less)
  finally show ?thesis .
qed

lemma clock_text_less:
  assumes "valid_dt a" "valid_dt b"
  shows "clock_text a < clock_text b \<longleftrightarrow> clock_key a < clock_key b"
proof -
  have "clock_text a < clock_text b \<longleftrightarrow>
      hour a < hour b \<or> hour a = hour b \<and>
        (minute a < minute b \<or> minute a = minute b \<and> second a < second b)"
    using assms by (simp add: clock_text_def lex_append_same_length field_bounds valid_dt_def datetime_ok_def)
  also have "\<dots> \<longleftrightarrow> clock_key a < clock_key b"
    using assms by (auto simp: clock_key_def valid_dt_def datetime_ok_def radix_less)
  finally show ?thesis .
qed

lemma key_inj_from_less:
  fixes f :: "'a \<Rightarrow> 'b::linorder" and k :: "'a \<Rightarrow> nat"
  assumes "f a < f b \<longleftrightarrow> k a < k b" "f b < f a \<longleftrightarrow> k b < k a"
  shows "f a = f b \<longleftrightarrow> k a = k b"
  using assms by (metis linorder_neq_iff)

lemma date_text_eq:
  "\<lbrakk>valid_dt a; valid_dt b\<rbrakk> \<Longrightarrow> date_text a = date_text b \<longleftrightarrow> date_key a = date_key b"
  by (rule key_inj_from_less) (simp_all add: date_text_less)

lemma clock_text_eq:
  "\<lbrakk>valid_dt a; valid_dt b\<rbrakk> \<Longrightarrow> clock_text a = clock_text b \<longleftrightarrow> clock_key a = clock_key b"
  by (rule key_inj_from_less) (simp_all add: clock_text_less)

lemma fraction_text_less:
  assumes "a < 1000000" "b < (1000000::nat)"
  shows "(if a = 0 then [] else ''.'' @ pad 6 a) @ ''+00:00'' <
         (if b = 0 then [] else ''.'' @ pad 6 b) @ ''+00:00'' \<longleftrightarrow> a < b"
  using assms by (auto simp: lex_append_same_length field_bounds)

lemma clock_key_bound: "valid_dt d \<Longrightarrow> clock_key d < 1000000"
  by (auto simp: clock_key_def valid_dt_def datetime_ok_def)

lemma isoformat_less:
  assumes "valid_dt a" "valid_dt b"
  shows "isoformat a < isoformat b \<longleftrightarrow> dt_key a < dt_key b"
proof -
  from assms have us: "microsecond a < 1000000" "microsecond b < 1000000"
    by (simp_all add: valid_dt_def datetime_ok_def)
  let ?fr = "\<lambda>d. (if microsecond d = 0 then [] else ''.'' @ pad 6 (microsecond d)) @ ''+00:00''"
  have split: "isoformat d = date_text d @ ''T'' @ clock_text d @ ?fr d" for d
    by (simp add: isoformat_def)
  have "isoformat a < isoformat b \<longleftrightarrow>
      date_text a < date_text b \<or> date_text a = date_text b \<and>
        (clock_text a < clock_text b \<or> clock_text a = clock_text b \<and> ?fr a < ?fr b)"
    unfolding split
    by (simp only: lex_append_same_length date_text_length clock_text_length list.size) simp
  also have "\<dots> \<longleftrightarrow> dt_key a < dt_key b"
    using us clock_key_bound [OF assms(1)] clock_key_bound [OF assms(2)]
    by (simp only: date_text_less [OF assms] clock_text_less [OF assms]
        date_text_eq [OF assms] clock_text_eq [OF assms] fraction_text_less [OF us]
        dt_key_def radix_less radix_eq) blast
  finally show ?thesis .
qed

lemma isoformat_less_sqlite_datetime:
  assumes "valid_dt a" "valid_dt b"
  shows "isoformat a < sqlite_datetime b \<longleftrightarrow> date_key a < date_key b"
  by (simp add: isoformat_def sqlite_datetime_def lex_append_same_length date_text_less [OF assms])

section \<open>Instants\<close>

text \<open>
  The microseconds of a datetime since 0001-01-01, by the ordinals of the \<open>datetime\<close>
  module (\<open>_days_before_year\<close>, \<open>_days_before_month\<close>).
\<close>

definition days_before_year :: "nat \<Rightarrow> nat" where
  "days_before_year y = (let n = y - 1 in 365 * n + n div 4 - n div 100 + n div 400)"

definition days_before_month :: "nat \<Rightarrow> nat \<Rightarrow> nat" where
  "days_before_month y m = sum_list (map (days_in_month y) [1..<m])"

definition ordinal :: "dt \<Rightarrow> nat" where
  "ordinal d = days_before_year (year d) + days_before_month (year d) (month d) + day d"

definition instant :: "dt \<Rightarrow> int" where
  "instant d =
     (((int (ordinal d) * 24 + int (hour d)) * 60 + int (minute d)) * 60 + int (second d)) *
       1000000 + int (microsecond d)"

lemma leap_count:
  fixes n A B C x y z :: nat
  assumes "B \<le> 365 * n + A" "y \<le> 1"
  shows "365 * Suc n + (A + x) - (B + y) + (C + z) + B + y =
    365 * n + A - B + C + B + 365 + x + z"
  using assms by simp

lemma days_before_year_Suc:
  assumes "1 \<le> y"
  shows "days_before_year (Suc y) = days_before_year y + (if is_leap y then 366 else 365)"
proof -
  obtain n where y: "y = Suc n" using assms by (cases y) auto
  have step: "Suc n div k = n div k + of_bool (k dvd Suc n)" for k :: nat
    by (auto simp: div_Suc mod_eq_0_iff_dvd)
  have dvd: "(400 :: nat) dvd Suc n \<Longrightarrow> 100 dvd Suc n" "(100 :: nat) dvd Suc n \<Longrightarrow> 4 dvd Suc n"
    by (erule dvd_trans [rotated], simp)+
  have le: "n div 100 \<le> 365 * n + n div 4"
    using div_le_dividend [of n 100] by linarith
  have "days_before_year (Suc y) + n div 100 + of_bool (100 dvd Suc n) =
      days_before_year y + n div 100 + 365 + of_bool (4 dvd Suc n) + of_bool (400 dvd Suc n)"
    unfolding days_before_year_def y Let_def diff_Suc_1 step
    by (rule leap_count) (use le in simp_all)
  then show ?thesis
    using dvd
    by (cases "4 dvd Suc n"; cases "100 dvd Suc n"; cases "400 dvd Suc n") (simp_all add: is_leap_def y)
qed

lemma days_before_month_Suc: "1 \<le> m \<Longrightarrow> days_before_month y (Suc m) = days_before_month y m + days_in_month y m"
  by (simp add: days_before_month_def)

lemma days_before_month_mono:
  assumes "1 \<le> m" "m < m'"
  shows "days_before_month y m + days_in_month y m \<le> days_before_month y m'"
  using assms(2)
proof (induction m')
  case 0
  then show ?case by simp
next
  case (Suc k)
  then show ?case
    using assms(1) by (cases "m = k") (auto simp: days_before_month_Suc less_Suc_eq)
qed

lemma days_before_year_mono:
  assumes "1 \<le> y" "y < y'"
  shows "days_before_year y + (if is_leap y then 366 else 365) \<le> days_before_year y'"
  using assms(2)
proof (induction y')
  case 0
  then show ?case by simp
next
  case (Suc k)
  then show ?case
    using assms(1) by (cases "y = k") (auto simp: days_before_year_Suc less_Suc_eq)
qed

lemma days_in_year: "days_before_month y 13 = (if is_leap y then 366 else 365)"
  by (simp add: days_before_month_def days_in_month_def upt_rec)

lemma ordinal_in_year:
  assumes "datetime_ok d"
  shows "days_before_month (year d) (month d) + day d \<le> (if is_leap (year d) then 366 else 365)"
proof -
  have "days_before_month (year d) (month d) + days_in_month (year d) (month d) \<le>
      days_before_month (year d) 13"
    using assms by (intro days_before_month_mono) (auto simp: datetime_ok_def)
  then show ?thesis using assms by (simp only: days_in_year) (simp add: datetime_ok_def)
qed

lemma date_key_parts:
  assumes "datetime_ok a" "datetime_ok b"
  shows "date_key a = date_key b \<longleftrightarrow> year a = year b \<and> month a = month b \<and> day a = day b"
    and "date_key a < date_key b \<longleftrightarrow> year a < year b \<or> year a = year b \<and>
      (month a < month b \<or> month a = month b \<and> day a < day b)"
proof -
  have m: "month a < 100" "month b < 100" and d: "day a < 100" "day b < 100"
    using assms by (simp_all add: datetime_ok_def)
  show "date_key a = date_key b \<longleftrightarrow> year a = year b \<and> month a = month b \<and> day a = day b"
    unfolding date_key_def radix_eq [OF d] radix_eq [OF m] by blast
  show "date_key a < date_key b \<longleftrightarrow> year a < year b \<or> year a = year b \<and>
      (month a < month b \<or> month a = month b \<and> day a < day b)"
    unfolding date_key_def radix_less [OF d] radix_less [OF m] radix_eq [OF m] by blast
qed

lemma clock_key_parts:
  assumes "datetime_ok a" "datetime_ok b"
  shows "clock_key a = clock_key b \<longleftrightarrow> hour a = hour b \<and> minute a = minute b \<and> second a = second b"
    and "clock_key a < clock_key b \<longleftrightarrow> hour a < hour b \<or> hour a = hour b \<and>
      (minute a < minute b \<or> minute a = minute b \<and> second a < second b)"
proof -
  have m: "minute a < 100" "minute b < 100" and d: "second a < 100" "second b < 100"
    using assms by (simp_all add: datetime_ok_def)
  show "clock_key a = clock_key b \<longleftrightarrow> hour a = hour b \<and> minute a = minute b \<and> second a = second b"
    unfolding clock_key_def radix_eq [OF d] radix_eq [OF m] by blast
  show "clock_key a < clock_key b \<longleftrightarrow> hour a < hour b \<or> hour a = hour b \<and>
      (minute a < minute b \<or> minute a = minute b \<and> second a < second b)"
    unfolding clock_key_def radix_less [OF d] radix_less [OF m] radix_eq [OF m] by blast
qed

lemma dt_key_parts:
  assumes "datetime_ok a" "datetime_ok b"
  shows "dt_key a = dt_key b \<longleftrightarrow>
      date_key a = date_key b \<and> clock_key a = clock_key b \<and> microsecond a = microsecond b"
    and "dt_key a < dt_key b \<longleftrightarrow> date_key a < date_key b \<or> date_key a = date_key b \<and>
      (clock_key a < clock_key b \<or> clock_key a = clock_key b \<and> microsecond a < microsecond b)"
proof -
  have m: "clock_key a < 1000000" "clock_key b < 1000000"
    and d: "microsecond a < 1000000" "microsecond b < 1000000"
    using assms by (simp_all add: datetime_ok_def clock_key_def)
  show "dt_key a = dt_key b \<longleftrightarrow>
      date_key a = date_key b \<and> clock_key a = clock_key b \<and> microsecond a = microsecond b"
    unfolding dt_key_def radix_eq [OF d] radix_eq [OF m] by blast
  show "dt_key a < dt_key b \<longleftrightarrow> date_key a < date_key b \<or> date_key a = date_key b \<and>
      (clock_key a < clock_key b \<or> clock_key a = clock_key b \<and> microsecond a < microsecond b)"
    unfolding dt_key_def radix_less [OF d] radix_less [OF m] radix_eq [OF m] by blast
qed

text \<open>The fields compare the way the instants do, so a datetime is its instant.\<close>

lemma dt_key_inj: "\<lbrakk>datetime_ok a; datetime_ok b; dt_key a = dt_key b\<rbrakk> \<Longrightarrow> a = b"
  by (simp add: dt_key_parts date_key_parts clock_key_parts)

lemma ordinal_mono:
  assumes a: "datetime_ok a" and b: "datetime_ok b" and less: "date_key a < date_key b"
  shows "ordinal a < ordinal b"
proof -
  consider "year a < year b" | "year a = year b" "month a < month b"
    | "year a = year b" "month a = month b" "day a < day b"
    using less by (auto simp: date_key_parts(2) [OF a b])
  then show ?thesis
  proof cases
    case 1
    with a have "days_before_year (year a) + (if is_leap (year a) then 366 else 365) \<le>
        days_before_year (year b)"
      by (intro days_before_year_mono) (auto simp: datetime_ok_def)
    with ordinal_in_year [OF a] b show ?thesis by (auto simp: ordinal_def datetime_ok_def)
  next
    case 2
    with a have "days_before_month (year a) (month a) + days_in_month (year a) (month a) \<le>
        days_before_month (year a) (month b)"
      by (intro days_before_month_mono) (auto simp: datetime_ok_def)
    with a b 2 show ?thesis by (auto simp: ordinal_def datetime_ok_def)
  next
    case 3
    then show ?thesis by (simp add: ordinal_def)
  qed
qed

lemma instant_nat:
  "instant d = int ((((ordinal d * 24 + hour d) * 60 + minute d) * 60 + second d) * 1000000 +
     microsecond d)"
  by (simp add: instant_def)

lemma instant_less:
  assumes a: "datetime_ok a" and b: "datetime_ok b" and less: "dt_key a < dt_key b"
  shows "instant a < instant b"
proof -
  have bounds: "hour a < 24" "minute a < 60" "second a < 60" "microsecond a < 1000000"
      "hour b < 24" "minute b < 60" "second b < 60" "microsecond b < 1000000"
    using a b by (simp_all add: datetime_ok_def)
  have "ordinal a < ordinal b \<or> ordinal a = ordinal b \<and>
      (hour a < hour b \<or> hour a = hour b \<and> (minute a < minute b \<or> minute a = minute b \<and>
        (second a < second b \<or> second a = second b \<and> microsecond a < microsecond b)))"
    using less ordinal_mono [OF a b]
    by (auto simp: dt_key_parts [OF a b] clock_key_parts [OF a b] date_key_parts(1) [OF a b] ordinal_def)
  then show ?thesis
    unfolding instant_nat of_nat_less_iff radix_less [OF bounds(4,8)] radix_less [OF bounds(3,7)]
      radix_less [OF bounds(2,6)] radix_less [OF bounds(1,5)] radix_eq [OF bounds(3,7)]
      radix_eq [OF bounds(2,6)] radix_eq [OF bounds(1,5)]
    by blast
qed

lemma instant_le:
  assumes a: "datetime_ok a" and b: "datetime_ok b"
  shows "instant a \<le> instant b \<longleftrightarrow> dt_key a \<le> dt_key b"
  using instant_less [OF a b] instant_less [OF b a] dt_key_inj [OF a b]
  by (cases "dt_key a" "dt_key b" rule: linorder_cases) auto

section \<open>Properties\<close>

text \<open>Reading back a timestamp, from its canonical wire form or from the form the store
  writes, gives the same datetime.\<close>

lemma timestamp_roundtrip:
  assumes "valid_dt d"
  shows "parse_canonical (iso_canonical d) = Some d \<and> parse_canonical (isoformat d) = Some d"
  using parse_iso_canonical_aux [OF assms] parse_isoformat [OF assms] by simp

lemma timestamp_roundtrip_witness:
  "parse_canonical (iso_canonical \<lparr>year = 2024, month = 2, day = 29, hour = 23, minute = 59,
     second = 59, microsecond = 7\<rparr>) =
   Some \<lparr>year = 2024, month = 2, day = 29, hour = 23, minute = 59, second = 59, microsecond = 7\<rparr>"
  using timestamp_roundtrip [of "\<lparr>year = 2024, month = 2, day = 29, hour = 23, minute = 59,
     second = 59, microsecond = 7\<rparr>"]
  by (simp add: valid_dt_def datetime_ok_def days_in_month_def is_leap_def)

text \<open>The order of the timestamp texts in the store is the order of the instants, although
  the text leaves out a zero fraction: the \<open>ORDER BY\<close> of every queue scan is chronological.\<close>

lemma stored_text_order:
  assumes "valid_dt a" "valid_dt b"
  shows "isoformat a < isoformat b \<longleftrightarrow> instant a < instant b"
proof -
  have "datetime_ok a" "datetime_ok b" using assms by (simp_all add: valid_dt_def)
  then show ?thesis
    using isoformat_less [OF assms] instant_le [of b a] by (simp add: not_le [symmetric])
qed

lemma stored_text_order_witness:
  "isoformat \<lparr>year = 2024, month = 3, day = 1, hour = 0, minute = 0, second = 0, microsecond = 0\<rparr> <
   isoformat \<lparr>year = 2024, month = 3, day = 1, hour = 0, minute = 0, second = 0, microsecond = 5\<rparr>"
  using stored_text_order [of
      "\<lparr>year = 2024, month = 3, day = 1, hour = 0, minute = 0, second = 0, microsecond = 0\<rparr>"
      "\<lparr>year = 2024, month = 3, day = 1, hour = 0, minute = 0, second = 0, microsecond = 5\<rparr>"]
  by (simp add: valid_dt_def datetime_ok_def days_in_month_def is_leap_def instant_def ordinal_def)

text \<open>A datetime for the examples of the development.\<close>

definition sample_time :: "nat \<Rightarrow> dt" where
  "sample_time s = \<lparr>year = 2025, month = 3, day = 1, hour = 10, minute = 0, second = s, microsecond = 0\<rparr>"

lemma sample_time_ok: "s < 60 \<Longrightarrow> valid_dt (sample_time s)"
  by (simp add: sample_time_def valid_dt_def datetime_ok_def days_in_month_def)

end
