(* ===== verification/Decimals.thy ===== *)
theory Decimals
  imports Timestamps
begin

text \<open>
  Python's \<open>decimal.Decimal\<close>, as far as the SDK uses it for money, and the canonical text
  of an amount (\<open>canonical_decimal\<close> of \<open>models/_serde.py\<close>, \<open>_decimal_text\<close> of
  \<open>rates.py\<close>).

  \<open>Dec c e\<close> stands for the finite decimal \<open>c * 10 ^ e\<close> with its construction scale: the
  default context rounds every arithmetic result half-even to 28 digits (\<open>dec_fix\<close>). The
  sign of a zero, NaN and infinities are not modelled.
\<close>

datatype dec = Dec (coeff: int) (expo: int)

definition dec_val :: "dec \<Rightarrow> rat" where
  "dec_val d = of_int (coeff d) * 10 powi (expo d)"

abbreviation dec0 :: dec where "dec0 \<equiv> Dec 0 0"

definition dec_prec :: nat where "dec_prec = 28"

fun ndigits :: "nat \<Rightarrow> nat" where
  "ndigits n = (if n < 10 then 1 else Suc (ndigits (n div 10)))"

declare ndigits.simps [simp del]

text \<open>Drop \<open>k\<close> digits of a magnitude, rounding half to even.\<close>

definition round_half_even :: "nat \<Rightarrow> nat \<Rightarrow> nat" where
  "round_half_even k n =
     (let q = n div 10 ^ k; r = n mod 10 ^ k
      in if 2 * r > 10 ^ k \<or> (2 * r = 10 ^ k \<and> odd q) then q + 1 else q)"

text \<open>\<open>Decimal._fix\<close>: at most 28 significant digits.\<close>

definition dec_fix :: "dec \<Rightarrow> dec" where
  "dec_fix d =
     (let n = nat \<bar>coeff d\<bar>; k = ndigits n - dec_prec
      in if ndigits n \<le> dec_prec then d
         else
           (let q = round_half_even k n
            in if ndigits q > dec_prec
               then Dec (sgn (coeff d) * int (q div 10)) (expo d + int k + 1)
               else Dec (sgn (coeff d) * int q) (expo d + int k)))"

definition dec_add :: "dec \<Rightarrow> dec \<Rightarrow> dec" where
  "dec_add a b =
     (let m = min (expo a) (expo b)
      in dec_fix (Dec (coeff a * 10 ^ nat (expo a - m) + coeff b * 10 ^ nat (expo b - m)) m))"

definition dec_mul :: "dec \<Rightarrow> dec \<Rightarrow> dec" where
  "dec_mul a b = dec_fix (Dec (coeff a * coeff b) (expo a + expo b))"

text \<open>The final loop of \<open>Decimal.__truediv__\<close>: give up trailing zeros down to the ideal exponent.\<close>

fun strip_to :: "nat \<Rightarrow> int \<Rightarrow> int \<Rightarrow> dec" where
  "strip_to 0 c e = Dec c e"
| "strip_to (Suc n) c e = (if c mod 10 = 0 then strip_to n (c div 10) (e + 1) else Dec c e)"

text \<open>\<open>Decimal.__truediv__\<close>; None is \<open>DivisionByZero\<close>.\<close>

definition dec_div :: "dec \<Rightarrow> dec \<Rightarrow> dec option" where
  "dec_div a b =
     (if coeff b = 0 then None
      else if coeff a = 0 then Some (dec_fix (Dec 0 (expo a - expo b)))
      else
        (let x = nat \<bar>coeff a\<bar>; y = nat \<bar>coeff b\<bar>;
             s = sgn (coeff a) * sgn (coeff b);
             shift = int (ndigits y) - int (ndigits x) + int dec_prec + 1;
             e = expo a - expo b - shift;
             num = (if 0 \<le> shift then x * 10 ^ nat shift else x);
             den = (if 0 \<le> shift then y else y * 10 ^ nat (- shift));
             c = num div den; r = num mod den
         in Some (dec_fix
              (if r \<noteq> 0 then Dec (s * int (if c mod 5 = 0 then c + 1 else c)) e
               else (case strip_to (nat (expo a - expo b - e)) (int c) e of
                       Dec c' e' \<Rightarrow> Dec (s * c') e')))))"

definition dec_lt :: "dec \<Rightarrow> dec \<Rightarrow> bool" where
  "dec_lt a b \<longleftrightarrow>
     (let m = min (expo a) (expo b)
      in coeff a * 10 ^ nat (expo a - m) < coeff b * 10 ^ nat (expo b - m))"

text \<open>\<open>Decimal.__eq__\<close> compares values, not scales.\<close>

definition dec_eq :: "dec \<Rightarrow> dec \<Rightarrow> bool" where
  "dec_eq a b \<longleftrightarrow>
     (let m = min (expo a) (expo b)
      in coeff a * 10 ^ nat (expo a - m) = coeff b * 10 ^ nat (expo b - m))"

section \<open>Values\<close>

lemma ndigits_le: "ndigits n \<le> Suc k \<longleftrightarrow> n < 10 ^ Suc k"
proof (induction k arbitrary: n)
  case 0
  then show ?case by (subst ndigits.simps) (simp add: ndigits.simps [of "n div 10"])
next
  case (Suc k)
  show ?case
  proof (cases "n < 10")
    case True
    have "(10::nat) \<le> 10 ^ Suc (Suc k)" by simp
    with True have "n < 10 ^ Suc (Suc k)" by linarith
    with True show ?thesis by (subst ndigits.simps) auto
  next
    case False
    then have "ndigits n = Suc (ndigits (n div 10))" by (subst ndigits.simps) simp
    with Suc.IH [of "n div 10"] show ?thesis by (simp add: div_less_iff_less_mult)
  qed
qed

lemma dec_fix_exact: "\<bar>coeff d\<bar> < 10 ^ 28 \<Longrightarrow> dec_fix d = d"
proof -
  assume "\<bar>coeff d\<bar> < 10 ^ 28"
  then have "nat \<bar>coeff d\<bar> < 10 ^ Suc 27" by (simp add: nat_less_iff)
  then have "ndigits (nat \<bar>coeff d\<bar>) \<le> dec_prec"
    using ndigits_le [of _ 27] by (simp add: dec_prec_def)
  then show ?thesis by (simp add: dec_fix_def Let_def)
qed

lemma dec_val_Dec: "dec_val (Dec c e) = of_int c * 10 powi e"
  by (simp add: dec_val_def)

lemma powi_shift: "m \<le> e \<Longrightarrow> (10::rat) powi e = 10 ^ nat (e - m) * 10 powi m"
proof -
  assume "m \<le> e"
  then have "(10::rat) powi e = 10 powi (e - m) * 10 powi m"
    by (simp flip: power_int_add)
  with \<open>m \<le> e\<close> show ?thesis by (simp add: power_int_def)
qed

lemma dec_val_rescale: "m \<le> expo d \<Longrightarrow> dec_val (Dec (coeff d * 10 ^ nat (expo d - m)) m) = dec_val d"
  by (simp add: dec_val_def powi_shift [of m "expo d"] ac_simps)

lemma dec_val_add_unfixed:
  "dec_val (Dec (coeff a * 10 ^ nat (expo a - min (expo a) (expo b)) +
                 coeff b * 10 ^ nat (expo b - min (expo a) (expo b))) (min (expo a) (expo b))) =
   dec_val a + dec_val b"
  using dec_val_rescale [of "min (expo a) (expo b)" a]
    dec_val_rescale [of "min (expo a) (expo b)" b]
  by (simp add: dec_val_Dec distrib_right)

lemma dec_eq_iff: "dec_eq a b \<longleftrightarrow> dec_val a = dec_val b"
proof -
  let ?m = "min (expo a) (expo b)"
  let ?x = "coeff a * 10 ^ nat (expo a - ?m)" and ?y = "coeff b * 10 ^ nat (expo b - ?m)"
  have "dec_val a = dec_val b \<longleftrightarrow> dec_val (Dec ?x ?m) = dec_val (Dec ?y ?m)"
    by (simp only: dec_val_rescale min.cobounded1 min.cobounded2)
  also have "\<dots> \<longleftrightarrow> (of_int ?x :: rat) = of_int ?y"
    unfolding dec_val_Dec by (subst mult_right_cancel) simp_all
  finally show ?thesis by (simp only: dec_eq_def Let_def of_int_eq_iff)
qed

section \<open>Plain text\<close>

fun show_nat :: "nat \<Rightarrow> string" where
  "show_nat n = (if n < 10 then [digit_char n] else show_nat (n div 10) @ [digit_char n])"

declare show_nat.simps [simp del]

definition rstrip :: "char \<Rightarrow> string \<Rightarrow> string" where
  "rstrip c s = rev (dropWhile (\<lambda>x. x = c) (rev s))"

text \<open>\<open>format(value, "f")\<close>: fixed point at the value's own scale.\<close>

definition format_f :: "dec \<Rightarrow> string" where
  "format_f d =
     (let n = nat \<bar>coeff d\<bar>; k = nat (- expo d); sign = (if coeff d < 0 then ''-'' else [])
      in if 0 \<le> expo d then sign @ show_nat (n * 10 ^ nat (expo d))
         else sign @ show_nat (n div 10 ^ k) @ ''.'' @ pad k (n mod 10 ^ k))"

definition canonical_decimal :: "dec \<Rightarrow> string" where
  "canonical_decimal value =
     (if coeff value = 0 then ''0''
      else
        (let body = format_f value
         in if CHR ''.'' \<in> set body then rstrip CHR ''.'' (rstrip CHR ''0'' body) else body))"

text \<open>\<open>Decimal(text)\<close> on plain notation (no exponent); None is \<open>InvalidOperation\<close>.\<close>

definition dec_parse :: "string \<Rightarrow> dec option" where
  "dec_parse s =
     (let neg = (take 1 s = ''-'');
          body = (if take 1 s \<in> {''-'', ''+''} then drop 1 s else s);
          ip = takeWhile (\<lambda>c. c \<noteq> CHR ''.'') body;
          fp = drop 1 (dropWhile (\<lambda>c. c \<noteq> CHR ''.'') body)
      in if ip @ fp = [] then None
         else (case read_digits 0 (ip @ fp) of
                 None \<Rightarrow> None
               | Some n \<Rightarrow> Some (Dec (if neg then - int n else int n) (- int (length fp)))))"

text \<open>\<open>Decimal.normalize()\<close> and \<open>_decimal_text\<close> of \<open>rates.py\<close>.\<close>

definition dec_normalize :: "dec \<Rightarrow> dec" where
  "dec_normalize d =
     (let f = dec_fix d
      in if coeff f = 0 then Dec 0 0 else strip_to (ndigits (nat \<bar>coeff f\<bar>)) (coeff f) (expo f))"

definition decimal_text :: "dec \<Rightarrow> string" where
  "decimal_text value = (if coeff value = 0 then ''0'' else format_f (dec_normalize value))"

subsection \<open>Digit texts\<close>

definition is_digit :: "char \<Rightarrow> bool" where
  "is_digit c \<longleftrightarrow> CHR ''0'' \<le> c \<and> c \<le> CHR ''9''"

lemma is_digit_digit_char [simp]: "is_digit (digit_char n)"
proof -
  have "n mod 10 < 10" by simp
  from less_10_cases [OF this] show ?thesis by (auto simp: is_digit_def digit_char_def)
qed

lemma show_nat_digits: "list_all is_digit (show_nat n)"
  by (induction n rule: show_nat.induct) (subst show_nat.simps, auto)

lemma pad_digits: "list_all is_digit (pad k n)"
  by (induction k arbitrary: n) auto

lemma show_nat_not_Nil [simp]: "show_nat n \<noteq> []"
  by (subst show_nat.simps) simp

lemma read_show_nat: "read_digits 0 (show_nat n) = Some n"
proof (induction n rule: show_nat.induct)
  case (1 n)
  show ?case
  proof (cases "n < 10")
    case True
    then show ?thesis
      by (subst show_nat.simps) (simp add: digit_value_digit_char del: digit_value.simps)
  next
    case False
    with 1 show ?thesis
      by (subst show_nat.simps)
        (simp add: read_digits_append digit_value_digit_char del: digit_value.simps)
  qed
qed

lemma read_digits_append_Some:
  "read_digits a xs = Some u \<Longrightarrow> read_digits u ys = Some v \<Longrightarrow> read_digits a (xs @ ys) = Some v"
  by (induction xs arbitrary: a) (auto simp del: digit_value.simps split: option.splits)

lemma read_digits_shift:
  "read_digits 0 ys = Some v \<Longrightarrow> read_digits a ys = Some (a * 10 ^ length ys + v)"
proof (induction ys arbitrary: v rule: rev_induct)
  case Nil
  then show ?case by simp
next
  case (snoc y ys)
  then obtain w e where "read_digits 0 ys = Some w" "digit_value y = Some e" "v = w * 10 + e"
    by (auto simp: read_digits_append simp del: digit_value.simps split: option.splits)
  with snoc.IH [of w] show ?case
    by (simp add: read_digits_append algebra_simps del: digit_value.simps)
qed

lemma no_dot_digits: "list_all is_digit s \<Longrightarrow> CHR ''.'' \<notin> set s"
  by (auto simp: list_all_iff is_digit_def)

lemma no_sign_digits: "list_all is_digit s \<Longrightarrow> take 1 s \<noteq> ''-'' \<and> take 1 s \<noteq> ''+''"
  by (cases s) (auto simp: is_digit_def)

subsection \<open>Stripping zeros\<close>

lemma rstrip_snoc: "rstrip c (s @ [x]) = (if x = c then rstrip c s else s @ [x])"
  by (simp add: rstrip_def)

lemma rstrip_Nil [simp]: "rstrip c [] = []"
  by (simp add: rstrip_def)

lemma rstrip_append_stop: "x \<noteq> c \<Longrightarrow> rstrip c (s @ x # t) = s @ x # rstrip c t"
proof (induction t rule: rev_induct)
  case Nil
  then show ?case using rstrip_snoc [of c s x] by simp
next
  case (snoc y t)
  then show ?case using rstrip_snoc [of c "s @ x # t" y] rstrip_snoc [of c t y] by simp
qed

lemma rstrip_subset: "set (rstrip c s) \<subseteq> set s"
  by (auto simp: rstrip_def dest: set_dropWhileD)

lemma rstrip_last: "rstrip c s \<noteq> [] \<Longrightarrow> last (rstrip c s) \<noteq> c"
  by (induction s rule: rev_induct) (auto simp: rstrip_snoc split: if_splits)

section \<open>The canonical text is a normal form\<close>

definition int_part :: "dec \<Rightarrow> nat" where
  "int_part d =
     (if 0 \<le> expo d then nat \<bar>coeff d\<bar> * 10 ^ nat (expo d)
      else nat \<bar>coeff d\<bar> div 10 ^ nat (- expo d))"

definition frac_text :: "dec \<Rightarrow> string" where
  "frac_text d =
     (if 0 \<le> expo d then []
      else rstrip CHR ''0'' (pad (nat (- expo d)) (nat \<bar>coeff d\<bar> mod 10 ^ nat (- expo d))))"

definition plain_text :: "bool \<Rightarrow> nat \<Rightarrow> string \<Rightarrow> string" where
  "plain_text neg ip fp =
     (if neg then ''-'' else []) @ show_nat ip @ (if fp = [] then [] else CHR ''.'' # fp)"

lemma canonical_plain:
  "canonical_decimal d =
     (if coeff d = 0 then ''0'' else plain_text (coeff d < 0) (int_part d) (frac_text d))"
proof (cases "coeff d = 0 \<or> 0 \<le> expo d")
  case True
  have "CHR ''.'' \<notin> set (show_nat n)" for n
    using no_dot_digits show_nat_digits by blast
  with True show ?thesis
    by (auto simp: canonical_decimal_def format_f_def plain_text_def int_part_def frac_text_def
        Let_def)
next
  case False
  let ?k = "nat (- expo d)" and ?n = "nat \<bar>coeff d\<bar>"
  let ?s = "if coeff d < 0 then ''-'' else []"
  let ?ip = "show_nat (?n div 10 ^ ?k)" and ?fp = "pad ?k (?n mod 10 ^ ?k)"
  have body: "format_f d = (?s @ ?ip) @ CHR ''.'' # ?fp"
    using False by (simp add: format_f_def Let_def)
  have strip0: "rstrip CHR ''0'' (format_f d) = (?s @ ?ip) @ CHR ''.'' # rstrip CHR ''0'' ?fp"
    unfolding body by (rule rstrip_append_stop) simp
  have nodot: "CHR ''.'' \<notin> set (rstrip CHR ''0'' ?fp)" "CHR ''.'' \<notin> set ?ip"
    using no_dot_digits pad_digits show_nat_digits rstrip_subset by blast+
  have "rstrip CHR ''.'' (rstrip CHR ''0'' (format_f d)) =
      ?s @ ?ip @ (if rstrip CHR ''0'' ?fp = [] then [] else CHR ''.'' # rstrip CHR ''0'' ?fp)"
  proof (cases "rstrip CHR ''0'' ?fp" rule: rev_cases)
    case Nil
    have "show_nat (?n div 10 ^ ?k) \<noteq> []" by simp
    then obtain xs x where x: "?ip = xs @ [x]" by (metis rev_exhaust)
    with nodot(2) have "x \<noteq> CHR ''.''" by auto
    with Nil show ?thesis
      using rstrip_snoc [of "CHR ''.''" "?s @ ?ip" "CHR ''.''"]
        rstrip_snoc [of "CHR ''.''" "?s @ xs" x]
      by (simp only: strip0 x append.simps append_assoc if_True) simp
  next
    case (snoc xs x)
    with nodot(1) have "x \<noteq> CHR ''.''" by auto
    with snoc show ?thesis
      using rstrip_snoc [of "CHR ''.''" "?s @ ?ip @ CHR ''.'' # xs" x] by (simp add: strip0)
  qed
  moreover have "CHR ''.'' \<in> set (format_f d)" by (simp add: body)
  ultimately show ?thesis
    using False
    by (simp add: canonical_decimal_def plain_text_def int_part_def frac_text_def Let_def)
qed

lemma zeros_suffix: "\<exists>j. s = rstrip CHR ''0'' s @ replicate j CHR ''0''"
proof (induction s rule: rev_induct)
  case Nil
  show ?case by simp
next
  case (snoc x s)
  then have "\<exists>j t. rstrip CHR ''0'' s = t \<and> s = t @ replicate j CHR ''0''" by blast
  then obtain j t where t: "rstrip CHR ''0'' s = t" and j: "s = t @ replicate j CHR ''0''"
    by blast
  show ?case
  proof (cases "x = CHR ''0''")
    case True
    then have "s @ [x] = t @ replicate (Suc j) CHR ''0''"
      by (simp only: j append_assoc replicate_append_same replicate_Suc)
    moreover have "rstrip CHR ''0'' (s @ [x]) = t" using True t by (simp add: rstrip_snoc)
    ultimately show ?thesis by metis
  next
    case False
    then show ?thesis by (intro exI [of _ 0]) (simp add: rstrip_snoc)
  qed
qed

lemma read_digits_zeros: "read_digits a (replicate j CHR ''0'') = Some (a * 10 ^ j)"
  by (induction j arbitrary: a) auto

lemma digit_value_Some: "is_digit c \<Longrightarrow> \<exists>d. digit_value c = Some d"
  by (simp add: is_digit_def)

declare digit_value.simps [simp del]

lemma read_digits_Some_digits: "list_all is_digit s \<Longrightarrow> \<exists>v. read_digits a s = Some v"
  by (induction s arbitrary: a) (auto dest!: digit_value_Some)

lemma frac_text_value:
  assumes "expo d < 0"
  shows "\<exists>f. read_digits 0 (frac_text d) = Some f \<and> list_all is_digit (frac_text d) \<and>
    length (frac_text d) \<le> nat (- expo d) \<and>
    f * 10 ^ (nat (- expo d) - length (frac_text d)) = nat \<bar>coeff d\<bar> mod 10 ^ nat (- expo d)"
proof -
  let ?k = "nat (- expo d)"
  let ?m = "nat \<bar>coeff d\<bar> mod 10 ^ ?k"
  have ft: "frac_text d = rstrip CHR ''0'' (pad ?k ?m)"
    using assms by (simp add: frac_text_def)
  obtain j where j: "pad ?k ?m = frac_text d @ replicate j CHR ''0''"
    using zeros_suffix ft by metis
  then have len: "?k = length (frac_text d) + j"
    by (metis length_append length_pad length_replicate)
  have digits: "list_all is_digit (frac_text d)"
    using pad_digits [of ?k ?m] j by (metis list_all_append)
  then obtain f where f: "read_digits 0 (frac_text d) = Some f"
    using read_digits_Some_digits by blast
  have "read_digits 0 (pad ?k ?m) = Some (f * 10 ^ j)"
    unfolding j by (rule read_digits_append_Some [OF f]) (rule read_digits_zeros)
  moreover have "read_digits 0 (pad ?k ?m) = Some ?m"
    by (rule read_digits_pad) simp
  ultimately show ?thesis using f len digits by auto
qed

lemma canonical_parse_parts:
  assumes ip: "list_all is_digit ip" "ip \<noteq> []" "read_digits 0 ip = Some i"
    and fp: "list_all is_digit fp" "read_digits 0 fp = Some f"
  shows "dec_parse ((if neg then ''-'' else []) @ ip @ (if fp = [] then [] else CHR ''.'' # fp)) =
    Some (Dec (if neg then - int (i * 10 ^ length fp + f) else int (i * 10 ^ length fp + f))
      (- int (length fp)))"
proof -
  let ?body = "ip @ (if fp = [] then [] else CHR ''.'' # fp)"
  have nodot: "CHR ''.'' \<notin> set ip" using no_dot_digits ip(1) by blast
  have sign: "take 1 ?body \<noteq> ''-''" "take 1 ?body \<noteq> ''+''"
    using no_sign_digits [OF ip(1)] ip(2) by (cases ip; simp)+
  have parts: "takeWhile (\<lambda>c. c \<noteq> CHR ''.'') ?body = ip"
      "drop 1 (dropWhile (\<lambda>c. c \<noteq> CHR ''.'') ?body) = fp"
    using nodot by (simp_all add: takeWhile_append dropWhile_append)
  have rd: "read_digits 0 (ip @ fp) = Some (i * 10 ^ length fp + f)"
    by (rule read_digits_append_Some [OF ip(3) read_digits_shift [OF fp(2)]])
  show ?thesis
  proof (cases neg)
    case True
    then show ?thesis using parts rd ip(2) by (simp add: dec_parse_def Let_def)
  next
    case False
    then show ?thesis using parts rd ip(2) sign by (simp add: dec_parse_def Let_def)
  qed
qed

lemma int_part_digits: "list_all is_digit (show_nat (int_part d)) \<and> show_nat (int_part d) \<noteq> []"
  by (simp add: show_nat_digits)

lemma rat_power_split:
  fixes i m f :: nat
  assumes "len \<le> k" and "f * 10 ^ (k - len) = m"
  shows "of_nat (i * 10 ^ len + f) * (10::rat) powi - int len =
    of_nat (i * 10 ^ k + m) * 10 powi - int k"
proof -
  have k: "10 powi - int len = (10::rat) ^ (k - len) * 10 powi - int k"
    using assms(1) powi_shift [of "- int k" "- int len"] by (simp add: nat_diff_distrib)
  have "of_nat (i * 10 ^ len + f) * (10::rat) ^ (k - len) = of_nat ((i * 10 ^ len + f) * 10 ^ (k - len))"
    by simp
  also have "(i * 10 ^ len + f) * 10 ^ (k - len) = i * 10 ^ k + m"
    using assms by (simp add: algebra_simps flip: power_add)
  finally show ?thesis by (simp only: k mult.assoc [symmetric])
qed

lemma signed_dec_val:
  "dec_val (Dec (if neg then - int n else int n) e) =
    (if neg then -1 else 1) * of_nat n * 10 powi e"
  by (simp add: dec_val_Dec)

lemma coeff_sign:
  "dec_val d = (if coeff d < 0 then -1 else 1) * of_nat (nat \<bar>coeff d\<bar>) * 10 powi (expo d)"
  by (simp add: dec_val_def)

lemma canonical_roundtrip_aux:
  "\<exists>d'. dec_parse (canonical_decimal d) = Some d' \<and> dec_val d' = dec_val d"
proof (cases "coeff d = 0")
  case True
  then show ?thesis
    by (simp add: canonical_decimal_def dec_parse_def digit_value.simps dec_val_def)
next
  case False
  let ?neg = "coeff d < 0"
  obtain f where f: "read_digits 0 (frac_text d) = Some f" "list_all is_digit (frac_text d)"
    and val: "of_nat (int_part d * 10 ^ length (frac_text d) + f) *
        (10::rat) powi - int (length (frac_text d)) = of_nat (nat \<bar>coeff d\<bar>) * 10 powi (expo d)"
  proof (cases "0 \<le> expo d")
    case True
    then have "of_nat (int_part d) = of_nat (nat \<bar>coeff d\<bar>) * (10::rat) powi (expo d)"
      by (simp add: int_part_def power_int_def)
    with True show ?thesis by (intro that [of 0]) (simp_all add: frac_text_def)
  next
    case False
    then obtain f where f: "read_digits 0 (frac_text d) = Some f" "list_all is_digit (frac_text d)"
      "length (frac_text d) \<le> nat (- expo d)"
      "f * 10 ^ (nat (- expo d) - length (frac_text d)) = nat \<bar>coeff d\<bar> mod 10 ^ nat (- expo d)"
      using frac_text_value by force
    have "int_part d * 10 ^ nat (- expo d) + nat \<bar>coeff d\<bar> mod 10 ^ nat (- expo d) = nat \<bar>coeff d\<bar>"
      using False div_mult_mod_eq [of "nat \<bar>coeff d\<bar>" "10 ^ nat (- expo d)"]
      by (simp only: int_part_def if_False)
    with rat_power_split [OF f(3,4), of "int_part d"] False f(1,2) show ?thesis
      by (intro that [of f]) simp_all
  qed
  show ?thesis
    using canonical_parse_parts [OF conjunct1 [OF int_part_digits] conjunct2 [OF int_part_digits]
        read_show_nat f(2,1), of ?neg] False val
    by (simp add: canonical_plain plain_text_def dec_val_Dec coeff_sign [of d] del: of_nat_add of_nat_mult)
qed

lemma canonical_shift:
  "canonical_decimal (Dec (c * 10) (e - 1)) = canonical_decimal (Dec c e)"
proof (cases "c = 0")
  case True
  then show ?thesis by (simp add: canonical_decimal_def)
next
  case False
  have n: "nat \<bar>c * 10\<bar> = nat \<bar>c\<bar> * 10" by (simp add: abs_mult nat_mult_distrib)
  have "int_part (Dec (c * 10) (e - 1)) = int_part (Dec c e) \<and>
      frac_text (Dec (c * 10) (e - 1)) = frac_text (Dec c e)"
  proof (cases "0 < e")
    case True
    then have "nat e = Suc (nat (e - 1))" by simp
    then have "(10::nat) ^ nat e = 10 * 10 ^ nat (e - 1)" by simp
    with True show ?thesis by (simp add: int_part_def frac_text_def n)
  next
    case False
    then have k: "nat (- (e - 1)) = Suc (nat (- e))" by simp
    have dm: "nat \<bar>c\<bar> * 10 div 10 ^ Suc (nat (- e)) = nat \<bar>c\<bar> div 10 ^ nat (- e)"
      "nat \<bar>c\<bar> * 10 mod 10 ^ Suc (nat (- e)) = nat \<bar>c\<bar> mod 10 ^ nat (- e) * 10"
      by (simp_all add: mult.commute [of _ 10])
    have "rstrip CHR ''0'' (pad (Suc (nat (- e))) (m * 10)) = rstrip CHR ''0'' (pad (nat (- e)) m)"
      for m by (simp add: rstrip_snoc digit_char_def)
    with False show ?thesis
      by (simp only: int_part_def frac_text_def dec.sel n k dm)
        (auto simp: digit_char_def rstrip_def)
  qed
  with False show ?thesis by (simp add: canonical_plain mult_less_0_iff)
qed

lemma canonical_rescale: "canonical_decimal (Dec (c * 10 ^ n) (e - int n)) = canonical_decimal (Dec c e)"
proof (induction n)
  case 0
  show ?case by simp
next
  case (Suc n)
  then show ?case
    using canonical_shift [of "c * 10 ^ n" "e - int n"] by (simp add: algebra_simps)
qed

lemma canonical_eq_iff_aux: "canonical_decimal a = canonical_decimal b \<longleftrightarrow> dec_val a = dec_val b"
proof
  assume "canonical_decimal a = canonical_decimal b"
  then show "dec_val a = dec_val b"
    using canonical_roundtrip_aux [of a] canonical_roundtrip_aux [of b] by auto
next
  assume "dec_val a = dec_val b"
  then have "dec_eq a b" by (simp add: dec_eq_iff)
  let ?m = "min (expo a) (expo b)"
  have m: "canonical_decimal (Dec (coeff d * 10 ^ nat (expo d - ?m)) ?m) = canonical_decimal d"
    if "?m \<le> expo d" for d
    using canonical_rescale [of "coeff d" "nat (expo d - ?m)" "expo d"] that by simp
  from \<open>dec_eq a b\<close> m [of a] m [of b] show "canonical_decimal a = canonical_decimal b"
    by (simp only: dec_eq_def Let_def min.cobounded1 min.cobounded2)
qed

text \<open>Both text forms agree on amounts of at most 28 digits.\<close>

lemma strip_to_canonical: "canonical_decimal (strip_to n c e) = canonical_decimal (Dec c e)"
proof (induction n c e rule: strip_to.induct)
  case (1 c e)
  show ?case by simp
next
  case (2 n c e)
  show ?case
  proof (cases "c mod 10 = 0")
    case True
    then have "c = c div 10 * 10" using div_mult_mod_eq [of c 10] by linarith
    with 2 True canonical_shift [of "c div 10" "e + 1"] show ?thesis by simp
  qed simp
qed

lemma ndigits_div: "10 \<le> n \<Longrightarrow> ndigits n = Suc (ndigits (n div 10))"
  by (subst ndigits.simps) simp

lemma strip_to_no_zero:
  assumes "c \<noteq> 0" "ndigits (nat \<bar>c\<bar>) \<le> n"
  shows "coeff (strip_to n c e) mod 10 \<noteq> 0"
  using assms
proof (induction n c e rule: strip_to.induct)
  case (1 c e)
  then show ?case by (subst (asm) ndigits.simps) (simp split: if_splits)
next
  case (2 n c e)
  show ?case
  proof (cases "c mod 10 = 0")
    case True
    then obtain q where q: "c = 10 * q" by (metis dvd_def mod_0_imp_dvd)
    with 2(2) have "q \<noteq> 0" by simp
    have mag: "nat \<bar>c\<bar> = 10 * nat \<bar>q\<bar>" by (simp add: q abs_mult nat_mult_distrib)
    with \<open>q \<noteq> 0\<close> have "ndigits (nat \<bar>c\<bar>) = Suc (ndigits (nat \<bar>q\<bar>))"
      using ndigits_div [of "nat \<bar>c\<bar>"] by simp
    with 2 True q \<open>q \<noteq> 0\<close> show ?thesis by simp
  qed simp
qed

lemma digit_char_zero: "digit_char n = CHR ''0'' \<longleftrightarrow> n mod 10 = 0"
  using digit_char_inj [of n 0] by (simp add: digit_char_def)

lemma format_f_normal:
  assumes "coeff d \<noteq> 0" and "coeff d mod 10 \<noteq> 0"
  shows "format_f d = canonical_decimal d"
proof (cases "0 \<le> expo d")
  case True
  with assms show ?thesis
    by (simp add: canonical_plain plain_text_def frac_text_def int_part_def format_f_def Let_def)
next
  case False
  let ?k = "nat (- expo d)" and ?n = "nat \<bar>coeff d\<bar>"
  obtain k where k: "?k = Suc k" using False by (cases ?k) auto
  have "?n mod 10 \<noteq> 0"
  proof
    assume "?n mod 10 = 0"
    then obtain q where "?n = 10 * q" by (metis dvd_def mod_0_imp_dvd)
    then have "coeff d = 10 * int q \<or> coeff d = 10 * (- int q)" by linarith
    with assms(2) show False by auto
  qed
  then have "?n mod 10 ^ ?k mod 10 \<noteq> 0" by (simp add: k mod_mult2_eq)
  then have "frac_text d = pad ?k (?n mod 10 ^ ?k)"
    using False by (simp add: frac_text_def k rstrip_snoc digit_char_zero)
  with assms False show ?thesis
    by (simp add: canonical_plain plain_text_def int_part_def format_f_def Let_def k)
qed

lemma decimal_text_canonical_aux:
  assumes "\<bar>coeff d\<bar> < 10 ^ 28"
  shows "decimal_text d = canonical_decimal d"
proof (cases "coeff d = 0")
  case True
  then show ?thesis by (simp add: decimal_text_def canonical_decimal_def)
next
  case False
  have n: "dec_normalize d = strip_to (ndigits (nat \<bar>coeff d\<bar>)) (coeff d) (expo d)"
    using False by (simp add: dec_normalize_def dec_fix_exact [OF assms] Let_def)
  have "coeff (dec_normalize d) mod 10 \<noteq> 0"
    unfolding n by (rule strip_to_no_zero [OF False]) simp
  then have "format_f (dec_normalize d) = canonical_decimal (dec_normalize d)"
    by (intro format_f_normal) auto
  also have "\<dots> = canonical_decimal d"
    unfolding n by (simp add: strip_to_canonical)
  finally show ?thesis using False by (simp add: decimal_text_def)
qed

section \<open>Properties\<close>

text \<open>C33. The canonical text of an amount is a normal form: it reads back as the same number,
  and two amounts have the same text exactly when they are the same number, whatever the
  scale they were written with.\<close>

theorem canonical_decimal_normal_form:
  "(\<exists>d'. dec_parse (canonical_decimal a) = Some d' \<and> dec_val d' = dec_val a) \<and>
   (canonical_decimal a = canonical_decimal b \<longleftrightarrow> dec_val a = dec_val b)"
  using canonical_roundtrip_aux [of a] canonical_eq_iff_aux [of a b] by blast

text \<open>C34. The two implementations of the canonical text, \<open>canonical_decimal\<close> of the models and
  \<open>_decimal_text\<close> of the rate registry, agree on every amount of at most 28 digits (beyond
  that, \<open>normalize()\<close> rounds).\<close>

theorem decimal_texts_agree:
  assumes "\<bar>coeff d\<bar> < 10 ^ 28"
  shows "decimal_text d = canonical_decimal d"
  by (rule decimal_text_canonical_aux [OF assms])

theorem decimal_texts_agree_witness:
  "decimal_text (Dec 1250 (- 3)) = canonical_decimal (Dec 1250 (- 3))"
  using decimal_texts_agree [of "Dec 1250 (- 3)"] by simp

end
