(* ===== verification/Json.thy ===== *)
theory Json
  imports Decimals
begin

text \<open>
  JSON-safe Python values: what \<open>to_dict\<close> builds, what \<open>details\<close> holds and what
  \<open>json.dumps\<close> writes. An object is the list of its items in insertion order; its keys
  are distinct (\<open>wf_json\<close>). Floats are not modelled.
\<close>

datatype json =
    JNull
  | JBool bool
  | JInt int
  | JStr string
  | JArr "json list"
  | JObj "(string \<times> json) list"

type_synonym obj = "(string \<times> json) list"

text \<open>\<open>d.get(k)\<close>, with \<open>JNull\<close> for the default \<open>None\<close>.\<close>

definition dict_get :: "obj \<Rightarrow> string \<Rightarrow> json" where
  "dict_get kvs k = (case map_of kvs k of None \<Rightarrow> JNull | Some v \<Rightarrow> v)"

text \<open>\<open>d[k] = v\<close>: in place when the key is present, appended otherwise.\<close>

fun dict_set :: "obj \<Rightarrow> string \<Rightarrow> json \<Rightarrow> obj" where
  "dict_set [] k v = [(k, v)]"
| "dict_set ((k', w) # kvs) k v =
     (if k' = k then (k, v) # kvs else (k', w) # dict_set kvs k v)"

definition dict_pop :: "obj \<Rightarrow> string \<Rightarrow> obj" where
  "dict_pop kvs k = filter (\<lambda>(k', v). k' \<noteq> k) kvs"

definition opt_str :: "string option \<Rightarrow> json" where
  "opt_str x = (case x of None \<Rightarrow> JNull | Some s \<Rightarrow> JStr s)"

definition opt_int :: "int option \<Rightarrow> json" where
  "opt_int x = (case x of None \<Rightarrow> JNull | Some i \<Rightarrow> JInt i)"

text \<open>Python's truth value of a JSON value.\<close>

fun truthy :: "json \<Rightarrow> bool" where
  "truthy JNull = False"
| "truthy (JBool b) = b"
| "truthy (JInt i) = (i \<noteq> 0)"
| "truthy (JStr s) = (s \<noteq> [])"
| "truthy (JArr xs) = (xs \<noteq> [])"
| "truthy (JObj kvs) = (kvs \<noteq> [])"

text \<open>
  Python's \<open>==\<close>: \<open>True\<close> equals \<open>1\<close>, and dictionaries are compared without regard to
  the order of their items.
\<close>

primrec py_eq :: "json \<Rightarrow> json \<Rightarrow> bool" where
  "py_eq JNull = (\<lambda>w. w = JNull)"
| "py_eq (JBool b) = (\<lambda>w. w = JBool b \<or> w = JInt (of_bool b))"
| "py_eq (JInt i) = (\<lambda>w. w = JInt i \<or> (\<exists>b\<in>{True, False}. w = JBool b \<and> of_bool b = i))"
| "py_eq (JStr s) = (\<lambda>w. w = JStr s)"
| "py_eq (JArr xs) = (\<lambda>w. case w of JArr ys \<Rightarrow> list_all2 (\<lambda>f y. f y) (map py_eq xs) ys | _ \<Rightarrow> False)"
| "py_eq (JObj kvs) = (\<lambda>w. case w of
     JObj kws \<Rightarrow> length kvs = length kws \<and>
       list_all (\<lambda>(k, f). case map_of kws k of None \<Rightarrow> False | Some v \<Rightarrow> f v)
         (map (map_prod id py_eq) kvs)
   | _ \<Rightarrow> False)"

primrec wf_json :: "json \<Rightarrow> bool" where
  "wf_json JNull = True"
| "wf_json (JBool b) = True"
| "wf_json (JInt i) = True"
| "wf_json (JStr s) = True"
| "wf_json (JArr xs) = list_all (\<lambda>b. b) (map wf_json xs)"
| "wf_json (JObj kvs) =
     (distinct (map fst kvs) \<and> list_all (\<lambda>(k, b). b) (map (map_prod id wf_json) kvs))"

lemma py_eq_refl: "wf_json v \<Longrightarrow> py_eq v v"
proof (induction v)
  case (JArr xs)
  then show ?case by (auto simp: list_all2_conv_all_nth list_all_length)
next
  case (JObj kvs)
  have "py_eq v v" if "(k, v) \<in> set kvs" for k v
    using JObj that by (auto simp: list_all_iff snds.simps)
  moreover have "distinct (map fst kvs)" using JObj.prems by simp
  ultimately show ?case
    by (auto simp: list_all_iff map_of_is_SomeI)
qed auto

lemma dict_get_set: "dict_get (dict_set kvs k v) k' = (if k' = k then v else dict_get kvs k')"
  by (induction kvs k v rule: dict_set.induct) (auto simp: dict_get_def)

lemma dict_get_pop: "dict_get (dict_pop kvs k) k' = (if k' = k then JNull else dict_get kvs k')"
  by (induction kvs) (auto simp: dict_get_def dict_pop_def)

section \<open>json.dumps\<close>

definition show_int :: "int \<Rightarrow> string" where
  "show_int i = (if i < 0 then CHR ''-'' # show_nat (nat (- i)) else show_nat (nat i))"

definition hex_digit :: "nat \<Rightarrow> char" where
  "hex_digit n = ''0123456789abcdef'' ! (n mod 16)"

text \<open>The escapes of \<open>ensure_ascii=True\<close>.\<close>

definition escape_char :: "char \<Rightarrow> string" where
  "escape_char c =
     (let n = of_char c :: nat in
      if n = 34 then [CHR 0x5C, CHR 0x22]
      else if n = 92 then [CHR 0x5C, CHR 0x5C]
      else if n = 10 then [CHR 0x5C, CHR ''n'']
      else if n = 13 then [CHR 0x5C, CHR ''r'']
      else if n = 9 then [CHR 0x5C, CHR ''t'']
      else if n = 12 then [CHR 0x5C, CHR ''f'']
      else if n = 8 then [CHR 0x5C, CHR ''b'']
      else if n < 32 \<or> 126 < n
        then [CHR 0x5C, CHR ''u'', CHR ''0'', CHR ''0'', hex_digit (n div 16), hex_digit n]
      else [c])"

text \<open>The escapes of \<open>ensure_ascii=False\<close>.\<close>

definition escape_raw :: "char \<Rightarrow> string" where
  "escape_raw c =
     (let n = of_char c :: nat in if 32 \<le> n \<and> n \<noteq> 34 \<and> n \<noteq> 92 then [c] else escape_char c)"

definition quote_str :: "bool \<Rightarrow> string \<Rightarrow> string" where
  "quote_str ascii s =
     CHR 0x22 # concat (map (if ascii then escape_char else escape_raw) s) @ [CHR 0x22]"

fun join :: "string \<Rightarrow> string list \<Rightarrow> string" where
  "join sep [] = []"
| "join sep [x] = x"
| "join sep (x # y # xs) = x @ sep @ join sep (y # xs)"

text \<open>\<open>json.dumps(v, ensure_ascii=ascii, separators=(item, key))\<close>.\<close>

fun json_dump :: "bool \<Rightarrow> string \<Rightarrow> string \<Rightarrow> json \<Rightarrow> string" where
  "json_dump ascii item key JNull = ''null''"
| "json_dump ascii item key (JBool b) = (if b then ''true'' else ''false'')"
| "json_dump ascii item key (JInt i) = show_int i"
| "json_dump ascii item key (JStr s) = quote_str ascii s"
| "json_dump ascii item key (JArr xs) =
     ''['' @ join item (map (json_dump ascii item key) xs) @ '']''"
| "json_dump ascii item key (JObj kvs) =
     ''{'' @ join item (map (\<lambda>(k, v). quote_str ascii k @ key @ json_dump ascii item key v) kvs) @
     ''}''"

definition json_dumps :: "json \<Rightarrow> string" where
  "json_dumps = json_dump True '', '' '': ''"

end
