(* ===== verification/Python_Text.thy ===== *)
theory Python_Text
  imports Json
begin

text \<open>
  The conversions the \<open>from_dict\<close> constructors apply to untrusted values: \<open>str(x)\<close>,
  \<open>int(x)\<close> and \<open>uuid.UUID(x)\<close> of the standard library, on JSON-safe values.
\<close>

section \<open>str(x)\<close>

definition hex_escape :: "nat \<Rightarrow> string" where
  "hex_escape n = [CHR 0x5C, CHR ''x'', hex_digit (n div 16), hex_digit n]"

text \<open>\<open>repr\<close> of a string: quotes, backslashes and non-printable characters are escaped.\<close>

definition repr_char :: "char \<Rightarrow> char \<Rightarrow> string" where
  "repr_char q c =
     (let n = of_char c :: nat in
      if c = q \<or> n = 92 then [CHR 0x5C, c]
      else if n = 10 then [CHR 0x5C, CHR ''n'']
      else if n = 13 then [CHR 0x5C, CHR ''r'']
      else if n = 9 then [CHR 0x5C, CHR ''t'']
      else if n < 32 \<or> (127 \<le> n \<and> n \<le> 160) \<or> n = 173 then hex_escape n
      else [c])"

definition repr_str :: "string \<Rightarrow> string" where
  "repr_str s =
     (let q = (if CHR 0x27 \<in> set s \<and> CHR 0x22 \<notin> set s then CHR 0x22 else CHR 0x27)
      in q # concat (map (repr_char q) s) @ [q])"

fun py_repr :: "json \<Rightarrow> string" where
  "py_repr JNull = ''None''"
| "py_repr (JBool b) = (if b then ''True'' else ''False'')"
| "py_repr (JInt i) = show_int i"
| "py_repr (JStr s) = repr_str s"
| "py_repr (JArr xs) = ''['' @ join '', '' (map py_repr xs) @ '']''"
| "py_repr (JObj kvs) =
     ''{'' @ join '', '' (map (\<lambda>(k, v). repr_str k @ '': '' @ py_repr v) kvs) @ ''}''"

definition py_str :: "json \<Rightarrow> string" where
  "py_str v = (case v of JStr s \<Rightarrow> s | _ \<Rightarrow> py_repr v)"

section \<open>int(x)\<close>

definition is_space :: "char \<Rightarrow> bool" where
  "is_space c \<longleftrightarrow> of_char c \<in> {9, 10, 11, 12, 13, 28, 29, 30, 31, 32, 133, 160 :: nat}"

definition py_strip :: "string \<Rightarrow> string" where
  "py_strip s = rev (dropWhile is_space (rev (dropWhile is_space s)))"

definition base_digit :: "nat \<Rightarrow> char \<Rightarrow> nat option" where
  "base_digit base c =
     (let n = of_char c :: nat;
          v = (if 48 \<le> n \<and> n \<le> 57 then n - 48
               else if 97 \<le> n \<and> n \<le> 122 then n - 87
               else if 65 \<le> n \<and> n \<le> 90 then n - 55 else 36)
      in if v < base then Some v else None)"

text \<open>Digits with single underscores between them.\<close>

fun read_base :: "nat \<Rightarrow> bool \<Rightarrow> nat \<Rightarrow> string \<Rightarrow> nat option" where
  "read_base base after acc [] = (if after then Some acc else None)"
| "read_base base after acc (c # cs) =
     (if c = CHR ''_'' then (if after then read_base base False acc cs else None)
      else case base_digit base c of
             None \<Rightarrow> None
           | Some d \<Rightarrow> read_base base True (acc * base + d) cs)"

definition int_of_text :: "nat \<Rightarrow> string \<Rightarrow> int option" where
  "int_of_text base text0 =
     (let s = py_strip text0;
          neg = (take 1 s = ''-'');
          u = (if take 1 s \<in> {''-'', ''+''} then drop 1 s else s);
          prefixed = (base = 16 \<and> take 2 u \<in> {''0x'', ''0X''});
          digits = (if prefixed
                    then (if take 1 (drop 2 u) = ''_'' then drop 3 u else drop 2 u) else u)
      in map_option (\<lambda>n. if neg then - int n else int n) (read_base base False 0 digits))"

text \<open>\<open>int(x)\<close>; None is a \<open>ValueError\<close> or \<open>TypeError\<close>.\<close>

definition py_int :: "json \<Rightarrow> int option" where
  "py_int v =
     (case v of JInt i \<Rightarrow> Some i | JBool b \<Rightarrow> Some (of_bool b)
      | JStr s \<Rightarrow> int_of_text 10 s | _ \<Rightarrow> None)"

section \<open>uuid.UUID(x)\<close>

text \<open>\<open>str.replace(pat, "")\<close> of a non-empty pattern.\<close>

function remove_all :: "string \<Rightarrow> string \<Rightarrow> string" where
  "remove_all pat s =
     (if pat = [] \<or> s = [] then s
      else if take (length pat) s = pat then remove_all pat (drop (length pat) s)
      else hd s # remove_all pat (tl s))"
  by pat_completeness auto

termination
  by (relation "measure (\<lambda>(pat, s). length s)") (auto simp: neq_Nil_conv)

declare remove_all.simps [simp del]

definition strip_set :: "char set \<Rightarrow> string \<Rightarrow> string" where
  "strip_set cs s = rev (dropWhile (\<lambda>c. c \<in> cs) (rev (dropWhile (\<lambda>c. c \<in> cs) s)))"

fun hex_text :: "nat \<Rightarrow> nat \<Rightarrow> string" where
  "hex_text 0 n = []"
| "hex_text (Suc k) n = hex_text k (n div 16) @ [hex_digit n]"

text \<open>\<open>str(uuid)\<close> of a 128-bit value.\<close>

definition uuid_text :: "nat \<Rightarrow> uuid" where
  "uuid_text n =
     (let h = hex_text 32 n
      in take 8 h @ ''-'' @ take 4 (drop 8 h) @ ''-'' @ take 4 (drop 12 h) @ ''-'' @
         take 4 (drop 16 h) @ ''-'' @ drop 20 h)"

definition uuid_parse :: "string \<Rightarrow> uuid option" where
  "uuid_parse s =
     (let hex = remove_all ''-'' (strip_set {CHR 0x7B, CHR 0x7D}
                  (remove_all ''uuid:'' (remove_all ''urn:'' s)))
      in if length hex \<noteq> 32 then None
         else (case int_of_text 16 hex of
                 None \<Rightarrow> None
               | Some i \<Rightarrow> if 0 \<le> i \<and> i < 2 ^ 128 then Some (uuid_text (nat i)) else None))"

text \<open>\<open>_uuid\<close> of the models, on an untrusted value.\<close>

definition uuid_field :: "json \<Rightarrow> string \<Rightarrow> py_error + uuid" where
  "uuid_field v field_name =
     (case v of
        JStr s \<Rightarrow> (case uuid_parse s of
                     Some u \<Rightarrow> Inr u
                   | None \<Rightarrow> Inl (ValueError (field_name @ '' must be a valid UUID'')))
      | _ \<Rightarrow> Inl (ValueError (field_name @ '' must be a valid UUID'')))"

definition canonical_uuid :: "uuid \<Rightarrow> bool" where
  "canonical_uuid u \<longleftrightarrow> uuid_parse u = Some u"

lemma uuid_field_canonical: "canonical_uuid u \<Longrightarrow> uuid_field (JStr u) f = Inr u"
  by (simp add: uuid_field_def canonical_uuid_def)

lemma py_str_JStr [simp]: "py_str (JStr s) = s"
  by (simp add: py_str_def)

lemma py_int_JInt [simp]: "py_int (JInt i) = Some i"
  by (simp add: py_int_def)

section \<open>Decimal(text)\<close>

text \<open>
  The grammar of \<open>Decimal\<close>: surrounding blanks and underscores are dropped, an exponent may
  follow, and the non-finite names are recognised. \<open>DecInvalid\<close> is the exception
  \<open>InvalidOperation\<close>. (Exponents beyond the limits of the C library are not modelled.)
\<close>

datatype dec_result = DecInvalid | DecNonFinite | DecFinite dec

definition lower_char :: "char \<Rightarrow> char" where
  "lower_char c =
     (let n = of_char c :: nat in if 65 \<le> n \<and> n \<le> 90 then char_of (n + 32) else c)"

definition is_e :: "char \<Rightarrow> bool" where
  "is_e c \<longleftrightarrow> c = CHR ''e'' \<or> c = CHR ''E''"

definition strip_sign :: "string \<Rightarrow> string" where
  "strip_sign s = (if take 1 s \<in> {''-'', ''+''} then drop 1 s else s)"

definition read_exponent :: "string \<Rightarrow> int option" where
  "read_exponent s =
     (if strip_sign s = [] then None
      else map_option (\<lambda>n. if take 1 s = ''-'' then - int n else int n)
             (read_digits 0 (strip_sign s)))"

definition non_finite_name :: "string \<Rightarrow> bool" where
  "non_finite_name s \<longleftrightarrow>
     (let t = map lower_char (strip_sign s)
      in t = ''inf'' \<or> t = ''infinity'' \<or>
         (take 3 t = ''nan'' \<and> list_all is_digit (drop 3 t)) \<or>
         (take 4 t = ''snan'' \<and> list_all is_digit (drop 4 t)))"

definition decimal_of_text :: "string \<Rightarrow> dec_result" where
  "decimal_of_text text0 =
     (let s = filter (\<lambda>c. c \<noteq> CHR ''_'') (py_strip text0);
          mant = takeWhile (\<lambda>c. \<not> is_e c) s;
          tail = dropWhile (\<lambda>c. \<not> is_e c) s
      in if non_finite_name s then DecNonFinite
         else case (dec_parse mant, if tail = [] then Some 0 else read_exponent (tl tail)) of
                (Some d, Some e) \<Rightarrow> DecFinite (Dec (coeff d) (expo d + e))
              | _ \<Rightarrow> DecInvalid)"

definition plain_char :: "char \<Rightarrow> bool" where
  "plain_char c \<longleftrightarrow> is_digit c \<or> c \<in> set ''+-.''"

lemma plain_char_props:
  assumes "plain_char c"
  shows "\<not> is_space c" "c \<noteq> CHR ''_''" "\<not> is_e c"
proof -
  have "CHR ''0'' \<le> c \<and> c \<le> CHR ''9'' \<or> c \<in> {CHR ''+'', CHR ''-'', CHR ''.''}"
    using assms by (auto simp: plain_char_def is_digit_def)
  then have n: "48 \<le> (of_char c :: nat) \<and> (of_char c :: nat) \<le> 57 \<or>
      (of_char c :: nat) \<in> {43, 45, 46}"
    by (auto simp: less_eq_char_def)
  then show "\<not> is_space c" by (auto simp: is_space_def)
  show "c \<noteq> CHR ''_''" "\<not> is_e c" using n by (auto simp: is_e_def)
qed

lemma read_digits_is_digit: "read_digits a s = Some n \<Longrightarrow> list_all is_digit s"
proof (induction s arbitrary: a)
  case Nil
  show ?case by simp
next
  case (Cons c s)
  have "is_digit c"
    using Cons.prems by (cases "digit_value c") (auto simp: digit_value.simps is_digit_def split: if_splits)
  moreover have "list_all is_digit s"
    using Cons by (auto split: option.splits)
  ultimately show ?case by simp
qed

lemma set_dropWhile_stop:
  "set (dropWhile (\<lambda>c. c \<noteq> x) b) \<subseteq> insert x (set (drop 1 (dropWhile (\<lambda>c. c \<noteq> x) b)))"
  by (induction b) auto

lemma dec_parse_plain:
  assumes "dec_parse s = Some d"
  shows "list_all plain_char s" and "\<exists>c \<in> set s. is_digit c" and "s \<noteq> []"
proof -
  define b where "b = (if take 1 s \<in> {''-'', ''+''} then drop 1 s else s)"
  define ip where "ip = takeWhile (\<lambda>c. c \<noteq> CHR ''.'') b"
  define r where "r = dropWhile (\<lambda>c. c \<noteq> CHR ''.'') b"
  from assms obtain n where "ip @ drop 1 r \<noteq> []" "read_digits 0 (ip @ drop 1 r) = Some n"
    unfolding ip_def r_def b_def by (auto simp: dec_parse_def Let_def split: if_splits option.splits)
  then have ne: "ip @ drop 1 r \<noteq> []" and dg: "list_all is_digit (ip @ drop 1 r)"
    by (auto dest: read_digits_is_digit)
  have r: "set r \<subseteq> insert (CHR ''.'') (set (drop 1 r))"
    unfolding r_def by (rule set_dropWhile_stop)
  have b: "set b = set ip \<union> set r" unfolding ip_def r_def by (metis set_append takeWhile_dropWhile_id)
  have s: "set s \<subseteq> set ''+-'' \<union> set b" unfolding b_def by (cases s) auto
  have bs: "set b \<subseteq> set s" unfolding b_def by (auto dest: in_set_dropD)
  show "list_all plain_char s"
    unfolding list_all_iff
  proof
    fix c assume "c \<in> set s"
    with s b r have "c \<in> set ''+-.'' \<union> set (ip @ drop 1 r)" by auto
    with dg show "plain_char c" by (auto simp: plain_char_def list_all_iff)
  qed
  obtain c where c: "c \<in> set (ip @ drop 1 r)" using ne by (metis list.set_intros(1) neq_Nil_conv)
  then have "c \<in> set b" unfolding b by (auto dest: in_set_dropD)
  with c dg bs show "\<exists>c \<in> set s. is_digit c" by (auto simp: list_all_iff)
  then show "s \<noteq> []" by auto
qed

lemma py_strip_id:
  assumes "s = [] \<or> (\<not> is_space (hd s) \<and> \<not> is_space (last s))"
  shows "py_strip s = s"
proof (cases s)
  case Nil
  then show ?thesis by (simp add: py_strip_def)
next
  case (Cons a t)
  then have "dropWhile is_space s = s" using assms by simp
  moreover have "dropWhile is_space (rev s) = rev s"
    using assms Cons by (cases "rev s") (auto simp: hd_rev[symmetric])
  ultimately show ?thesis by (simp add: py_strip_def)
qed

lemma decimal_of_plain:
  assumes p: "dec_parse s = Some d"
  shows "decimal_of_text s = DecFinite d"
proof -
  note pl = dec_parse_plain [OF p]
  have cs: "plain_char c" if "c \<in> set s" for c using pl(1) that by (simp add: list_all_iff)
  have st: "py_strip s = s"
    by (rule py_strip_id) (use cs pl(3) plain_char_props(1) in auto)
  have f: "filter (\<lambda>c. c \<noteq> CHR ''_'') s = s"
    using cs plain_char_props(2) by (simp add: filter_id_conv)
  have tw: "takeWhile (\<lambda>c. \<not> is_e c) s = s" "dropWhile (\<lambda>c. \<not> is_e c) s = []"
    using cs plain_char_props(3) by auto
  have nf: "\<not> non_finite_name s"
  proof
    assume a: "non_finite_name s"
    define t where "t = map lower_char (strip_sign s)"
    have "strip_sign s \<noteq> [] \<Longrightarrow> hd (strip_sign s) \<in> set s"
      by (cases s) (auto simp: strip_sign_def split: if_splits intro: list.set_sel(1))
    moreover have "lower_char c \<notin> set ''ins''" if "plain_char c" for c
    proof -
      have "48 \<le> (of_char c :: nat) \<and> (of_char c :: nat) \<le> 57 \<or> c \<in> set ''+-.''"
        using that by (auto simp: plain_char_def is_digit_def less_eq_char_def)
      then show ?thesis by (auto simp: lower_char_def is_digit_def)
    qed
    ultimately have "t \<noteq> [] \<Longrightarrow> hd t \<notin> set ''ins''"
      using cs by (auto simp: t_def hd_map)
    with a show False
      unfolding non_finite_name_def t_def [symmetric] Let_def
      by (cases t) (auto simp: take_Cons' split: if_splits)
  qed
  show ?thesis
    using p by (simp add: decimal_of_text_def Let_def st f tw nf)
qed

section \<open>Canonical identifiers read back\<close>

lemma less_16_cases:
  "(n::nat) < 16 \<Longrightarrow> n \<in> {0, 1, 2, 3, 4, 5, 6, 7, 8, 9, 10, 11, 12, 13, 14, 15}"
  by (simp add: numeral_eq_Suc less_Suc_eq)

lemma hex_digit_props:
  "base_digit 16 (hex_digit n) = Some (n mod 16)" "hex_digit n \<noteq> CHR ''_''" "hex_digit n \<noteq> CHR ''-''"
  "hex_digit n \<noteq> CHR ''+''" "hex_digit n \<noteq> CHR ''u''" "hex_digit n \<noteq> CHR 0x7B"
  "hex_digit n \<noteq> CHR 0x7D" "hex_digit n \<noteq> CHR ''x''" "hex_digit n \<noteq> CHR ''X''"
  "\<not> is_space (hex_digit n)"
proof -
  have "n mod 16 \<in> {0, 1, 2, 3, 4, 5, 6, 7, 8, 9, 10, 11, 12, 13, 14, 15}"
    by (rule less_16_cases) simp
  then show "base_digit 16 (hex_digit n) = Some (n mod 16)" "hex_digit n \<noteq> CHR ''_''"
    "hex_digit n \<noteq> CHR ''-''" "hex_digit n \<noteq> CHR ''+''" "hex_digit n \<noteq> CHR ''u''"
    "hex_digit n \<noteq> CHR 0x7B" "hex_digit n \<noteq> CHR 0x7D" "hex_digit n \<noteq> CHR ''x''"
    "hex_digit n \<noteq> CHR ''X''" "\<not> is_space (hex_digit n)"
    by (auto simp: hex_digit_def base_digit_def is_space_def)
qed

lemma length_hex_text [simp]: "length (hex_text k n) = k"
  by (induction k n rule: hex_text.induct) auto

lemma hex_text_chars: "c \<in> set (hex_text k n) \<Longrightarrow> \<exists>m. c = hex_digit m"
  by (induction k n rule: hex_text.induct) auto

lemma read_base_append:
  assumes "list_all (\<lambda>c. c \<noteq> CHR ''_'') xs" "xs \<noteq> []" "read_base base after acc xs = Some v"
  shows "read_base base after acc (xs @ ys) = read_base base True v ys"
  using assms
proof (induction xs arbitrary: after acc)
  case Nil
  then show ?case by simp
next
  case (Cons x xs)
  then show ?case by (cases "xs = []") (auto split: option.splits)
qed

lemma read_hex_text:
  "n < 16 ^ k \<Longrightarrow> 0 < k \<Longrightarrow> read_base 16 False 0 (hex_text k n) = Some n"
proof (induction k arbitrary: n)
  case 0
  then show ?case by simp
next
  case (Suc k)
  show ?case
  proof (cases "k = 0")
    case True
    with Suc.prems show ?thesis by (simp add: hex_digit_props)
  next
    case False
    have "n div 16 < 16 ^ k" using Suc.prems(1) by (simp add: less_mult_imp_div_less)
    with Suc.IH False have r: "read_base 16 False 0 (hex_text k (n div 16)) = Some (n div 16)" by simp
    have nu: "list_all (\<lambda>c. c \<noteq> CHR ''_'') (hex_text k (n div 16))"
      using hex_text_chars hex_digit_props(2) by (fastforce simp: list_all_iff)
    have ne: "hex_text k (n div 16) \<noteq> []" using False by (metis length_hex_text list.size(3))
    show ?thesis
      using read_base_append [OF nu ne r, of "[hex_digit n]"]
      by (simp add: hex_digit_props)
  qed
qed

lemma remove_all_absent: "pat \<noteq> [] \<Longrightarrow> hd pat \<notin> set s \<Longrightarrow> remove_all pat s = s"
proof (induction s)
  case Nil
  then show ?case by (simp add: remove_all.simps)
next
  case (Cons c s)
  then have "take (length pat) (c # s) \<noteq> pat" by (cases pat) auto
  with Cons show ?case by (subst remove_all.simps) simp
qed

lemma remove_all_single: "remove_all [x] s = filter (\<lambda>c. c \<noteq> x) s"
proof (induction s)
  case Nil
  then show ?case by (simp add: remove_all.simps)
next
  case (Cons c s)
  then show ?case by (subst remove_all.simps) simp
qed

lemma uuid_text_canonical:
  assumes "n < 2 ^ 128"
  shows "canonical_uuid (uuid_text n)"
proof -
  let ?h = "hex_text 32 n"
  let ?u = "uuid_text n"
  have hc: "\<exists>m. c = hex_digit m" if "c \<in> set ?h" for c using hex_text_chars that .
  have u: "?u = take 8 ?h @ ''-'' @ take 4 (drop 8 ?h) @ ''-'' @ take 4 (drop 12 ?h) @ ''-'' @
         take 4 (drop 16 ?h) @ ''-'' @ drop 20 ?h"
    by (simp add: uuid_text_def Let_def)
  have parts: "take 8 ?h @ take 4 (drop 8 ?h) @ take 4 (drop 12 ?h) @ take 4 (drop 16 ?h) @ drop 20 ?h = ?h"
  proof -
    have a: "take 4 (drop 16 ?h) @ drop 20 ?h = drop 16 ?h"
      using append_take_drop_id [of 4 "drop 16 ?h"] by simp
    have b: "take 4 (drop 12 ?h) @ drop 16 ?h = drop 12 ?h"
      using append_take_drop_id [of 4 "drop 12 ?h"] by simp
    have c: "take 4 (drop 8 ?h) @ drop 12 ?h = drop 8 ?h"
      using append_take_drop_id [of 4 "drop 8 ?h"] by simp
    show ?thesis by (simp add: a b c)
  qed
  have sub: "set (take i xs) \<subseteq> set xs" "set (drop i xs) \<subseteq> set xs" for i and xs :: string
    by (auto dest: in_set_takeD in_set_dropD)
  have uc: "c = CHR ''-'' \<or> (\<exists>m. c = hex_digit m)" if "c \<in> set ?u" for c
  proof -
    have "set ?u \<subseteq> insert (CHR ''-'') (set ?h)"
      unfolding u by (auto dest: in_set_takeD in_set_dropD simp del: take_Suc_Cons)
    with that have "c = CHR ''-'' \<or> c \<in> set ?h" by blast
    then show ?thesis using hc by blast
  qed
  have absent: "x \<notin> set ?u" if "x \<noteq> CHR ''-''" "\<And>m. hex_digit m \<noteq> x" for x
    using uc [of x] that by metis
  have "CHR ''u'' \<notin> set ?u" by (rule absent [OF _ hex_digit_props(5)]) simp
  then have r1: "remove_all ''uuid:'' (remove_all ''urn:'' ?u) = ?u"
    by (simp add: remove_all_absent)
  have braces: "CHR 0x7B \<notin> set ?u" "CHR 0x7D \<notin> set ?u"
    by (rule absent [OF _ hex_digit_props(6)], simp, rule absent [OF _ hex_digit_props(7)], simp)
  have strip: "strip_set {CHR 0x7B, CHR 0x7D} ?u = ?u"
  proof -
    have "dropWhile (\<lambda>c. c \<in> {CHR 0x7B, CHR 0x7D}) xs = xs" if "set xs = set ?u" for xs
      using that braces by (cases xs) auto
    then show ?thesis by (simp add: strip_set_def)
  qed
  have keep: "filter (\<lambda>c. c \<noteq> CHR ''-'') xs = xs" if "set xs \<subseteq> set ?h" for xs
  proof (rule filter_True, rule ballI)
    fix c assume "c \<in> set xs"
    with that hc obtain m where "c = hex_digit m" by blast
    then show "c \<noteq> CHR ''-''" using hex_digit_props(3) by simp
  qed
  have hex: "remove_all ''-'' ?u = ?h"
    unfolding remove_all_single u
    using sub [of _ ?h] by (simp add: keep subset_trans [OF sub(1) sub(2)] parts)
  have ne: "?h \<noteq> []" by (metis length_hex_text list.size(3) zero_neq_numeral)
  have st: "py_strip ?h = ?h"
    by (rule py_strip_id) (use hc ne hex_digit_props(10) in \<open>metis hd_in_set last_in_set\<close>)
  have sg: "take 1 ?h \<notin> {''-'', ''+''}"
    using hc [of "hd ?h"] ne hex_digit_props(3,4) by (cases ?h) auto
  have pf: "take 2 ?h \<notin> {''0x'', ''0X''}"
  proof -
    have "length ?h = Suc (Suc 30)" by simp
    then obtain a b r where h: "?h = a # b # r"
      unfolding length_Suc_conv by blast
    have "b \<in> set ?h" using h by simp
    then show ?thesis using hc [of b] hex_digit_props(8,9) h by auto
  qed
  have "read_base 16 False 0 ?h = Some n"
    using assms by (intro read_hex_text) simp_all
  then have "int_of_text 16 ?h = Some (int n)"
    using sg pf by (simp add: int_of_text_def Let_def st)
  then show ?thesis
    using assms by (simp add: canonical_uuid_def uuid_parse_def r1 strip hex Let_def)
qed

end
