(* ===== verification/Ledger.thy ===== *)
theory Ledger
  imports Python_Text
begin

text \<open>
  SQL as the store uses it, and the contract of an append-only revision ledger, which the
  outcome, revenue and provider-job tables of \<open>storage/sqlite.py\<close> share.

  A table is the list of its rows in rowid order. A queued row pairs the columns of one
  record (\<open>body\<close>) with its \<open>sync_status\<close>; event and task rows also carry the
  optimistic \<open>sync_version\<close>.
\<close>

datatype sync_status = Pending | Synced | Quarantined

record 'a qrow =
  body :: 'a
  status :: sync_status

record 'a vrow = "'a qrow" +
  version :: int

section \<open>SQL statements over rows\<close>

definition update_where :: "('r \<Rightarrow> bool) \<Rightarrow> ('r \<Rightarrow> 'r) \<Rightarrow> 'r list \<Rightarrow> 'r list" where
  "update_where P f rows = map (\<lambda>r. if P r then f r else r) rows"

definition executemany :: "('p \<Rightarrow> 'r list \<Rightarrow> 'r list) \<Rightarrow> 'p list \<Rightarrow> 'r list \<Rightarrow> 'r list" where
  "executemany upd params rows = fold upd params rows"

text \<open>\<open>LIMIT n\<close>; a negative limit is no limit.\<close>

definition sql_limit :: "int \<Rightarrow> 'r list \<Rightarrow> 'r list" where
  "sql_limit n rows = (if n < 0 then rows else take (nat n) rows)"

text \<open>\<open>ORDER BY revision DESC LIMIT 1\<close>.\<close>

fun latest_by :: "('r \<Rightarrow> int) \<Rightarrow> 'r list \<Rightarrow> 'r option" where
  "latest_by revn [] = None"
| "latest_by revn (r # rows) =
     (case latest_by revn rows of
        None \<Rightarrow> Some r
      | Some q \<Rightarrow> if revn r < revn q then Some q else Some r)"

lemma latest_by_None: "latest_by revn rows = None \<longleftrightarrow> rows = []"
  by (cases rows) (auto split: option.splits)

lemma latest_by_in: "latest_by revn rows = Some r \<Longrightarrow> r \<in> set rows"
  by (induction rows arbitrary: r) (auto split: option.splits if_splits)

lemma latest_by_max: "latest_by revn rows = Some r \<Longrightarrow> q \<in> set rows \<Longrightarrow> revn q \<le> revn r"
proof (induction rows arbitrary: r q)
  case Nil
  then show ?case by simp
next
  case (Cons a rows)
  then show ?case
    by (cases "latest_by revn rows") (fastforce simp: latest_by_None split: if_splits)+
qed

lemma latest_by_snoc:
  "\<forall>q \<in> set rows. revn q < revn r \<Longrightarrow> latest_by revn (rows @ [r]) = Some r"
  by (induction rows) auto

section \<open>The ledger contract\<close>

text \<open>The rows of one record, in the order they were appended.\<close>

definition history :: "('r \<Rightarrow> uuid) \<Rightarrow> uuid \<Rightarrow> 'r list \<Rightarrow> 'r list" where
  "history key k rows = filter (\<lambda>r. key r = k) rows"

definition contiguous :: "('r \<Rightarrow> int) \<Rightarrow> 'r list \<Rightarrow> bool" where
  "contiguous revn h \<longleftrightarrow> map revn h = map int [1..<Suc (length h)]"

text \<open>
  What the ledger promises of every key: its revisions are 1, 2, 3, \<dots> in the order
  they were appended, and each was admissible after the one before.
\<close>

definition ledger_ok ::
  "('r \<Rightarrow> uuid) \<Rightarrow> ('r \<Rightarrow> int) \<Rightarrow> ('r \<Rightarrow> 'r \<Rightarrow> bool) \<Rightarrow> 'r list \<Rightarrow> bool" where
  "ledger_ok key revn admit rows \<longleftrightarrow>
     (\<forall>k. contiguous revn (history key k rows) \<and> successively admit (history key k rows))"

lemma contiguous_snoc:
  "contiguous revn (h @ [r]) \<longleftrightarrow> contiguous revn h \<and> revn r = int (length h) + 1"
  by (auto simp: contiguous_def)

lemma contiguous_single: "contiguous revn [r] \<longleftrightarrow> revn r = 1"
  by (simp add: contiguous_def)

lemma contiguous_nth: "contiguous revn h \<Longrightarrow> i < length h \<Longrightarrow> revn (h ! i) = int i + 1"
proof -
  assume "contiguous revn h" and i: "i < length h"
  then have "map revn h ! i = map int [1..<Suc (length h)] ! i" by (simp add: contiguous_def)
  with i show ?thesis by (simp del: upt_Suc)
qed

lemma contiguous_latest:
  assumes "contiguous revn h" "h \<noteq> []"
  shows "latest_by revn h = Some (last h)" and "revn (last h) = int (length h)"
proof -
  obtain h' r where h: "h = h' @ [r]" using assms(2) by (metis rev_exhaust)
  have last: "revn r = int (length h') + 1" using assms(1) by (simp add: h contiguous_snoc)
  have "revn q < revn r" if "q \<in> set h'" for q
  proof -
    from that obtain i where i: "i < length h'" "q = h' ! i" by (metis in_set_conv_nth)
    then have "q = h ! i" by (simp add: h nth_append)
    with contiguous_nth [OF assms(1), of i] i show ?thesis by (simp add: h last)
  qed
  then show "latest_by revn h = Some (last h)" by (simp add: h latest_by_snoc)
  show "revn (last h) = int (length h)" by (simp add: h last)
qed

lemma history_snoc:
  "history key k (rows @ [r]) = (if key r = k then history key k rows @ [r] else history key k rows)"
  by (simp add: history_def)

locale revision_ledger =
  fixes key :: "'r \<Rightarrow> uuid"
    and revn :: "'r \<Rightarrow> int"
    and admit :: "'r \<Rightarrow> 'r \<Rightarrow> bool"
    and same :: "'r \<Rightarrow> 'x \<Rightarrow> bool"
    and mk :: "'x \<Rightarrow> 'r"
    and ins :: "'r list \<Rightarrow> 'x \<Rightarrow> py_error + 'r list"
  assumes ins_existing:
      "find (\<lambda>r. key r = key (mk x) \<and> revn r = revn (mk x)) rows = Some r \<Longrightarrow>
       (if same r x then ins rows x = Inr rows else \<exists>e. ins rows x = Inl e)"
    and ins_new:
      "find (\<lambda>r. key r = key (mk x) \<and> revn r = revn (mk x)) rows = None \<Longrightarrow>
       ins rows x = Inr rows' \<Longrightarrow> rows' = rows @ [mk x]"
    and ins_expected:
      "find (\<lambda>r. key r = key (mk x) \<and> revn r = revn (mk x)) rows = None \<Longrightarrow>
       ins rows x = Inr rows' \<Longrightarrow>
       revn (mk x) = (case latest_by revn (history key (key (mk x)) rows) of
                       None \<Rightarrow> 1 | Some p \<Rightarrow> revn p + 1)"
    and ins_admit:
      "find (\<lambda>r. key r = key (mk x) \<and> revn r = revn (mk x)) rows = None \<Longrightarrow>
       ins rows x = Inr rows' \<Longrightarrow>
       latest_by revn (history key (key (mk x)) rows) = Some p \<Longrightarrow> admit p (mk x)"
    and same_refl: "key r = key (mk x) \<Longrightarrow> revn r = revn (mk x) \<Longrightarrow> r = mk x \<Longrightarrow> same r x"
begin

text \<open>An insert either replays a stored revision or appends exactly one row.\<close>

lemma ins_cases: "ins rows x = Inr rows' \<Longrightarrow> rows' = rows \<or> rows' = rows @ [mk x]"
  using ins_existing [of x rows] ins_new [of x rows]
  by (cases "find (\<lambda>r. key r = key (mk x) \<and> revn r = revn (mk x)) rows")
    (auto split: if_splits)

lemma ins_ok:
  assumes ok: "ledger_ok key revn admit rows" and ins: "ins rows x = Inr rows'"
  shows "ledger_ok key revn admit rows'"
proof (cases "find (\<lambda>r. key r = key (mk x) \<and> revn r = revn (mk x)) rows")
  case (Some r)
  with ins_existing [OF Some] ins ok show ?thesis by (auto split: if_splits)
next
  case None
  let ?h = "history key (key (mk x)) rows"
  from ok have h: "contiguous revn ?h" "successively admit ?h" by (auto simp: ledger_ok_def)
  have rows': "rows' = rows @ [mk x]" by (rule ins_new [OF None ins])
  have "contiguous revn (?h @ [mk x])" "successively admit (?h @ [mk x])"
  proof -
    show "contiguous revn (?h @ [mk x])"
      using ins_expected [OF None ins] contiguous_latest [OF h(1)] h(1)
      by (cases "?h = []") (auto simp: contiguous_snoc contiguous_single)
    show "successively admit (?h @ [mk x])"
      using ins_admit [OF None ins] contiguous_latest [OF h(1)] h(2)
      by (cases "?h = []") (auto simp: successively_append_iff)
  qed
  with ok show ?thesis by (simp add: ledger_ok_def rows' history_snoc)
qed

text \<open>A stored revision is never rewritten, removed or reordered by later inserts.\<close>

fun ins_all :: "'r list \<Rightarrow> 'x list \<Rightarrow> py_error + 'r list" where
  "ins_all rows [] = Inr rows"
| "ins_all rows (x # xs) = (case ins rows x of Inl e \<Rightarrow> Inl e | Inr rows' \<Rightarrow> ins_all rows' xs)"

lemma ins_all_prefix: "ins_all rows xs = Inr rows' \<Longrightarrow> \<exists>new. rows' = rows @ new"
proof (induction xs arbitrary: rows)
  case Nil
  then show ?case by simp
next
  case (Cons x xs)
  then show ?case
    by (fastforce split: sum.splits dest: ins_cases)
qed

lemma ins_all_ok:
  "ledger_ok key revn admit rows \<Longrightarrow> ins_all rows xs = Inr rows' \<Longrightarrow> ledger_ok key revn admit rows'"
  by (induction xs arbitrary: rows) (auto split: sum.splits dest: ins_ok)

lemma empty_ok: "ledger_ok key revn admit []"
  by (simp add: ledger_ok_def history_def contiguous_def)

text \<open>Revisions identify rows.\<close>

lemma ok_distinct:
  assumes ok: "ledger_ok key revn admit rows"
  shows "distinct (map (\<lambda>r. (key r, revn r)) rows)"
  using ok
proof (induction rows rule: rev_induct)
  case Nil
  show ?case by simp
next
  case (snoc r rows)
  let ?h = "history key (key r) rows"
  have all: "contiguous revn (history key k (rows @ [r])) \<and>
      successively admit (history key k (rows @ [r]))" for k
    using snoc.prems by (simp add: ledger_ok_def)
  then have "ledger_ok key revn admit rows"
    unfolding ledger_ok_def
    by (metis contiguous_snoc history_snoc successively_append_iff)
  then have IH: "distinct (map (\<lambda>r. (key r, revn r)) rows)" by (rule snoc.IH)
  from all [of "key r"] have h: "contiguous revn ?h" "revn r = int (length ?h) + 1"
    by (simp_all add: history_snoc contiguous_snoc)
  have "(key q, revn q) \<noteq> (key r, revn r)" if "q \<in> set rows" for q
  proof (cases "key q = key r")
    case True
    with that have "q \<in> set ?h" by (simp add: history_def)
    then obtain i where "i < length ?h" "q = ?h ! i" by (metis in_set_conv_nth)
    with contiguous_nth [OF h(1)] h(2) show ?thesis by auto
  qed simp
  with IH show ?case by force
qed

text \<open>A relation that holds between consecutive revisions and composes holds along the history.\<close>

lemma history_related:
  assumes ok: "ledger_ok key revn admit rows"
    and sub: "\<And>p q. \<lbrakk>p \<in> set rows; q \<in> set rows; admit p q\<rbrakk> \<Longrightarrow> R p q" and trans: "transp R"
    and ij: "i < j" "j < length (history key k rows)"
  shows "R (history key k rows ! i) (history key k rows ! j)"
proof -
  have "successively R (history key k rows)"
    using ok sub by (auto simp: ledger_ok_def history_def intro: successively_mono)
  then have "sorted_wrt R (history key k rows)"
    using trans by (simp add: successively_conv_sorted_wrt)
  with ij show ?thesis by (simp add: sorted_wrt_iff_nth_less)
qed

text \<open>The latest revision of a key is the last one appended.\<close>

lemma latest_is_last:
  assumes "ledger_ok key revn admit rows" "history key k rows \<noteq> []"
  shows "latest_by revn (history key k rows) = Some (last (history key k rows))"
  using assms contiguous_latest(1) by (auto simp: ledger_ok_def)

end

text \<open>
  Acknowledging or quarantining a row changes neither its key nor its revision nor its
  place, so it keeps the contract.
\<close>

lemma ledger_ok_map:
  assumes "\<And>r. key (f r) = key r" "\<And>r. revn (f r) = revn r"
    and "\<And>p q. admit (f p) (f q) = admit p q"
    and "ledger_ok key revn admit rows"
  shows "ledger_ok key revn admit (map f rows)"
proof -
  have "history key k (map f rows) = map f (history key k rows)" for k
    using assms(1) by (simp add: history_def filter_map comp_def)
  with assms show ?thesis
    by (simp add: ledger_ok_def contiguous_def successively_map comp_def)
qed

end
