(* ===== verification/Delivery_Queue.thy ===== *)
theory Delivery_Queue
  imports Ledger
begin

text \<open>
  The contract of a durable delivery queue: every table of \<open>storage/sqlite.py\<close> has a
  \<open>sync_status\<close> column, an operation that acknowledges delivered rows and one that
  quarantines undeliverable ones. Both name rows by an identity (for events and tasks the
  record id with its \<open>sync_version\<close>, for ledgers the record id with its revision) and
  move a row only while it is pending.
\<close>

definition mark_where :: "('r \<Rightarrow> sync_status) \<Rightarrow> (sync_status \<Rightarrow> 'r \<Rightarrow> 'r) \<Rightarrow> ('r \<Rightarrow> 'i) \<Rightarrow>
    sync_status \<Rightarrow> 'i list \<Rightarrow> 'r list \<Rightarrow> 'r list" where
  "mark_where st setst ident s ids rows =
     map (\<lambda>r. if st r = Pending \<and> ident r \<in> set ids then setst s r else r) rows"

lemma executemany_mark:
  assumes "s \<noteq> Pending" "\<And>r. st (setst s r) = s"
  shows "executemany (\<lambda>p. update_where (\<lambda>r. st r = Pending \<and> ident r = p) (setst s)) ids rows =
    mark_where st setst ident s ids rows"
proof (induction ids arbitrary: rows)
  case Nil
  show ?case by (simp add: executemany_def mark_where_def map_idI)
next
  case (Cons i ids)
  have "executemany (\<lambda>p. update_where (\<lambda>r. st r = Pending \<and> ident r = p) (setst s)) (i # ids) rows =
      mark_where st setst ident s ids
        (update_where (\<lambda>r. st r = Pending \<and> ident r = i) (setst s) rows)"
    using Cons.IH by (simp add: executemany_def)
  also have "\<dots> = mark_where st setst ident s (i # ids) rows"
    using assms by (auto simp: mark_where_def update_where_def)
  finally show ?case .
qed

lemma executemany_mark_rows:
  fixes rows :: "('a, 'b) qrow_scheme list"
  assumes "s \<noteq> Pending"
  shows "executemany (\<lambda>p. update_where (\<lambda>r. status r = Pending \<and> ident r = p)
      (\<lambda>r. r\<lparr>status := s\<rparr>)) ids rows =
    mark_where status (\<lambda>s r. r\<lparr>status := s\<rparr>) ident s ids rows"
  by (rule executemany_mark [where setst = "\<lambda>s r. r\<lparr>status := s\<rparr>"]) (simp_all add: assms)

lemma mark_where_Nil: "mark_where st setst ident s [] rows = rows"
  by (simp add: mark_where_def map_idI)

lemmas mark_rows = executemany_mark_rows [OF sync_status.distinct(2)]
  executemany_mark_rows [OF sync_status.distinct(4)] mark_where_Nil

text \<open>
  How a queue may develop while a batch is uploaded: rows stay in place, and a row leaves the
  pending state only for a reason, its identity is accepted (\<open>A\<close>) or set aside (\<open>B\<close>).
\<close>

definition queue_moved :: "('r \<Rightarrow> sync_status) \<Rightarrow> ('r \<Rightarrow> 'k) \<Rightarrow> 'k set \<Rightarrow> 'k set \<Rightarrow>
    'r list \<Rightarrow> 'r list \<Rightarrow> bool" where
  "queue_moved st key A B rows rows' \<longleftrightarrow>
     list_all2 (\<lambda>r r'. key r' = key r \<and>
       (st r' = st r \<or> st r = Pending \<and> (st r' = Synced \<and> key r \<in> A \<or> st r' = Quarantined \<and> key r \<in> B)))
     rows rows'"

definition none_pending :: "('r \<Rightarrow> sync_status) \<Rightarrow> ('r \<Rightarrow> 'k) \<Rightarrow> 'k set \<Rightarrow> 'r list \<Rightarrow> bool" where
  "none_pending st key K rows \<longleftrightarrow> (\<forall>r \<in> set rows. key r \<in> K \<longrightarrow> st r \<noteq> Pending)"

lemma queue_moved_refl: "queue_moved st key A B rows rows"
  by (simp add: queue_moved_def list_all2_refl)

lemma queue_moved_mono:
  "\<lbrakk>queue_moved st key A B rows rows'; A \<subseteq> A'; B \<subseteq> B'\<rbrakk> \<Longrightarrow> queue_moved st key A' B' rows rows'"
  unfolding queue_moved_def by (erule list_all2_mono) auto

lemma queue_moved_trans:
  assumes "queue_moved st key A B xs ys" "queue_moved st key A B ys zs"
  shows "queue_moved st key A B xs zs"
  unfolding queue_moved_def
  by (rule list_all2_trans [OF _ assms [unfolded queue_moved_def]]) auto

lemma queue_moved_map:
  assumes "\<And>r. r \<in> set rows \<Longrightarrow> key (f r) = key r \<and>
    (st (f r) = st r \<or> st r = Pending \<and> (st (f r) = Synced \<and> key r \<in> A \<or> st (f r) = Quarantined \<and> key r \<in> B))"
  shows "queue_moved st key A B rows (map f rows)"
  using assms by (simp add: queue_moved_def list_all2_map2 list_all2_same)

lemma none_pending_moved:
  assumes "queue_moved st key A B rows rows'" "none_pending st key K rows"
  shows "none_pending st key K rows'"
  unfolding none_pending_def
proof (intro ballI impI)
  fix r' assume r': "r' \<in> set rows'" "key r' \<in> K"
  then obtain i where "i < length rows'" "r' = rows' ! i" by (auto simp: in_set_conv_nth)
  then show "st r' \<noteq> Pending"
    using assms r'(2) unfolding queue_moved_def none_pending_def
    by (auto simp: list_all2_conv_all_nth)
qed

lemma none_pending_Un:
  "none_pending st key (K \<union> L) rows \<longleftrightarrow> none_pending st key K rows \<and> none_pending st key L rows"
  by (auto simp: none_pending_def)

lemma none_pending_empty: "none_pending st key {} rows"
  by (simp add: none_pending_def)

locale delivery_queue =
  fixes st :: "'r \<Rightarrow> sync_status"
    and setst :: "sync_status \<Rightarrow> 'r \<Rightarrow> 'r"
    and ident :: "'r \<Rightarrow> 'i"
    and ack :: "'i list \<Rightarrow> 'r list \<Rightarrow> 'r list"
    and quarantine :: "'i list \<Rightarrow> 'r list \<Rightarrow> 'r list"
  assumes st_setst: "st (setst s r) = s"
    and ident_setst: "ident (setst s r) = ident r"
    and ack_spec: "ack ids rows = mark_where st setst ident Synced ids rows"
    and quarantine_spec: "quarantine ids rows = mark_where st setst ident Quarantined ids rows"
begin

abbreviation depth :: "sync_status \<Rightarrow> 'r list \<Rightarrow> nat" where
  "depth s rows \<equiv> length (filter (\<lambda>r. st r = s) rows)"

text \<open>No mark adds, removes, reorders or renames a row.\<close>

lemma mark_length [simp]: "length (ack ids rows) = length rows"
    "length (quarantine ids rows) = length rows"
  by (simp_all add: ack_spec quarantine_spec mark_where_def)

lemma mark_ident:
  "map ident (ack ids rows) = map ident rows" "map ident (quarantine ids rows) = map ident rows"
  by (simp_all add: ack_spec quarantine_spec mark_where_def ident_setst)

lemma ack_nth:
  "i < length rows \<Longrightarrow> ack ids rows ! i =
     (if st (rows ! i) = Pending \<and> ident (rows ! i) \<in> set ids then setst Synced (rows ! i)
      else rows ! i)"
  by (simp add: ack_spec mark_where_def)

lemma quarantine_nth:
  "i < length rows \<Longrightarrow> quarantine ids rows ! i =
     (if st (rows ! i) = Pending \<and> ident (rows ! i) \<in> set ids then setst Quarantined (rows ! i)
      else rows ! i)"
  by (simp add: quarantine_spec mark_where_def)

lemma ack_moved:
  assumes "\<And>s r. key (setst s r) = key r" "\<And>r. ident r \<in> set ids \<Longrightarrow> key r \<in> A"
  shows "queue_moved st key A B rows (ack ids rows)"
  unfolding ack_spec mark_where_def
  by (rule queue_moved_map) (use assms in \<open>auto simp: st_setst\<close>)

lemma quarantine_moved:
  assumes "\<And>s r. key (setst s r) = key r" "\<And>r. ident r \<in> set ids \<Longrightarrow> key r \<in> B"
  shows "queue_moved st key A B rows (quarantine ids rows)"
  unfolding quarantine_spec mark_where_def
  by (rule queue_moved_map) (use assms in \<open>auto simp: st_setst\<close>)

lemma ack_none_pending:
  assumes "\<And>s r. key (setst s r) = key r" "\<And>r. key r \<in> K \<Longrightarrow> ident r \<in> set ids"
  shows "none_pending st key K (ack ids rows)"
  using assms by (auto simp: none_pending_def ack_spec mark_where_def st_setst split: if_splits)

lemma quarantine_none_pending:
  assumes "\<And>s r. key (setst s r) = key r" "\<And>r. key r \<in> K \<Longrightarrow> ident r \<in> set ids"
  shows "none_pending st key K (quarantine ids rows)"
  using assms by (auto simp: none_pending_def quarantine_spec mark_where_def st_setst split: if_splits)

text \<open>A row becomes synced only by an acknowledgement that names it.\<close>

lemma newly_synced:
  "\<lbrakk>i < length rows; st (ack ids rows ! i) = Synced; st (rows ! i) \<noteq> Synced\<rbrakk>
    \<Longrightarrow> st (rows ! i) = Pending \<and> ident (rows ! i) \<in> set ids"
  by (auto simp: ack_nth split: if_splits)

lemma settled_kept:
  "\<lbrakk>i < length rows; st (rows ! i) \<noteq> Pending\<rbrakk> \<Longrightarrow> ack ids rows ! i = rows ! i"
  "\<lbrakk>i < length rows; st (rows ! i) \<noteq> Pending\<rbrakk> \<Longrightarrow> quarantine ids rows ! i = rows ! i"
  by (auto simp: ack_nth quarantine_nth)

lemma quarantine_never_syncs:
  "\<lbrakk>i < length rows; st (quarantine ids rows ! i) = Synced\<rbrakk> \<Longrightarrow> st (rows ! i) = Synced"
  by (auto simp: quarantine_nth st_setst split: if_splits)

text \<open>What leaves the pending queue enters the synced (or quarantined) one, row for row.\<close>

lemma depth_conserved:
  "depth Pending (ack ids rows) + depth Synced (ack ids rows) =
     depth Pending rows + depth Synced rows"
  "depth Quarantined (ack ids rows) = depth Quarantined rows"
  "depth Pending (quarantine ids rows) + depth Quarantined (quarantine ids rows) =
     depth Pending rows + depth Quarantined rows"
  "depth Synced (quarantine ids rows) = depth Synced rows"
  unfolding ack_spec quarantine_spec mark_where_def
  by (induction rows) (auto simp: st_setst)

lemma ack_again: "ack ids (ack ids rows) = ack ids rows"
  by (auto simp: ack_spec mark_where_def st_setst)

lemma ack_pending:
  "filter (\<lambda>r. st r = Pending) (ack ids rows) =
     filter (\<lambda>r. st r = Pending \<and> ident r \<notin> set ids) rows"
  unfolding ack_spec mark_where_def by (induction rows) (auto simp: st_setst)

lemma quarantine_pending:
  "filter (\<lambda>r. st r = Pending) (quarantine ids rows) =
     filter (\<lambda>r. st r = Pending \<and> ident r \<notin> set ids) rows"
  unfolding quarantine_spec mark_where_def by (induction rows) (auto simp: st_setst)

end

end
