(* ===== verification/Outcomes.thy ===== *)
theory Outcomes
  imports Delivery_Queue
begin

text \<open>
  Business outcomes: the value and revision models of \<open>models/outcome.py\<close> with every
  check of their constructors, and the outcome ledger of \<open>storage/sqlite.py\<close>.
\<close>

section \<open>Outcome values\<close>

datatype outcome_value_type = OVString | OVBoolean | OVInteger | OVDecimal

datatype outcome_scalar = ScalarStr string | ScalarBool bool

record outcome_value =
  ov_type :: outcome_value_type
  ov_value :: outcome_scalar

text \<open>\<open>(?:0|[1-9]\d{0,25})\<close>, the integer digits of the value contract.\<close>

definition plain_integer_digits :: "string \<Rightarrow> bool" where
  "plain_integer_digits s \<longleftrightarrow>
     s = ''0'' \<or> (s \<noteq> [] \<and> length s \<le> 26 \<and> list_all is_digit s \<and> hd s \<noteq> CHR ''0'')"

definition strip_minus :: "string \<Rightarrow> string" where
  "strip_minus s = (if take 1 s = ''-'' then drop 1 s else s)"

definition matches_integer :: "string \<Rightarrow> bool" where
  "matches_integer s \<longleftrightarrow> plain_integer_digits (strip_minus s)"

text \<open>\<open>(?:0|[1-9]\d{0,25})(?:\.\d{1,12})?\<close>.\<close>

definition matches_amount :: "string \<Rightarrow> bool" where
  "matches_amount s \<longleftrightarrow>
     (let ip = takeWhile (\<lambda>c. c \<noteq> CHR ''.'') s; rest = dropWhile (\<lambda>c. c \<noteq> CHR ''.'') s
      in plain_integer_digits ip \<and>
         (rest = [] \<or>
          (1 \<le> length (drop 1 rest) \<and> length (drop 1 rest) \<le> 12 \<and>
           list_all is_digit (drop 1 rest))))"

definition matches_decimal :: "string \<Rightarrow> bool" where
  "matches_decimal s \<longleftrightarrow> matches_amount (strip_minus s)"

text \<open>\<open>OutcomeValue.__post_init__\<close>.\<close>

fun outcome_value_check :: "outcome_value \<Rightarrow> py_error option" where
  "outcome_value_check v =
     (case ov_type v of
        OVString \<Rightarrow>
          (case ov_value v of
             ScalarStr s \<Rightarrow> if bounded_text 1024 s then None
               else Some (ValueError ''string outcome values must contain 1 to 1024 characters'')
           | ScalarBool b \<Rightarrow>
               Some (ValueError ''string outcome values must contain 1 to 1024 characters''))
      | OVBoolean \<Rightarrow>
          (case ov_value v of
             ScalarBool b \<Rightarrow> None
           | ScalarStr s \<Rightarrow> Some (ValueError ''boolean outcome values must contain a bool''))
      | OVInteger \<Rightarrow>
          (case ov_value v of
             ScalarBool b \<Rightarrow> Some (ValueError ''outcome values must use a plain decimal string'')
           | ScalarStr s \<Rightarrow> if matches_integer s then None
               else Some (ValueError ''invalid integer outcome value''))
      | OVDecimal \<Rightarrow>
          (case ov_value v of
             ScalarBool b \<Rightarrow> Some (ValueError ''outcome values must use a plain decimal string'')
           | ScalarStr s \<Rightarrow> if matches_decimal s then None
               else Some (ValueError ''invalid decimal outcome value'')))"

definition make_outcome_value :: "outcome_value_type \<Rightarrow> outcome_scalar \<Rightarrow> py_error + outcome_value" where
  "make_outcome_value t s =
     (let v = \<lparr>ov_type = t, ov_value = s\<rparr>
      in case outcome_value_check v of Some e \<Rightarrow> Inl e | None \<Rightarrow> Inr v)"

datatype outcome_input =
    InValue outcome_value
  | InBool bool
  | InInt int
  | InDecimal dec
  | InStr string

text \<open>\<open>OutcomeValue.from_input\<close>.\<close>

fun outcome_value_from_input :: "outcome_input \<Rightarrow> py_error + outcome_value" where
  "outcome_value_from_input (InValue v) = Inr v"
| "outcome_value_from_input (InBool b) = make_outcome_value OVBoolean (ScalarBool b)"
| "outcome_value_from_input (InInt i) = make_outcome_value OVInteger (ScalarStr (show_int i))"
| "outcome_value_from_input (InDecimal d) =
     make_outcome_value OVDecimal (ScalarStr (canonical_decimal d))"
| "outcome_value_from_input (InStr s) = make_outcome_value OVString (ScalarStr s)"

fun outcome_type_text :: "outcome_value_type \<Rightarrow> string" where
  "outcome_type_text OVString = ''string''"
| "outcome_type_text OVBoolean = ''boolean''"
| "outcome_type_text OVInteger = ''integer''"
| "outcome_type_text OVDecimal = ''decimal''"

definition outcome_value_to_dict :: "outcome_value \<Rightarrow> json" where
  "outcome_value_to_dict v =
     JObj [(''type'', JStr (outcome_type_text (ov_type v))),
           (''value'', case ov_value v of ScalarStr s \<Rightarrow> JStr s | ScalarBool b \<Rightarrow> JBool b)]"

text \<open>\<open>OutcomeValue.from_dict\<close>, on the items of an object.\<close>

definition outcome_value_from_dict :: "obj \<Rightarrow> py_error + outcome_value" where
  "outcome_value_from_dict data =
     (let t = dict_get data ''type'' in
      case (if t = JStr ''string'' then Some OVString
            else if t = JStr ''boolean'' then Some OVBoolean
            else if t = JStr ''integer'' then Some OVInteger
            else if t = JStr ''decimal'' then Some OVDecimal else None) of
        None \<Rightarrow> Inl (ValueError ''invalid outcome value type'')
      | Some vt \<Rightarrow>
          (case dict_get data ''value'' of
             JStr s \<Rightarrow> make_outcome_value vt (ScalarStr s)
           | JBool b \<Rightarrow> make_outcome_value vt (ScalarBool b)
           | _ \<Rightarrow> Inl (ValueError ''invalid outcome value'')))"

section \<open>Outcome revisions\<close>

datatype outcome_state = OutPending | OutAchieved | OutMissed | OutVoided

record outcome =
  out_task_id :: uuid
  out_name :: string
  out_state :: outcome_state
  out_id :: uuid
  out_revision :: int
  out_effective_at :: dt
  out_observed_at :: dt
  out_value :: "outcome_value option"
  out_schema :: string

definition max_revision :: int where "max_revision = 2147483647"

text \<open>\<open>OutcomeRevision.__post_init__\<close>: the checks of the constructor, in order.\<close>

definition outcome_checks :: "outcome \<Rightarrow> (bool \<times> py_error) list" where
  "outcome_checks x =
     [(out_schema x \<noteq> ''1'', ValueError ''outcome schema_version must be 1''),
      (\<not> canonical_name (out_name x), ValueError ''outcome name must be a canonical identifier''),
      (\<not> (1 \<le> out_revision x \<and> out_revision x \<le> max_revision),
         ValueError ''outcome revision must be an integer between 1 and 2147483647''),
      (out_state x \<in> {OutPending, OutVoided} \<and> out_value x \<noteq> None,
         ValueError ''outcomes cannot assert a value''),
      (out_state x = OutVoided \<and> out_revision x = 1,
         ValueError ''voided outcomes must supersede an earlier revision'')]"

definition make_outcome :: "outcome \<Rightarrow> py_error + outcome" where
  "make_outcome x = (case first_error (outcome_checks x) of Some e \<Rightarrow> Inl e | None \<Rightarrow> Inr x)"

fun outcome_state_text :: "outcome_state \<Rightarrow> string" where
  "outcome_state_text OutPending = ''pending''"
| "outcome_state_text OutAchieved = ''achieved''"
| "outcome_state_text OutMissed = ''missed''"
| "outcome_state_text OutVoided = ''voided''"

definition outcome_to_dict :: "outcome \<Rightarrow> json" where
  "outcome_to_dict x = JObj (
     [(''schema_version'', JStr (out_schema x)),
      (''outcome_id'', JStr (out_id x)),
      (''task_id'', JStr (out_task_id x)),
      (''name'', JStr (out_name x)),
      (''effective_at'', JStr (iso_canonical (out_effective_at x))),
      (''observed_at'', JStr (iso_canonical (out_observed_at x))),
      (''lifecycle'', JObj [(''state'', JStr (outcome_state_text (out_state x))),
                            (''revision'', JInt (out_revision x))])] @
     (case out_value x of None \<Rightarrow> [] | Some v \<Rightarrow> [(''value'', outcome_value_to_dict v)]))"

text \<open>
  \<open>OutcomeRevision.from_dict\<close>; every failure is re-raised as one \<open>ValueError\<close>.
\<close>

definition outcome_state_of_text :: "string \<Rightarrow> outcome_state option" where
  "outcome_state_of_text s =
     (if s = ''pending'' then Some OutPending else if s = ''achieved'' then Some OutAchieved
      else if s = ''missed'' then Some OutMissed else if s = ''voided'' then Some OutVoided
      else None)"

definition invalid_outcome :: "py_error" where
  "invalid_outcome = ValueError ''Invalid outcome data''"

definition outcome_value_field :: "obj \<Rightarrow> py_error + outcome_value option" where
  "outcome_value_field data =
     (case dict_get data ''value'' of
        JNull \<Rightarrow> Inr None
      | JObj v \<Rightarrow> (case outcome_value_from_dict v of
                      Inl e \<Rightarrow> Inl invalid_outcome | Inr ov \<Rightarrow> Inr (Some ov))
      | _ \<Rightarrow> Inl invalid_outcome)"

definition outcome_from_dict :: "obj \<Rightarrow> py_error + outcome" where
  "outcome_from_dict data =
     (case (map_of data ''lifecycle'', outcome_value_field data) of
        (Some (JObj lifecycle), Inr value) \<Rightarrow>
          (case (map_of data ''schema_version'', map_of data ''outcome_id'', map_of data ''task_id'',
                 map_of data ''name'', map_of data ''effective_at'', map_of data ''observed_at'',
                 map_of lifecycle ''state'', map_of lifecycle ''revision'') of
             (Some schema, Some oid, Some tid, Some name, Some eff, Some obs, Some st, Some rv) \<Rightarrow>
               (case (uuid_field oid ''outcome_id'', uuid_field tid ''task_id'',
                      parse_canonical (py_str eff), parse_canonical (py_str obs),
                      outcome_state_of_text (py_str st), py_int rv) of
                  (Inr oid', Inr tid', Some eff', Some obs', Some st', Some rv') \<Rightarrow>
                    (case make_outcome
                       \<lparr>out_task_id = tid', out_name = py_str name, out_state = st',
                        out_id = oid', out_revision = rv', out_effective_at = eff',
                        out_observed_at = obs', out_value = value,
                        out_schema = py_str schema\<rparr> of
                       Inl e \<Rightarrow> Inl invalid_outcome
                     | Inr x \<Rightarrow> Inr x)
                | _ \<Rightarrow> Inl invalid_outcome)
           | _ \<Rightarrow> Inl invalid_outcome)
      | _ \<Rightarrow> Inl invalid_outcome)"

lemma outcome_value_roundtrip_aux:
  "outcome_value_check v = None \<Longrightarrow>
   \<exists>kvs. outcome_value_to_dict v = JObj kvs \<and> outcome_value_from_dict kvs = Inr v"
  by (cases v; cases "ov_type v"; cases "ov_value v")
    (auto simp: outcome_value_to_dict_def outcome_value_from_dict_def make_outcome_value_def
      dict_get_def Let_def split: if_splits)

lemma outcome_state_text_roundtrip: "outcome_state_of_text (outcome_state_text s) = Some s"
  by (cases s) (simp_all add: outcome_state_of_text_def)

text \<open>What a stored or uploaded outcome needs to be read back.\<close>

definition outcome_ready :: "outcome \<Rightarrow> bool" where
  "outcome_ready x \<longleftrightarrow>
     make_outcome x = Inr x \<and>
     (case out_value x of None \<Rightarrow> True | Some v \<Rightarrow> outcome_value_check v = None) \<and>
     canonical_uuid (out_id x) \<and> canonical_uuid (out_task_id x) \<and>
     valid_dt (out_effective_at x) \<and> valid_dt (out_observed_at x)"

lemma outcome_roundtrip_aux:
  assumes "outcome_ready x" "outcome_to_dict x = JObj data"
  shows "outcome_from_dict data = Inr x"
proof -
  have vf: "outcome_value_field data = Inr (out_value x)"
  proof (cases "out_value x")
    case None
    with assms show ?thesis by (auto simp: outcome_value_field_def outcome_to_dict_def dict_get_def)
  next
    case (Some v)
    with assms outcome_value_roundtrip_aux [of v] show ?thesis
      by (auto simp: outcome_value_field_def outcome_to_dict_def dict_get_def outcome_ready_def)
  qed
  have eq: "\<lparr>out_task_id = out_task_id x, out_name = out_name x, out_state = out_state x,
      out_id = out_id x, out_revision = out_revision x, out_effective_at = out_effective_at x,
      out_observed_at = out_observed_at x, out_value = out_value x, out_schema = out_schema x\<rparr> = x"
    by (rule outcome.equality) simp_all
  show ?thesis
    using assms(2) assms(1)[unfolded outcome_ready_def]
    unfolding outcome_from_dict_def vf
    by (auto simp: outcome_to_dict_def uuid_field_canonical outcome_state_text_roundtrip
        parse_iso_canonical_aux eq)
qed

section \<open>The outcome ledger\<close>

type_synonym outcome_rows = "outcome qrow list"

text \<open>The transitions \<open>insert_outcome\<close> allows from each stored state.\<close>

fun outcome_allowed :: "outcome_state \<Rightarrow> outcome_state list" where
  "outcome_allowed OutPending = [OutPending, OutAchieved, OutMissed, OutVoided]"
| "outcome_allowed OutAchieved = [OutAchieved, OutMissed, OutVoided]"
| "outcome_allowed OutMissed = [OutMissed, OutAchieved, OutVoided]"
| "outcome_allowed OutVoided = []"

definition new_row :: "'a \<Rightarrow> 'a qrow" where
  "new_row x = \<lparr>body = x, status = Pending\<rparr>"

definition insert_outcome :: "outcome_rows \<Rightarrow> outcome \<Rightarrow> py_error + outcome_rows" where
  "insert_outcome rows x =
     (case find (\<lambda>r. out_id (body r) = out_id x \<and> out_revision (body r) = out_revision x) rows of
        Some same \<Rightarrow>
          if outcome_to_dict (body same) \<noteq> outcome_to_dict x
          then Inl (ValueError ''already exists with different contents'')
          else Inr rows
      | None \<Rightarrow>
          (let previous = latest_by (\<lambda>r. out_revision (body r))
                            (filter (\<lambda>r. out_id (body r) = out_id x) rows);
               expected = (case previous of None \<Rightarrow> 0 | Some p \<Rightarrow> out_revision (body p)) + 1
           in if out_revision x \<noteq> expected
              then Inl (ValueError ''expected revision'')
              else
                (case previous of
                   None \<Rightarrow> Inr (rows @ [new_row x])
                 | Some p \<Rightarrow>
                     if out_task_id (body p) \<noteq> out_task_id x \<or> out_name (body p) \<noteq> out_name x
                     then Inl (ValueError ''an outcome cannot change task_id or name across revisions'')
                     else if out_state x \<notin> set (outcome_allowed (out_state (body p)))
                     then Inl (ValueError ''invalid outcome lifecycle transition'')
                     else Inr (rows @ [new_row x]))))"

definition query_outcomes_for_sync :: "outcome_rows \<Rightarrow> int \<Rightarrow> outcome list" where
  "query_outcomes_for_sync rows limit =
     map body (sql_limit limit
       (sort_key (\<lambda>r. (isoformat (out_observed_at (body r)), out_id (body r), out_revision (body r)))
         (filter (\<lambda>r. status r = Pending) rows)))"

definition query_outcome_history :: "outcome_rows \<Rightarrow> uuid \<Rightarrow> outcome list" where
  "query_outcome_history rows oid =
     map body (sort_key (\<lambda>r. out_revision (body r)) (filter (\<lambda>r. out_id (body r) = oid) rows))"

definition mark_outcomes_synced :: "(uuid \<times> int) list \<Rightarrow> outcome_rows \<Rightarrow> outcome_rows" where
  "mark_outcomes_synced revisions rows =
     (if revisions = [] then rows
      else executemany (\<lambda>p. update_where
             (\<lambda>r. status r = Pending \<and> (out_id (body r), out_revision (body r)) = p)
             (\<lambda>r. r\<lparr>status := Synced\<rparr>)) revisions rows)"

definition mark_outcomes_quarantined :: "(uuid \<times> int) list \<Rightarrow> outcome_rows \<Rightarrow> outcome_rows" where
  "mark_outcomes_quarantined revisions rows =
     (if revisions = [] then rows
      else executemany (\<lambda>p. update_where
             (\<lambda>r. status r = Pending \<and> (out_id (body r), out_revision (body r)) = p)
             (\<lambda>r. r\<lparr>status := Quarantined\<rparr>)) revisions rows)"

section \<open>The contracts hold\<close>

definition outcome_admit :: "outcome qrow \<Rightarrow> outcome qrow \<Rightarrow> bool" where
  "outcome_admit p q \<longleftrightarrow>
     out_task_id (body p) = out_task_id (body q) \<and> out_name (body p) = out_name (body q) \<and>
     out_state (body q) \<in> set (outcome_allowed (out_state (body p)))"

abbreviation "outcome_key \<equiv> (\<lambda>r :: outcome qrow. out_id (body r))"
abbreviation "outcome_revn \<equiv> (\<lambda>r :: outcome qrow. out_revision (body r))"

interpretation outl: revision_ledger outcome_key outcome_revn outcome_admit
    "\<lambda>r x. outcome_to_dict (body r) = outcome_to_dict x" new_row insert_outcome
proof (unfold_locales, goal_cases)
  case (1 x rows r)
  then show ?case by (auto simp: insert_outcome_def new_row_def)
next
  case (2 x rows rows')
  then show ?case
    by (auto simp: insert_outcome_def new_row_def Let_def split: option.splits if_splits)
next
  case (3 x rows rows')
  then show ?case
    by (auto simp: insert_outcome_def new_row_def Let_def history_def split: option.splits if_splits)
next
  case (4 x rows rows' p)
  then show ?case
    by (auto simp: insert_outcome_def new_row_def Let_def history_def outcome_admit_def
        split: if_splits)
next
  case (5 r x)
  then show ?case by (simp add: new_row_def)
qed

interpretation outq: delivery_queue "status :: outcome qrow \<Rightarrow> sync_status"
    "\<lambda>s r. r\<lparr>status := s\<rparr>" "\<lambda>r. (out_id (body r), out_revision (body r))"
    mark_outcomes_synced mark_outcomes_quarantined
  by unfold_locales
    (simp_all add: mark_outcomes_synced_def mark_outcomes_quarantined_def mark_rows)

text \<open>
  The tables the program can reach: validated outcomes are inserted, and rows are
  acknowledged or quarantined by the upload worker.
\<close>

inductive outcome_reach :: "outcome_rows \<Rightarrow> bool" where
  out_start: "outcome_reach []"
| out_insert: "\<lbrakk>outcome_reach rows; make_outcome x = Inr x; insert_outcome rows x = Inr rows'\<rbrakk>
    \<Longrightarrow> outcome_reach rows'"
| out_ack: "outcome_reach rows \<Longrightarrow> outcome_reach (mark_outcomes_synced ids rows)"
| out_quarantine: "outcome_reach rows \<Longrightarrow> outcome_reach (mark_outcomes_quarantined ids rows)"

lemma outcome_mark_ok:
  assumes "ledger_ok outcome_key outcome_revn outcome_admit rows"
  shows "ledger_ok outcome_key outcome_revn outcome_admit (mark_outcomes_synced ids rows)"
    and "ledger_ok outcome_key outcome_revn outcome_admit (mark_outcomes_quarantined ids rows)"
  unfolding outq.ack_spec outq.quarantine_spec mark_where_def
  by (rule ledger_ok_map; use assms in \<open>auto simp: outcome_admit_def\<close>)+

lemma outcome_reach_ok: "outcome_reach rows \<Longrightarrow> ledger_ok outcome_key outcome_revn outcome_admit rows"
  by (induction rule: outcome_reach.induct)
    (auto intro: outl.empty_ok outl.ins_ok outcome_mark_ok)

lemma transp_outcome:
  "transp (\<lambda>p q :: outcome qrow. out_task_id (body p) = out_task_id (body q) \<and>
     out_name (body p) = out_name (body q) \<and> out_state (body p) \<noteq> OutVoided)"
  by (auto intro: transpI)

lemma outcome_admit_not_voided: "outcome_admit p q \<Longrightarrow> out_state (body p) \<noteq> OutVoided"
  by (cases "out_state (body p)") (auto simp: outcome_admit_def)

lemma outcome_history_related:
  assumes "outcome_reach rows" "i < j" "j < length (history outcome_key k rows)"
  shows "out_task_id (body (history outcome_key k rows ! i)) =
           out_task_id (body (history outcome_key k rows ! j)) \<and>
         out_name (body (history outcome_key k rows ! i)) =
           out_name (body (history outcome_key k rows ! j)) \<and>
         out_state (body (history outcome_key k rows ! i)) \<noteq> OutVoided"
  by (rule outl.history_related [OF outcome_reach_ok [OF assms(1)] _ transp_outcome assms(2,3)])
    (auto dest: outcome_admit_not_voided simp: outcome_admit_def)

lemma sorted_contiguous: "contiguous revn h \<Longrightarrow> sort_key revn h = h"
proof (rule sort_key_id_if_sorted)
  assume "contiguous revn h"
  then have "map revn h = map int [1..<Suc (length h)]" by (simp add: contiguous_def)
  moreover have "sorted (map int [1..<Suc (length h)])"
    by (simp add: sorted_map sorted_wrt_upt del: upt_Suc)
  ultimately show "sorted (map revn h)" by simp
qed

lemma query_outcome_history_eq:
  "outcome_reach rows \<Longrightarrow> query_outcome_history rows k = map body (history outcome_key k rows)"
  using outcome_reach_ok [of rows] sorted_contiguous [of outcome_revn "history outcome_key k rows"]
  by (simp add: query_outcome_history_def ledger_ok_def) (simp add: history_def)

lemma outcome_history_revisions:
  assumes "outcome_reach rows"
  shows "map out_revision (query_outcome_history rows k) =
    map int [1..<Suc (length (query_outcome_history rows k))]"
proof -
  have "contiguous outcome_revn (history outcome_key k rows)"
    using outcome_reach_ok [OF assms] by (simp add: ledger_ok_def)
  then show ?thesis
    by (simp add: query_outcome_history_eq [OF assms] contiguous_def comp_def del: upt_Suc)
qed

section \<open>Properties\<close>

definition sample_outcome :: "outcome_state \<Rightarrow> int \<Rightarrow> outcome" where
  "sample_outcome s n =
     \<lparr>out_task_id = uuid_text 1, out_name = ''resolved'', out_state = s, out_id = uuid_text 2,
      out_revision = n, out_effective_at = sample_time 0, out_observed_at = sample_time 1,
      out_value = (if s = OutAchieved then Some \<lparr>ov_type = OVBoolean, ov_value = ScalarBool True\<rparr>
                   else None), out_schema = ''1''\<rparr>"

definition sample_outcomes :: outcome_rows where
  "sample_outcomes = [new_row (sample_outcome OutPending 1), new_row (sample_outcome OutAchieved 2)]"

lemma sample_outcome_made:
  "(n = 1 \<and> s = OutPending) \<or> (n = 2 \<and> s = OutAchieved) \<Longrightarrow>
   make_outcome (sample_outcome s n) = Inr (sample_outcome s n)"
  by (auto simp: make_outcome_def outcome_checks_def sample_outcome_def max_revision_def
      is_lower_alnum_def)

lemma sample_outcomes_reach: "outcome_reach sample_outcomes"
proof -
  have "outcome_reach [new_row (sample_outcome OutPending 1)]"
    by (rule out_insert [OF out_start sample_outcome_made [where n = 1 and s = OutPending]])
      (simp_all add: insert_outcome_def sample_outcome_def)
  then show ?thesis
    by (rule out_insert [OF _ sample_outcome_made [where n = 2 and s = OutAchieved]])
      (simp_all add: insert_outcome_def sample_outcome_def sample_outcomes_def new_row_def)
qed

text \<open>C28. In every reachable outcome table the history of an outcome, as the query returns it,
  has the revisions 1, 2, 3 and so on; two revisions of it have the same task and name, and
  only the last one can be voided.\<close>

theorem outcome_history_ok:
  assumes "outcome_reach rows" and h: "h = query_outcome_history rows k"
  shows "map out_revision h = map int [1..<Suc (length h)] \<and>
    (\<forall>j < length h. \<forall>i < j. out_task_id (h ! i) = out_task_id (h ! j) \<and>
       out_name (h ! i) = out_name (h ! j) \<and> out_state (h ! i) \<noteq> OutVoided)"
  unfolding h
  using outcome_history_revisions [OF assms(1)] outcome_history_related [OF assms(1), of _ _ k]
  by (auto simp: query_outcome_history_eq [OF assms(1)])

theorem outcome_history_ok_witness:
  "out_state (query_outcome_history sample_outcomes (uuid_text 2) ! 0) \<noteq> OutVoided"
  using outcome_history_ok [OF sample_outcomes_reach refl, of "uuid_text 2"]
  by (auto simp: query_outcome_history_def sample_outcomes_def new_row_def sample_outcome_def)

text \<open>Inserting an outcome revision is idempotent and append-only: a successful insert
  leaves the table as it was or adds one row at its end, and repeating it succeeds without
  changing the table.\<close>

lemma insert_outcome_idempotent:
  assumes "insert_outcome rows x = Inr rows'"
  shows "(rows' = rows \<or> rows' = rows @ [new_row x]) \<and> insert_outcome rows' x = Inr rows'"
proof -
  have c: "rows' = rows \<or> rows' = rows @ [new_row x]" by (rule outl.ins_cases [OF assms])
  show ?thesis
  proof (cases "find (\<lambda>r. out_id (body r) = out_id x \<and> out_revision (body r) = out_revision x) rows")
    case None
    with c assms show ?thesis
      by (auto simp: insert_outcome_def new_row_def find_append Let_def split: option.splits if_splits)
  next
    case (Some r)
    with assms have "rows' = rows" by (auto simp: insert_outcome_def split: if_splits)
    with assms show ?thesis by simp
  qed
qed

lemma insert_outcome_idempotent_witness:
  "insert_outcome [new_row (sample_outcome OutPending 1)] (sample_outcome OutPending 1) =
     Inr [new_row (sample_outcome OutPending 1)]"
proof -
  have "insert_outcome [] (sample_outcome OutPending 1) = Inr [new_row (sample_outcome OutPending 1)]"
    by (simp add: insert_outcome_def sample_outcome_def)
  from insert_outcome_idempotent [OF this] show ?thesis by simp
qed

text \<open>A validated outcome survives serialisation: its dictionary form reads back as the
  same revision.\<close>

lemma outcome_roundtrip:
  assumes "outcome_ready x"
  shows "\<exists>data. outcome_to_dict x = JObj data \<and> outcome_from_dict data = Inr x"
  using outcome_roundtrip_aux [OF assms] by (simp add: outcome_to_dict_def)

lemma sample_outcome_ready: "outcome_ready (sample_outcome OutAchieved 2)"
  using sample_outcome_made [where n = 2 and s = OutAchieved]
  by (simp add: outcome_ready_def sample_outcome_def uuid_text_canonical sample_time_ok)

lemma outcome_roundtrip_witness:
  "\<exists>data. outcome_to_dict (sample_outcome OutAchieved 2) = JObj data \<and>
     outcome_from_dict data = Inr (sample_outcome OutAchieved 2)"
  by (rule outcome_roundtrip [OF sample_outcome_ready])

end
