(* ===== verification/Observation_V3.thy ===== *)
theory Observation_V3
  imports Python_Text
begin

text \<open>
  The attribution-v3 observation validator, \<open>attribution/v3_validate.py\<close>: the timestamp
  reader, the cross-field checks of \<open>_semantic_issues\<close>, and the public entry points. The
  JSON-Schema validator is third-party code and is a parameter (\<open>schema_issues\<close>).

  An operation that may raise returns a sum; set membership of an unhashable value is the
  \<open>TypeError\<close> it is in Python.
\<close>

section \<open>Timestamps\<close>

text \<open>
  \<open>_timestamp\<close>: the regular expression, then \<open>fromisoformat(...).astimezone(utc)\<close>. The
  result is the instant; Inr None is the \<open>None\<close> of the source, and an instant outside the
  years 1 to 9999 makes \<open>astimezone\<close> raise \<open>OverflowError\<close>.
\<close>

definition fraction_digits :: "string \<Rightarrow> string" where
  "fraction_digits s = (if take 1 s = ''.'' then takeWhile is_digit (drop 1 s) else [])"

definition after_fraction :: "string \<Rightarrow> string" where
  "after_fraction s = (if take 1 s = ''.'' then dropWhile is_digit (drop 1 s) else s)"

definition zone_minutes :: "string \<Rightarrow> int option" where
  "zone_minutes z =
     (if z = ''Z'' then Some 0
      else case z of
        [sg, h1, h2, c, m1, m2] \<Rightarrow>
          if (sg = CHR ''+'' \<or> sg = CHR ''-'') \<and> c = CHR '':''
          then (case (read_digits 0 [h1, h2], read_digits 0 [m1, m2]) of
                  (Some h, Some m) \<Rightarrow>
                    Some ((if sg = CHR ''-'' then -1 else 1) * (int h * 60 + int m))
                | _ \<Rightarrow> None)
          else None
      | _ \<Rightarrow> None)"

definition first_instant :: int where "first_instant = 86400000000"
definition last_instant :: int where "last_instant = 3652060 * 86400000000"

definition timestamp :: "json \<Rightarrow> py_error + int option" where
  "timestamp v =
     (case v of
        JStr s \<Rightarrow>
          (let ds = fraction_digits (drop 19 s); zone = zone_minutes (after_fraction (drop 19 s))
           in if (take 1 (drop 19 s) = ''.'' \<and> (ds = [] \<or> 6 < length ds))
              then Inr None
              else
                case (fromisoformat (take 19 s @ ''+00:00''), zone,
                      read_digits 0 (ds @ replicate (6 - length ds) CHR ''0'')) of
                  (Some d, Some off, Some us) \<Rightarrow>
                    if 1440 \<le> \<bar>off\<bar> then Inr None
                    else
                      let i = instant (d\<lparr>microsecond := us\<rparr>) - off * 60000000
                      in if first_instant \<le> i \<and> i < last_instant then Inr (Some i)
                         else Inl (OverflowError ''date value out of range'')
                | _ \<Rightarrow> Inr None)
      | _ \<Rightarrow> Inr None)"

section \<open>Issues\<close>

type_synonym issue = "string \<times> string"

text \<open>Run checks in order; the first exception ends the run.\<close>

fun all_issues :: "(py_error + issue list) list \<Rightarrow> py_error + issue list" where
  "all_issues [] = Inr []"
| "all_issues (r # rs) =
     (case r of Inl e \<Rightarrow> Inl e
      | Inr xs \<Rightarrow> (case all_issues rs of Inl e \<Rightarrow> Inl e | Inr ys \<Rightarrow> Inr (xs @ ys)))"

definition issue_if :: "bool \<Rightarrow> string \<Rightarrow> string \<Rightarrow> issue list" where
  "issue_if b path msg = (if b then [(path, msg)] else [])"

definition timestamp_issue :: "json \<Rightarrow> string \<Rightarrow> py_error + issue list" where
  "timestamp_issue v path =
     (case timestamp v of Inl e \<Rightarrow> Inl e
      | Inr t \<Rightarrow> Inr (issue_if (t = None) path ''Must be a valid offset-aware ISO 8601 instant''))"

definition hashable :: "json \<Rightarrow> bool" where
  "hashable v = (case v of JArr xs \<Rightarrow> False | JObj kvs \<Rightarrow> False | _ \<Rightarrow> True)"

text \<open>\<open>v in {...}\<close> for a set of strings.\<close>

definition in_names :: "json \<Rightarrow> string list \<Rightarrow> py_error + bool" where
  "in_names v names =
     (if hashable v then Inr (v \<in> JStr ` set names) else Inl (TypeError ''unhashable type''))"

definition as_dict :: "json \<Rightarrow> obj option" where
  "as_dict v = (case v of JObj kvs \<Rightarrow> Some kvs | _ \<Rightarrow> None)"

definition as_list :: "json \<Rightarrow> json list" where
  "as_list v = (case v of JArr xs \<Rightarrow> xs | _ \<Rightarrow> [])"

definition has_key :: "string \<Rightarrow> obj \<Rightarrow> bool" where
  "has_key k kvs \<longleftrightarrow> k \<in> set (map fst kvs)"

section \<open>The usage period\<close>

definition period_issues :: "obj option \<Rightarrow> (py_error + issue list) list" where
  "period_issues period =
     (case period of
        None \<Rightarrow> []
      | Some p \<Rightarrow>
          timestamp_issue (dict_get p ''start_at'') ''usage_period.start_at'' #
          (if has_key ''end_at'' p
           then [timestamp_issue (dict_get p ''end_at'') ''usage_period.end_at'',
                 (case (timestamp (dict_get p ''start_at''), timestamp (dict_get p ''end_at'')) of
                    (Inl e, _) \<Rightarrow> Inl e
                  | (_, Inl e) \<Rightarrow> Inl e
                  | (Inr (Some s), Inr (Some e)) \<Rightarrow>
                      Inr (issue_if (e < s) ''usage_period.end_at'' ''Cannot precede start_at'')
                  | _ \<Rightarrow> Inr [])]
           else []))"

section \<open>Usage lines\<close>

text \<open>\<open>ATTRIBUTION_UNIT_BY_METRIC\<close> of \<open>attribution/types.py\<close>.\<close>

definition unit_by_metric :: "(string \<times> string) list" where
  "unit_by_metric =
     [(''input_tokens'', ''Tokens''), (''input_image_tokens'', ''Tokens''),
      (''output_image_tokens'', ''Tokens''), (''output_tokens'', ''Tokens''),
      (''cache_read_input_tokens'', ''Tokens''), (''cache_write_input_tokens'', ''Tokens''),
      (''reasoning_output_tokens'', ''Tokens''), (''characters'', ''Characters''),
      (''audio_seconds'', ''Seconds''), (''connected_seconds'', ''Seconds''),
      (''recording_seconds'', ''Seconds''), (''agent_seconds'', ''Seconds''),
      (''compute_seconds'', ''Seconds''), (''vcpu_seconds'', ''vCPU-Seconds''),
      (''memory_gib_seconds'', ''GiB-Seconds''), (''gpu_seconds'', ''GPU-Seconds''),
      (''request_count'', ''Requests''), (''call_count'', ''Calls''), (''bytes_in'', ''Bytes''),
      (''bytes_out'', ''Bytes''), (''image_count'', ''Images''), (''page_count'', ''Pages''),
      (''credit_count'', ''Credits''), (''provider_unit_count'', ''Provider-Units'')]"

definition time_metrics :: "string list" where
  "time_metrics = [''audio_seconds'', ''connected_seconds'', ''recording_seconds'',
     ''agent_seconds'', ''compute_seconds'', ''vcpu_seconds'', ''memory_gib_seconds'',
     ''gpu_seconds'']"

text \<open>A set of seen values grows only by hashable ones, and membership is Python's \<open>==\<close>.\<close>

definition seen_before :: "json list \<Rightarrow> json \<Rightarrow> bool" where
  "seen_before seen v \<longleftrightarrow> hashable v \<and> list_ex (\<lambda>w. py_eq w v) seen"

definition see :: "json \<Rightarrow> json list \<Rightarrow> json list" where
  "see v seen = (if hashable v then v # seen else seen)"

fun dimension_issues :: "nat \<Rightarrow> nat \<Rightarrow> json list \<Rightarrow> json list \<Rightarrow> issue list" where
  "dimension_issues i j seen [] = []"
| "dimension_issues i j seen (d # ds) =
     (case as_dict d of
        None \<Rightarrow> dimension_issues i (Suc j) seen ds
      | Some kvs \<Rightarrow>
          issue_if (seen_before seen (dict_get kvs ''key''))
            (''usage.'' @ show_nat i @ ''.dimensions.'' @ show_nat j @ ''.key'')
            ''Must be unique within the usage line'' @
          dimension_issues i (Suc j) (see (dict_get kvs ''key'') seen) ds)"

definition unit_issue :: "nat \<Rightarrow> obj \<Rightarrow> issue list" where
  "unit_issue i line =
     (case dict_get line ''metric'' of
        JStr m \<Rightarrow>
          (case map_of unit_by_metric m of
             None \<Rightarrow> []
           | Some u \<Rightarrow> issue_if (dict_get line ''unit'' \<noteq> JStr u)
                          (''usage.'' @ show_nat i @ ''.unit'') (''Must be '' @ u))
      | _ \<Rightarrow> [])"

fun usage_issues :: "nat \<Rightarrow> json list \<Rightarrow> json list \<Rightarrow> issue list" where
  "usage_issues i seen [] = []"
| "usage_issues i seen (l # ls) =
     (case as_dict l of
        None \<Rightarrow> usage_issues (Suc i) seen ls
      | Some line \<Rightarrow>
          issue_if (seen_before seen (dict_get line ''line_id''))
            (''usage.'' @ show_nat i @ ''.line_id'') ''Must be unique in a full snapshot'' @
          unit_issue i line @
          dimension_issues i 0 [] (as_list (dict_get line ''dimensions'')) @
          usage_issues (Suc i) (see (dict_get line ''line_id'') seen) ls)"

section \<open>The operation\<close>

definition attempt_issues :: "obj \<Rightarrow> issue list" where
  "attempt_issues attempt =
     issue_if (py_eq (dict_get attempt ''number'') (JInt 1) \<and> has_key ''retry_of'' attempt)
       ''operation.attempt.retry_of'' ''Attempt 1 cannot retry another attempt'' @
     issue_if ((case dict_get attempt ''number'' of JInt n \<Rightarrow> 1 < n | _ \<Rightarrow> False) \<and>
               \<not> has_key ''retry_of'' attempt)
       ''operation.attempt.retry_of'' ''Later attempts require retry_of'' @
     issue_if (dict_get attempt ''id'' \<noteq> JNull \<and>
               py_eq (dict_get attempt ''id'') (dict_get attempt ''retry_of''))
       ''operation.attempt.retry_of'' ''Attempt cannot retry itself''"

definition operation_issues :: "obj option \<Rightarrow> issue list" where
  "operation_issues operation =
     (case operation of
        None \<Rightarrow> []
      | Some op \<Rightarrow>
          (case as_dict (dict_get op ''attempt'') of None \<Rightarrow> [] | Some a \<Rightarrow> attempt_issues a) @
          issue_if (dict_get op ''status'' = JStr ''succeeded'' \<and> has_key ''error'' op)
            ''operation.error'' ''A succeeded operation cannot carry an error'')"

section \<open>The lifecycle\<close>

definition status_is :: "obj option \<Rightarrow> string \<Rightarrow> bool" where
  "status_is operation s \<longleftrightarrow>
     (case operation of None \<Rightarrow> False | Some op \<Rightarrow> dict_get op ''status'' = JStr s)"

definition period_closed :: "obj option \<Rightarrow> bool" where
  "period_closed period \<longleftrightarrow> (case period of None \<Rightarrow> False | Some p \<Rightarrow> has_key ''end_at'' p)"

definition state_issues ::
  "json \<Rightarrow> json \<Rightarrow> obj \<Rightarrow> obj option \<Rightarrow> obj option \<Rightarrow> obj option \<Rightarrow> json list \<Rightarrow> issue list" where
  "state_issues state revision event period operation cost usage =
     (if state = JStr ''pending'' then
        issue_if (usage \<noteq> []) ''usage'' ''Pending cannot assert usage'' @
        issue_if (has_key ''cost_evidence'' event) ''cost_evidence''
          ''Pending cannot assert cost evidence'' @
        issue_if (period_closed period) ''usage_period.end_at'' ''Pending cannot close usage''
      else if state = JStr ''provisional'' then
        issue_if (usage = []) ''usage'' ''Provisional requires usage'' @
        issue_if (case cost of None \<Rightarrow> False | Some c \<Rightarrow> dict_get c ''confidence'' = JStr ''exact'')
          ''cost_evidence.confidence'' ''Provisional cost cannot be exact''
      else if state = JStr ''final'' then
        issue_if (status_is operation ''in_progress'') ''operation.status''
          ''Final operation cannot be in progress'' @
        issue_if (status_is operation ''succeeded'' \<and> usage = []) ''usage''
          ''Successful final operation requires usage''
      else if state = JStr ''voided'' then
        issue_if (case revision of JInt n \<Rightarrow> n \<le> 1 | _ \<Rightarrow> True) ''lifecycle.revision''
          ''Voided revision must exceed 1'' @
        issue_if (usage \<noteq> []) ''usage'' ''Voided cannot assert usage'' @
        issue_if (has_key ''cost_evidence'' event) ''cost_evidence''
          ''Voided cannot assert cost evidence''
      else [])"

text \<open>\<open>any(isinstance(line, dict) and line.get("metric") in _TIME_METRICS for line in usage)\<close>.\<close>

fun any_time_metric :: "json list \<Rightarrow> py_error + bool" where
  "any_time_metric [] = Inr False"
| "any_time_metric (l # ls) =
     (case as_dict l of
        None \<Rightarrow> any_time_metric ls
      | Some line \<Rightarrow>
          (case in_names (dict_get line ''metric'') time_metrics of
             Inl e \<Rightarrow> Inl e
           | Inr b \<Rightarrow> if b then Inr True else any_time_metric ls))"

definition time_issues :: "json \<Rightarrow> json list \<Rightarrow> obj option \<Rightarrow> py_error + issue list" where
  "time_issues state usage period =
     (case in_names state [''provisional'', ''final''] of
        Inl e \<Rightarrow> Inl e
      | Inr False \<Rightarrow> Inr []
      | Inr True \<Rightarrow>
          (case any_time_metric usage of
             Inl e \<Rightarrow> Inl e
           | Inr b \<Rightarrow> Inr (issue_if (b \<and> \<not> period_closed period) ''usage_period.end_at''
                              ''Time-based usage requires a closed period'')))"

section \<open>Cost evidence\<close>

definition cost_issues :: "obj \<Rightarrow> (py_error + issue list) list" where
  "cost_issues c =
     [Inr (issue_if (dict_get c ''amount'' = JStr ''0'' \<and>
                     (dict_get c ''source'' \<noteq> JStr ''provider_reported'' \<or>
                      dict_get c ''confidence'' \<noteq> JStr ''exact''))
             ''cost_evidence.amount'' ''Zero requires exact provider-reported evidence''),
      (if dict_get c ''source'' = JStr ''provider_reported''
       then (case in_names (dict_get c ''confidence'') [''exact'', ''estimated''] of
               Inl e \<Rightarrow> Inl e
             | Inr b \<Rightarrow> Inr (issue_if (\<not> b) ''cost_evidence.confidence''
                                ''Provider-reported evidence must be exact or estimated''))
       else Inr []),
      (case in_names (dict_get c ''source'') [''sdk_catalog'', ''sdk_rate_registry''] of
         Inl e \<Rightarrow> Inl e
       | Inr False \<Rightarrow> Inr []
       | Inr True \<Rightarrow>
           Inr (issue_if (dict_get c ''confidence'' = JStr ''exact'') ''cost_evidence.confidence''
                  ''SDK evidence cannot be exact'' @
                issue_if (case dict_get c ''pricing_version'' of JStr s \<Rightarrow> s = [] | _ \<Rightarrow> True)
                  ''cost_evidence.pricing_version'' ''SDK evidence requires a pricing version''))]"

section \<open>The validator\<close>

definition semantic_issues :: "json \<Rightarrow> py_error + issue list" where
  "semantic_issues v =
     (case v of
        JObj event \<Rightarrow>
          (let period = as_dict (dict_get event ''usage_period'');
               usage = as_list (dict_get event ''usage'');
               operation = as_dict (dict_get event ''operation'');
               lifecycle = as_dict (dict_get event ''lifecycle'');
               state = (case lifecycle of None \<Rightarrow> JNull | Some l \<Rightarrow> dict_get l ''state'');
               revision = (case lifecycle of None \<Rightarrow> JNull | Some l \<Rightarrow> dict_get l ''revision'');
               cost = as_dict (dict_get event ''cost_evidence'')
           in all_issues (
                [timestamp_issue (dict_get event ''occurred_at'') ''occurred_at'',
                 timestamp_issue (dict_get event ''observed_at'') ''observed_at''] @
                period_issues period @
                [Inr (usage_issues 0 [] usage), Inr (operation_issues operation),
                 Inr (state_issues state revision event period operation cost usage),
                 time_issues state usage period] @
                (case cost of None \<Rightarrow> [] | Some c \<Rightarrow> cost_issues c)))
      | _ \<Rightarrow> Inr [])"

text \<open>\<open>dict.fromkeys\<close>: first occurrences, in order.\<close>

definition unique :: "'a list \<Rightarrow> 'a list" where
  "unique xs = rev (remdups (rev xs))"

definition validate_v3 :: "(json \<Rightarrow> issue list) \<Rightarrow> json \<Rightarrow> py_error + bool \<times> issue list" where
  "validate_v3 schema_issues v =
     (case semantic_issues v of
        Inl e \<Rightarrow> Inl e
      | Inr xs \<Rightarrow> (let u = unique (schema_issues v @ xs) in Inr (u = [], u)))"

definition assert_v3 :: "(json \<Rightarrow> issue list) \<Rightarrow> json \<Rightarrow> py_error option" where
  "assert_v3 schema_issues v =
     (case validate_v3 schema_issues v of
        Inl e \<Rightarrow> Some e
      | Inr (ok, issues) \<Rightarrow>
          if ok then None
          else Some (ValueError (join ''; '' (map (\<lambda>(p, m). p @ '': '' @ m) issues))))"

end
