(* ===== verification/Provider_Jobs.thy ===== *)
theory Provider_Jobs
  imports Outcomes Observation_V3 "HOL-Library.Word"
begin

unbundle bit_operations_syntax

text \<open>
  Asynchronous provider jobs: the capability identity (\<open>models/capability.py\<close>), the job
  revision and its conversion to an attribution-v3 observation
  (\<open>models/provider_job.py\<close>), and the provider-job ledger of \<open>storage/sqlite.py\<close>.

  The SHA-256 digest is a parameter, \<open>sha\<close>: it maps a text to the bytes of the digest of
  its UTF-8 encoding.
\<close>

type_synonym digest_fun = "string \<Rightarrow> 8 word list"

section \<open>Capability identity\<close>

record capability =
  cap_name :: string
  cap_kind :: string
  cap_namespace :: "string option"
  cap_version :: "string option"
  cap_source :: "string option"
  cap_source_id :: "string option"
  cap_invocation :: "string option"

definition capability_kinds :: "string list" where
  "capability_kinds = [''tool'', ''skill'', ''workflow'', ''extension'', ''other'']"

definition capability_sources :: "string list" where
  "capability_sources = [''built_in'', ''project'', ''user'', ''plugin'', ''marketplace'',
     ''remote'', ''other'']"

definition capability_invocations :: "string list" where
  "capability_invocations = [''explicit'', ''automatic'', ''nested'', ''scheduled'', ''remote'',
     ''other'']"

definition holds_opt :: "('a \<Rightarrow> bool) \<Rightarrow> 'a option \<Rightarrow> bool" where
  "holds_opt P x = (case x of None \<Rightarrow> True | Some a \<Rightarrow> P a)"

text \<open>\<open>CapabilityIdentity.__post_init__\<close>.\<close>

definition capability_checks :: "capability \<Rightarrow> (bool \<times> py_error) list" where
  "capability_checks c =
     [(\<not> canonical_name (cap_name c),
         ValueError ''capability name must be a canonical lowercase identifier''),
      (cap_kind c \<notin> set capability_kinds, ValueError ''unsupported capability kind''),
      (\<not> holds_opt canonical_name (cap_namespace c),
         ValueError ''capability namespace must be a canonical lowercase identifier''),
      (\<not> holds_opt (bounded_text 128) (cap_version c),
         ValueError ''capability version must contain 1 to 128 characters''),
      (\<not> holds_opt (\<lambda>s. s \<in> set capability_sources) (cap_source c),
         ValueError ''unsupported capability source''),
      (\<not> holds_opt (bounded_text 256) (cap_source_id c),
         ValueError ''capability source_id must contain 1 to 256 characters''),
      (cap_source_id c \<noteq> None \<and> cap_source c = None,
         ValueError ''capability source_id requires source''),
      (\<not> holds_opt (\<lambda>s. s \<in> set capability_invocations) (cap_invocation c),
         ValueError ''unsupported capability invocation'')]"

definition make_capability :: "capability \<Rightarrow> py_error + capability" where
  "make_capability c =
     (case first_error (capability_checks c) of Some e \<Rightarrow> Inl e | None \<Rightarrow> Inr c)"

definition opt_item :: "string \<Rightarrow> string option \<Rightarrow> obj" where
  "opt_item k x = (case x of None \<Rightarrow> [] | Some s \<Rightarrow> [(k, JStr s)])"

definition capability_to_dict :: "capability \<Rightarrow> obj" where
  "capability_to_dict c =
     [(''name'', JStr (cap_name c)), (''kind'', JStr (cap_kind c))] @
     opt_item ''namespace'' (cap_namespace c) @ opt_item ''version'' (cap_version c) @
     opt_item ''source'' (cap_source c) @ opt_item ''source_id'' (cap_source_id c) @
     opt_item ''invocation'' (cap_invocation c)"

definition capability_fields :: "string list" where
  "capability_fields = [''name'', ''kind'', ''namespace'', ''version'', ''source'',
     ''source_id'', ''invocation'']"

text \<open>An optional text field: absent or None, a text, or a value the constructor rejects.\<close>

definition opt_text :: "json \<Rightarrow> (string option) option" where
  "opt_text v = (case v of JNull \<Rightarrow> Some None | JStr s \<Rightarrow> Some (Some s) | _ \<Rightarrow> None)"

text \<open>\<open>CapabilityIdentity.from_dict\<close>; a non-text field fails the checks of the constructor.\<close>

definition capability_from_dict :: "json \<Rightarrow> py_error + capability" where
  "capability_from_dict v =
     (case as_dict v of
        None \<Rightarrow> Inl (TypeError ''capability identity must be a dictionary'')
      | Some kvs \<Rightarrow>
          if \<not> set (map fst kvs) \<subseteq> set capability_fields
          then Inl (ValueError ''unknown capability identity fields'')
          else if \<not> has_key ''name'' kvs \<or> \<not> has_key ''kind'' kvs
          then Inl (ValueError ''capability identity requires a field'')
          else
            (case (dict_get kvs ''name'', dict_get kvs ''kind'', opt_text (dict_get kvs ''namespace''),
                   opt_text (dict_get kvs ''version''), opt_text (dict_get kvs ''source''),
                   opt_text (dict_get kvs ''source_id''), opt_text (dict_get kvs ''invocation'')) of
               (JStr n, JStr k, Some ns, Some ver, Some src, Some sid, Some iv) \<Rightarrow>
                 make_capability
                   \<lparr>cap_name = n, cap_kind = k, cap_namespace = ns, cap_version = ver,
                    cap_source = src, cap_source_id = sid, cap_invocation = iv\<rparr>
             | _ \<Rightarrow> Inl (ValueError ''invalid capability identity field'')))"

lemma capability_roundtrip_aux:
  assumes "make_capability c = Inr c"
  shows "capability_from_dict (JObj (capability_to_dict c)) = Inr c"
proof -
  let ?d = "capability_to_dict c"
  have keys: "set (map fst ?d) \<subseteq> set capability_fields" "has_key ''name'' ?d" "has_key ''kind'' ?d"
    by (auto simp: capability_to_dict_def opt_item_def capability_fields_def has_key_def
        split: option.splits)
  have get: "dict_get ?d ''name'' = JStr (cap_name c)" "dict_get ?d ''kind'' = JStr (cap_kind c)"
      "opt_text (dict_get ?d ''namespace'') = Some (cap_namespace c)"
      "opt_text (dict_get ?d ''version'') = Some (cap_version c)"
      "opt_text (dict_get ?d ''source'') = Some (cap_source c)"
      "opt_text (dict_get ?d ''source_id'') = Some (cap_source_id c)"
      "opt_text (dict_get ?d ''invocation'') = Some (cap_invocation c)"
    by (cases "cap_namespace c"; cases "cap_version c"; cases "cap_source c";
        cases "cap_source_id c"; cases "cap_invocation c";
        simp add: capability_to_dict_def opt_item_def dict_get_def opt_text_def)+
  have eq: "\<lparr>cap_name = cap_name c, cap_kind = cap_kind c, cap_namespace = cap_namespace c,
      cap_version = cap_version c, cap_source = cap_source c, cap_source_id = cap_source_id c,
      cap_invocation = cap_invocation c\<rparr> = c"
    by (rule capability.equality) simp_all
  show ?thesis
    using keys assms by (simp add: capability_from_dict_def as_dict_def get eq)
qed

section \<open>Deterministic identities\<close>

definition bytes_value :: "8 word list \<Rightarrow> nat" where
  "bytes_value bs = foldl (\<lambda>a b. a * 256 + unat b) 0 bs"

text \<open>\<open>_deterministic_uuid\<close>: a digest with the version and variant bits of a UUID.\<close>

definition deterministic_uuid :: "digest_fun \<Rightarrow> string \<Rightarrow> string list \<Rightarrow> uuid" where
  "deterministic_uuid sha namespace parts =
     (let digest = take 16 (sha (join [char_of (0::nat)] (namespace # parts)));
          d6 = digest[6 := (digest ! 6 AND 0x0F) OR 0x50];
          d8 = d6[8 := (d6 ! 8 AND 0x3F) OR 0x80]
      in uuid_text (bytes_value d8))"

definition provider_job_event_id :: "digest_fun \<Rightarrow> string \<Rightarrow> string \<Rightarrow> string \<Rightarrow> uuid" where
  "provider_job_event_id sha provider service record_id =
     deterministic_uuid sha ''dexcost:provider-job:v1'' [provider, service, record_id]"

section \<open>Job revisions\<close>

text \<open>The expression \<open>^[A-Za-z0-9][A-Za-z0-9._{}/*^+-]{0,63}$\<close> of \<open>_UNIT\<close>.\<close>

definition is_alnum :: "char \<Rightarrow> bool" where
  "is_alnum c \<longleftrightarrow> is_lower_alnum c \<or> (CHR ''A'' \<le> c \<and> c \<le> CHR ''Z'')"

fun unit_name :: "string \<Rightarrow> bool" where
  "unit_name [] = False"
| "unit_name (c # cs) =
     (is_alnum c \<and> length cs \<le> 63 \<and>
      list_all (\<lambda>d. is_alnum d \<or> d \<in> set ''._{}/*^+-'') cs)"

record usage_line =
  ul_metric :: string
  ul_quantity :: dec
  ul_unit :: string

text \<open>\<open>ProviderJobUsageLine.__post_init__\<close>, on a parsed quantity.\<close>

definition usage_line_checks :: "usage_line \<Rightarrow> (bool \<times> py_error) list" where
  "usage_line_checks l =
     [(\<not> canonical_name (ul_metric l),
         ValueError ''provider job usage metric must be a canonical lowercase identifier''),
      (\<not> unit_name (ul_unit l), ValueError ''provider job usage unit is invalid''),
      (coeff (ul_quantity l) < 0, ValueError ''quantity must be finite and non-negative''),
      (coeff (ul_quantity l) \<le> 0, ValueError ''provider job usage quantities must be positive'')]"

definition make_usage_line :: "usage_line \<Rightarrow> py_error + usage_line" where
  "make_usage_line l =
     (case first_error (usage_line_checks l) of Some e \<Rightarrow> Inl e | None \<Rightarrow> Inr l)"

definition usage_line_to_dict :: "usage_line \<Rightarrow> obj" where
  "usage_line_to_dict l =
     [(''metric'', JStr (ul_metric l)), (''quantity'', JStr (canonical_decimal (ul_quantity l))),
      (''unit'', JStr (ul_unit l))]"

definition usage_line_from_dict :: "obj \<Rightarrow> py_error + usage_line" where
  "usage_line_from_dict v =
     (case decimal_of_text (py_str (dict_get v ''quantity'')) of
        DecFinite q \<Rightarrow>
          make_usage_line \<lparr>ul_metric = py_str (dict_get v ''metric''), ul_quantity = q,
            ul_unit = py_str (dict_get v ''unit'')\<rparr>
      | DecNonFinite \<Rightarrow> Inl (ValueError ''quantity must be finite and non-negative'')
      | DecInvalid \<Rightarrow> Inl (ValueError ''quantity must be a plain decimal''))"

datatype job_status = JobSubmitted | JobRunning | JobSucceeded | JobFailed | JobCancelled | JobUnknown

fun job_status_text :: "job_status \<Rightarrow> string" where
  "job_status_text JobSubmitted = ''submitted''"
| "job_status_text JobRunning = ''running''"
| "job_status_text JobSucceeded = ''succeeded''"
| "job_status_text JobFailed = ''failed''"
| "job_status_text JobCancelled = ''cancelled''"
| "job_status_text JobUnknown = ''unknown''"

record provider_job =
  job_event_id :: uuid
  job_revision :: int
  job_task_id :: uuid
  job_provider :: string
  job_service :: string
  job_record_id :: string
  job_operation :: string
  job_component :: string
  job_event_type :: string
  job_resource_type :: string
  job_resource_id :: string
  job_status :: job_status
  job_submitted_at :: dt
  job_observed_at :: dt
  job_owns_task :: bool
  job_dimensions :: "(string \<times> string) list"
  job_usage :: "usage_line list"
  job_cost_amount :: "dec option"
  job_cost_source :: "string option"
  job_cost_confidence :: "string option"
  job_pricing_version :: "string option"
  job_latency_ms :: "int option"
  job_error_type :: "string option"
  job_error_code :: "string option"
  job_input_tokens :: "int option"
  job_output_tokens :: "int option"
  job_cached_tokens :: "int option"
  job_capability :: "capability option"
  job_schema :: string

definition pending_status :: "job_status \<Rightarrow> bool" where
  "pending_status s \<longleftrightarrow> s \<in> {JobSubmitted, JobRunning}"

text \<open>The \<open>terminal\<close>, \<open>lifecycle_state\<close> and \<open>operation_status\<close> properties.\<close>

definition terminal_status :: "job_status \<Rightarrow> bool" where
  "terminal_status s \<longleftrightarrow> s \<in> {JobSucceeded, JobFailed, JobCancelled, JobUnknown}"

definition lifecycle_state :: "provider_job \<Rightarrow> string" where
  "lifecycle_state j = (if terminal_status (job_status j) then ''final'' else ''pending'')"

definition operation_status :: "provider_job \<Rightarrow> string" where
  "operation_status j =
     (if \<not> terminal_status (job_status j) then ''in_progress'' else job_status_text (job_status j))"

definition event_types :: "string list" where
  "event_types = [''llm_call'', ''external_cost'', ''compute_cost'']"

definition resource_types :: "string list" where
  "resource_types = [''model'', ''sku'', ''instance'', ''endpoint'', ''session'', ''other'', ''tool'']"

definition cost_sources :: "string list" where
  "cost_sources = [''provider_reported'', ''sdk_catalog'', ''sdk_rate_registry'', ''manual'']"

definition cost_confidences :: "string list" where
  "cost_confidences = [''exact'', ''computed'', ''estimated'', ''unknown'']"

section \<open>The checks of a job revision\<close>

text \<open>The identity, resource and dimension checks of \<open>ProviderJobRevision.__post_init__\<close>.\<close>

fun dimension_checks :: "string list \<Rightarrow> (string \<times> string) list \<Rightarrow> (bool \<times> py_error) list" where
  "dimension_checks seen [] = []"
| "dimension_checks seen ((k, v) # ds) =
     (\<not> canonical_name k, ValueError ''billing dimension key must be a canonical identifier'') #
     (\<not> bounded_text 256 v, ValueError ''billing dimension value must contain 1 to 256 characters'') #
     (k \<in> set seen, ValueError ''duplicate provider job billing dimension'') #
     dimension_checks (k # seen) ds"

definition identity_checks :: "provider_job \<Rightarrow> (bool \<times> py_error) list" where
  "identity_checks j =
     [(\<not> (1 \<le> job_revision j \<and> job_revision j \<le> max_revision),
         ValueError ''provider job revision must be between 1 and 2147483647''),
      (\<not> canonical_name (job_provider j), ValueError ''provider must be a canonical identifier''),
      (\<not> canonical_name (job_service j), ValueError ''service must be a canonical identifier''),
      (\<not> bounded_text 256 (job_record_id j),
         ValueError ''provider_record_id must contain 1 to 256 characters''),
      (\<not> canonical_name (job_operation j), ValueError ''operation must be a canonical identifier''),
      (\<not> canonical_name (job_component j), ValueError ''component must be a canonical identifier''),
      (job_event_type j \<notin> set event_types, ValueError ''unsupported provider job event_type''),
      (job_resource_type j \<notin> set resource_types,
         ValueError ''unsupported provider job resource_type''),
      (\<not> bounded_text 256 (job_resource_id j),
         ValueError ''resource_id must contain 1 to 256 characters''),
      (dt_key (job_observed_at j) < dt_key (job_submitted_at j),
         ValueError ''provider job observed_at cannot precede submitted_at''),
      (24 < length (job_dimensions j),
         ValueError ''provider job supports at most 24 billing dimensions'')] @
     dimension_checks [] (job_dimensions j) @
     [(job_schema j \<noteq> ''1'', ValueError ''unsupported provider job schema version'')]"

text \<open>The usage and cost checks.\<close>

fun usage_checks :: "(string \<times> string) list \<Rightarrow> usage_line list \<Rightarrow> (bool \<times> py_error) list" where
  "usage_checks seen [] = []"
| "usage_checks seen (l # ls) =
     ((ul_metric l, ul_unit l) \<in> set seen, ValueError ''duplicate provider job usage line'') #
     usage_checks ((ul_metric l, ul_unit l) # seen) ls"

definition cost_asserted :: "provider_job \<Rightarrow> bool" where
  "cost_asserted j \<longleftrightarrow>
     job_cost_amount j \<noteq> None \<or> job_cost_source j \<noteq> None \<or> job_cost_confidence j \<noteq> None"

definition cost_complete :: "provider_job \<Rightarrow> bool" where
  "cost_complete j \<longleftrightarrow>
     job_cost_amount j \<noteq> None \<and> job_cost_source j \<noteq> None \<and> job_cost_confidence j \<noteq> None"

definition exact_provider_zero :: "provider_job \<Rightarrow> bool" where
  "exact_provider_zero j \<longleftrightarrow>
     job_cost_source j = Some ''provider_reported'' \<and> job_cost_confidence j = Some ''exact'' \<and>
     job_status j = JobSucceeded"

definition cost_checks :: "provider_job \<Rightarrow> (bool \<times> py_error) list" where
  "cost_checks j =
     (if cost_asserted j then
        [(\<not> cost_complete j,
            ValueError ''provider job cost amount, source, and confidence are atomic''),
         ((case job_cost_amount j of None \<Rightarrow> False | Some a \<Rightarrow> coeff a < 0),
            ValueError ''cost_amount must be finite and non-negative''),
         ((case job_cost_amount j of None \<Rightarrow> False | Some a \<Rightarrow> coeff a = 0) \<and>
          \<not> exact_provider_zero j,
            ValueError ''zero provider job cost requires succeeded exact provider evidence''),
         (\<not> holds_opt (\<lambda>s. s \<in> set cost_sources) (job_cost_source j),
            ValueError ''unsupported provider job cost source''),
         (\<not> holds_opt (\<lambda>s. s \<in> set cost_confidences) (job_cost_confidence j),
            ValueError ''unsupported provider job cost confidence''),
         (job_cost_source j = Some ''provider_reported'' \<and>
          \<not> holds_opt (\<lambda>s. s \<in> {''exact'', ''estimated''}) (job_cost_confidence j),
            ValueError ''provider-reported cost must be exact or estimated''),
         (job_cost_source j \<in> {Some ''sdk_catalog'', Some ''sdk_rate_registry''} \<and>
          (job_cost_confidence j = Some ''exact'' \<or> job_pricing_version j \<in> {None, Some []}),
            ValueError ''SDK provider-job cost requires non-exact confidence and pricing_version'')]
      else
        [(job_pricing_version j \<noteq> None, ValueError ''pricing_version requires cost evidence'')])"

definition economic_checks :: "provider_job \<Rightarrow> (bool \<times> py_error) list" where
  "economic_checks j =
     usage_checks [] (job_usage j) @
     [(pending_status (job_status j) \<and> job_usage j \<noteq> [],
         ValueError ''pending provider jobs cannot assert usage''),
      (pending_status (job_status j) \<and> (cost_asserted j \<or> job_pricing_version j \<noteq> None),
         ValueError ''pending provider jobs cannot assert cost evidence''),
      (job_status j = JobSucceeded \<and> job_usage j = [],
         ValueError ''successful provider jobs require provider-observed usage'')] @
     cost_checks j"

text \<open>The latency, error and counter checks, and the identity check that ends the constructor.\<close>

definition diagnostic_checks :: "digest_fun \<Rightarrow> provider_job \<Rightarrow> (bool \<times> py_error) list" where
  "diagnostic_checks sha j =
     [(\<not> holds_opt (\<lambda>n. 0 \<le> n \<and> n \<le> 86400000) (job_latency_ms j),
         ValueError ''latency_ms must be between 0 and 86400000''),
      (\<not> holds_opt canonical_name (job_error_type j),
         ValueError ''error_type must be a canonical identifier''),
      (job_error_type j \<noteq> None \<and> job_status j = JobSucceeded,
         ValueError ''successful provider jobs cannot carry an error''),
      (\<not> holds_opt (bounded_text 64) (job_error_code j),
         ValueError ''error_code must contain 1 to 64 characters''),
      (job_error_code j \<noteq> None \<and> job_error_type j = None,
         ValueError ''error_code requires error_type''),
      (\<not> holds_opt (\<lambda>n. 0 \<le> n) (job_input_tokens j),
         ValueError ''task_input_tokens must be a non-negative integer or None''),
      (\<not> holds_opt (\<lambda>n. 0 \<le> n) (job_output_tokens j),
         ValueError ''task_output_tokens must be a non-negative integer or None''),
      (\<not> holds_opt (\<lambda>n. 0 \<le> n) (job_cached_tokens j),
         ValueError ''task_cached_tokens must be a non-negative integer or None''),
      (job_event_id j \<noteq>
         provider_job_event_id sha (job_provider j) (job_service j) (job_record_id j),
         ValueError ''provider job event_id does not match its provider identity'')]"

definition make_provider_job :: "digest_fun \<Rightarrow> provider_job \<Rightarrow> py_error + provider_job" where
  "make_provider_job sha j =
     (case first_error (identity_checks j @ economic_checks j @ diagnostic_checks sha j) of
        Some e \<Rightarrow> Inl e | None \<Rightarrow> Inr j)"

section \<open>Serialisation\<close>

definition dimension_dict :: "string \<times> string \<Rightarrow> json" where
  "dimension_dict d = JObj [(''key'', JStr (fst d)), (''value'', JStr (snd d))]"

definition job_to_dict :: "provider_job \<Rightarrow> obj" where
  "job_to_dict j =
     [(''schema_version'', JStr (job_schema j)),
      (''event_id'', JStr (job_event_id j)),
      (''revision'', JInt (job_revision j)),
      (''task_id'', JStr (job_task_id j)),
      (''provider'', JStr (job_provider j)),
      (''service'', JStr (job_service j)),
      (''provider_record_id'', JStr (job_record_id j)),
      (''operation'', JStr (job_operation j)),
      (''component'', JStr (job_component j)),
      (''event_type'', JStr (job_event_type j)),
      (''resource_type'', JStr (job_resource_type j)),
      (''resource_id'', JStr (job_resource_id j)),
      (''status'', JStr (job_status_text (job_status j))),
      (''submitted_at'', JStr (iso_canonical (job_submitted_at j))),
      (''observed_at'', JStr (iso_canonical (job_observed_at j))),
      (''owns_task'', JBool (job_owns_task j)),
      (''billing_dimensions'', JArr (map dimension_dict (job_dimensions j))),
      (''usage'', JArr (map (JObj \<circ> usage_line_to_dict) (job_usage j))),
      (''cost_amount'', opt_str (map_option canonical_decimal (job_cost_amount j))),
      (''cost_source'', opt_str (job_cost_source j)),
      (''cost_confidence'', opt_str (job_cost_confidence j)),
      (''pricing_version'', opt_str (job_pricing_version j)),
      (''latency_ms'', opt_int (job_latency_ms j)),
      (''error_type'', opt_str (job_error_type j)),
      (''error_code'', opt_str (job_error_code j)),
      (''task_input_tokens'', opt_int (job_input_tokens j)),
      (''task_output_tokens'', opt_int (job_output_tokens j)),
      (''task_cached_tokens'', opt_int (job_cached_tokens j)),
      (''capability'', case job_capability j of None \<Rightarrow> JNull | Some c \<Rightarrow> JObj (capability_to_dict c))]"

text \<open>What makes a repeated provider poll idempotent: everything but revision and poll time.\<close>

definition economic_snapshot :: "provider_job \<Rightarrow> obj" where
  "economic_snapshot j = dict_pop (dict_pop (job_to_dict j) ''revision'') ''observed_at''"

section \<open>Conversion to an attribution-v3 observation\<close>

definition observation_dimensions :: "provider_job \<Rightarrow> json" where
  "observation_dimensions j =
     JArr (map (\<lambda>(k, v). JObj [(''key'', JStr k),
       (''value'', JObj [(''type'', JStr ''string''), (''value'', JStr v)])]) (job_dimensions j))"

definition line_id :: "digest_fun \<Rightarrow> provider_job \<Rightarrow> usage_line \<Rightarrow> uuid" where
  "line_id sha j l =
     deterministic_uuid sha ''dexcost:provider-job-usage-line:v1''
       [job_event_id j, ul_metric l, ul_unit l,
        json_dump False '','' '':'' (observation_dimensions j)]"

definition observation_line :: "digest_fun \<Rightarrow> provider_job \<Rightarrow> usage_line \<Rightarrow> json" where
  "observation_line sha j l =
     JObj ((''line_id'', JStr (line_id sha j l)) # usage_line_to_dict l @
           [(''dimensions'', observation_dimensions j)])"

definition observation_operation :: "provider_job \<Rightarrow> obj" where
  "observation_operation j =
     [(''id'', JStr (job_event_id j)), (''name'', JStr (job_operation j)),
      (''status'', JStr (operation_status j)),
      (''attempt'', JObj [(''id'', JStr (job_event_id j)), (''number'', JInt 1)])] @
     (case job_latency_ms j of None \<Rightarrow> [] | Some n \<Rightarrow> [(''latency_ms'', JInt n)]) @
     (case job_error_type j of
        None \<Rightarrow> []
      | Some t \<Rightarrow> [(''error'', JObj ((''type'', JStr t) # opt_item ''code'' (job_error_code j)))])"

definition observation_region :: "provider_job \<Rightarrow> obj" where
  "observation_region j =
     (case map_of (job_dimensions j) ''region'' of
        None \<Rightarrow> []
      | Some r \<Rightarrow> if canonical_name r then [(''region'', JStr r)] else [])"

definition observation_cost :: "provider_job \<Rightarrow> obj" where
  "observation_cost j =
     (case job_cost_amount j of
        None \<Rightarrow> []
      | Some a \<Rightarrow>
          [(''cost_evidence'', JObj ([(''amount'', JStr (canonical_decimal a)),
             (''currency'', JStr ''USD''),
             (''source'', opt_str (job_cost_source j)),
             (''confidence'', opt_str (job_cost_confidence j))] @
             opt_item ''pricing_version'' (job_pricing_version j)))])"

definition observation :: "digest_fun \<Rightarrow> string option \<Rightarrow> provider_job \<Rightarrow> obj" where
  "observation sha environment j =
     [(''schema_version'', JStr ''3''),
      (''event_id'', JStr (job_event_id j)),
      (''task_id'', JStr (job_task_id j)),
      (''occurred_at'', JStr (iso_canonical (job_submitted_at j))),
      (''observed_at'', JStr (iso_canonical (job_observed_at j))),
      (''component'', JStr (job_component j)),
      (''provider'', JObj ([(''name'', JStr (job_provider j)), (''service'', JStr (job_service j)),
         (''record_id'', JStr (job_record_id j))] @ observation_region j)),
      (''resource'', JObj [(''type'', JStr (job_resource_type j)), (''id'', JStr (job_resource_id j))]),
      (''operation'', JObj (observation_operation j)),
      (''lifecycle'', JObj [(''state'', JStr (lifecycle_state j)), (''revision'', JInt (job_revision j))]),
      (''usage_snapshot'', JStr ''full''),
      (''usage_period'', JObj ((''start_at'', JStr (iso_canonical (job_submitted_at j))) #
         (if terminal_status (job_status j)
          then [(''end_at'', JStr (iso_canonical (job_observed_at j)))] else []))),
      (''usage'', JArr (map (observation_line sha j) (job_usage j)))] @
     opt_item ''environment'' environment @
     (case job_capability j of None \<Rightarrow> [] | Some c \<Rightarrow> [(''capability'', JObj (capability_to_dict c))]) @
     observation_cost j"

definition to_attribution_observation ::
  "(json \<Rightarrow> issue list) \<Rightarrow> digest_fun \<Rightarrow> string option \<Rightarrow> provider_job \<Rightarrow> py_error + json" where
  "to_attribution_observation schema_issues sha environment j =
     (let result = JObj (observation sha environment j)
      in case assert_v3 schema_issues result of Some e \<Rightarrow> Inl e | None \<Rightarrow> Inr result)"

section \<open>The provider-job ledger\<close>

type_synonym job_rows = "provider_job qrow list"

definition job_identity :: "provider_job \<Rightarrow> _" where
  "job_identity j =
     (job_task_id j, job_provider j, job_service j, job_record_id j, job_operation j,
      job_component j, job_event_type j, job_resource_type j, job_resource_id j,
      job_submitted_at j, job_owns_task j, job_dimensions j, job_capability j)"

definition insert_provider_job_revision :: "job_rows \<Rightarrow> provider_job \<Rightarrow> py_error + job_rows" where
  "insert_provider_job_revision rows j =
     (case find (\<lambda>r. job_event_id (body r) = job_event_id j \<and>
                     job_revision (body r) = job_revision j) rows of
        Some same \<Rightarrow>
          if job_to_dict (body same) = job_to_dict j then Inr rows
          else Inl (ValueError ''already exists with different contents'')
      | None \<Rightarrow>
          (let previous = latest_by (\<lambda>r. job_revision (body r))
                            (filter (\<lambda>r. job_event_id (body r) = job_event_id j) rows);
               expected = (case previous of None \<Rightarrow> 0 | Some p \<Rightarrow> job_revision (body p)) + 1
           in if job_revision j \<noteq> expected
              then Inl (ValueError ''expected revision'')
              else
                (case previous of
                   None \<Rightarrow> Inr (rows @ [new_row j])
                 | Some q \<Rightarrow>
                     (let p = body q in
                      if job_identity p \<noteq> job_identity j
                      then Inl (ValueError ''a provider job cannot change identity across revisions'')
                      else if dt_key (job_observed_at j) < dt_key (job_observed_at p)
                      then Inl (ValueError ''provider job observed_at cannot move backwards'')
                      else if \<not> pending_status (job_status p) \<and> pending_status (job_status j)
                      then Inl (ValueError ''a terminal provider job cannot return to pending'')
                      else if job_status p = JobRunning \<and> job_status j = JobSubmitted
                      then Inl (ValueError ''a running provider job cannot return to submitted'')
                      else Inr (rows @ [new_row j])))))"

definition query_provider_job_history :: "job_rows \<Rightarrow> uuid \<Rightarrow> provider_job list" where
  "query_provider_job_history rows eid =
     map body (sort_key (\<lambda>r. job_revision (body r)) (filter (\<lambda>r. job_event_id (body r) = eid) rows))"

definition get_provider_job :: "job_rows \<Rightarrow> string \<Rightarrow> string \<Rightarrow> string \<Rightarrow> provider_job option" where
  "get_provider_job rows provider service record_id =
     map_option body (latest_by (\<lambda>r. job_revision (body r))
       (filter (\<lambda>r. job_provider (body r) = provider \<and> job_service (body r) = service \<and>
                     job_record_id (body r) = record_id) rows))"

definition query_provider_jobs_for_sync :: "job_rows \<Rightarrow> int \<Rightarrow> provider_job list" where
  "query_provider_jobs_for_sync rows limit =
     map body (sql_limit limit
       (sort_key (\<lambda>r. (isoformat (job_observed_at (body r)), job_event_id (body r), job_revision (body r)))
         (filter (\<lambda>r. status r = Pending) rows)))"

text \<open>The join with the per-job maximum revision of one task.\<close>

definition max_revisions :: "job_rows \<Rightarrow> uuid \<Rightarrow> (uuid \<times> int) list" where
  "max_revisions rows task_id =
     (let mine = filter (\<lambda>r. job_task_id (body r) = task_id) rows
      in map (\<lambda>e. (e, Max (set (map (\<lambda>r. job_revision (body r))
                          (filter (\<lambda>r. job_event_id (body r) = e) mine)))))
           (remdups (map (\<lambda>r. job_event_id (body r)) mine)))"

definition query_current_provider_jobs_for_task :: "job_rows \<Rightarrow> uuid \<Rightarrow> provider_job list" where
  "query_current_provider_jobs_for_task rows task_id =
     map body (sort_key (\<lambda>r. job_event_id (body r))
       (filter (\<lambda>r. (job_event_id (body r), job_revision (body r)) \<in> set (max_revisions rows task_id))
         rows))"

definition mark_provider_jobs_synced :: "(uuid \<times> int) list \<Rightarrow> job_rows \<Rightarrow> job_rows" where
  "mark_provider_jobs_synced revisions rows =
     (if revisions = [] then rows
      else executemany (\<lambda>p. update_where
             (\<lambda>r. status r = Pending \<and> (job_event_id (body r), job_revision (body r)) = p)
             (\<lambda>r. r\<lparr>status := Synced\<rparr>)) revisions rows)"

definition mark_provider_jobs_quarantined :: "(uuid \<times> int) list \<Rightarrow> job_rows \<Rightarrow> job_rows" where
  "mark_provider_jobs_quarantined revisions rows =
     (if revisions = [] then rows
      else executemany (\<lambda>p. update_where
             (\<lambda>r. status r = Pending \<and> (job_event_id (body r), job_revision (body r)) = p)
             (\<lambda>r. r\<lparr>status := Quarantined\<rparr>)) revisions rows)"

section \<open>The contracts hold\<close>

definition job_admit :: "provider_job qrow \<Rightarrow> provider_job qrow \<Rightarrow> bool" where
  "job_admit p q \<longleftrightarrow>
     job_identity (body p) = job_identity (body q) \<and>
     dt_key (job_observed_at (body p)) \<le> dt_key (job_observed_at (body q)) \<and>
     (pending_status (job_status (body q)) \<longrightarrow> pending_status (job_status (body p))) \<and>
     (job_status (body q) = JobSubmitted \<longrightarrow> job_status (body p) = JobSubmitted)"

abbreviation "job_key \<equiv> (\<lambda>r :: provider_job qrow. job_event_id (body r))"
abbreviation "job_revn \<equiv> (\<lambda>r :: provider_job qrow. job_revision (body r))"

interpretation jobl: revision_ledger job_key job_revn job_admit
    "\<lambda>r x. job_to_dict (body r) = job_to_dict x" new_row insert_provider_job_revision
proof (unfold_locales, goal_cases)
  case (1 x rows r)
  then show ?case by (auto simp: insert_provider_job_revision_def new_row_def)
next
  case (2 x rows rows')
  then show ?case
    by (auto simp: insert_provider_job_revision_def new_row_def Let_def split: option.splits if_splits)
next
  case (3 x rows rows')
  then show ?case
    by (auto simp: insert_provider_job_revision_def new_row_def Let_def history_def
        split: option.splits if_splits)
next
  case (4 x rows rows' p)
  then show ?case
    by (cases "job_status (body p)")
      (auto simp: insert_provider_job_revision_def new_row_def Let_def history_def job_admit_def
        pending_status_def split: if_splits)
next
  case (5 r x)
  then show ?case by (simp add: new_row_def)
qed

interpretation jobq: delivery_queue "status :: provider_job qrow \<Rightarrow> sync_status"
    "\<lambda>s r. r\<lparr>status := s\<rparr>" "\<lambda>r. (job_event_id (body r), job_revision (body r))"
    mark_provider_jobs_synced mark_provider_jobs_quarantined
  by unfold_locales
    (simp_all add: mark_provider_jobs_synced_def mark_provider_jobs_quarantined_def mark_rows)

inductive job_reach :: "digest_fun \<Rightarrow> job_rows \<Rightarrow> bool" for sha where
  job_start: "job_reach sha []"
| job_insert: "\<lbrakk>job_reach sha rows; make_provider_job sha j = Inr j;
    insert_provider_job_revision rows j = Inr rows'\<rbrakk> \<Longrightarrow> job_reach sha rows'"
| job_ack: "job_reach sha rows \<Longrightarrow> job_reach sha (mark_provider_jobs_synced ids rows)"
| job_quarantine: "job_reach sha rows \<Longrightarrow> job_reach sha (mark_provider_jobs_quarantined ids rows)"

lemma job_mark_ok:
  assumes "ledger_ok job_key job_revn job_admit rows"
  shows "ledger_ok job_key job_revn job_admit (mark_provider_jobs_synced ids rows)"
    and "ledger_ok job_key job_revn job_admit (mark_provider_jobs_quarantined ids rows)"
  unfolding jobq.ack_spec jobq.quarantine_spec mark_where_def
  by (rule ledger_ok_map; use assms in \<open>auto simp: job_admit_def\<close>)+

lemma job_reach_ok: "job_reach sha rows \<Longrightarrow> ledger_ok job_key job_revn job_admit rows"
  by (induction rule: job_reach.induct)
    (auto intro: jobl.empty_ok jobl.ins_ok job_mark_ok)

lemma transp_job_admit: "transp job_admit"
  by (rule transpI) (auto simp: job_admit_def)

lemma job_history_related:
  assumes "job_reach sha rows" "i < j" "j < length (history job_key k rows)"
  shows "job_admit (history job_key k rows ! i) (history job_key k rows ! j)"
  by (rule jobl.history_related [OF job_reach_ok [OF assms(1)] _ transp_job_admit assms(2,3)])

text \<open>Every stored row passed the checks of the constructor.\<close>

lemma job_reach_valid:
  "job_reach sha rows \<Longrightarrow> r \<in> set rows \<Longrightarrow> make_provider_job sha (body r) = Inr (body r)"
proof (induction arbitrary: r rule: job_reach.induct)
  case job_start
  then show ?case by simp
next
  case (job_insert rows j rows')
  then show ?case
    using jobl.ins_cases [OF job_insert.hyps(3)] by (auto simp: new_row_def)
next
  case (job_ack rows ids)
  then show ?case unfolding jobq.ack_spec mark_where_def by auto
next
  case (job_quarantine rows ids)
  then show ?case unfolding jobq.quarantine_spec mark_where_def by auto
qed

lemma valid_job_event_id:
  "make_provider_job sha j = Inr j \<Longrightarrow>
   job_event_id j = provider_job_event_id sha (job_provider j) (job_service j) (job_record_id j)"
proof -
  assume "make_provider_job sha j = Inr j"
  then have "\<forall>(bad, e) \<in> set (diagnostic_checks sha j). \<not> bad"
    by (simp add: make_provider_job_def first_error_None ball_Un split: option.splits)
  then show ?thesis by (simp add: diagnostic_checks_def)
qed

text \<open>A job of a task keeps its task, so the rows of a job all belong to the same task.\<close>

lemma history_same_identity:
  assumes "job_reach sha rows" "p \<in> set rows" "q \<in> set rows" "job_key p = job_key q"
  shows "job_identity (body p) = job_identity (body q)"
proof -
  let ?h = "history job_key (job_key p) rows"
  have "p \<in> set ?h" "q \<in> set ?h" using assms by (simp_all add: history_def)
  then obtain i j where ij: "i < length ?h" "?h ! i = p" "j < length ?h" "?h ! j = q"
    by (metis in_set_conv_nth)
  show ?thesis
    using job_history_related [OF assms(1), of i j "job_key p"]
      job_history_related [OF assms(1), of j i "job_key p"] ij
    by (cases i j rule: linorder_cases) (auto simp: job_admit_def)
qed

lemma latest_unique:
  assumes "job_reach sha rows" "r \<in> set rows" "q \<in> set rows"
    and "job_key r = job_key q" "job_revn r = job_revn q"
  shows "r = q"
  using jobl.ok_distinct [OF job_reach_ok [OF assms(1)]] assms(2-5)
  by (auto simp: distinct_map inj_on_def)

section \<open>Reading the ledger\<close>

lemma max_revisions_mem:
  assumes reach: "job_reach sha rows" and r: "r \<in> set rows"
  shows "(job_key r, job_revn r) \<in> set (max_revisions rows t) \<longleftrightarrow>
    job_task_id (body r) = t \<and> (\<forall>q \<in> set (history job_key (job_key r) rows). job_revn q \<le> job_revn r)"
proof -
  define mine where "mine = filter (\<lambda>r. job_task_id (body r) = t) rows"
  define M where "M = set (map job_revn (filter (\<lambda>q. job_key q = job_key r) mine))"
  have same: "job_task_id (body q) = job_task_id (body r)" if "q \<in> set rows" "job_key q = job_key r" for q
    using history_same_identity [OF reach that(1) r that(2)] by (simp add: job_identity_def)
  have mem: "(job_key r, job_revn r) \<in> set (max_revisions rows t) \<longleftrightarrow>
      job_key r \<in> job_key ` set mine \<and> job_revn r = Max M"
    by (auto simp: max_revisions_def mine_def [symmetric] Let_def M_def)
  have in_mine: "job_key r \<in> job_key ` set mine \<longleftrightarrow> job_task_id (body r) = t"
  proof
    assume "job_key r \<in> job_key ` set mine"
    then obtain q where "q \<in> set rows" "job_key q = job_key r" "job_task_id (body q) = t"
      by (auto simp: mine_def)
    with same show "job_task_id (body r) = t" by simp
  next
    assume "job_task_id (body r) = t"
    with r show "job_key r \<in> job_key ` set mine" by (simp add: mine_def)
  qed
  have M: "M = job_revn ` set (history job_key (job_key r) rows)" if "job_task_id (body r) = t"
    using same that by (auto simp: M_def mine_def history_def)
  have fin: "finite M" by (simp add: M_def)
  show ?thesis
  proof (cases "job_task_id (body r) = t")
    case False
    with mem in_mine show ?thesis by simp
  next
    case True
    have "job_revn r \<in> M" using r M [OF True] by (simp add: history_def)
    then have "job_revn r = Max M \<longleftrightarrow> (\<forall>x \<in> M. x \<le> job_revn r)"
      using fin by (metis Max_ge Max_in empty_iff order.antisym)
    with mem in_mine True M [OF True] show ?thesis by simp
  qed
qed

text \<open>The current jobs of a task: one row per job, the last of its history.\<close>

lemma current_jobs_aux:
  assumes reach: "job_reach sha rows"
  shows "distinct (map job_event_id (query_current_provider_jobs_for_task rows t))"
    and "set (query_current_provider_jobs_for_task rows t) =
      {body (last (history job_key k rows)) | k. history job_key k rows \<noteq> [] \<and>
         job_task_id (body (last (history job_key k rows))) = t}"
proof -
  let ?sel = "filter (\<lambda>r. (job_key r, job_revn r) \<in> set (max_revisions rows t)) rows"
  have sel: "r \<in> set ?sel \<longleftrightarrow> r \<in> set rows \<and> job_task_id (body r) = t \<and>
      r = last (history job_key (job_key r) rows)" for r
  proof (cases "r \<in> set rows")
    case True
    let ?h = "history job_key (job_key r) rows"
    have h: "contiguous job_revn ?h" using job_reach_ok [OF reach] by (simp add: ledger_ok_def)
    have ne: "?h \<noteq> []" and rin: "r \<in> set ?h" using True by (auto simp: history_def filter_empty_conv)
    have "(\<forall>q \<in> set ?h. job_revn q \<le> job_revn r) \<longleftrightarrow> r = last ?h"
    proof
      assume a: "\<forall>q \<in> set ?h. job_revn q \<le> job_revn r"
      have lin: "last ?h \<in> set ?h" using ne by simp
      have "job_revn r \<le> job_revn (last ?h)"
        using latest_by_max [OF contiguous_latest(1) [OF h ne] rin] .
      with a lin have "job_revn r = job_revn (last ?h)" by force
      moreover have "last ?h \<in> set rows" "job_key (last ?h) = job_key r"
        using lin by (auto simp: history_def)
      ultimately show "r = last ?h" using latest_unique [OF reach True] by simp
    next
      assume "r = last ?h"
      then show "\<forall>q \<in> set ?h. job_revn q \<le> job_revn r"
        using latest_by_max [OF contiguous_latest(1) [OF h ne]] by simp
    qed
    with max_revisions_mem [OF reach True, of t] True show ?thesis by simp
  qed simp
  have "distinct (map (\<lambda>r. (job_key r, job_revn r)) rows)"
    by (rule jobl.ok_distinct [OF job_reach_ok [OF reach]])
  then have drows: "distinct rows" by (simp add: distinct_map)
  have "inj_on job_key (set ?sel)"
  proof (rule inj_onI)
    fix r q assume "r \<in> set ?sel" "q \<in> set ?sel" and "job_key r = job_key q"
    then show "r = q" using sel [of r] sel [of q] by metis
  qed
  with drows have "distinct (map job_key (sort_key job_key ?sel))"
    by (simp only: distinct_map set_sort distinct_sort distinct_filter)
  then show "distinct (map job_event_id (query_current_provider_jobs_for_task rows t))"
    by (simp add: query_current_provider_jobs_for_task_def comp_def)
  have set: "set (query_current_provider_jobs_for_task rows t) = body ` set ?sel"
    by (simp add: query_current_provider_jobs_for_task_def)
  show "set (query_current_provider_jobs_for_task rows t) =
      {body (last (history job_key k rows)) | k. history job_key k rows \<noteq> [] \<and>
         job_task_id (body (last (history job_key k rows))) = t}"
  proof (intro set_eqI iffI)
    fix j assume "j \<in> set (query_current_provider_jobs_for_task rows t)"
    then obtain r where "j = body r" "r \<in> set ?sel" unfolding set by blast
    then have r: "r = last (history job_key (job_key r) rows)" "r \<in> set rows"
        "job_task_id (body r) = t"
      using sel [of r] by blast+
    then have "history job_key (job_key r) rows \<noteq> []" by (auto simp: history_def filter_empty_conv)
    with r \<open>j = body r\<close> show "j \<in> {body (last (history job_key k rows)) | k.
        history job_key k rows \<noteq> [] \<and> job_task_id (body (last (history job_key k rows))) = t}"
      by (intro CollectI exI [of _ "job_key r"]) metis
  next
    fix j assume "j \<in> {body (last (history job_key k rows)) | k. history job_key k rows \<noteq> [] \<and>
         job_task_id (body (last (history job_key k rows))) = t}"
    then obtain k where k: "j = body (last (history job_key k rows))" "history job_key k rows \<noteq> []"
        "job_task_id (body (last (history job_key k rows))) = t" by blast
    have "last (history job_key k rows) \<in> set (history job_key k rows)" using k(2) by simp
    then have "last (history job_key k rows) \<in> set rows" "job_key (last (history job_key k rows)) = k"
      by (auto simp: history_def)
    with sel [of "last (history job_key k rows)"] k show "j \<in> set (query_current_provider_jobs_for_task rows t)"
      unfolding set by auto
  qed
qed

end
