(* ===== verification/Job_Observations.thy ===== *)
theory Job_Observations
  imports Provider_Jobs
begin

text \<open>
  A validated provider job converts to an observation that the attribution-v3 validator
  accepts: the constructor checks of \<open>models/provider_job.py\<close> imply every cross-field check
  of \<open>attribution/v3_validate.py\<close>. Also here: what the validator guarantees of an
  observation it accepts, and when it raises.
\<close>

section \<open>Canonical timestamps are instants\<close>

lemma ordinal_bounds:
  assumes "datetime_ok d"
  shows "1 \<le> ordinal d" and "ordinal d \<le> 3652059"
proof -
  show "1 \<le> ordinal d" using assms by (simp add: ordinal_def datetime_ok_def)
  have "days_before_year (year d) + (if is_leap (year d) then 366 else 365) \<le> days_before_year 10000"
    using assms by (intro days_before_year_mono) (simp_all add: datetime_ok_def)
  then show "ordinal d \<le> 3652059"
    using ordinal_in_year [OF assms] by (simp add: ordinal_def days_before_year_def)
qed

lemma instant_range:
  assumes "datetime_ok d"
  shows "first_instant \<le> instant d" and "instant d < last_instant"
proof -
  have b: "hour d \<le> 23" "minute d \<le> 59" "second d \<le> 59" "microsecond d \<le> 999999"
    using assms by (auto simp: datetime_ok_def)
  have "86400000000 \<le> (((ordinal d * 24 + hour d) * 60 + minute d) * 60 + second d) * 1000000 +
      microsecond d"
    using ordinal_bounds(1) [OF assms] by (simp add: algebra_simps)
  then show "first_instant \<le> instant d" unfolding instant_nat first_instant_def by (metis of_nat_le_iff of_nat_numeral)
  have "(((ordinal d * 24 + hour d) * 60 + minute d) * 60 + second d) * 1000000 + microsecond d <
      3652060 * 86400000000"
    using ordinal_bounds(2) [OF assms] b by (simp add: algebra_simps)
  then show "instant d < last_instant" unfolding instant_nat last_instant_def by (metis of_nat_less_iff of_nat_mult of_nat_numeral)
qed

lemma takeWhile_digits_append:
  "list_all is_digit xs \<Longrightarrow> \<not> is_digit c \<Longrightarrow> takeWhile is_digit (xs @ c # ys) = xs"
  "list_all is_digit xs \<Longrightarrow> \<not> is_digit c \<Longrightarrow> dropWhile is_digit (xs @ c # ys) = c # ys"
  by (induction xs) auto

lemma timestamp_canonical:
  assumes "valid_dt d"
  shows "timestamp (JStr (iso_canonical d)) = Inr (Some (instant d))"
proof -
  let ?s = "iso_canonical d" and ?d0 = "d\<lparr>microsecond := 0\<rparr>"
  have ok: "datetime_ok d" "microsecond d < 1000000"
    using assms by (simp_all add: valid_dt_def datetime_ok_def)
  have v0: "valid_dt ?d0" using assms by (simp add: valid_dt_def datetime_ok_def)
  have d19: "drop 19 ?s = CHR ''.'' # pad 6 (microsecond d) @ [CHR ''Z'']"
      and t19: "take 19 ?s = date_text d @ ''T'' @ clock_text d"
    by (simp_all add: iso_canonical_def)
  have z: "\<not> is_digit (CHR ''Z'')" by (simp add: is_digit_def)
  have fr: "fraction_digits (drop 19 ?s) = pad 6 (microsecond d)" "after_fraction (drop 19 ?s) = ''Z''"
    unfolding d19 fraction_digits_def after_fraction_def
    using takeWhile_digits_append [OF pad_digits z, of 6 "microsecond d" "[]"] by simp_all
  have same: "date_text ?d0 = date_text d" "clock_text ?d0 = clock_text d"
    by (simp_all add: date_text_def clock_text_def)
  have "isoformat ?d0 = date_text d @ ''T'' @ clock_text d @ ''+00:00''"
    by (simp add: isoformat_def same)
  moreover have "fromisoformat (isoformat ?d0) = Some ?d0"
    using parse_isoformat [OF v0] by (simp add: parse_canonical_def isoformat_def)
  ultimately have f: "fromisoformat (take 19 ?s @ ''+00:00'') = Some ?d0"
    by (simp add: t19)
  have ne: "pad 6 (microsecond d) \<noteq> []" by (metis length_pad list.size(3) zero_neq_numeral)
  have eq: "?d0\<lparr>microsecond := microsecond d\<rparr> = d" by (cases d) simp
  show ?thesis
    using read_digits_pad [of "microsecond d" 6] ok(2) instant_range [OF ok(1)] ne
    by (simp add: timestamp_def fr f zone_minutes_def Let_def eq)
qed

section \<open>Silent checks\<close>

lemma issue_if_False [simp]: "issue_if False p m = []"
  by (simp add: issue_if_def)

lemma issue_if_Nil_iff: "issue_if b p m = [] \<longleftrightarrow> \<not> b"
  by (simp add: issue_if_def)

lemma all_issues_Nil: "(\<forall>r \<in> set rs. r = Inr []) \<Longrightarrow> all_issues rs = Inr []"
  by (induction rs) auto

lemma seen_before_strings: "seen_before (map JStr seen) (JStr s) \<longleftrightarrow> s \<in> set seen"
  by (auto simp: seen_before_def hashable_def list_ex_iff)

lemma see_string: "see (JStr s) (map JStr seen) = map JStr (s # seen)"
  by (simp add: see_def hashable_def)

lemma dimension_issues_silent:
  assumes "distinct (map fst ds)" "set (map fst ds) \<inter> set seen = {}"
  shows "dimension_issues i j (map JStr seen)
    (map (\<lambda>(k, v). JObj [(''key'', JStr k), (''value'', w v)]) ds) = []"
  using assms
proof (induction ds arbitrary: j seen)
  case Nil
  show ?case by simp
next
  case (Cons d ds)
  obtain k v where d: "d = (k, v)" by (cases d)
  have "dimension_issues i (Suc j) (map JStr (k # seen))
    (map (\<lambda>(k, v). JObj [(''key'', JStr k), (''value'', w v)]) ds) = []"
    by (rule Cons.IH) (use Cons.prems d in auto)
  with Cons.prems show ?case
    by (simp add: d as_dict_def dict_get_def seen_before_strings see_string)
qed

lemma usage_lines_silent:
  assumes "distinct (map ident ls)" "set (map ident ls) \<inter> set seen = {}"
    and "\<forall>l \<in> set ls. map_of unit_by_metric (ul_metric l) \<in> {None, Some (ul_unit l)}"
    and "distinct (map fst ds)"
  shows "usage_issues i (map JStr seen)
    (map (\<lambda>l. JObj ((''line_id'', JStr (ident l)) # usage_line_to_dict l @
       [(''dimensions'', JArr (map (\<lambda>(k, v). JObj [(''key'', JStr k), (''value'', w v)]) ds))])) ls) = []"
  using assms(1-3)
proof (induction ls arbitrary: i seen)
  case Nil
  show ?case by simp
next
  case (Cons l ls)
  let ?mk = "\<lambda>l. JObj ((''line_id'', JStr (ident l)) # usage_line_to_dict l @
       [(''dimensions'', JArr (map (\<lambda>(k, v). JObj [(''key'', JStr k), (''value'', w v)]) ds))])"
  have IH: "usage_issues (Suc i) (map JStr (ident l # seen)) (map ?mk ls) = []"
    by (rule Cons.IH) (use Cons.prems in auto)
  have dim: "dimension_issues i 0 [] (map (\<lambda>(k, v). JObj [(''key'', JStr k), (''value'', w v)]) ds) = []"
    using dimension_issues_silent [OF assms(4), of "[]"] by simp
  have unit: "unit_issue i ((''line_id'', JStr (ident l)) # usage_line_to_dict l @
       [(''dimensions'', JArr (map (\<lambda>(k, v). JObj [(''key'', JStr k), (''value'', w v)]) ds))]) = []"
    using Cons.prems(3) by (auto simp: unit_issue_def usage_line_to_dict_def dict_get_def)
  show ?case
    using Cons.prems IH dim unit
    by (simp add: as_dict_def dict_get_def usage_line_to_dict_def seen_before_strings see_string as_list_def)
qed

lemma has_key_items:
  "has_key k [] = False" "has_key k ((k', v) # kvs) \<longleftrightarrow> k' = k \<or> has_key k kvs"
  by (auto simp: has_key_def)

lemma dict_get_items:
  "dict_get [] k = JNull" "dict_get ((k', v) # kvs) k = (if k' = k then v else dict_get kvs k)"
  by (simp_all add: dict_get_def)

lemmas item_simps = has_key_items dict_get_items

section \<open>What the constructor checks give\<close>

lemma dimension_checks_distinct:
  "\<forall>(bad, e) \<in> set (dimension_checks seen ds). \<not> bad \<Longrightarrow>
   distinct (map fst ds) \<and> set (map fst ds) \<inter> set seen = {}"
proof (induction ds arbitrary: seen)
  case Nil
  show ?case by simp
next
  case (Cons d ds)
  obtain k v where d: "d = (k, v)" by (cases d)
  have "distinct (map fst ds) \<and> set (map fst ds) \<inter> set (k # seen) = {}"
    by (rule Cons.IH) (use Cons.prems d in auto)
  with Cons.prems show ?case by (auto simp: d)
qed

lemma usage_checks_distinct:
  "\<forall>(bad, e) \<in> set (usage_checks seen ls). \<not> bad \<Longrightarrow>
   distinct (map (\<lambda>l. (ul_metric l, ul_unit l)) ls) \<and>
   set (map (\<lambda>l. (ul_metric l, ul_unit l)) ls) \<inter> set seen = {}"
proof (induction ls arbitrary: seen)
  case Nil
  show ?case by simp
next
  case (Cons l ls)
  have "distinct (map (\<lambda>l. (ul_metric l, ul_unit l)) ls) \<and>
      set (map (\<lambda>l. (ul_metric l, ul_unit l)) ls) \<inter> set ((ul_metric l, ul_unit l) # seen) = {}"
    by (rule Cons.IH) (use Cons.prems in auto)
  with Cons.prems show ?case by auto
qed

lemma valid_job_parts:
  assumes "make_provider_job sha j = Inr j"
  shows "distinct (map fst (job_dimensions j))"
    and "distinct (map (\<lambda>l. (ul_metric l, ul_unit l)) (job_usage j))"
    and "dt_key (job_submitted_at j) \<le> dt_key (job_observed_at j)"
    and "pending_status (job_status j) \<Longrightarrow> job_usage j = [] \<and> job_cost_amount j = None"
    and "job_status j = JobSucceeded \<Longrightarrow> job_usage j \<noteq> [] \<and> job_error_type j = None"
    and "\<forall>(bad, e) \<in> set (cost_checks j). \<not> bad"
proof -
  have all: "\<forall>(bad, e) \<in> set (identity_checks j @ economic_checks j @ diagnostic_checks sha j). \<not> bad"
    using assms unfolding make_provider_job_def by (simp only: first_error_None split: option.splits) blast
  have ids: "\<forall>(bad, e) \<in> set (identity_checks j). \<not> bad"
    and eco: "\<forall>(bad, e) \<in> set (economic_checks j). \<not> bad"
    and diag: "\<forall>(bad, e) \<in> set (diagnostic_checks sha j). \<not> bad"
    using all unfolding set_append ball_Un by blast+
  show "distinct (map fst (job_dimensions j))"
    using dimension_checks_distinct [of "[]" "job_dimensions j"] ids
    by (simp only: identity_checks_def set_append ball_Un) simp
  show "distinct (map (\<lambda>l. (ul_metric l, ul_unit l)) (job_usage j))"
    using usage_checks_distinct [of "[]" "job_usage j"] eco
    by (simp only: economic_checks_def set_append ball_Un) simp
  show "dt_key (job_submitted_at j) \<le> dt_key (job_observed_at j)"
    using ids by (simp add: identity_checks_def not_less)
  show "job_usage j = [] \<and> job_cost_amount j = None" if "pending_status (job_status j)"
    using eco that by (auto simp: economic_checks_def cost_asserted_def)
  show "job_usage j \<noteq> [] \<and> job_error_type j = None" if "job_status j = JobSucceeded"
    using eco diag that by (auto simp: economic_checks_def diagnostic_checks_def)
  show "\<forall>(bad, e) \<in> set (cost_checks j). \<not> bad"
    using eco unfolding economic_checks_def set_append ball_Un by blast
qed

lemma canonical_zero: "canonical_decimal d = ''0'' \<longleftrightarrow> coeff d = 0"
proof -
  have "canonical_decimal d = ''0'' \<longleftrightarrow> canonical_decimal d = canonical_decimal dec0"
    by (simp add: canonical_decimal_def)
  also have "\<dots> \<longleftrightarrow> dec_val d = 0" by (simp add: canonical_eq_iff_aux dec_val_def)
  also have "\<dots> \<longleftrightarrow> coeff d = 0" by (simp add: dec_val_def)
  finally show ?thesis .
qed

section \<open>The observation of a valid job\<close>

lemma observation_gets:
  "dict_get (observation sha env j) ''occurred_at'' = JStr (iso_canonical (job_submitted_at j))"
  "dict_get (observation sha env j) ''observed_at'' = JStr (iso_canonical (job_observed_at j))"
  "dict_get (observation sha env j) ''operation'' = JObj (observation_operation j)"
  "dict_get (observation sha env j) ''lifecycle'' =
     JObj [(''state'', JStr (lifecycle_state j)), (''revision'', JInt (job_revision j))]"
  "dict_get (observation sha env j) ''usage_period'' =
     JObj ((''start_at'', JStr (iso_canonical (job_submitted_at j))) #
         (if terminal_status (job_status j)
          then [(''end_at'', JStr (iso_canonical (job_observed_at j)))] else []))"
  "dict_get (observation sha env j) ''usage'' = JArr (map (observation_line sha j) (job_usage j))"
  by (simp_all add: observation_def dict_get_def)

lemma observation_cost_get:
  "dict_get (observation sha env j) ''cost_evidence'' =
     (case observation_cost j of [] \<Rightarrow> JNull | (k, v) # _ \<Rightarrow> v)"
  "has_key ''cost_evidence'' (observation sha env j) \<longleftrightarrow> job_cost_amount j \<noteq> None"
  by (cases env; cases "job_capability j"; cases "job_cost_amount j";
      simp add: observation_def dict_get_def opt_item_def observation_cost_def has_key_def)+

lemma observation_operation_silent:
  assumes "make_provider_job sha j = Inr j"
  shows "operation_issues (Some (observation_operation j)) = []"
proof -
  have at: "dict_get (observation_operation j) ''attempt'' =
      JObj [(''id'', JStr (job_event_id j)), (''number'', JInt 1)]"
    and st: "dict_get (observation_operation j) ''status'' = JStr (operation_status j)"
    by (simp_all add: observation_operation_def dict_get_def)
  have "\<not> (operation_status j = ''succeeded'' \<and> has_key ''error'' (observation_operation j))"
    using valid_job_parts(5) [OF assms]
    by (cases "job_status j"; cases "job_error_type j"; cases "job_latency_ms j")
      (auto simp: operation_status_def terminal_status_def observation_operation_def has_key_def)
  moreover have "attempt_issues [(''id'', JStr (job_event_id j)), (''number'', JInt 1)] = []"
    by (simp add: attempt_issues_def item_simps issue_if_def)
  ultimately show ?thesis
    by (simp add: operation_issues_def at st as_dict_def issue_if_def)
qed

lemma observation_usage_silent:
  assumes valid: "make_provider_job sha j = Inr j"
    and units: "\<forall>l \<in> set (job_usage j). map_of unit_by_metric (ul_metric l) \<in> {None, Some (ul_unit l)}"
    and fresh: "\<forall>l \<in> set (job_usage j). \<forall>m \<in> set (job_usage j).
      line_id sha j l = line_id sha j m \<longrightarrow> (ul_metric l, ul_unit l) = (ul_metric m, ul_unit m)"
  shows "usage_issues 0 [] (map (observation_line sha j) (job_usage j)) = []"
proof -
  have "distinct (map (line_id sha j) (job_usage j))"
  proof -
    have d: "distinct (job_usage j)" "inj_on (\<lambda>l. (ul_metric l, ul_unit l)) (set (job_usage j))"
      using valid_job_parts(2) [OF valid] by (simp_all add: distinct_map)
    have "inj_on (line_id sha j) (set (job_usage j))"
    proof (rule inj_onI)
      fix l m assume "l \<in> set (job_usage j)" "m \<in> set (job_usage j)" "line_id sha j l = line_id sha j m"
      with fresh have "(ul_metric l, ul_unit l) = (ul_metric m, ul_unit m)" by blast
      then show "l = m"
        using inj_onD [OF d(2), of l m] \<open>l \<in> set (job_usage j)\<close> \<open>m \<in> set (job_usage j)\<close> by simp
    qed
    with d(1) show ?thesis by (simp add: distinct_map)
  qed
  then show ?thesis
    using usage_lines_silent [where ident = "line_id sha j" and ls = "job_usage j" and seen = "[]"
        and ds = "job_dimensions j" and i = 0
        and w = "\<lambda>v. JObj [(''type'', JStr ''string''), (''value'', JStr v)]"]
      units valid_job_parts(1) [OF valid]
    by (simp add: observation_line_def [abs_def] observation_dimensions_def)
qed

lemma observation_state_silent:
  assumes "make_provider_job sha j = Inr j"
  shows "state_issues (JStr (lifecycle_state j)) (JInt (job_revision j)) (observation sha env j)
    (Some ((''start_at'', JStr (iso_canonical (job_submitted_at j))) #
         (if terminal_status (job_status j)
          then [(''end_at'', JStr (iso_canonical (job_observed_at j)))] else [])))
    (Some (observation_operation j)) cost (map (observation_line sha j) (job_usage j)) = []"
proof -
  have st: "dict_get (observation_operation j) ''status'' = JStr (operation_status j)"
    by (simp add: observation_operation_def dict_get_def)
  show ?thesis
    using valid_job_parts(4,5) [OF assms]
    by (cases "job_status j")
      (auto simp: state_issues_def lifecycle_state_def terminal_status_def pending_status_def
        observation_cost_get(2) period_closed_def item_simps status_is_def st operation_status_def)
qed

lemma any_time_metric_lines: "any_time_metric (map (observation_line sha j) ls) \<noteq> Inl e"
  by (induction ls)
    (simp_all add: observation_line_def as_dict_def usage_line_to_dict_def item_simps in_names_def
      hashable_def)

lemma observation_time_silent:
  "time_issues (JStr (lifecycle_state j)) (map (observation_line sha j) (job_usage j))
    (Some ((''start_at'', JStr (iso_canonical (job_submitted_at j))) #
         (if terminal_status (job_status j)
          then [(''end_at'', JStr (iso_canonical (job_observed_at j)))] else []))) = Inr []"
  using any_time_metric_lines [of sha j "job_usage j"]
  by (cases "any_time_metric (map (observation_line sha j) (job_usage j))")
    (auto simp: time_issues_def in_names_def hashable_def lifecycle_state_def period_closed_def
      item_simps)

lemma observation_cost_silent:
  assumes valid: "make_provider_job sha j = Inr j" and c: "observation_cost j = [(k, JObj c)]"
  shows "\<forall>r \<in> set (cost_issues c). r = Inr []"
proof -
  obtain a where a: "job_cost_amount j = Some a"
    using c by (cases "job_cost_amount j") (auto simp: observation_cost_def)
  have chk: "\<forall>(bad, e) \<in> set (cost_checks j). \<not> bad" by (rule valid_job_parts(6) [OF valid])
  then obtain src conf where sc: "job_cost_source j = Some src" "job_cost_confidence j = Some conf"
    using a by (auto simp: cost_checks_def cost_asserted_def cost_complete_def)
  have "c = [(''amount'', JStr (canonical_decimal a)), (''currency'', JStr ''USD''),
      (''source'', JStr src), (''confidence'', JStr conf)] @
      opt_item ''pricing_version'' (job_pricing_version j)"
    using c a sc by (simp add: observation_cost_def opt_str_def)
  then have get: "dict_get c ''amount'' = JStr (canonical_decimal a)" "dict_get c ''source'' = JStr src"
      "dict_get c ''confidence'' = JStr conf"
      "dict_get c ''pricing_version'' = opt_str (job_pricing_version j)"
    by (cases "job_pricing_version j"; simp add: item_simps opt_item_def opt_str_def)+
  have zero: "coeff a = 0 \<longrightarrow> src = ''provider_reported'' \<and> conf = ''exact''"
    and rep: "src = ''provider_reported'' \<longrightarrow> conf \<in> {''exact'', ''estimated''}"
    and sdk: "src \<in> {''sdk_catalog'', ''sdk_rate_registry''} \<longrightarrow>
      conf \<noteq> ''exact'' \<and> job_pricing_version j \<notin> {None, Some []}"
    using chk a sc
    by (auto simp: cost_checks_def cost_asserted_def exact_provider_zero_def holds_opt_def)
  show ?thesis
  proof -
    have amount: "\<not> (JStr (canonical_decimal a) = JStr ''0'' \<and>
        (JStr src \<noteq> JStr ''provider_reported'' \<or> JStr conf \<noteq> JStr ''exact''))"
      using zero by (simp add: canonical_zero)
    have reported: "in_names (JStr conf) [''exact'', ''estimated''] = Inr True"
      if "JStr src = JStr ''provider_reported''"
      using rep that by (auto simp: in_names_def hashable_def)
    have priced: "JStr conf \<noteq> JStr ''exact''"
        "\<exists>s. opt_str (job_pricing_version j) = JStr s \<and> s \<noteq> []"
      if "in_names (JStr src) [''sdk_catalog'', ''sdk_rate_registry''] = Inr True"
      using sdk that by (cases "job_pricing_version j"; auto simp: in_names_def hashable_def opt_str_def)+
    obtain b where b: "in_names (JStr src) [''sdk_catalog'', ''sdk_rate_registry''] = Inr b"
      by (simp add: in_names_def hashable_def)
    show ?thesis
      unfolding cost_issues_def get using amount reported priced b
      by (cases b) (auto simp: issue_if_def)
  qed
qed

text \<open>
  The hypotheses of acceptance that the constructor does not check: the timestamps are four
  digits wide, a known metric carries its canonical unit, and the digests keep the line
  identities of one job apart.
\<close>

definition observable_job :: "digest_fun \<Rightarrow> provider_job \<Rightarrow> bool" where
  "observable_job sha j \<longleftrightarrow>
     valid_dt (job_submitted_at j) \<and> valid_dt (job_observed_at j) \<and>
     (\<forall>l \<in> set (job_usage j). map_of unit_by_metric (ul_metric l) \<in> {None, Some (ul_unit l)}) \<and>
     (\<forall>l \<in> set (job_usage j). \<forall>m \<in> set (job_usage j).
        line_id sha j l = line_id sha j m \<longrightarrow> (ul_metric l, ul_unit l) = (ul_metric m, ul_unit m))"

lemma observation_accepted_aux:
  assumes valid: "make_provider_job sha j = Inr j" and obs: "observable_job sha j"
  shows "semantic_issues (JObj (observation sha env j)) = Inr []"
proof -
  let ?ev = "observation sha env j"
  let ?period = "(''start_at'', JStr (iso_canonical (job_submitted_at j))) #
    (if terminal_status (job_status j)
     then [(''end_at'', JStr (iso_canonical (job_observed_at j)))] else [])"
  have dts: "valid_dt (job_submitted_at j)" "valid_dt (job_observed_at j)"
    "datetime_ok (job_submitted_at j)" "datetime_ok (job_observed_at j)"
    using obs by (simp_all add: observable_job_def valid_dt_def)
  have stamp: "timestamp_issue (JStr (iso_canonical d)) p = Inr []" if "valid_dt d" for d p
    using timestamp_canonical [OF that] by (simp add: timestamp_issue_def)
  have order: "\<not> instant (job_observed_at j) < instant (job_submitted_at j)"
    using valid_job_parts(3) [OF valid] instant_le [OF dts(3,4)] by simp
  have period: "\<forall>r \<in> set (period_issues (Some ?period)). r = Inr []"
    using dts order by (simp add: period_issues_def item_simps stamp timestamp_canonical)
  have usage: "usage_issues 0 [] (map (observation_line sha j) (job_usage j)) = []"
    by (rule observation_usage_silent [OF valid]) (use obs in \<open>unfold observable_job_def, blast+\<close>)
  have cost: "\<forall>r \<in> set (case as_dict (dict_get ?ev ''cost_evidence'') of None \<Rightarrow> [] | Some c \<Rightarrow> cost_issues c).
      r = Inr []"
  proof (cases "job_cost_amount j")
    case None
    then show ?thesis by (simp add: observation_cost_get(1) observation_cost_def as_dict_def)
  next
    case (Some a)
    then obtain c where c: "observation_cost j = [(''cost_evidence'', JObj c)]"
      by (simp add: observation_cost_def)
    then have "dict_get ?ev ''cost_evidence'' = JObj c" by (simp add: observation_cost_get(1))
    with observation_cost_silent [OF valid c] show ?thesis by (simp add: as_dict_def)
  qed
  have life: "dict_get [(''state'', JStr (lifecycle_state j)), (''revision'', JInt (job_revision j))] ''state'' =
      JStr (lifecycle_state j)"
    "dict_get [(''state'', JStr (lifecycle_state j)), (''revision'', JInt (job_revision j))] ''revision'' =
      JInt (job_revision j)"
    by (simp_all add: item_simps)
  have gets: "as_dict (JObj ?period) = Some ?period"
    "as_list (JArr (map (observation_line sha j) (job_usage j))) = map (observation_line sha j) (job_usage j)"
    "as_dict (JObj (observation_operation j)) = Some (observation_operation j)"
    "as_dict (JObj [(''state'', JStr (lifecycle_state j)), (''revision'', JInt (job_revision j))]) =
      Some [(''state'', JStr (lifecycle_state j)), (''revision'', JInt (job_revision j))]"
    by (simp_all add: as_dict_def as_list_def)
  show ?thesis
    unfolding semantic_issues_def json.case Let_def observation_gets gets option.case life usage
      observation_operation_silent [OF valid] observation_state_silent [OF valid]
      observation_time_silent
    by (rule all_issues_Nil; unfold set_append ball_Un; intro conjI period cost; simp add: stamp dts)
qed

section \<open>What the validator guarantees\<close>

lemma all_issues_Inr: "all_issues rs = Inr xs \<Longrightarrow> r \<in> set rs \<Longrightarrow> \<exists>ys. r = Inr ys \<and> set ys \<subseteq> set xs"
  by (induction rs arbitrary: xs) (fastforce split: sum.splits)+

lemma all_issues_silent: "all_issues rs = Inr [] \<Longrightarrow> r \<in> set rs \<Longrightarrow> r = Inr []"
  using all_issues_Inr by fastforce

lemma all_issues_Inl: "Inl e \<in> set rs \<Longrightarrow> \<exists>e'. all_issues rs = Inl e'"
  by (induction rs) (auto split: sum.splits)

text \<open>The text line identities of a full snapshot.\<close>

definition line_ids :: "json list \<Rightarrow> string list" where
  "line_ids ls = List.map_filter (\<lambda>l. case as_dict l of None \<Rightarrow> None
     | Some kvs \<Rightarrow> (case dict_get kvs ''line_id'' of JStr s \<Rightarrow> Some s | _ \<Rightarrow> None)) ls"

lemma usage_issues_distinct:
  "usage_issues i seen ls = [] \<Longrightarrow> distinct (line_ids ls) \<and> (\<forall>s \<in> set (line_ids ls). JStr s \<notin> set seen)"
proof (induction ls arbitrary: i seen)
  case Nil
  show ?case by (simp add: line_ids_def map_filter_simps)
next
  case (Cons l ls)
  show ?case
  proof (cases "as_dict l")
    case None
    with Cons show ?thesis by (auto simp: line_ids_def map_filter_simps)
  next
    case (Some line)
    let ?id = "dict_get line ''line_id''"
    have dup: "\<not> seen_before seen ?id"
      using Cons.prems Some by (simp add: issue_if_Nil_iff)
    have rest: "usage_issues (Suc i) (see ?id seen) ls = []"
      using Cons.prems Some by simp
    have IH: "distinct (line_ids ls)" "\<forall>s \<in> set (line_ids ls). JStr s \<notin> set (see ?id seen)"
      using Cons.IH [OF rest] by blast+
    show ?thesis
    proof (cases "\<exists>s. ?id = JStr s")
      case True
      then obtain s where s: "?id = JStr s" by blast
      have "JStr s \<notin> set seen"
        using dup s by (auto simp: seen_before_def hashable_def list_ex_iff)
      with IH s Some show ?thesis
        by (auto simp: line_ids_def map_filter_simps see_def hashable_def)
    next
      case False
      then have "line_ids (l # ls) = line_ids ls"
        using Some by (cases ?id) (auto simp: line_ids_def map_filter_simps)
      moreover have "set seen \<subseteq> set (see ?id seen)" by (auto simp: see_def)
      ultimately show ?thesis using IH by auto
    qed
  qed
qed

text \<open>The parts of an event the validator reads.\<close>

definition event_state :: "obj \<Rightarrow> json" where
  "event_state ev = (case as_dict (dict_get ev ''lifecycle'') of
     None \<Rightarrow> JNull | Some l \<Rightarrow> dict_get l ''state'')"

definition event_usage :: "obj \<Rightarrow> json list" where
  "event_usage ev = as_list (dict_get ev ''usage'')"

lemma accepted_aux:
  assumes "semantic_issues (JObj ev) = Inr []"
  shows "distinct (line_ids (event_usage ev))"
    and "event_state ev = JStr ''pending'' \<longrightarrow>
      event_usage ev = [] \<and> \<not> has_key ''cost_evidence'' ev"
    and "event_state ev = JStr ''voided'' \<longrightarrow>
      event_usage ev = [] \<and> \<not> has_key ''cost_evidence'' ev"
    and "event_state ev = JStr ''final'' \<and>
      status_is (as_dict (dict_get ev ''operation'')) ''succeeded'' \<longrightarrow> event_usage ev \<noteq> []"
    and "event_state ev \<in> {JStr ''provisional'', JStr ''final''} \<and>
      any_time_metric (event_usage ev) = Inr True \<longrightarrow>
      period_closed (as_dict (dict_get ev ''usage_period''))"
proof -
  let ?lf = "as_dict (dict_get ev ''lifecycle'')"
  let ?rv = "case ?lf of None \<Rightarrow> JNull | Some l \<Rightarrow> dict_get l ''revision''"
  let ?pd = "as_dict (dict_get ev ''usage_period'')" and ?op = "as_dict (dict_get ev ''operation'')"
  let ?cs = "as_dict (dict_get ev ''cost_evidence'')"
  let ?rs = "[timestamp_issue (dict_get ev ''occurred_at'') ''occurred_at'',
      timestamp_issue (dict_get ev ''observed_at'') ''observed_at''] @ period_issues ?pd @
      [Inr (usage_issues 0 [] (event_usage ev)), Inr (operation_issues ?op),
       Inr (state_issues (event_state ev) ?rv ev ?pd ?op ?cs (event_usage ev)),
       time_issues (event_state ev) (event_usage ev) ?pd] @
      (case ?cs of None \<Rightarrow> [] | Some c \<Rightarrow> cost_issues c)"
  have all: "all_issues ?rs = Inr []"
    using assms by (simp add: semantic_issues_def Let_def event_state_def event_usage_def)
  have usage: "usage_issues 0 [] (event_usage ev) = []"
    using all_issues_silent [OF all, of "Inr (usage_issues 0 [] (event_usage ev))"] by simp
  have state: "state_issues (event_state ev) ?rv ev ?pd ?op ?cs (event_usage ev) = []"
    using all_issues_silent [OF all,
        of "Inr (state_issues (event_state ev) ?rv ev ?pd ?op ?cs (event_usage ev))"] by simp
  have time: "time_issues (event_state ev) (event_usage ev) ?pd = Inr []"
    using all_issues_silent [OF all, of "time_issues (event_state ev) (event_usage ev) ?pd"] by simp
  show "distinct (line_ids (event_usage ev))" using usage_issues_distinct [OF usage] by blast
  show "event_state ev = JStr ''pending'' \<longrightarrow> event_usage ev = [] \<and> \<not> has_key ''cost_evidence'' ev"
    "event_state ev = JStr ''voided'' \<longrightarrow> event_usage ev = [] \<and> \<not> has_key ''cost_evidence'' ev"
    "event_state ev = JStr ''final'' \<and> status_is ?op ''succeeded'' \<longrightarrow> event_usage ev \<noteq> []"
    using state by (auto simp: state_issues_def issue_if_Nil_iff)
  show "event_state ev \<in> {JStr ''provisional'', JStr ''final''} \<and>
      any_time_metric (event_usage ev) = Inr True \<longrightarrow> period_closed ?pd"
    using time by (auto simp: time_issues_def in_names_def hashable_def issue_if_Nil_iff)
qed

section \<open>Properties\<close>

text \<open>A digest for the examples; distinct texts have distinct digests only by luck.\<close>

definition sample_digest :: digest_fun where
  "sample_digest s = replicate 16 (word_of_nat (length s))"

definition sample_job :: "job_status \<Rightarrow> int \<Rightarrow> nat \<Rightarrow> provider_job" where
  "sample_job st n sec =
     \<lparr>job_event_id = provider_job_event_id sample_digest ''acme'' ''video'' ''r-1'',
      job_revision = n, job_task_id = uuid_text 1, job_provider = ''acme'', job_service = ''video'',
      job_record_id = ''r-1'', job_operation = ''render'', job_component = ''external'',
      job_event_type = ''external_cost'', job_resource_type = ''sku'', job_resource_id = ''hd'',
      job_status = st, job_submitted_at = sample_time 0, job_observed_at = sample_time sec,
      job_owns_task = False, job_dimensions = [],
      job_usage = (if st = JobSucceeded
        then [\<lparr>ul_metric = ''compute_seconds'', ul_quantity = Dec 25 (- 1), ul_unit = ''Seconds''\<rparr>] else []),
      job_cost_amount = (if st = JobSucceeded then Some (Dec 3 0) else None),
      job_cost_source = (if st = JobSucceeded then Some ''provider_reported'' else None),
      job_cost_confidence = (if st = JobSucceeded then Some ''exact'' else None),
      job_pricing_version = None, job_latency_ms = None, job_error_type = None,
      job_error_code = None, job_input_tokens = None, job_output_tokens = None,
      job_cached_tokens = None, job_capability = None, job_schema = ''1''\<rparr>"

definition sample_jobs :: job_rows where
  "sample_jobs = [new_row (sample_job JobRunning 1 1), new_row (sample_job JobSucceeded 2 2)]"

lemma sample_job_made:
  assumes "(n = 1 \<and> st = JobRunning \<and> sec = 1) \<or> (n = 2 \<and> st = JobSucceeded \<and> sec = 2)"
  shows "make_provider_job sample_digest (sample_job st n sec) = Inr (sample_job st n sec)"
  using assms
  by (auto simp: make_provider_job_def identity_checks_def economic_checks_def diagnostic_checks_def
      cost_checks_def sample_job_def max_revision_def is_lower_alnum_def bounded_text_def event_types_def
      resource_types_def pending_status_def cost_asserted_def cost_complete_def exact_provider_zero_def
      holds_opt_def cost_sources_def cost_confidences_def sample_time_def dt_key_def date_key_def
      clock_key_def)

lemma sample_jobs_reach: "job_reach sample_digest sample_jobs"
proof -
  have "job_reach sample_digest [new_row (sample_job JobRunning 1 1)]"
    by (rule job_insert [OF job_start sample_job_made [where n = 1 and st = JobRunning and sec = 1]])
      (simp_all add: insert_provider_job_revision_def sample_job_def)
  then show ?thesis
    by (rule job_insert [OF _ sample_job_made [where n = 2 and st = JobSucceeded and sec = 2]])
      (simp_all add: insert_provider_job_revision_def sample_job_def sample_jobs_def new_row_def
        job_identity_def sample_time_def dt_key_def date_key_def clock_key_def pending_status_def)
qed

text \<open>C2. In every reachable job table, two revisions of a provider job have the same identity
  (task, provider, resource, operation, capability), their observation times never go back, a
  finished job never becomes pending again and a running one never becomes submitted.\<close>

theorem provider_job_history_ok:
  assumes "job_reach sha rows" and h: "h = query_provider_job_history rows k"
  shows "map job_revision h = map int [1..<Suc (length h)] \<and>
    (\<forall>j < length h. \<forall>i < j. job_identity (h ! i) = job_identity (h ! j) \<and>
       dt_key (job_observed_at (h ! i)) \<le> dt_key (job_observed_at (h ! j)) \<and>
       (terminal_status (job_status (h ! i)) \<longrightarrow> terminal_status (job_status (h ! j))) \<and>
       (job_status (h ! i) = JobRunning \<longrightarrow> job_status (h ! j) \<noteq> JobSubmitted))"
proof -
  have c: "contiguous job_revn (history job_key k rows)"
    using job_reach_ok [OF assms(1)] by (simp add: ledger_ok_def)
  have hh: "h = map body (history job_key k rows)"
    using sorted_contiguous [OF c] by (simp add: h query_provider_job_history_def history_def)
  have rel: "job_admit (history job_key k rows ! i) (history job_key k rows ! j)"
    if "j < length h" "i < j" for i j
    using job_history_related [OF assms(1)] that by (simp add: hh)
  have ends: "terminal_status s \<longleftrightarrow> \<not> pending_status s" for s
    by (cases s) (simp_all add: terminal_status_def pending_status_def)
  show ?thesis
    using c rel by (auto simp: hh contiguous_def comp_def ends job_admit_def simp del: upt_Suc)
qed

theorem provider_job_history_ok_witness:
  "map job_revision (query_provider_job_history sample_jobs (job_event_id (sample_job JobRunning 1 1))) =
     [1, 2]"
  using provider_job_history_ok [OF sample_jobs_reach refl, of "job_event_id (sample_job JobRunning 1 1)"]
  by (simp add: query_provider_job_history_def sample_jobs_def new_row_def sample_job_def)

text \<open>The current jobs of a task are one snapshot per job, the last revision of each job of
  the task: no job is counted twice and none is left out.\<close>

lemma current_jobs_once:
  assumes "job_reach sha rows"
  shows "distinct (map job_event_id (query_current_provider_jobs_for_task rows t)) \<and>
    set (query_current_provider_jobs_for_task rows t) =
      {body (last (history job_key k rows)) | k. history job_key k rows \<noteq> [] \<and>
         job_task_id (body (last (history job_key k rows))) = t}"
  using current_jobs_aux [OF assms, of t] by blast

lemma current_jobs_once_witness:
  "sample_job JobSucceeded 2 2 \<in> set (query_current_provider_jobs_for_task sample_jobs (uuid_text 1))"
proof -
  have "history job_key (job_event_id (sample_job JobSucceeded 2 2)) sample_jobs = sample_jobs"
    by (simp add: history_def sample_jobs_def new_row_def sample_job_def)
  moreover have "body (last sample_jobs) = sample_job JobSucceeded 2 2" "sample_jobs \<noteq> []"
      "job_task_id (sample_job JobSucceeded 2 2) = uuid_text 1"
    by (simp_all add: sample_jobs_def new_row_def sample_job_def)
  ultimately have "sample_job JobSucceeded 2 2 \<in> {body (last (history job_key k sample_jobs)) | k.
      history job_key k sample_jobs \<noteq> [] \<and>
      job_task_id (body (last (history job_key k sample_jobs))) = uuid_text 1}"
    by (intro CollectI exI [of _ "job_event_id (sample_job JobSucceeded 2 2)"]) simp
  then show ?thesis using current_jobs_once [OF sample_jobs_reach, of "uuid_text 1"] by simp
qed



text \<open>C30. An observation the validator accepts keeps the accounting rules: the text line
  identities of its usage are distinct, a pending or voided observation asserts neither usage
  nor cost, a successful final one has usage, and usage measured in time has a closed period.\<close>

theorem accepted_observation:
  assumes "validate_v3 schema_issues (JObj ev) = Inr (True, issues)"
  shows "distinct (line_ids (event_usage ev)) \<and>
    (event_state ev \<in> {JStr ''pending'', JStr ''voided''} \<longrightarrow>
       event_usage ev = [] \<and> \<not> has_key ''cost_evidence'' ev) \<and>
    (event_state ev = JStr ''final'' \<and>
       status_is (as_dict (dict_get ev ''operation'')) ''succeeded'' \<longrightarrow> event_usage ev \<noteq> []) \<and>
    (event_state ev \<in> {JStr ''provisional'', JStr ''final''} \<and>
       any_time_metric (event_usage ev) = Inr True \<longrightarrow>
       period_closed (as_dict (dict_get ev ''usage_period'')))"
proof -
  have "semantic_issues (JObj ev) = Inr []"
    using assms by (auto simp: validate_v3_def unique_def Let_def split: sum.splits)
  from accepted_aux [OF this] show ?thesis by blast
qed

theorem accepted_observation_witness:
  "distinct (line_ids (event_usage (observation sample_digest None (sample_job JobSucceeded 2 2))))"
proof -
  have "make_provider_job sample_digest (sample_job JobSucceeded 2 2) = Inr (sample_job JobSucceeded 2 2)"
    by (rule sample_job_made) simp
  moreover have "observable_job sample_digest (sample_job JobSucceeded 2 2)"
    by (simp add: observable_job_def sample_job_def sample_time_ok unit_by_metric_def)
  ultimately have "semantic_issues (JObj (observation sample_digest None (sample_job JobSucceeded 2 2))) = Inr []"
    by (rule observation_accepted_aux)
  then have "validate_v3 (\<lambda>v. []) (JObj (observation sample_digest None (sample_job JobSucceeded 2 2))) =
      Inr (True, [])"
    by (simp add: validate_v3_def unique_def)
  from accepted_observation [OF this] show ?thesis by blast
qed

text \<open>Despite its promise not to raise, the validator raises on an observation whose
  lifecycle state is a list or an object: the state is looked up in a set, and such a value
  cannot be hashed.\<close>

lemma validator_raises:
  assumes "dict_get ev ''lifecycle'' = JObj l" "\<not> hashable (dict_get l ''state'')"
  shows "\<exists>e. validate_v3 schema_issues (JObj ev) = Inl e"
proof -
  have "\<exists>e. time_issues (dict_get l ''state'') usage period = Inl e" for usage period
    using assms(2) by (simp add: time_issues_def in_names_def)
  then obtain e where e: "time_issues (dict_get l ''state'') (as_list (dict_get ev ''usage''))
      (as_dict (dict_get ev ''usage_period'')) = Inl e" by blast
  have "\<exists>e. semantic_issues (JObj ev) = Inl e"
    unfolding semantic_issues_def json.case Let_def
    by (rule all_issues_Inl [of e]) (simp add: assms(1) as_dict_def e [unfolded as_dict_def])
  then show ?thesis by (auto simp: validate_v3_def)
qed

lemma validator_raises_witness:
  "\<exists>e. validate_v3 (\<lambda>v. []) (JObj [(''lifecycle'', JObj [(''state'', JArr [])])]) = Inl e"
  by (rule validator_raises [where l = "[(''state'', JArr [])]"])
    (simp_all add: dict_get_def hashable_def)

end
