(* ===== verification/Events.thy ===== *)
theory Events
  imports Provider_Jobs
begin

text \<open>
  Cost events (\<open>models/event.py\<close>) and the three stamps every event receives before it is
  stored: the capability (\<open>capabilities.py\<close>), the pricing provenance
  (\<open>pricing_explain.py\<close>, \<open>models/pricing_explanation.py\<close>) and the caller's idempotency
  key (\<open>idempotency.py\<close>).

  The context variables and the provenance registry of the process are one record,
  \<open>ambient\<close>, passed and returned explicitly. The SHA-256 hex digest and \<open>uuid5\<close> in the
  event namespace are parameters.
\<close>

section \<open>Events\<close>

record event =
  ev_id :: uuid
  ev_task_id :: uuid
  ev_type :: string
  ev_occurred_at :: dt
  ev_cost :: dec
  ev_confidence :: string
  ev_pricing_source :: "string option"
  ev_pricing_version :: "string option"
  ev_service_name :: "string option"
  ev_provider :: "string option"
  ev_model :: "string option"
  ev_input_tokens :: "int option"
  ev_output_tokens :: "int option"
  ev_cached_tokens :: "int option"
  ev_latency_ms :: "int option"
  ev_is_retry :: bool
  ev_retry_reason :: "string option"
  ev_retry_of :: "uuid option"
  ev_details :: obj
  ev_schema :: string

definition event_to_dict :: "event \<Rightarrow> obj" where
  "event_to_dict e =
     [(''event_id'', JStr (ev_id e)),
      (''task_id'', JStr (ev_task_id e)),
      (''event_type'', JStr (ev_type e)),
      (''occurred_at'', JStr (iso_canonical (ev_occurred_at e))),
      (''cost_usd'', JStr (canonical_decimal (ev_cost e))),
      (''cost_confidence'', JStr (ev_confidence e)),
      (''pricing_source'', opt_str (ev_pricing_source e)),
      (''pricing_version'', opt_str (ev_pricing_version e)),
      (''service_name'', opt_str (ev_service_name e)),
      (''provider'', opt_str (ev_provider e)),
      (''model'', opt_str (ev_model e)),
      (''input_tokens'', opt_int (ev_input_tokens e)),
      (''output_tokens'', opt_int (ev_output_tokens e)),
      (''cached_tokens'', opt_int (ev_cached_tokens e)),
      (''latency_ms'', opt_int (ev_latency_ms e)),
      (''is_retry'', JBool (ev_is_retry e)),
      (''retry_reason'', opt_str (ev_retry_reason e)),
      (''retry_of'', opt_str (ev_retry_of e)),
      (''details'', JObj (ev_details e)),
      (''schema_version'', JStr (ev_schema e))]"

section \<open>Pricing provenance\<close>

record provenance =
  pv_source :: string
  pv_stale :: bool
  pv_release_id :: "string option"
  pv_sequence :: "int option"
  pv_kind :: "string option"
  pv_sha256 :: "string option"
  pv_schema :: "string option"
  pv_rules_sha256 :: "string option"
  pv_policy :: "string option"
  pv_overlay :: bool

definition hex_digest :: "string \<Rightarrow> bool" where
  "hex_digest s \<longleftrightarrow> length s = 64 \<and> list_all (\<lambda>c. c \<in> set ''0123456789abcdef'') s"

text \<open>\<open>PricingProvenance.__post_init__\<close>.\<close>

definition provenance_checks :: "provenance \<Rightarrow> (bool \<times> py_error) list" where
  "provenance_checks p =
     [(pv_source p = [], ValueError ''catalog_source must be a non-empty string''),
      (\<not> holds_opt (\<lambda>n. 1 \<le> n) (pv_sequence p),
         ValueError ''release_sequence must be a positive integer''),
      (pv_release_id p = Some [], ValueError ''release_id must be a non-empty string''),
      (pv_kind p = Some [], ValueError ''artifact_kind must be a non-empty string''),
      (pv_schema p = Some [], ValueError ''artifact_schema_version must be a non-empty string''),
      (pv_policy p = Some [], ValueError ''safety_policy_version must be a non-empty string''),
      (\<not> holds_opt hex_digest (pv_sha256 p),
         ValueError ''artifact_sha256 must be a lowercase SHA-256 digest''),
      (\<not> holds_opt hex_digest (pv_rules_sha256 p),
         ValueError ''observer_rules_sha256 must be a lowercase SHA-256 digest'')]"

definition make_provenance :: "provenance \<Rightarrow> py_error + provenance" where
  "make_provenance p =
     (case first_error (provenance_checks p) of Some e \<Rightarrow> Inl e | None \<Rightarrow> Inr p)"

definition opt_int_item :: "string \<Rightarrow> int option \<Rightarrow> obj" where
  "opt_int_item k x = (case x of None \<Rightarrow> [] | Some n \<Rightarrow> [(k, JInt n)])"

definition provenance_to_dict :: "provenance \<Rightarrow> obj" where
  "provenance_to_dict p =
     [(''catalog_source'', JStr (pv_source p)), (''stale'', JBool (pv_stale p)),
      (''workspace_overlay'', JBool (pv_overlay p))] @
     opt_item ''release_id'' (pv_release_id p) @ opt_int_item ''release_sequence'' (pv_sequence p) @
     opt_item ''artifact_kind'' (pv_kind p) @ opt_item ''artifact_sha256'' (pv_sha256 p) @
     opt_item ''artifact_schema_version'' (pv_schema p) @
     opt_item ''observer_rules_sha256'' (pv_rules_sha256 p) @
     opt_item ''safety_policy_version'' (pv_policy p)"

definition provenance_fields :: "string list" where
  "provenance_fields = [''catalog_source'', ''stale'', ''workspace_overlay'', ''release_id'',
     ''release_sequence'', ''artifact_kind'', ''artifact_sha256'', ''artifact_schema_version'',
     ''observer_rules_sha256'', ''safety_policy_version'']"

definition as_bool :: "json \<Rightarrow> bool option" where
  "as_bool v = (case v of JBool b \<Rightarrow> Some b | _ \<Rightarrow> None)"

definition opt_number :: "json \<Rightarrow> (int option) option" where
  "opt_number v = (case v of JNull \<Rightarrow> Some None | JInt n \<Rightarrow> Some (Some n) | _ \<Rightarrow> None)"

text \<open>
  \<open>PricingProvenance.from_dict\<close>: a value of the wrong type fails the constructor (which
  exception class it is, is not distinguished).
\<close>

definition provenance_from_dict :: "obj \<Rightarrow> py_error + provenance" where
  "provenance_from_dict kvs =
     (if \<not> set (map fst kvs) \<subseteq> set provenance_fields
      then Inl (ValueError ''unknown pricing provenance fields'')
      else
        (case (dict_get kvs ''catalog_source'', as_bool (dict_get kvs ''stale''),
               as_bool (if has_key ''workspace_overlay'' kvs then dict_get kvs ''workspace_overlay''
                        else JBool False),
               opt_text (dict_get kvs ''release_id''), opt_number (dict_get kvs ''release_sequence''),
               opt_text (dict_get kvs ''artifact_kind''), opt_text (dict_get kvs ''artifact_sha256''),
               opt_text (dict_get kvs ''artifact_schema_version''),
               opt_text (dict_get kvs ''observer_rules_sha256''),
               opt_text (dict_get kvs ''safety_policy_version'')) of
           (JStr src, Some st, Some ov, Some rid, Some sq, Some kd, Some sha, Some sch, Some rl, Some po) \<Rightarrow>
             make_provenance
               \<lparr>pv_source = src, pv_stale = st, pv_release_id = rid, pv_sequence = sq, pv_kind = kd,
                pv_sha256 = sha, pv_schema = sch, pv_rules_sha256 = rl, pv_policy = po,
                pv_overlay = ov\<rparr>
         | _ \<Rightarrow> Inl (ValueError ''invalid pricing provenance field'')))"

text \<open>The expression \<open>_RELEASE_VERSION\<close>: prefix, sequence and staleness of a release version.\<close>

definition strip_prefix :: "string \<Rightarrow> string \<Rightarrow> string option" where
  "strip_prefix p s = (if take (length p) s = p then Some (drop (length p) s) else None)"

definition release_body :: "string \<Rightarrow> (int \<times> bool) option" where
  "release_body s =
     (case strip_prefix ''catalog-release:'' s of
        None \<Rightarrow> None
      | Some t \<Rightarrow>
          (let ds = takeWhile is_digit t; rest = dropWhile is_digit t;
               h = take 12 (drop 1 rest); after = drop 13 rest
           in if ds = [] \<or> hd ds = CHR ''0'' \<or> take 1 rest \<noteq> '':'' \<or> length h \<noteq> 12 \<or>
                 \<not> list_all (\<lambda>c. c \<in> set ''0123456789abcdef'') h
              then None
              else map_option (\<lambda>n. (int n, take 6 after = '':stale'')) (read_digits 0 ds)))"

definition release_match :: "string \<Rightarrow> (string option \<times> int \<times> bool) option" where
  "release_match s =
     (case (strip_prefix ''compute:'' s, strip_prefix ''gpu:'' s, strip_prefix ''egress:'' s) of
        (Some t, _) \<Rightarrow> map_option (\<lambda>x. (Some ''compute'', x)) (release_body t)
      | (None, Some t, _) \<Rightarrow> map_option (\<lambda>x. (Some ''gpu'', x)) (release_body t)
      | (None, None, Some t) \<Rightarrow> map_option (\<lambda>x. (Some ''egress'', x)) (release_body t)
      | (None, None, None) \<Rightarrow> map_option (\<lambda>x. (None, x)) (release_body s))"

definition overlay_source :: "string option \<Rightarrow> bool" where
  "overlay_source s = (strip_prefix ''workspace_overlay'' (case s of None \<Rightarrow> [] | Some t \<Rightarrow> t) \<noteq> None)"

definition no_provenance :: "string \<Rightarrow> bool \<Rightarrow> provenance" where
  "no_provenance src st =
     \<lparr>pv_source = src, pv_stale = st, pv_release_id = None, pv_sequence = None, pv_kind = None,
      pv_sha256 = None, pv_schema = None, pv_rules_sha256 = None, pv_policy = None,
      pv_overlay = False\<rparr>"

definition inferred_provenance :: "event \<Rightarrow> provenance option" where
  "inferred_provenance e =
     (case ev_pricing_version e of
        None \<Rightarrow> None
      | Some v \<Rightarrow>
          (case release_match v of
             None \<Rightarrow>
               Some ((no_provenance ''local_or_bootstrap'' False)
                 \<lparr>pv_kind := (if ev_type e = ''llm_call'' then Some ''llm_prices''
                             else if ev_pricing_source e = Some ''service_catalog''
                             then Some ''service_prices'' else None),
                  pv_overlay := overlay_source (ev_pricing_source e)\<rparr>)
           | Some (prefix, sq, stale) \<Rightarrow>
               Some ((no_provenance ''catalog_release'' stale)
                 \<lparr>pv_sequence := Some sq,
                  pv_kind := Some (if prefix = None then ''llm_prices''
                                   else if prefix = Some ''compute'' then ''compute_prices''
                                   else if prefix = Some ''gpu'' then ''gpu_prices''
                                   else ''egress_prices''),
                  pv_overlay := overlay_source (ev_pricing_source e)\<rparr>)))"

subsection \<open>The registry\<close>

text \<open>An ordered dictionary of at most 128 versions, oldest first.\<close>

type_synonym registry = "(string \<times> provenance) list"

definition registry_limit :: nat where "registry_limit = 128"

definition register_provenance :: "string \<Rightarrow> provenance \<Rightarrow> registry \<Rightarrow> py_error + registry" where
  "register_provenance ver p reg =
     (if ver = [] then Inl (ValueError ''pricing version must be a non-empty string'')
      else
        (let moved = filter (\<lambda>(v, q). v \<noteq> ver) reg @ [(ver, p)]
         in Inr (drop (length moved - registry_limit) moved)))"

definition provenance_for_event :: "registry \<Rightarrow> event \<Rightarrow> py_error + provenance option" where
  "provenance_for_event reg e =
     (case dict_get (ev_details e) ''pricing_provenance'' of
        JNull \<Rightarrow>
          Inr (case ev_pricing_version e of
                 None \<Rightarrow> inferred_provenance e
               | Some v \<Rightarrow> (case map_of reg v of Some p \<Rightarrow> Some p | None \<Rightarrow> inferred_provenance e))
      | JObj kvs \<Rightarrow> (case provenance_from_dict kvs of Inl err \<Rightarrow> Inl err | Inr p \<Rightarrow> Inr (Some p))
      | _ \<Rightarrow> Inl (ValueError ''pricing_provenance must be a dictionary''))"

definition apply_event_provenance :: "registry \<Rightarrow> event \<Rightarrow> py_error + event" where
  "apply_event_provenance reg e =
     (case provenance_for_event reg e of
        Inl err \<Rightarrow> Inl err
      | Inr None \<Rightarrow> Inr e
      | Inr (Some p) \<Rightarrow>
          Inr (e\<lparr>ev_details := dict_set (ev_details e) ''pricing_provenance'' (JObj (provenance_to_dict p))\<rparr>))"

section \<open>Capability stamps\<close>

definition apply_event_capability ::
  "capability option \<Rightarrow> event \<Rightarrow> capability option \<Rightarrow> py_error + event" where
  "apply_event_capability active e explicit =
     (let resolved =
        (case explicit of
           Some c \<Rightarrow> Inr (Some c)
         | None \<Rightarrow>
             (case dict_get (ev_details e) ''attribution_capability'' of
                JNull \<Rightarrow> Inr active
              | JObj kvs \<Rightarrow> (case capability_from_dict (JObj kvs) of
                               Inl err \<Rightarrow> Inl err | Inr c \<Rightarrow> Inr (Some c))
              | _ \<Rightarrow> Inl (ValueError ''attribution_capability must be a dictionary'')))
      in case resolved of
           Inl err \<Rightarrow> Inl err
         | Inr None \<Rightarrow> Inr e
         | Inr (Some c) \<Rightarrow>
             Inr (e\<lparr>ev_details := dict_set (ev_details e) ''attribution_capability''
                                   (JObj (capability_to_dict c))\<rparr>))"

section \<open>Idempotency stamps\<close>

text \<open>\<open>json.dumps(..., sort_keys=True)\<close>.\<close>

fun sort_keys :: "json \<Rightarrow> json" where
  "sort_keys (JObj kvs) = JObj (sort_key fst (map (\<lambda>(k, v). (k, sort_keys v)) kvs))"
| "sort_keys (JArr xs) = JArr (map sort_keys xs)"
| "sort_keys v = v"

record idem_scope =
  scope_key :: string
  next_occurrence :: nat

datatype idem_key = CallerKey string | CapturedKey string nat

definition validate_key :: "string \<Rightarrow> py_error option" where
  "validate_key key =
     first_error
       [(\<not> (1 \<le> length key \<and> length key \<le> 255),
           ValueError ''idempotency key must contain 1 to 255 characters''),
        (list_ex (\<lambda>c. (of_char c :: nat) < 0x21 \<or> (0x7E :: nat) < of_char c) key,
           ValueError ''idempotency key must contain visible ASCII characters only'')]"

text \<open>\<open>capture_idempotency_key\<close>: reserve the next occurrence of the active scope.\<close>

definition capture_key :: "idem_scope option \<Rightarrow> idem_key option \<times> idem_scope option" where
  "capture_key scope =
     (case scope of
        None \<Rightarrow> (None, None)
      | Some s \<Rightarrow> (Some (CapturedKey (scope_key s) (next_occurrence s)),
                   Some (s\<lparr>next_occurrence := Suc (next_occurrence s)\<rparr>)))"

definition set_key :: "string option \<Rightarrow> py_error + idem_scope option" where
  "set_key key =
     (case key of
        None \<Rightarrow> Inr None
      | Some k \<Rightarrow> (case validate_key k of
                     Some e \<Rightarrow> Inl e | None \<Rightarrow> Inr (Some \<lparr>scope_key = k, next_occurrence = 0\<rparr>)))"

definition hash_detail :: string where "hash_detail = ''_dexcost_idempotency_sha256''"
definition occurrence_detail :: string where "occurrence_detail = ''_dexcost_idempotency_occurrence''"

definition idempotency_hash :: "event \<Rightarrow> string option" where
  "idempotency_hash e =
     (case dict_get (ev_details e) hash_detail of
        JStr s \<Rightarrow> if hex_digest s then Some s else None
      | _ \<Rightarrow> None)"

definition event_identity :: "event \<Rightarrow> string" where
  "event_identity e =
     json_dump True '','' '':'' (sort_keys (JObj
       [(''event_type'', JStr (ev_type e)), (''provider'', opt_str (ev_provider e)),
        (''model'', opt_str (ev_model e)), (''service_name'', opt_str (ev_service_name e)),
        (''operation_name'', dict_get (ev_details e) ''attribution_operation_name''),
        (''resource_type'', dict_get (ev_details e) ''attribution_resource_type''),
        (''resource_id'', dict_get (ev_details e) ''attribution_resource_id''),
        (''capability'', dict_get (ev_details e) ''attribution_capability'')]))"

definition rename_identity :: "uuid \<Rightarrow> uuid \<Rightarrow> string \<Rightarrow> obj \<Rightarrow> obj" where
  "rename_identity old new k details =
     (if dict_get details k = JStr old then dict_set details k (JStr new) else details)"

definition stamp_event ::
  "(string \<Rightarrow> string) \<Rightarrow> (string \<Rightarrow> uuid) \<Rightarrow> event \<Rightarrow> string \<Rightarrow> nat option \<Rightarrow> event" where
  "stamp_event sha256hex uuid5 e key occurrence =
     (let h = sha256hex key;
          parts = (case occurrence of
                     None \<Rightarrow> [ev_task_id e, h, event_identity e]
                   | Some n \<Rightarrow> [ev_task_id e, h, show_nat n, event_identity e]);
          new = uuid5 (join [char_of (0::nat)] parts);
          d = dict_set (ev_details e) hash_detail (JStr h);
          d' = (case occurrence of None \<Rightarrow> d | Some n \<Rightarrow> dict_set d occurrence_detail (JInt (int n)))
      in e\<lparr>ev_id := new,
           ev_details := rename_identity (ev_id e) new ''attribution_attempt_id''
             (rename_identity (ev_id e) new ''attribution_operation_id'' d')\<rparr>)"

text \<open>\<open>apply_event_idempotency\<close>; the scope may advance even when the key is refused.\<close>

definition apply_event_idempotency ::
  "(string \<Rightarrow> string) \<Rightarrow> (string \<Rightarrow> uuid) \<Rightarrow> idem_scope option \<Rightarrow> event \<Rightarrow> idem_key option \<Rightarrow>
     (py_error + event) \<times> idem_scope option" where
  "apply_event_idempotency sha256hex uuid5 scope e key =
     (if idempotency_hash e \<noteq> None then (Inr e, scope)
      else
        (let (captured, scope') = (case key of None \<Rightarrow> capture_key scope | Some k \<Rightarrow> (Some k, scope))
         in (case captured of
               None \<Rightarrow> Inr e
             | Some (CapturedKey k n) \<Rightarrow>
                 (case validate_key k of
                    Some err \<Rightarrow> Inl err | None \<Rightarrow> Inr (stamp_event sha256hex uuid5 e k (Some n)))
             | Some (CallerKey k) \<Rightarrow>
                 (case validate_key k of
                    Some err \<Rightarrow> Inl err | None \<Rightarrow> Inr (stamp_event sha256hex uuid5 e k None)),
             scope')))"

definition equivalent_idempotent_event :: "event \<Rightarrow> event \<Rightarrow> bool" where
  "equivalent_idempotent_event left right =
     (if idempotency_hash left = None \<or> idempotency_hash left \<noteq> idempotency_hash right then False
      else py_eq (JObj (dict_pop (event_to_dict left) ''occurred_at''))
                 (JObj (dict_pop (event_to_dict right) ''occurred_at'')))"

section \<open>Stamps are stable\<close>

lemma dict_set_again: "dict_set (dict_set d k v) k v = dict_set d k v"
  by (induction d k v rule: dict_set.induct) auto

lemma dict_set_keys: "set (map fst (dict_set d k v)) = insert k (set (map fst d))"
  by (induction d k v rule: dict_set.induct) auto

lemma dict_set_distinct: "distinct (map fst d) \<Longrightarrow> distinct (map fst (dict_set d k v))"
proof (induction d k v rule: dict_set.induct)
  case (2 k' w kvs k v)
  then show ?case using dict_set_keys [of kvs k v] by auto
qed simp

lemma provenance_roundtrip_aux:
  assumes "make_provenance p = Inr p"
  shows "provenance_from_dict (provenance_to_dict p) = Inr p"
proof -
  let ?d = "provenance_to_dict p"
  have keys: "set (map fst ?d) \<subseteq> set provenance_fields" "has_key ''workspace_overlay'' ?d"
    by (auto simp: provenance_to_dict_def opt_item_def opt_int_item_def provenance_fields_def has_key_def
        split: option.splits)
  have d: "?d = (''catalog_source'', JStr (pv_source p)) # (''stale'', JBool (pv_stale p)) #
      (''workspace_overlay'', JBool (pv_overlay p)) #
      opt_item ''release_id'' (pv_release_id p) @ opt_int_item ''release_sequence'' (pv_sequence p) @
      opt_item ''artifact_kind'' (pv_kind p) @ opt_item ''artifact_sha256'' (pv_sha256 p) @
      opt_item ''artifact_schema_version'' (pv_schema p) @
      opt_item ''observer_rules_sha256'' (pv_rules_sha256 p) @
      opt_item ''safety_policy_version'' (pv_policy p)"
    by (simp add: provenance_to_dict_def)
  have item: "dict_get (opt_item k x @ kvs) k' = (if k' = k \<and> x \<noteq> None then JStr (the x) else dict_get kvs k')"
      "dict_get (opt_int_item k n @ kvs) k' = (if k' = k \<and> n \<noteq> None then JInt (the n) else dict_get kvs k')"
      "dict_get (opt_item k x) k' = (if k' = k \<and> x \<noteq> None then JStr (the x) else JNull)"
    for k k' :: string and x :: "string option" and n :: "int option" and kvs
    by (auto simp: opt_item_def opt_int_item_def dict_get_def split: option.split)
  have head: "dict_get ((k, v) # kvs) k' = (if k' = k then v else dict_get kvs k')"
    for k k' :: string and v kvs
    by (simp add: dict_get_def)
  have opts: "x \<noteq> None \<Longrightarrow> opt_text (JStr (the x)) = Some x" "opt_text JNull = Some None"
      "n \<noteq> None \<Longrightarrow> opt_number (JInt (the n)) = Some n" "opt_number JNull = Some None"
    for x :: "string option" and n :: "int option"
    by (cases x; cases n; simp add: opt_text_def opt_number_def)+
  have get: "dict_get ?d ''catalog_source'' = JStr (pv_source p)"
      "as_bool (dict_get ?d ''stale'') = Some (pv_stale p)"
      "as_bool (dict_get ?d ''workspace_overlay'') = Some (pv_overlay p)"
      "opt_text (dict_get ?d ''release_id'') = Some (pv_release_id p)"
      "opt_number (dict_get ?d ''release_sequence'') = Some (pv_sequence p)"
      "opt_text (dict_get ?d ''artifact_kind'') = Some (pv_kind p)"
      "opt_text (dict_get ?d ''artifact_sha256'') = Some (pv_sha256 p)"
      "opt_text (dict_get ?d ''artifact_schema_version'') = Some (pv_schema p)"
      "opt_text (dict_get ?d ''observer_rules_sha256'') = Some (pv_rules_sha256 p)"
      "opt_text (dict_get ?d ''safety_policy_version'') = Some (pv_policy p)"
    unfolding d by (auto simp: head item opts as_bool_def simp del: not_None_eq)
  have eq: "\<lparr>pv_source = pv_source p, pv_stale = pv_stale p, pv_release_id = pv_release_id p,
      pv_sequence = pv_sequence p, pv_kind = pv_kind p, pv_sha256 = pv_sha256 p,
      pv_schema = pv_schema p, pv_rules_sha256 = pv_rules_sha256 p, pv_policy = pv_policy p,
      pv_overlay = pv_overlay p\<rparr> = p"
    by (rule provenance.equality) simp_all
  show ?thesis using keys assms by (simp add: provenance_from_dict_def get eq)
qed

definition registry_ok :: "registry \<Rightarrow> bool" where
  "registry_ok reg \<longleftrightarrow> length reg \<le> registry_limit \<and> distinct (map fst reg) \<and>
     list_all (\<lambda>(v, p). make_provenance p = Inr p) reg"

lemma register_ok_aux:
  assumes ok: "registry_ok reg" and p: "make_provenance p = Inr p"
    and reg': "register_provenance ver p reg = Inr reg'"
  shows "registry_ok reg'" and "map_of reg' ver = Some p"
proof -
  let ?f = "filter (\<lambda>(v, q). v \<noteq> ver) reg"
  let ?n = "length (?f @ [(ver, p)]) - registry_limit"
  have r: "reg' = drop ?n (?f @ [(ver, p)])"
    using reg' by (auto simp: register_provenance_def Let_def split: if_splits)
  have len: "length ?f \<le> registry_limit"
    using ok by (meson length_filter_le le_trans registry_ok_def)
  then have n: "?n \<le> length ?f" by simp (simp add: registry_limit_def)
  then have r2: "reg' = drop ?n ?f @ [(ver, p)]" by (simp add: r)
  have dm: "distinct (map fst ?f)" "ver \<notin> set (map fst ?f)"
    using ok by (auto simp: registry_ok_def distinct_map inj_on_def)
  have sub: "set (drop ?n ?f) \<subseteq> set ?f" by (rule set_drop_subset)
  have "distinct (map fst reg')"
    using dm sub by (auto simp: r2 drop_map [symmetric] distinct_drop dest: in_set_dropD)
  moreover have "length reg' \<le> registry_limit" using n by (simp add: r)
  moreover have "list_all (\<lambda>(v, p). make_provenance p = Inr p) reg'"
    using ok p sub by (auto simp: r2 registry_ok_def list_all_iff)
  ultimately show "registry_ok reg'" by (simp add: registry_ok_def)
  have "ver \<notin> fst ` set (drop ?n ?f)" using dm(2) sub by auto
  then show "map_of reg' ver = Some p"
    by (simp add: r2 map_add_def map_of_eq_None_iff[THEN iffD2])
qed

lemma digit_value_zero: "digit_value c = Some 0 \<Longrightarrow> c = CHR ''0''"
proof -
  assume "digit_value c = Some 0"
  then have "(of_char c :: nat) = 48"
    by (auto simp: digit_value.simps less_eq_char_def split: if_splits)
  then have "(of_char c :: nat) = of_char (CHR ''0'')" by simp
  then show ?thesis by (simp only: of_char_eq_iff)
qed

lemma read_digits_lower: "read_digits d cs = Some m \<Longrightarrow> d \<le> m"
proof (induction cs arbitrary: d)
  case Nil
  then show ?case by simp
next
  case (Cons x cs)
  then obtain e where e: "read_digits (d * 10 + e) cs = Some m"
    by (auto split: option.splits)
  from Cons.IH [OF e] show ?case by simp
qed

lemma release_body_positive: "release_body s = Some (n, st) \<Longrightarrow> 1 \<le> n"
proof -
  assume a: "release_body s = Some (n, st)"
  then obtain t where t: "takeWhile is_digit t \<noteq> []" "hd (takeWhile is_digit t) \<noteq> CHR ''0''"
      "\<exists>m. read_digits 0 (takeWhile is_digit t) = Some m \<and> n = int m"
    by (auto simp: release_body_def Let_def split: option.splits if_splits)
  obtain c cs where c: "takeWhile is_digit t = c # cs" using t(1) by (cases "takeWhile is_digit t") auto
  have "is_digit c" using c by (metis list.set_intros(1) set_takeWhileD)
  then obtain d where d: "digit_value c = Some d" using digit_value_Some by blast
  have "d \<noteq> 0" using d t(2) c digit_value_zero [of c] by (cases d) auto
  then show ?thesis using t(3) c d read_digits_lower by fastforce
qed

text \<open>Every provenance an event can receive is valid, so its stored form reads back.\<close>

lemma inferred_valid: "inferred_provenance e = Some p \<Longrightarrow> make_provenance p = Inr p"
proof -
  assume a: "inferred_provenance e = Some p"
  then obtain v where v: "ev_pricing_version e = Some v"
    by (cases "ev_pricing_version e") (auto simp: inferred_provenance_def)
  show ?thesis
  proof (cases "release_match v")
    case None
    with a v show ?thesis
      by (auto simp: inferred_provenance_def no_provenance_def make_provenance_def provenance_checks_def
          holds_opt_def split: if_splits)
  next
    case (Some x)
    obtain pre sq st where x: "x = (pre, sq, st)" by (cases x)
    have "1 \<le> sq"
      using Some x unfolding release_match_def
      by (auto split: option.splits dest: release_body_positive)
    with a v Some x show ?thesis
      by (auto simp: inferred_provenance_def no_provenance_def make_provenance_def provenance_checks_def
          holds_opt_def split: if_splits)
  qed
qed

lemma make_provenance_id: "make_provenance q = Inr p \<Longrightarrow> p = q"
  by (auto simp: make_provenance_def split: option.splits)

lemma provenance_for_event_valid:
  assumes "registry_ok reg" "provenance_for_event reg e = Inr (Some p)"
  shows "make_provenance p = Inr p"
proof (cases "dict_get (ev_details e) ''pricing_provenance''")
  case JNull
  show ?thesis
  proof (cases "ev_pricing_version e")
    case None
    with JNull assms show ?thesis by (auto simp: provenance_for_event_def inferred_valid)
  next
    case (Some v)
    show ?thesis
    proof (cases "map_of reg v")
      case None
      with JNull Some assms show ?thesis by (auto simp: provenance_for_event_def inferred_valid)
    next
      case (Some q)
      then have "(v, q) \<in> set reg" by (rule map_of_SomeD)
      with assms(1) have "make_provenance q = Inr q" by (auto simp: registry_ok_def list_all_iff)
      with Some JNull \<open>ev_pricing_version e = _\<close> assms(2) show ?thesis
        by (simp add: provenance_for_event_def)
    qed
  qed
next
  case (JObj kvs)
  then have "provenance_from_dict kvs = Inr p"
    using assms(2) by (auto simp: provenance_for_event_def split: sum.splits)
  then have "\<exists>q. make_provenance q = Inr p"
    by (auto simp: provenance_from_dict_def split: if_splits json.splits option.splits)
  then show ?thesis using make_provenance_id by auto
qed (use assms in \<open>simp_all add: provenance_for_event_def\<close>)

text \<open>Once stamped, the provenance of an event no longer depends on the registry.\<close>

lemma provenance_stable_aux:
  assumes "registry_ok reg" "apply_event_provenance reg e = Inr e'" "ev_pricing_version e \<noteq> None"
  shows "apply_event_provenance reg' e' = Inr e'"
proof -
  obtain p where p: "provenance_for_event reg e = Inr p"
    using assms(2) by (auto simp: apply_event_provenance_def split: sum.splits)
  show ?thesis
  proof (cases p)
    case None
    have "inferred_provenance e \<noteq> None"
      using assms(3) by (auto simp: inferred_provenance_def split: option.splits)
    with p None assms(3) show ?thesis
      by (auto simp: provenance_for_event_def split: json.splits option.splits sum.splits)
  next
    case (Some q)
    let ?d = "dict_set (ev_details e) ''pricing_provenance'' (JObj (provenance_to_dict q))"
    have e': "e' = e\<lparr>ev_details := ?d\<rparr>"
      using assms(2) p Some by (simp add: apply_event_provenance_def)
    have "provenance_from_dict (provenance_to_dict q) = Inr q"
      using provenance_for_event_valid [OF assms(1)] p Some provenance_roundtrip_aux by simp
    then have "provenance_for_event reg' e' = Inr (Some q)"
      by (simp add: provenance_for_event_def e' dict_get_set)
    then show ?thesis by (simp add: apply_event_provenance_def e' dict_set_again)
  qed
qed

lemma dict_get_rename:
  "k' \<noteq> k \<Longrightarrow> dict_get (rename_identity old new k d) k' = dict_get d k'"
  by (simp add: rename_identity_def dict_get_set)

lemma stamp_event_hash:
  assumes "hex_digest (sha256hex key)"
  shows "idempotency_hash (stamp_event sha256hex uuid5 e key occ) = Some (sha256hex key)"
  using assms
  by (cases occ)
    (simp_all add: stamp_event_def Let_def idempotency_hash_def dict_get_rename dict_get_set
      hash_detail_def occurrence_detail_def)

text \<open>A stamp is applied once: storing again neither renames the event nor uses up an occurrence.\<close>

lemma idempotency_stable_aux:
  assumes "\<And>k. hex_digest (sha256hex k)"
    and "apply_event_idempotency sha256hex uuid5 scope e key = (Inr e', scope')"
    and "key \<noteq> None \<or> scope \<noteq> None"
  shows "apply_event_idempotency sha256hex uuid5 scope'' e' key' = (Inr e', scope'')"
proof -
  have "idempotency_hash e' \<noteq> None"
    using assms
    by (auto simp: apply_event_idempotency_def capture_key_def stamp_event_hash
        split: if_splits option.splits idem_key.splits)
  then show ?thesis by (simp add: apply_event_idempotency_def)
qed

lemma capability_stable_aux:
  assumes "\<forall>c. explicit = Some c \<or> active = Some c \<longrightarrow> make_capability c = Inr c"
    and "apply_event_capability active e explicit = Inr e'" "e' \<noteq> e"
  shows "apply_event_capability active' e' None = Inr e'"
proof -
  obtain c where c: "e' = e\<lparr>ev_details := dict_set (ev_details e) ''attribution_capability''
      (JObj (capability_to_dict c))\<rparr>" "make_capability c = Inr c"
  proof -
    have from_dict: "make_capability c = Inr c" if "capability_from_dict v = Inr c" for v c
      using that by (auto simp: capability_from_dict_def make_capability_def
          split: option.splits if_splits json.splits)
    show ?thesis
      using assms from_dict that
      by (auto simp: apply_event_capability_def Let_def split: option.splits json.splits sum.splits)
  qed
  then show ?thesis
    by (simp add: apply_event_capability_def dict_get_set capability_roundtrip_aux dict_set_again)
qed

section \<open>Properties\<close>

definition sample_event :: "uuid \<Rightarrow> dt \<Rightarrow> event" where
  "sample_event i t =
     \<lparr>ev_id = i, ev_task_id = uuid_text 1, ev_type = ''llm_call'', ev_occurred_at = t,
      ev_cost = Dec 12 (- 3), ev_confidence = ''computed'', ev_pricing_source = Some ''litellm'',
      ev_pricing_version = Some ''local-1'', ev_service_name = None, ev_provider = Some ''openai'',
      ev_model = Some ''gpt'', ev_input_tokens = Some 10, ev_output_tokens = Some 5,
      ev_cached_tokens = None, ev_latency_ms = None, ev_is_retry = False, ev_retry_reason = None,
      ev_retry_of = None, ev_details = [], ev_schema = ''1''\<rparr>"

definition sample_hex :: "string \<Rightarrow> string" where
  "sample_hex k = replicate 64 (CHR ''a'')"

lemma sample_hex_digest: "hex_digest (sample_hex k)"
  by (simp add: sample_hex_def hex_digest_def list_all_iff)

text \<open>The pricing provenance of an event is decided once: after the first stamp, stamping
  again with any later state of the registry leaves the event as it is, so a stored event is
  never re-priced.\<close>

lemma provenance_stamp_stable:
  assumes "registry_ok reg" "apply_event_provenance reg e = Inr e'" "ev_pricing_version e \<noteq> None"
  shows "apply_event_provenance reg' e' = Inr e'"
  by (rule provenance_stable_aux [OF assms])

lemma provenance_stamp_stable_witness:
  "\<exists>e'. apply_event_provenance [] (sample_event (uuid_text 5) (sample_time 0)) = Inr e' \<and>
     apply_event_provenance [(''local-1'', no_provenance ''other'' True)] e' = Inr e'"
proof -
  let ?e = "sample_event (uuid_text 5) (sample_time 0)"
  have "\<exists>e'. apply_event_provenance [] ?e = Inr e'"
    by (simp add: apply_event_provenance_def provenance_for_event_def sample_event_def dict_get_def
        inferred_provenance_def release_match_def strip_prefix_def release_body_def)
  then obtain e' where e': "apply_event_provenance [] ?e = Inr e'" by blast
  have "registry_ok []" by (simp add: registry_ok_def)
  then have "apply_event_provenance [(''local-1'', no_provenance ''other'' True)] e' = Inr e'"
    by (rule provenance_stamp_stable [OF _ e']) (simp add: sample_event_def)
  with e' show ?thesis by blast
qed

text \<open>The provenance registry keeps at most 128 versions, each once; registering a version
  makes it the one found for events priced with it.\<close>

lemma registry_bounded:
  assumes "registry_ok reg" "make_provenance p = Inr p" "register_provenance ver p reg = Inr reg'"
  shows "registry_ok reg' \<and> length reg' \<le> 128 \<and> map_of reg' ver = Some p"
  using register_ok_aux [OF assms] by (simp add: registry_ok_def registry_limit_def)

lemma registry_bounded_witness:
  "map_of [(''v'', no_provenance ''a'' False)] ''v'' = Some (no_provenance ''a'' False)"
proof -
  have "registry_ok []" by (simp add: registry_ok_def)
  moreover have "make_provenance (no_provenance ''a'' False) = Inr (no_provenance ''a'' False)"
    by (simp add: make_provenance_def provenance_checks_def no_provenance_def holds_opt_def)
  moreover have "register_provenance ''v'' (no_provenance ''a'' False) [] =
      Inr [(''v'', no_provenance ''a'' False)]"
    by (simp add: register_provenance_def registry_limit_def)
  ultimately show ?thesis using registry_bounded by blast
qed

text \<open>An idempotency stamp is applied once: an event that received its key keeps its
  identity when it is stamped again under any other key or scope, and uses up no further
  occurrence of the active scope.\<close>

lemma idempotency_stamp_once:
  assumes "\<And>k. hex_digest (sha256hex k)"
    and "apply_event_idempotency sha256hex uuid5 scope e key = (Inr e', scope')"
    and "key \<noteq> None \<or> scope \<noteq> None"
  shows "apply_event_idempotency sha256hex uuid5 scope'' e' key' = (Inr e', scope'')"
  by (rule idempotency_stable_aux [OF assms])

lemma idempotency_stamp_once_witness:
  "\<exists>e'. apply_event_idempotency sample_hex (\<lambda>s. uuid_text 9) None
      (sample_event (uuid_text 5) (sample_time 0)) (Some (CallerKey ''order-1'')) = (Inr e', None) \<and>
    apply_event_idempotency sample_hex (\<lambda>s. uuid_text 9) (Some \<lparr>scope_key = ''k'', next_occurrence = 0\<rparr>)
      e' None = (Inr e', Some \<lparr>scope_key = ''k'', next_occurrence = 0\<rparr>)"
proof -
  have "validate_key ''order-1'' = None" by (simp add: validate_key_def)
  then obtain e' where e': "apply_event_idempotency sample_hex (\<lambda>s. uuid_text 9) None
      (sample_event (uuid_text 5) (sample_time 0)) (Some (CallerKey ''order-1'')) = (Inr e', None)"
    by (simp add: apply_event_idempotency_def idempotency_hash_def sample_event_def dict_get_def)
  with idempotency_stamp_once [OF sample_hex_digest e'] show ?thesis by blast
qed

end
