(* ===== verification/Tasks.thy ===== *)
theory Tasks
  imports Events
begin

text \<open>
  Business tasks (\<open>models/task.py\<close>): the record with its rolled-up costs, and its
  dictionary form. The in-memory accountants of a task are modelled where they are used.
\<close>

record task =
  tk_id :: uuid
  tk_type :: string
  tk_status :: string
  tk_started_at :: dt
  tk_ended_at :: "dt option"
  tk_metadata :: obj
  tk_customer_id :: "string option"
  tk_project_id :: "string option"
  tk_parent_id :: "uuid option"
  tk_root_id :: "uuid option"
  tk_agent_id :: "string option"
  tk_agent_version :: "string option"
  tk_workflow_id :: "string option"
  tk_workflow_session_id :: "string option"
  tk_user_id :: "string option"
  tk_product_id :: "string option"
  tk_experiment_id :: "string option"
  tk_variant :: "string option"
  tk_llm_cost :: dec
  tk_external_cost :: dec
  tk_compute_cost :: dec
  tk_network_cost :: dec
  tk_gpu_cost :: dec
  tk_total_cost :: dec
  tk_input_tokens :: int
  tk_output_tokens :: int
  tk_cached_tokens :: int
  tk_retry_count :: int
  tk_retry_cost :: dec
  tk_failure_count :: int
  tk_bytes_in :: int
  tk_bytes_out :: int
  tk_call_count :: int
  tk_by_host :: obj
  tk_schema :: string

definition no_hosts :: obj where "no_hosts = [(''hosts'', JArr [])]"

definition new_task :: "uuid \<Rightarrow> dt \<Rightarrow> task" where
  "new_task tid now =
     \<lparr>tk_id = tid, tk_type = [], tk_status = ''pending'', tk_started_at = now, tk_ended_at = None,
      tk_metadata = [], tk_customer_id = None, tk_project_id = None, tk_parent_id = None,
      tk_root_id = None, tk_agent_id = None, tk_agent_version = None, tk_workflow_id = None,
      tk_workflow_session_id = None, tk_user_id = None, tk_product_id = None,
      tk_experiment_id = None, tk_variant = None, tk_llm_cost = dec0, tk_external_cost = dec0,
      tk_compute_cost = dec0, tk_network_cost = dec0, tk_gpu_cost = dec0, tk_total_cost = dec0,
      tk_input_tokens = 0, tk_output_tokens = 0, tk_cached_tokens = 0, tk_retry_count = 0,
      tk_retry_cost = dec0, tk_failure_count = 0, tk_bytes_in = 0, tk_bytes_out = 0,
      tk_call_count = 0, tk_by_host = no_hosts, tk_schema = ''1''\<rparr>"

definition task_to_dict :: "task \<Rightarrow> obj" where
  "task_to_dict t =
     [(''task_id'', JStr (tk_id t)),
      (''task_type'', JStr (tk_type t)),
      (''status'', JStr (tk_status t)),
      (''started_at'', JStr (iso_canonical (tk_started_at t))),
      (''ended_at'', opt_str (map_option iso_canonical (tk_ended_at t))),
      (''metadata'', JObj (tk_metadata t)),
      (''customer_id'', opt_str (tk_customer_id t)),
      (''project_id'', opt_str (tk_project_id t)),
      (''parent_task_id'', opt_str (tk_parent_id t)),
      (''experiment_id'', opt_str (tk_experiment_id t)),
      (''variant'', opt_str (tk_variant t)),
      (''llm_cost_usd'', JStr (canonical_decimal (tk_llm_cost t))),
      (''external_cost_usd'', JStr (canonical_decimal (tk_external_cost t))),
      (''compute_cost_usd'', JStr (canonical_decimal (tk_compute_cost t))),
      (''network_cost_usd'', JStr (canonical_decimal (tk_network_cost t))),
      (''gpu_cost_usd'', JStr (canonical_decimal (tk_gpu_cost t))),
      (''total_cost_usd'', JStr (canonical_decimal (tk_total_cost t))),
      (''total_input_tokens'', JInt (tk_input_tokens t)),
      (''total_output_tokens'', JInt (tk_output_tokens t)),
      (''total_cached_tokens'', JInt (tk_cached_tokens t)),
      (''retry_count'', JInt (tk_retry_count t)),
      (''retry_cost_usd'', JStr (canonical_decimal (tk_retry_cost t))),
      (''failure_count'', JInt (tk_failure_count t)),
      (''network_bytes_in'', JInt (tk_bytes_in t)),
      (''network_bytes_out'', JInt (tk_bytes_out t)),
      (''network_call_count'', JInt (tk_call_count t)),
      (''network_by_host'', JObj (tk_by_host t)),
      (''schema_version'', JStr (tk_schema t))] @
     opt_item ''root_task_id'' (tk_root_id t) @ opt_item ''agent_id'' (tk_agent_id t) @
     opt_item ''agent_version'' (tk_agent_version t) @ opt_item ''workflow_id'' (tk_workflow_id t) @
     opt_item ''workflow_session_id'' (tk_workflow_session_id t) @
     opt_item ''user_id'' (tk_user_id t) @ opt_item ''product_id'' (tk_product_id t)"

end
