(* ===== verification/Revenues.thy ===== *)
theory Revenues
  imports Outcomes
begin

text \<open>
  Revenue: the amount, source and revision models of \<open>models/revenue.py\<close> with the checks of
  their constructors, and the revenue ledger of \<open>storage/sqlite.py\<close>.
\<close>

section \<open>Amounts and sources\<close>

record revenue_amount =
  amt_value :: dec
  amt_currency :: string

definition currency_code :: "string \<Rightarrow> bool" where
  "currency_code s \<longleftrightarrow> length s = 3 \<and> list_all (\<lambda>c. CHR ''A'' \<le> c \<and> c \<le> CHR ''Z'') s"

text \<open>\<open>RevenueAmount.__post_init__\<close>, on finite values.\<close>

definition amount_checks :: "revenue_amount \<Rightarrow> (bool \<times> py_error) list" where
  "amount_checks a =
     [(coeff (amt_value a) < 0, ValueError ''revenue amount must be finite and non-negative''),
      (\<not> matches_amount (canonical_decimal (amt_value a)),
         ValueError ''revenue amount exceeds the 26.12 decimal contract''),
      (\<not> currency_code (amt_currency a),
         ValueError ''revenue currency must be a three-letter uppercase code'')]"

definition make_amount :: "dec \<Rightarrow> string \<Rightarrow> py_error + revenue_amount" where
  "make_amount v c =
     (let a = \<lparr>amt_value = v, amt_currency = c\<rparr>
      in case first_error (amount_checks a) of Some e \<Rightarrow> Inl e | None \<Rightarrow> Inr a)"

datatype revenue_input = RevDecimal dec | RevInt int | RevStr string | RevBool bool | RevFloat

text \<open>\<open>RevenueAmount.from_input\<close>.\<close>

definition amount_from_text :: "string \<Rightarrow> string \<Rightarrow> py_error + revenue_amount" where
  "amount_from_text s currency =
     (case decimal_of_text s of
        DecInvalid \<Rightarrow> Inl (ValueError ''revenue amount is not a plain decimal'')
      | DecNonFinite \<Rightarrow> Inl (ValueError ''revenue amount must be finite and non-negative'')
      | DecFinite d \<Rightarrow> make_amount d currency)"

fun amount_from_input :: "revenue_input \<Rightarrow> string \<Rightarrow> py_error + revenue_amount" where
  "amount_from_input (RevBool b) currency =
     Inl (TypeError ''revenue amount must be a Decimal, integer, or decimal string'')"
| "amount_from_input RevFloat currency =
     Inl (TypeError ''revenue amount must be a Decimal, integer, or decimal string'')"
| "amount_from_input (RevDecimal d) currency = make_amount d currency"
| "amount_from_input (RevInt i) currency = amount_from_text (show_int i) currency"
| "amount_from_input (RevStr s) currency = amount_from_text s currency"

definition amount_to_dict :: "revenue_amount \<Rightarrow> obj" where
  "amount_to_dict a =
     [(''value'', JStr (canonical_decimal (amt_value a))), (''currency'', JStr (amt_currency a))]"

text \<open>\<open>RevenueAmount.from_dict\<close>.\<close>

definition amount_from_dict :: "obj \<Rightarrow> py_error + revenue_amount" where
  "amount_from_dict data =
     (if set (map fst data) \<noteq> {''value'', ''currency''}
      then Inl (ValueError ''revenue amount contains unexpected fields'')
      else case (dict_get data ''value'', dict_get data ''currency'') of
             (JStr v, JStr c) \<Rightarrow> amount_from_input (RevStr v) c
           | _ \<Rightarrow> Inl (ValueError ''revenue amount must contain string value and currency''))"

datatype revenue_source_type = SrcSdk | SrcWorkspaceApi | SrcImport | SrcManual

fun source_type_text :: "revenue_source_type \<Rightarrow> string" where
  "source_type_text SrcSdk = ''sdk''"
| "source_type_text SrcWorkspaceApi = ''workspace_api''"
| "source_type_text SrcImport = ''import''"
| "source_type_text SrcManual = ''manual''"

definition source_type_of_text :: "string \<Rightarrow> revenue_source_type option" where
  "source_type_of_text s =
     (if s = ''sdk'' then Some SrcSdk else if s = ''workspace_api'' then Some SrcWorkspaceApi
      else if s = ''import'' then Some SrcImport else if s = ''manual'' then Some SrcManual
      else None)"

record revenue_source =
  src_type :: revenue_source_type
  src_record_id :: "string option"

text \<open>\<open>RevenueSource.__post_init__\<close>.\<close>

definition make_source :: "string \<Rightarrow> string option \<Rightarrow> py_error + revenue_source" where
  "make_source t rid =
     (case source_type_of_text t of
        None \<Rightarrow> Inl (ValueError ''unsupported revenue source'')
      | Some st \<Rightarrow>
          (case rid of
             Some r \<Rightarrow>
               if r \<noteq> py_strip r \<or> \<not> bounded_text 256 r
               then Inl (ValueError ''revenue source record_id must contain 1 to 256 characters'')
               else Inr \<lparr>src_type = st, src_record_id = rid\<rparr>
           | None \<Rightarrow> Inr \<lparr>src_type = st, src_record_id = rid\<rparr>))"

definition source_to_dict :: "revenue_source \<Rightarrow> obj" where
  "source_to_dict s =
     (''type'', JStr (source_type_text (src_type s))) #
     (case src_record_id s of None \<Rightarrow> [] | Some r \<Rightarrow> [(''record_id'', JStr r)])"

section \<open>Revenue revisions\<close>

datatype revenue_state = RevPending | RevProvisional | RevRecognized | RevVoided

record revenue =
  rev_task_id :: uuid
  rev_state :: revenue_state
  rev_source :: revenue_source
  rev_amount :: "revenue_amount option"
  rev_outcome_id :: "uuid option"
  rev_id :: uuid
  rev_revision :: int
  rev_effective_at :: dt
  rev_observed_at :: dt
  rev_schema :: string

text \<open>\<open>RevenueRevision.__post_init__\<close>.\<close>

definition amount_required :: "revenue_state \<Rightarrow> bool" where
  "amount_required s \<longleftrightarrow> s \<in> {RevProvisional, RevRecognized}"

definition revenue_checks :: "revenue \<Rightarrow> (bool \<times> py_error) list" where
  "revenue_checks x =
     [(rev_schema x \<noteq> ''1'', ValueError ''revenue schema_version must be 1''),
      (\<not> (1 \<le> rev_revision x \<and> rev_revision x \<le> max_revision),
         ValueError ''revenue revision must be between 1 and 2147483647''),
      (amount_required (rev_state x) \<and> rev_amount x = None,
         ValueError ''revenue requires an amount''),
      (\<not> amount_required (rev_state x) \<and> rev_amount x \<noteq> None,
         ValueError ''revenue cannot assert an amount''),
      (rev_state x = RevVoided \<and> rev_revision x = 1,
         ValueError ''voided revenue must supersede an earlier revision'')]"

definition make_revenue :: "revenue \<Rightarrow> py_error + revenue" where
  "make_revenue x = (case first_error (revenue_checks x) of Some e \<Rightarrow> Inl e | None \<Rightarrow> Inr x)"

fun revenue_state_text :: "revenue_state \<Rightarrow> string" where
  "revenue_state_text RevPending = ''pending''"
| "revenue_state_text RevProvisional = ''provisional''"
| "revenue_state_text RevRecognized = ''recognized''"
| "revenue_state_text RevVoided = ''voided''"

definition revenue_state_of_text :: "string \<Rightarrow> revenue_state option" where
  "revenue_state_of_text s =
     (if s = ''pending'' then Some RevPending else if s = ''provisional'' then Some RevProvisional
      else if s = ''recognized'' then Some RevRecognized
      else if s = ''voided'' then Some RevVoided else None)"

definition revenue_to_dict :: "revenue \<Rightarrow> obj" where
  "revenue_to_dict x =
     [(''schema_version'', JStr (rev_schema x)),
      (''revenue_id'', JStr (rev_id x)),
      (''task_id'', JStr (rev_task_id x)),
      (''effective_at'', JStr (iso_canonical (rev_effective_at x))),
      (''observed_at'', JStr (iso_canonical (rev_observed_at x))),
      (''lifecycle'', JObj [(''state'', JStr (revenue_state_text (rev_state x))),
                            (''revision'', JInt (rev_revision x))]),
      (''source'', JObj (source_to_dict (rev_source x)))] @
     (case rev_outcome_id x of None \<Rightarrow> [] | Some u \<Rightarrow> [(''outcome_id'', JStr u)]) @
     (case rev_amount x of None \<Rightarrow> [] | Some a \<Rightarrow> [(''amount'', JObj (amount_to_dict a))])"

text \<open>
  \<open>RevenueRevision.from_dict\<close>. Which exception reports a malformed field is not
  distinguished: every failure is a \<open>ValueError\<close> here.
\<close>

definition revenue_invalid :: "string \<Rightarrow> py_error + 'a" where
  "revenue_invalid msg = Inl (ValueError msg)"

definition amount_field :: "obj \<Rightarrow> py_error + revenue_amount option" where
  "amount_field data =
     (case dict_get data ''amount'' of
        JNull \<Rightarrow> Inr None
      | JObj a \<Rightarrow> (case amount_from_dict a of Inl e \<Rightarrow> Inl e | Inr v \<Rightarrow> Inr (Some v))
      | _ \<Rightarrow> revenue_invalid ''revenue amount must be an object'')"

definition outcome_id_field :: "obj \<Rightarrow> py_error + uuid option" where
  "outcome_id_field data =
     (case dict_get data ''outcome_id'' of
        JNull \<Rightarrow> Inr None
      | v \<Rightarrow> (case uuid_field v ''outcome_id'' of Inl e \<Rightarrow> Inl e | Inr u \<Rightarrow> Inr (Some u)))"

definition record_id_field :: "obj \<Rightarrow> (string option) option" where
  "record_id_field source =
     (case dict_get source ''record_id'' of
        JNull \<Rightarrow> Some None | JStr s \<Rightarrow> Some (Some s) | _ \<Rightarrow> None)"

definition revenue_from_dict :: "obj \<Rightarrow> py_error + revenue" where
  "revenue_from_dict data =
     (case (dict_get data ''lifecycle'', dict_get data ''source'') of
        (JObj lifecycle, JObj source) \<Rightarrow>
          (case (dict_get source ''type'', record_id_field source) of
             (JStr st, Some rid) \<Rightarrow>
               (case (amount_field data, uuid_field (dict_get data ''revenue_id'') ''revenue_id'',
                      uuid_field (dict_get data ''task_id'') ''task_id'', outcome_id_field data,
                      parse_canonical (py_str (dict_get data ''effective_at'')),
                      parse_canonical (py_str (dict_get data ''observed_at'')),
                      py_int (case map_of lifecycle ''revision'' of None \<Rightarrow> JInt 0 | Some v \<Rightarrow> v)) of
                  (Inr amount, Inr rid', Inr tid, Inr oid, Some eff, Some obs, Some rv) \<Rightarrow>
                    (case (make_source st rid,
                           revenue_state_of_text (py_str (dict_get lifecycle ''state''))) of
                       (Inr src, Some state) \<Rightarrow>
                         make_revenue
                           \<lparr>rev_task_id = tid, rev_state = state, rev_source = src,
                            rev_amount = amount, rev_outcome_id = oid, rev_id = rid',
                            rev_revision = rv, rev_effective_at = eff, rev_observed_at = obs,
                            rev_schema = py_str (dict_get data ''schema_version'')\<rparr>
                     | _ \<Rightarrow> revenue_invalid ''revenue source or state is invalid'')
                | _ \<Rightarrow> revenue_invalid ''revenue field is invalid'')
           | _ \<Rightarrow> revenue_invalid ''revenue source is invalid'')
      | _ \<Rightarrow> revenue_invalid ''revenue lifecycle and source must be objects'')"

section \<open>The revenue ledger\<close>

type_synonym revenue_rows = "revenue qrow list"

fun revenue_allowed :: "revenue_state \<Rightarrow> revenue_state list" where
  "revenue_allowed RevPending = [RevPending, RevProvisional, RevRecognized, RevVoided]"
| "revenue_allowed RevProvisional = [RevProvisional, RevRecognized, RevVoided]"
| "revenue_allowed RevRecognized = [RevRecognized, RevVoided]"
| "revenue_allowed RevVoided = []"

definition rev_currency :: "revenue \<Rightarrow> string option" where
  "rev_currency x = map_option amt_currency (rev_amount x)"

definition immutable_changed :: "revenue \<Rightarrow> revenue \<Rightarrow> bool" where
  "immutable_changed p x \<longleftrightarrow>
     rev_task_id p \<noteq> rev_task_id x \<or> rev_outcome_id p \<noteq> rev_outcome_id x \<or>
     src_type (rev_source p) \<noteq> src_type (rev_source x) \<or>
     src_record_id (rev_source p) \<noteq> src_record_id (rev_source x)"

definition currency_changed :: "revenue \<Rightarrow> revenue \<Rightarrow> bool" where
  "currency_changed p x \<longleftrightarrow>
     rev_currency p \<noteq> None \<and> rev_currency x \<noteq> None \<and> rev_currency p \<noteq> rev_currency x"

definition insert_revenue :: "revenue_rows \<Rightarrow> revenue \<Rightarrow> py_error + revenue_rows" where
  "insert_revenue rows x =
     (case find (\<lambda>r. rev_id (body r) = rev_id x \<and> rev_revision (body r) = rev_revision x) rows of
        Some same \<Rightarrow>
          if revenue_to_dict (body same) \<noteq> revenue_to_dict x
          then Inl (ValueError ''already exists with different contents'')
          else Inr rows
      | None \<Rightarrow>
          (let previous = latest_by (\<lambda>r. rev_revision (body r))
                            (filter (\<lambda>r. rev_id (body r) = rev_id x) rows);
               expected = (case previous of None \<Rightarrow> 0 | Some p \<Rightarrow> rev_revision (body p)) + 1
           in if rev_revision x \<noteq> expected
              then Inl (ValueError ''expected revision'')
              else
                (case previous of
                   None \<Rightarrow> Inr (rows @ [new_row x])
                 | Some p \<Rightarrow>
                     if immutable_changed (body p) x
                     then Inl (ValueError ''revenue cannot change task_id, outcome_id, or source'')
                     else if rev_state x \<notin> set (revenue_allowed (rev_state (body p)))
                     then Inl (ValueError ''invalid revenue lifecycle transition'')
                     else if currency_changed (body p) x
                     then Inl (ValueError ''revenue currency cannot change across revisions'')
                     else Inr (rows @ [new_row x]))))"

definition query_revenues_for_sync :: "revenue_rows \<Rightarrow> int \<Rightarrow> revenue list" where
  "query_revenues_for_sync rows limit =
     map body (sql_limit limit
       (sort_key (\<lambda>r. (isoformat (rev_observed_at (body r)), rev_id (body r), rev_revision (body r)))
         (filter (\<lambda>r. status r = Pending) rows)))"

definition query_revenue_history :: "revenue_rows \<Rightarrow> uuid \<Rightarrow> revenue list" where
  "query_revenue_history rows rid =
     map body (sort_key (\<lambda>r. rev_revision (body r)) (filter (\<lambda>r. rev_id (body r) = rid) rows))"

definition mark_revenues_synced :: "(uuid \<times> int) list \<Rightarrow> revenue_rows \<Rightarrow> revenue_rows" where
  "mark_revenues_synced revisions rows =
     (if revisions = [] then rows
      else executemany (\<lambda>p. update_where
             (\<lambda>r. status r = Pending \<and> (rev_id (body r), rev_revision (body r)) = p)
             (\<lambda>r. r\<lparr>status := Synced\<rparr>)) revisions rows)"

definition mark_revenues_quarantined :: "(uuid \<times> int) list \<Rightarrow> revenue_rows \<Rightarrow> revenue_rows" where
  "mark_revenues_quarantined revisions rows =
     (if revisions = [] then rows
      else executemany (\<lambda>p. update_where
             (\<lambda>r. status r = Pending \<and> (rev_id (body r), rev_revision (body r)) = p)
             (\<lambda>r. r\<lparr>status := Quarantined\<rparr>)) revisions rows)"

section \<open>The contracts hold\<close>

definition revenue_admit :: "revenue qrow \<Rightarrow> revenue qrow \<Rightarrow> bool" where
  "revenue_admit p q \<longleftrightarrow>
     \<not> immutable_changed (body p) (body q) \<and>
     rev_state (body q) \<in> set (revenue_allowed (rev_state (body p))) \<and>
     \<not> currency_changed (body p) (body q)"

abbreviation "revenue_key \<equiv> (\<lambda>r :: revenue qrow. rev_id (body r))"
abbreviation "revenue_revn \<equiv> (\<lambda>r :: revenue qrow. rev_revision (body r))"

interpretation revl: revision_ledger revenue_key revenue_revn revenue_admit
    "\<lambda>r x. revenue_to_dict (body r) = revenue_to_dict x" new_row insert_revenue
proof (unfold_locales, goal_cases)
  case (1 x rows r)
  then show ?case by (auto simp: insert_revenue_def new_row_def)
next
  case (2 x rows rows')
  then show ?case
    by (auto simp: insert_revenue_def new_row_def Let_def split: option.splits if_splits)
next
  case (3 x rows rows')
  then show ?case
    by (auto simp: insert_revenue_def new_row_def Let_def history_def split: option.splits if_splits)
next
  case (4 x rows rows' p)
  then show ?case
    by (auto simp: insert_revenue_def new_row_def Let_def history_def revenue_admit_def
        split: if_splits)
next
  case (5 r x)
  then show ?case by (simp add: new_row_def)
qed

interpretation revq: delivery_queue "status :: revenue qrow \<Rightarrow> sync_status"
    "\<lambda>s r. r\<lparr>status := s\<rparr>" "\<lambda>r. (rev_id (body r), rev_revision (body r))"
    mark_revenues_synced mark_revenues_quarantined
  by unfold_locales
    (simp_all add: mark_revenues_synced_def mark_revenues_quarantined_def mark_rows)

inductive revenue_reach :: "revenue_rows \<Rightarrow> bool" where
  rev_start: "revenue_reach []"
| rev_insert: "\<lbrakk>revenue_reach rows; make_revenue x = Inr x; insert_revenue rows x = Inr rows'\<rbrakk>
    \<Longrightarrow> revenue_reach rows'"
| rev_ack: "revenue_reach rows \<Longrightarrow> revenue_reach (mark_revenues_synced ids rows)"
| rev_quarantine: "revenue_reach rows \<Longrightarrow> revenue_reach (mark_revenues_quarantined ids rows)"

lemma revenue_mark_ok:
  assumes "ledger_ok revenue_key revenue_revn revenue_admit rows"
  shows "ledger_ok revenue_key revenue_revn revenue_admit (mark_revenues_synced ids rows)"
    and "ledger_ok revenue_key revenue_revn revenue_admit (mark_revenues_quarantined ids rows)"
  unfolding revq.ack_spec revq.quarantine_spec mark_where_def
  by (rule ledger_ok_map; use assms in \<open>auto simp: revenue_admit_def\<close>)+

lemma revenue_reach_ok: "revenue_reach rows \<Longrightarrow> ledger_ok revenue_key revenue_revn revenue_admit rows"
  by (induction rule: revenue_reach.induct)
    (auto intro: revl.empty_ok revl.ins_ok revenue_mark_ok)

definition revenue_stored_ok :: "revenue \<Rightarrow> bool" where
  "revenue_stored_ok x \<longleftrightarrow> (rev_amount x \<noteq> None \<longleftrightarrow> amount_required (rev_state x))"

lemma make_revenue_stored_ok: "make_revenue x = Inr x \<Longrightarrow> revenue_stored_ok x"
  by (auto simp: make_revenue_def revenue_checks_def revenue_stored_ok_def split: if_splits option.splits)

lemma revenue_reach_stored: "revenue_reach rows \<Longrightarrow> r \<in> set rows \<Longrightarrow> revenue_stored_ok (body r)"
proof (induction arbitrary: r rule: revenue_reach.induct)
  case rev_start
  then show ?case by simp
next
  case (rev_insert rows x rows')
  then show ?case
    using revl.ins_cases [OF rev_insert.hyps(3)]
    by (auto simp: new_row_def make_revenue_stored_ok)
next
  case (rev_ack rows ids)
  then show ?case unfolding revq.ack_spec mark_where_def by auto
next
  case (rev_quarantine rows ids)
  then show ?case unfolding revq.quarantine_spec mark_where_def by auto
qed

text \<open>
  Along a history: the identity is constant, an asserted amount is never withdrawn other
  than by voiding, and the currency is the same throughout.
\<close>

definition revenue_follows :: "revenue \<Rightarrow> revenue \<Rightarrow> bool" where
  "revenue_follows p q \<longleftrightarrow>
     rev_task_id p = rev_task_id q \<and> rev_outcome_id p = rev_outcome_id q \<and>
     rev_source p = rev_source q \<and> rev_state p \<noteq> RevVoided \<and>
     (rev_amount p \<noteq> None \<longrightarrow> rev_amount q \<noteq> None \<or> rev_state q = RevVoided) \<and>
     (rev_state p = RevRecognized \<longrightarrow> rev_state q \<in> {RevRecognized, RevVoided}) \<and>
     (\<forall>c d. rev_currency p = Some c \<longrightarrow> rev_currency q = Some d \<longrightarrow> c = d)"

lemma transp_revenue_follows: "transp (\<lambda>p q :: revenue qrow. revenue_follows (body p) (body q))"
proof (rule transpI)
  fix p q r :: "revenue qrow"
  assume pq: "revenue_follows (body p) (body q)" and qr: "revenue_follows (body q) (body r)"
  have "rev_currency (body q) \<noteq> None" if "rev_currency (body p) \<noteq> None"
    using that pq qr by (auto simp: revenue_follows_def rev_currency_def)
  with pq qr show "revenue_follows (body p) (body r)"
    unfolding revenue_follows_def by (auto; metis option.exhaust)
qed

lemma revenue_admit_follows:
  assumes "revenue_stored_ok (body p)" "revenue_stored_ok (body q)" "revenue_admit p q"
  shows "revenue_follows (body p) (body q)"
  using assms
  by (cases "rev_state (body p)"; cases "rev_state (body q)")
    (auto simp: revenue_admit_def revenue_follows_def immutable_changed_def currency_changed_def
      revenue_stored_ok_def amount_required_def)

lemma revenue_history_follows:
  assumes "revenue_reach rows" "i < j" "j < length (history revenue_key k rows)"
  shows "revenue_follows (body (history revenue_key k rows ! i)) (body (history revenue_key k rows ! j))"
  by (rule revl.history_related [OF revenue_reach_ok [OF assms(1)] _ transp_revenue_follows assms(2,3)])
    (auto intro: revenue_admit_follows revenue_reach_stored [OF assms(1)])

lemma query_revenue_history_eq:
  "revenue_reach rows \<Longrightarrow> query_revenue_history rows k = map body (history revenue_key k rows)"
  using revenue_reach_ok [of rows] sorted_contiguous [of revenue_revn "history revenue_key k rows"]
  by (simp add: query_revenue_history_def ledger_ok_def) (simp add: history_def)

text \<open>A stored revision reads back as a revision with the same contents.\<close>

definition revenue_ready :: "revenue \<Rightarrow> bool" where
  "revenue_ready x \<longleftrightarrow>
     make_revenue x = Inr x \<and>
     (case rev_amount x of None \<Rightarrow> True | Some a \<Rightarrow> first_error (amount_checks a) = None) \<and>
     make_source (source_type_text (src_type (rev_source x))) (src_record_id (rev_source x)) =
       Inr (rev_source x) \<and>
     canonical_uuid (rev_id x) \<and> canonical_uuid (rev_task_id x) \<and>
     (case rev_outcome_id x of None \<Rightarrow> True | Some u \<Rightarrow> canonical_uuid u) \<and>
     valid_dt (rev_effective_at x) \<and> valid_dt (rev_observed_at x)"

lemma revenue_state_text_roundtrip: "revenue_state_of_text (revenue_state_text s) = Some s"
  by (cases s) (simp_all add: revenue_state_of_text_def)

lemma coeff_sign_val: "coeff d < 0 \<longleftrightarrow> dec_val d < 0"
proof -
  have "(0::rat) < 10 powi expo d" by simp
  moreover have "dec_val d < 0 \<longleftrightarrow> (of_int (coeff d) :: rat) < 0" if "(0::rat) < 10 powi expo d"
    using that by (metis dec_val_def mult_less_0_iff order.asym)
  ultimately show ?thesis by simp
qed

lemma amount_roundtrip:
  assumes "first_error (amount_checks a) = None"
  shows "\<exists>a'. amount_from_dict (amount_to_dict a) = Inr a' \<and> amount_to_dict a' = amount_to_dict a"
proof -
  obtain d where d: "dec_parse (canonical_decimal (amt_value a)) = Some d"
      "dec_val d = dec_val (amt_value a)"
    using canonical_roundtrip_aux by blast
  have c: "canonical_decimal d = canonical_decimal (amt_value a)"
    using d(2) by (simp add: canonical_eq_iff_aux)
  show ?thesis
    using assms d c decimal_of_plain [OF d(1)] coeff_sign_val [of d] coeff_sign_val [of "amt_value a"]
    by (auto simp: amount_from_dict_def amount_to_dict_def dict_get_def amount_from_text_def
        make_amount_def amount_checks_def Let_def split: if_splits)
qed

lemma revenue_roundtrip_aux:
  assumes "revenue_ready x"
  shows "\<exists>x'. revenue_from_dict (revenue_to_dict x) = Inr x' \<and> revenue_to_dict x' = revenue_to_dict x"
proof -
  let ?d = "revenue_to_dict x"
  have am: "\<exists>am. amount_field ?d = Inr am \<and> map_option amount_to_dict am = map_option amount_to_dict (rev_amount x)"
  proof (cases "rev_amount x")
    case None
    then show ?thesis
      by (cases "rev_outcome_id x") (simp_all add: amount_field_def revenue_to_dict_def dict_get_def)
  next
    case (Some a)
    with assms amount_roundtrip [of a] show ?thesis
      by (cases "rev_outcome_id x")
        (auto simp: amount_field_def revenue_to_dict_def dict_get_def revenue_ready_def)
  qed
  then obtain am where am: "amount_field ?d = Inr am"
      "map_option amount_to_dict am = map_option amount_to_dict (rev_amount x)" by blast
  have oid: "outcome_id_field ?d = Inr (rev_outcome_id x)"
    using assms by (cases "rev_outcome_id x"; cases "rev_amount x")
      (auto simp: outcome_id_field_def revenue_to_dict_def dict_get_def revenue_ready_def
        uuid_field_canonical)
  have rid: "record_id_field (source_to_dict (rev_source x)) = Some (src_record_id (rev_source x))"
      "dict_get (source_to_dict (rev_source x)) ''type'' =
         JStr (source_type_text (src_type (rev_source x)))"
    by (auto simp: record_id_field_def source_to_dict_def dict_get_def split: option.split)
  define y where "y = x\<lparr>rev_amount := am\<rparr>"
  have none: "am = None \<longleftrightarrow> rev_amount x = None"
    using am(2) by (cases am; cases "rev_amount x") auto
  have y: "make_revenue y = Inr y"
    using assms none by (auto simp: y_def make_revenue_def revenue_checks_def revenue_ready_def
        split: if_splits option.splits)
  have eq: "\<lparr>rev_task_id = rev_task_id x, rev_state = rev_state x, rev_source = rev_source x,
      rev_amount = am, rev_outcome_id = rev_outcome_id x, rev_id = rev_id x,
      rev_revision = rev_revision x, rev_effective_at = rev_effective_at x,
      rev_observed_at = rev_observed_at x, rev_schema = rev_schema x\<rparr> = y"
    by (rule revenue.equality) (simp_all add: y_def)
  have dict: "revenue_to_dict y = ?d"
    using am(2) by (cases am; cases "rev_amount x") (auto simp: y_def revenue_to_dict_def)
  have top: "dict_get ?d ''lifecycle'' = JObj [(''state'', JStr (revenue_state_text (rev_state x))),
        (''revision'', JInt (rev_revision x))]"
      "dict_get ?d ''source'' = JObj (source_to_dict (rev_source x))"
      "dict_get ?d ''revenue_id'' = JStr (rev_id x)" "dict_get ?d ''task_id'' = JStr (rev_task_id x)"
      "dict_get ?d ''effective_at'' = JStr (iso_canonical (rev_effective_at x))"
      "dict_get ?d ''observed_at'' = JStr (iso_canonical (rev_observed_at x))"
      "dict_get ?d ''schema_version'' = JStr (rev_schema x)"
      "dict_get [(''state'', JStr (revenue_state_text (rev_state x))),
        (''revision'', JInt (rev_revision x))] ''state'' = JStr (revenue_state_text (rev_state x))"
    by (simp_all add: revenue_to_dict_def dict_get_def)
  have "revenue_from_dict ?d = Inr y"
    using assms y unfolding revenue_from_dict_def am(1) oid top
    by (simp add: rid uuid_field_canonical revenue_ready_def parse_iso_canonical_aux
        revenue_state_text_roundtrip top(8) eq)
  with dict show ?thesis by blast
qed

section \<open>Properties\<close>

definition sample_revenue :: "revenue_state \<Rightarrow> int \<Rightarrow> revenue" where
  "sample_revenue s n =
     \<lparr>rev_task_id = uuid_text 1, rev_state = s,
      rev_source = \<lparr>src_type = SrcSdk, src_record_id = None\<rparr>,
      rev_amount = (if s = RevRecognized then Some \<lparr>amt_value = Dec 1250 (- 2), amt_currency = ''USD''\<rparr>
                    else None),
      rev_outcome_id = None, rev_id = uuid_text 3, rev_revision = n,
      rev_effective_at = sample_time 0, rev_observed_at = sample_time 1, rev_schema = ''1''\<rparr>"

definition sample_revenues :: revenue_rows where
  "sample_revenues = [new_row (sample_revenue RevPending 1), new_row (sample_revenue RevRecognized 2)]"

lemma sample_revenue_made:
  "(n = 1 \<and> s = RevPending) \<or> (n = 2 \<and> s = RevRecognized) \<Longrightarrow>
   make_revenue (sample_revenue s n) = Inr (sample_revenue s n)"
  by (auto simp: make_revenue_def revenue_checks_def sample_revenue_def max_revision_def amount_required_def)

lemma sample_revenues_reach: "revenue_reach sample_revenues"
proof -
  have "revenue_reach [new_row (sample_revenue RevPending 1)]"
    by (rule rev_insert [OF rev_start sample_revenue_made [where n = 1 and s = RevPending]])
      (simp_all add: insert_revenue_def sample_revenue_def)
  then show ?thesis
    by (rule rev_insert [OF _ sample_revenue_made [where n = 2 and s = RevRecognized]])
      (simp_all add: insert_revenue_def sample_revenue_def sample_revenues_def new_row_def
        immutable_changed_def currency_changed_def rev_currency_def)
qed

text \<open>In every reachable revenue table, any two revisions of a revenue record agree on task,
  outcome and source; an asserted amount is withdrawn only by voiding; recognised revenue stays
  recognised until voided; and all the amounts of the record are in one currency.\<close>

lemma revenue_history_ok:
  assumes "revenue_reach rows" and h: "h = query_revenue_history rows k"
  shows "\<forall>j < length h. \<forall>i < j.
    rev_task_id (h ! i) = rev_task_id (h ! j) \<and> rev_outcome_id (h ! i) = rev_outcome_id (h ! j) \<and>
    rev_source (h ! i) = rev_source (h ! j) \<and> rev_state (h ! i) \<noteq> RevVoided \<and>
    (rev_amount (h ! i) \<noteq> None \<longrightarrow> rev_amount (h ! j) \<noteq> None \<or> rev_state (h ! j) = RevVoided) \<and>
    (rev_state (h ! i) = RevRecognized \<longrightarrow> rev_state (h ! j) \<in> {RevRecognized, RevVoided}) \<and>
    (\<forall>a b. rev_amount (h ! i) = Some a \<longrightarrow> rev_amount (h ! j) = Some b \<longrightarrow>
       amt_currency a = amt_currency b)"
proof (intro allI impI)
  fix j i assume j: "j < length h" and i: "i < j"
  define p where "p = h ! i"
  define q where "q = h ! j"
  have "h = map body (history revenue_key k rows)" by (simp add: h query_revenue_history_eq [OF assms(1)])
  then have "revenue_follows p q"
    using revenue_history_follows [OF assms(1) i, of k] i j by (simp add: p_def q_def)
  then show "rev_task_id (h ! i) = rev_task_id (h ! j) \<and> rev_outcome_id (h ! i) = rev_outcome_id (h ! j) \<and>
    rev_source (h ! i) = rev_source (h ! j) \<and> rev_state (h ! i) \<noteq> RevVoided \<and>
    (rev_amount (h ! i) \<noteq> None \<longrightarrow> rev_amount (h ! j) \<noteq> None \<or> rev_state (h ! j) = RevVoided) \<and>
    (rev_state (h ! i) = RevRecognized \<longrightarrow> rev_state (h ! j) \<in> {RevRecognized, RevVoided}) \<and>
    (\<forall>a b. rev_amount (h ! i) = Some a \<longrightarrow> rev_amount (h ! j) = Some b \<longrightarrow>
       amt_currency a = amt_currency b)"
    unfolding p_def [symmetric] q_def [symmetric] revenue_follows_def rev_currency_def
    by (elim conjE) (intro conjI allI impI; (assumption | simp)?)
qed

lemma revenue_history_ok_witness:
  "rev_source (query_revenue_history sample_revenues (uuid_text 3) ! 0) =
   rev_source (query_revenue_history sample_revenues (uuid_text 3) ! 1)"
  using revenue_history_ok [OF sample_revenues_reach refl, of "uuid_text 3"]
  by (auto simp: query_revenue_history_def sample_revenues_def new_row_def sample_revenue_def)

text \<open>A stored or sent revenue revision reads back as a revision with the same dictionary
  form, although its amount may come back at another scale; so replaying it is recognised as
  the same contents.\<close>

lemma revenue_roundtrip:
  assumes "revenue_ready x"
  shows "\<exists>x'. revenue_from_dict (revenue_to_dict x) = Inr x' \<and> revenue_to_dict x' = revenue_to_dict x"
  by (rule revenue_roundtrip_aux [OF assms])

lemma sample_amount_canonical: "canonical_decimal (Dec 1250 (- 2)) = ''12.5''"
proof -
  have "show_nat 12 = ''12''" by (simp add: show_nat.simps digit_char_def)
  then show ?thesis
    by (simp add: canonical_decimal_def format_f_def pad_2_eq digit_char_def rstrip_def)
qed

lemma sample_revenue_ready: "revenue_ready (sample_revenue RevRecognized 2)"
  using sample_revenue_made [where n = 2 and s = RevRecognized]
  by (simp add: revenue_ready_def sample_revenue_def uuid_text_canonical sample_time_ok amount_checks_def
      sample_amount_canonical make_source_def source_type_of_text_def matches_amount_def Let_def
      plain_integer_digits_def is_digit_def currency_code_def)

lemma revenue_roundtrip_witness:
  "\<exists>x'. revenue_from_dict (revenue_to_dict (sample_revenue RevRecognized 2)) = Inr x' \<and>
     revenue_to_dict x' = revenue_to_dict (sample_revenue RevRecognized 2)"
  by (rule revenue_roundtrip [OF sample_revenue_ready])

end
