(* ===== verification/Event_Store.thy ===== *)
theory Event_Store
  imports Tasks Revenues
begin

text \<open>
  The event and task tables of \<open>storage/sqlite.py\<close>: insertion with the idempotency policy,
  updates that re-open delivery under a new \<open>sync_version\<close>, the queue scans and marks, and
  the maintenance operations.

  A stored row keeps the record as it reads back: the \<open>schema_version\<close> column does not
  exist, so it reads back as ''1'' (\<open>stored_event\<close>, \<open>stored_task\<close>).
\<close>

section \<open>The event table\<close>

type_synonym event_rows = "event vrow list"

record ambient =
  amb_capability :: "capability option"
  amb_registry :: registry
  amb_scope :: "idem_scope option"

definition stored_event :: "event \<Rightarrow> event" where
  "stored_event e = e\<lparr>ev_schema := ''1''\<rparr>"

definition new_vrow :: "'a \<Rightarrow> 'a vrow" where
  "new_vrow x = \<lparr>body = x, status = Pending, version = 1\<rparr>"

definition stamp_on_insert ::
  "(string \<Rightarrow> string) \<Rightarrow> (string \<Rightarrow> uuid) \<Rightarrow> ambient \<Rightarrow> event \<Rightarrow> (py_error + event) \<times> ambient" where
  "stamp_on_insert sha256hex uuid5 amb e =
     (case apply_event_capability (amb_capability amb) e None of
        Inl err \<Rightarrow> (Inl err, amb)
      | Inr e1 \<Rightarrow>
          (case apply_event_provenance (amb_registry amb) e1 of
             Inl err \<Rightarrow> (Inl err, amb)
           | Inr e2 \<Rightarrow>
               (let (r, scope') = apply_event_idempotency sha256hex uuid5 (amb_scope amb) e2 None
                in (r, amb\<lparr>amb_scope := scope'\<rparr>))))"

definition insert_stamped :: "event_rows \<Rightarrow> event \<Rightarrow> py_error + event \<times> event_rows" where
  "insert_stamped rows e =
     (case find (\<lambda>r. ev_id (body r) = ev_id e) rows of
        Some same \<Rightarrow>
          (let stored = body same in
           if py_eq (JObj (event_to_dict stored)) (JObj (event_to_dict e)) then Inr (e, rows)
           else if equivalent_idempotent_event stored e
           then Inr (e\<lparr>ev_occurred_at := ev_occurred_at stored\<rparr>, rows)
           else if idempotency_hash stored \<noteq> None
           then Inl (ValueError ''idempotency key was reused for different economic facts'')
           else Inl (ValueError ''event already exists with different contents''))
      | None \<Rightarrow> Inr (e, rows @ [new_vrow (stored_event e)]))"

definition insert_event ::
  "(string \<Rightarrow> string) \<Rightarrow> (string \<Rightarrow> uuid) \<Rightarrow> ambient \<Rightarrow> event_rows \<Rightarrow> event \<Rightarrow>
     (py_error + event \<times> event_rows) \<times> ambient" where
  "insert_event sha256hex uuid5 amb rows e =
     (case stamp_on_insert sha256hex uuid5 amb e of
        (Inl err, amb') \<Rightarrow> (Inl err, amb')
      | (Inr e', amb') \<Rightarrow> (insert_stamped rows e', amb'))"

text \<open>The identity columns \<open>event_id\<close> and \<open>task_id\<close> are not among those \<open>UPDATE\<close> sets.\<close>

definition update_event :: "event \<Rightarrow> event_rows \<Rightarrow> event_rows" where
  "update_event e rows =
     update_where (\<lambda>r. ev_id (body r) = ev_id e)
       (\<lambda>r. r\<lparr>body := (stored_event e)\<lparr>ev_task_id := ev_task_id (body r)\<rparr>,
             status := Pending, version := version r + 1\<rparr>) rows"

definition query_event_deliveries_for_sync :: "event_rows \<Rightarrow> int \<Rightarrow> (event \<times> int) list" where
  "query_event_deliveries_for_sync rows limit =
     map (\<lambda>r. (body r, version r)) (sql_limit limit
       (sort_key (\<lambda>r. isoformat (ev_occurred_at (body r))) (filter (\<lambda>r. status r = Pending) rows)))"

definition query_events_for_sync :: "event_rows \<Rightarrow> int \<Rightarrow> event list" where
  "query_events_for_sync rows limit = map fst (query_event_deliveries_for_sync rows limit)"

definition mark_event_deliveries_synced :: "(uuid \<times> int) list \<Rightarrow> event_rows \<Rightarrow> event_rows" where
  "mark_event_deliveries_synced deliveries rows =
     (if deliveries = [] then rows
      else executemany (\<lambda>p. update_where
             (\<lambda>r. status r = Pending \<and> (ev_id (body r), version r) = p)
             (\<lambda>r. r\<lparr>status := Synced\<rparr>)) deliveries rows)"

definition mark_synced :: "uuid list \<Rightarrow> event_rows \<Rightarrow> event_rows" where
  "mark_synced ids rows =
     (if ids = [] then rows
      else update_where (\<lambda>r. status r = Pending \<and> ev_id (body r) \<in> set ids)
             (\<lambda>r. r\<lparr>status := Synced\<rparr>) rows)"

definition mark_quarantined :: "uuid list \<Rightarrow> event_rows \<Rightarrow> event_rows" where
  "mark_quarantined ids rows =
     (if ids = [] then rows
      else update_where (\<lambda>r. status r = Pending \<and> ev_id (body r) \<in> set ids)
             (\<lambda>r. r\<lparr>status := Quarantined\<rparr>) rows)"

definition mark_event_deliveries_quarantined :: "(uuid \<times> int) list \<Rightarrow> event_rows \<Rightarrow> event_rows" where
  "mark_event_deliveries_quarantined deliveries rows =
     (if deliveries = [] then rows
      else executemany (\<lambda>p. update_where
             (\<lambda>r. status r = Pending \<and> (ev_id (body r), version r) = p)
             (\<lambda>r. r\<lparr>status := Quarantined\<rparr>)) deliveries rows)"

definition requeue_quarantined_events :: "event_rows \<Rightarrow> nat \<times> event_rows" where
  "requeue_quarantined_events rows =
     (length (filter (\<lambda>r. status r = Quarantined) rows),
      update_where (\<lambda>r. status r = Quarantined) (\<lambda>r. r\<lparr>status := Pending\<rparr>) rows)"

definition query_quarantined_events :: "event_rows \<Rightarrow> int \<Rightarrow> event list" where
  "query_quarantined_events rows limit =
     map body (sql_limit limit
       (sort_key (\<lambda>r. isoformat (ev_occurred_at (body r))) (filter (\<lambda>r. status r = Quarantined) rows)))"

text \<open>
  \<open>purge_synced\<close>: the stored text, with its \<open>T\<close>, is compared with SQLite's
  \<open>datetime(...)\<close> text of the cutoff, with its blank.
\<close>

definition purge_synced :: "dt \<Rightarrow> event_rows \<Rightarrow> nat \<times> event_rows" where
  "purge_synced cutoff rows =
     (let gone = (\<lambda>r. status r = Synced \<and>
                      isoformat (ev_occurred_at (body r)) < sqlite_datetime cutoff)
      in (length (filter gone rows), filter (\<lambda>r. \<not> gone r) rows))"

definition purge_old_pending :: "dt \<Rightarrow> event_rows \<Rightarrow> nat \<times> event_rows" where
  "purge_old_pending cutoff rows =
     (let gone = (\<lambda>r. status r \<in> {Pending, Quarantined} \<and>
                      isoformat (ev_occurred_at (body r)) < isoformat cutoff)
      in (length (filter gone rows), filter (\<lambda>r. \<not> gone r) rows))"

section \<open>The task table\<close>

type_synonym task_rows = "task vrow list"

definition stored_task :: "task \<Rightarrow> task" where
  "stored_task t = t\<lparr>tk_schema := ''1'',
     tk_by_host := (if tk_by_host t = [] then no_hosts else tk_by_host t)\<rparr>"

definition insert_task :: "task_rows \<Rightarrow> task \<Rightarrow> py_error + task_rows" where
  "insert_task rows t =
     (if find (\<lambda>r. tk_id (body r) = tk_id t) rows \<noteq> None
      then Inl (RuntimeError ''UNIQUE constraint failed: tasks.task_id'')
      else Inr (rows @ [new_vrow (stored_task t)]))"

definition update_task :: "task \<Rightarrow> task_rows \<Rightarrow> task_rows" where
  "update_task t rows =
     update_where (\<lambda>r. tk_id (body r) = tk_id t)
       (\<lambda>r. r\<lparr>body := stored_task t, status := Pending, version := version r + 1\<rparr>) rows"

definition get_task :: "task_rows \<Rightarrow> uuid \<Rightarrow> task option" where
  "get_task rows tid = map_option body (find (\<lambda>r. tk_id (body r) = tid) rows)"

text \<open>The optional keyword filters of \<open>query_tasks\<close> and \<open>query_events\<close>.\<close>

record task_filters =
  tf_customer_id :: "string option"
  tf_task_type :: "string option"
  tf_project_id :: "string option"
  tf_status :: "string option"
  tf_started_after :: "dt option"
  tf_started_before :: "dt option"

definition task_matches :: "task_filters \<Rightarrow> task \<Rightarrow> bool" where
  "task_matches f t \<longleftrightarrow>
     holds_opt (\<lambda>c. tk_customer_id t = Some c) (tf_customer_id f) \<and>
     holds_opt (\<lambda>c. tk_type t = c) (tf_task_type f) \<and>
     holds_opt (\<lambda>c. tk_project_id t = Some c) (tf_project_id f) \<and>
     holds_opt (\<lambda>c. tk_status t = c) (tf_status f) \<and>
     holds_opt (\<lambda>d. isoformat d \<le> isoformat (tk_started_at t)) (tf_started_after f) \<and>
     holds_opt (\<lambda>d. isoformat (tk_started_at t) \<le> isoformat d) (tf_started_before f)"

definition query_tasks :: "task_rows \<Rightarrow> task_filters \<Rightarrow> task list" where
  "query_tasks rows f =
     map body (rev (sort_key (\<lambda>r. isoformat (tk_started_at (body r)))
       (rev (filter (\<lambda>r. task_matches f (body r)) rows))))"

record event_filters =
  ef_task_id :: "uuid option"
  ef_event_id :: "uuid option"
  ef_event_type :: "string option"
  ef_customer_id :: "string option"
  ef_after :: "dt option"
  ef_before :: "dt option"

definition event_matches :: "task_rows \<Rightarrow> event_filters \<Rightarrow> event \<Rightarrow> bool" where
  "event_matches tasks f e \<longleftrightarrow>
     holds_opt (\<lambda>i. ev_task_id e = i) (ef_task_id f) \<and>
     holds_opt (\<lambda>i. ev_id e = i) (ef_event_id f) \<and>
     holds_opt (\<lambda>t. ev_type e = t) (ef_event_type f) \<and>
     holds_opt (\<lambda>c. list_ex (\<lambda>r. tk_id (body r) = ev_task_id e \<and> tk_customer_id (body r) = Some c) tasks)
       (ef_customer_id f) \<and>
     holds_opt (\<lambda>d. isoformat d \<le> isoformat (ev_occurred_at e)) (ef_after f) \<and>
     holds_opt (\<lambda>d. isoformat (ev_occurred_at e) \<le> isoformat d) (ef_before f)"

text \<open>Newest first, the later insertion first among equal timestamps.\<close>

definition query_events :: "task_rows \<Rightarrow> event_rows \<Rightarrow> event_filters \<Rightarrow> event list" where
  "query_events tasks rows f =
     map body (rev (sort_key (\<lambda>r. isoformat (ev_occurred_at (body r)))
       (filter (\<lambda>r. event_matches tasks f (body r)) rows)))"

definition query_tasks_for_sync :: "task_rows \<Rightarrow> uuid list \<Rightarrow> task list" where
  "query_tasks_for_sync rows ids =
     (if ids = [] then [] else map body (filter (\<lambda>r. tk_id (body r) \<in> set ids) rows))"

definition query_all_tasks :: "task_rows \<Rightarrow> task list" where
  "query_all_tasks rows = map body rows"

definition query_task_deliveries_for_sync :: "task_rows \<Rightarrow> int \<Rightarrow> (task \<times> int) list" where
  "query_task_deliveries_for_sync rows limit =
     map (\<lambda>r. (body r, version r)) (sql_limit limit
       (sort_key (\<lambda>r. isoformat (tk_started_at (body r))) (filter (\<lambda>r. status r = Pending) rows)))"

definition query_pending_tasks_for_sync :: "task_rows \<Rightarrow> int \<Rightarrow> task list" where
  "query_pending_tasks_for_sync rows limit = map fst (query_task_deliveries_for_sync rows limit)"

definition mark_task_deliveries_synced :: "(uuid \<times> int) list \<Rightarrow> task_rows \<Rightarrow> task_rows" where
  "mark_task_deliveries_synced deliveries rows =
     (if deliveries = [] then rows
      else executemany (\<lambda>p. update_where
             (\<lambda>r. status r = Pending \<and> (tk_id (body r), version r) = p)
             (\<lambda>r. r\<lparr>status := Synced\<rparr>)) deliveries rows)"

definition mark_task_deliveries_quarantined :: "(uuid \<times> int) list \<Rightarrow> task_rows \<Rightarrow> task_rows" where
  "mark_task_deliveries_quarantined deliveries rows =
     (if deliveries = [] then rows
      else executemany (\<lambda>p. update_where
             (\<lambda>r. status r = Pending \<and> (tk_id (body r), version r) = p)
             (\<lambda>r. r\<lparr>status := Quarantined\<rparr>)) deliveries rows)"

definition mark_tasks_synced :: "uuid list \<Rightarrow> task_rows \<Rightarrow> task_rows" where
  "mark_tasks_synced ids rows =
     (if ids = [] then rows
      else update_where (\<lambda>r. status r = Pending \<and> tk_id (body r) \<in> set ids)
             (\<lambda>r. r\<lparr>status := Synced\<rparr>) rows)"

definition mark_tasks_quarantined :: "uuid list \<Rightarrow> task_rows \<Rightarrow> task_rows" where
  "mark_tasks_quarantined ids rows =
     (if ids = [] then rows
      else update_where (\<lambda>r. status r = Pending \<and> tk_id (body r) \<in> set ids)
             (\<lambda>r. r\<lparr>status := Quarantined\<rparr>) rows)"

section \<open>All queues\<close>

record store =
  st_events :: event_rows
  st_tasks :: task_rows
  st_outcomes :: outcome_rows
  st_revenues :: revenue_rows
  st_jobs :: job_rows

record counts =
  ct_events :: "nat \<times> nat"
  ct_tasks :: "nat \<times> nat"
  ct_outcomes :: "nat \<times> nat"
  ct_revenues :: "nat \<times> nat"
  ct_jobs :: "nat \<times> nat"
  ct_oldest :: "string option"

definition queue_counts :: "('a, 'b) qrow_scheme list \<Rightarrow> nat \<times> nat" where
  "queue_counts rows =
     (length (filter (\<lambda>r. status r = Pending) rows), length (filter (\<lambda>r. status r = Quarantined) rows))"

text \<open>SQL \<open>MIN\<close>: NULL on no rows, and NULLs are left out.\<close>

definition sql_min :: "string list \<Rightarrow> string option" where
  "sql_min xs = (if xs = [] then None else Some (Min (set xs)))"

definition pending_texts :: "('a \<Rightarrow> dt) \<Rightarrow> ('a, 'b) qrow_scheme list \<Rightarrow> string list" where
  "pending_texts stamp rows = map (\<lambda>r. isoformat (stamp (body r))) (filter (\<lambda>r. status r = Pending) rows)"

definition delivery_counts :: "store \<Rightarrow> counts" where
  "delivery_counts s =
     \<lparr>ct_events = queue_counts (st_events s), ct_tasks = queue_counts (st_tasks s),
      ct_outcomes = queue_counts (st_outcomes s), ct_revenues = queue_counts (st_revenues s),
      ct_jobs = queue_counts (st_jobs s),
      ct_oldest = sql_min (List.map_filter id
        [sql_min (pending_texts ev_occurred_at (st_events s)),
         sql_min (pending_texts tk_started_at (st_tasks s)),
         sql_min (pending_texts out_observed_at (st_outcomes s)),
         sql_min (pending_texts rev_observed_at (st_revenues s)),
         sql_min (pending_texts job_observed_at (st_jobs s))])\<rparr>"

section \<open>The queue contracts hold\<close>

interpretation eventq: delivery_queue "status :: event vrow \<Rightarrow> sync_status"
    "\<lambda>s r. r\<lparr>status := s\<rparr>" "\<lambda>r. (ev_id (body r), version r)"
    mark_event_deliveries_synced mark_event_deliveries_quarantined
  by unfold_locales
    (simp_all add: mark_event_deliveries_synced_def mark_event_deliveries_quarantined_def mark_rows)

interpretation taskq: delivery_queue "status :: task vrow \<Rightarrow> sync_status"
    "\<lambda>s r. r\<lparr>status := s\<rparr>" "\<lambda>r. (tk_id (body r), version r)"
    mark_task_deliveries_synced mark_task_deliveries_quarantined
  by unfold_locales
    (simp_all add: mark_task_deliveries_synced_def mark_task_deliveries_quarantined_def mark_rows)

lemma update_where_none: "(\<And>r. \<not> P r) \<Longrightarrow> update_where P f rows = rows"
  by (simp add: update_where_def map_idI)

interpretation eventq_by_id: delivery_queue "status :: event vrow \<Rightarrow> sync_status"
    "\<lambda>s r. r\<lparr>status := s\<rparr>" "\<lambda>r. ev_id (body r)" mark_synced mark_quarantined
  by unfold_locales
    (auto simp: mark_synced_def mark_quarantined_def mark_where_def update_where_def map_idI)

interpretation taskq_by_id: delivery_queue "status :: task vrow \<Rightarrow> sync_status"
    "\<lambda>s r. r\<lparr>status := s\<rparr>" "\<lambda>r. tk_id (body r)" mark_tasks_synced mark_tasks_quarantined
  by unfold_locales
    (auto simp: mark_tasks_synced_def mark_tasks_quarantined_def mark_where_def update_where_def map_idI)

section \<open>Replays\<close>

lemma py_eq_items:
  "py_eq (JObj kvs) (JObj kws) \<longleftrightarrow> length kvs = length kws \<and>
     (\<forall>(k, v) \<in> set kvs. case map_of kws k of None \<Rightarrow> False | Some w \<Rightarrow> py_eq v w)"
  by (auto simp: list_all_iff split: option.splits)

lemma event_to_dict_eq:
  "py_eq (JObj (event_to_dict a)) (JObj (event_to_dict b)) \<longleftrightarrow>
     iso_canonical (ev_occurred_at a) = iso_canonical (ev_occurred_at b) \<and>
     py_eq (JObj (dict_pop (event_to_dict a) ''occurred_at''))
           (JObj (dict_pop (event_to_dict b) ''occurred_at''))"
  unfolding py_eq_items by (auto simp: event_to_dict_def dict_pop_def)

lemma event_to_dict_refl:
  assumes "wf_json (JObj (ev_details e))"
  shows "py_eq (JObj (event_to_dict e)) (JObj (event_to_dict e))"
proof (rule py_eq_refl)
  show "wf_json (JObj (event_to_dict e))"
    using assms by (simp add: event_to_dict_def opt_str_def opt_int_def split: option.splits)
qed

lemma pop_occurred:
  "dict_pop (event_to_dict (e\<lparr>ev_occurred_at := t\<rparr>)) ''occurred_at'' = dict_pop (event_to_dict e) ''occurred_at''"
  by (simp add: event_to_dict_def dict_pop_def)

lemma insert_stamped_replay_aux:
  assumes ins: "insert_stamped rows e = Inr (e', rows')"
    and wf: "wf_json (JObj (ev_details e))" and schema: "ev_schema e = ''1''"
  shows "insert_stamped rows' e' = Inr (e', rows')"
proof (cases "find (\<lambda>r. ev_id (body r) = ev_id e) rows")
  case None
  then have e': "e' = e" "rows' = rows @ [new_vrow (stored_event e)]"
    using ins by (auto simp: insert_stamped_def)
  have "stored_event e = e" using schema by (simp add: stored_event_def)
  then show ?thesis
    using None event_to_dict_refl [OF wf]
    by (simp add: e' insert_stamped_def find_append new_vrow_def)
next
  case (Some same)
  show ?thesis
  proof (cases "py_eq (JObj (event_to_dict (body same))) (JObj (event_to_dict e))")
    case True
    with Some ins show ?thesis by (auto simp: insert_stamped_def Let_def)
  next
    case False
    with Some ins have eq: "equivalent_idempotent_event (body same) e"
        "e' = e\<lparr>ev_occurred_at := ev_occurred_at (body same)\<rparr>" "rows' = rows"
      by (auto simp: insert_stamped_def Let_def split: if_splits)
    have "py_eq (JObj (event_to_dict (body same))) (JObj (event_to_dict e'))"
      unfolding event_to_dict_eq using eq(1)
      by (auto simp: eq(2) pop_occurred equivalent_idempotent_event_def split: if_splits)
    with Some eq show ?thesis by (simp add: insert_stamped_def Let_def)
  qed
qed

section \<open>Properties\<close>

text \<open>The retention purge deletes a synced event exactly when its day is before the day of
  the cutoff: because the stored text has a T where SQLite's has a blank, the time of day
  never counts, and an event of the cutoff day stays however early it occurred.\<close>

lemma purge_synced_by_day:
  assumes "valid_dt cutoff" "\<forall>r \<in> set rows. valid_dt (ev_occurred_at (body r))"
  shows "snd (purge_synced cutoff rows) =
    filter (\<lambda>r. \<not> (status r = Synced \<and> date_key (ev_occurred_at (body r)) < date_key cutoff)) rows"
  using assms isoformat_less_sqlite_datetime
  by (auto simp: purge_synced_def Let_def intro!: filter_cong)

definition sample_row :: "event vrow" where
  "sample_row = (new_vrow (sample_event (uuid_text 5) (sample_time 0)))\<lparr>status := Synced\<rparr>"

lemma purge_synced_by_day_witness:
  "snd (purge_synced (sample_time 59) [sample_row]) = [sample_row]"
proof -
  have "\<forall>r \<in> set [sample_row]. valid_dt (ev_occurred_at (body r))"
    by (simp add: sample_row_def new_vrow_def sample_event_def sample_time_ok)
  from purge_synced_by_day [OF sample_time_ok this, of 59] show ?thesis
    by (simp add: sample_row_def new_vrow_def sample_event_def sample_time_def date_key_def)
qed



text \<open>The \<open>schema_version\<close> of an event is not stored: an event with another version than
  1 is accepted once, and storing the very same event again is refused as different contents.\<close>

lemma other_schema_replay_refused:
  assumes "find (\<lambda>r. ev_id (body r) = ev_id e) rows = None" "ev_schema e \<noteq> ''1''"
    and "idempotency_hash e = None"
  shows "\<exists>rows' err. insert_stamped rows e = Inr (e, rows') \<and> insert_stamped rows' e = Inl (ValueError err)"
proof -
  have "\<not> py_eq (JObj (event_to_dict (stored_event e))) (JObj (event_to_dict e))"
    unfolding py_eq_items using assms(2) by (auto simp: event_to_dict_def stored_event_def)
  moreover have "idempotency_hash (stored_event e) = None"
    using assms(3) by (simp add: idempotency_hash_def stored_event_def)
  moreover have "ev_id (stored_event e) = ev_id e" by (simp add: stored_event_def)
  ultimately show ?thesis
    using assms(1)
    by (simp add: insert_stamped_def find_append new_vrow_def equivalent_idempotent_event_def Let_def
        del: py_eq.simps)
qed

lemma other_schema_replay_refused_witness:
  "\<exists>rows' err. insert_stamped [] ((sample_event (uuid_text 5) (sample_time 0))\<lparr>ev_schema := ''2''\<rparr>) =
      Inr ((sample_event (uuid_text 5) (sample_time 0))\<lparr>ev_schema := ''2''\<rparr>, rows') \<and>
    insert_stamped rows' ((sample_event (uuid_text 5) (sample_time 0))\<lparr>ev_schema := ''2''\<rparr>) =
      Inl (ValueError err)"
  by (rule other_schema_replay_refused)
    (simp_all add: sample_event_def idempotency_hash_def dict_get_def)

end
