(* ===== verification/Delivery_Health.thy ===== *)
theory Delivery_Health
  imports Event_Store "HOL-Library.Sublist"
begin

text \<open>
  The health record of the upload worker (\<open>sync.py\<close>, the fields guarded by
  \<open>_health_lock\<close>), the status it is reported as and the failure callbacks
  (\<open>delivery.py\<close>), and the format check of the API key (\<open>config.py\<close>). A callback is
  modelled by its identity, and what callbacks receive is a log of calls: an exception of
  a callback is logged and ignored by the code, so it changes nothing here.
\<close>

datatype worker_state = LocalOnly | Idle | Syncing | Backoff | AuthFailed | Stopped

datatype error_operation = Transport | Authentication | Conversion

record error_event =
  er_occurred_at :: dt
  er_operation :: error_operation
  er_type :: string
  er_message :: string
  er_retryable :: bool
  er_failures :: nat

record health =
  h_state :: worker_state
  h_attempt_at :: "dt option"
  h_success_at :: "dt option"
  h_error_at :: "dt option"
  h_error_type :: "string option"
  h_error_message :: "string option"
  h_failures :: nat
  h_ok_batches :: nat
  h_failed_batches :: nat
  h_delivered :: nat

definition new_health :: health where
  "new_health =
     \<lparr>h_state = Stopped, h_attempt_at = None, h_success_at = None, h_error_at = None,
      h_error_type = None, h_error_message = None, h_failures = 0, h_ok_batches = 0,
      h_failed_batches = 0, h_delivered = 0\<rparr>"

section \<open>Keys and messages\<close>

text \<open>\<open>validate_api_key\<close>: the prefix decides the kind of key.\<close>

definition validate_api_key :: "string option \<Rightarrow> py_error + string option" where
  "validate_api_key key =
     (case key of
        None \<Rightarrow> Inr None
      | Some k \<Rightarrow>
          if take 8 k = ''dx_live_'' then Inr (Some ''live'')
          else if take 8 k = ''dx_test_'' then Inr (Some ''test'')
          else Inl (ValueError ''Invalid API key format''))"

text \<open>\<open>str.replace(pat, rep)\<close> of a non-empty pattern: leftmost first, without overlap.\<close>

function py_replace :: "string \<Rightarrow> string \<Rightarrow> string \<Rightarrow> string" where
  "py_replace pat rep s =
     (if pat = [] \<or> s = [] then s
      else if take (length pat) s = pat then rep @ py_replace pat rep (drop (length pat) s)
      else hd s # py_replace pat rep (tl s))"
  by pat_completeness auto

termination
  by (relation "measure (\<lambda>(pat, rep, s). length s)") (auto simp: neq_Nil_conv)

declare py_replace.simps [simp del]

definition redacted_text :: string where "redacted_text = ''[REDACTED]''"

definition safe_message :: "string option \<Rightarrow> string \<Rightarrow> string" where
  "safe_message api_key message =
     take 1024 (case api_key of
        Some k \<Rightarrow> if k \<noteq> [] then py_replace k redacted_text message else message
      | None \<Rightarrow> message)"

section \<open>Callbacks\<close>

definition on_delivery_error :: "'c \<Rightarrow> 'c list \<Rightarrow> 'c list" where
  "on_delivery_error c callbacks = (if c \<in> set callbacks then callbacks else callbacks @ [c])"

definition remove_delivery_error_callback :: "'c \<Rightarrow> 'c list \<Rightarrow> bool \<times> 'c list" where
  "remove_delivery_error_callback c callbacks = (c \<in> set callbacks, remove1 c callbacks)"

definition emit_delivery_error :: "'c list \<Rightarrow> error_event \<Rightarrow> ('c \<times> error_event) list" where
  "emit_delivery_error callbacks ev = map (\<lambda>c. (c, ev)) callbacks"

section \<open>Recording\<close>

definition set_worker_state :: "worker_state \<Rightarrow> health \<Rightarrow> health" where
  "set_worker_state ws h = h\<lparr>h_state := ws\<rparr>"

definition record_attempt :: "dt \<Rightarrow> health \<Rightarrow> health" where
  "record_attempt now h = h\<lparr>h_attempt_at := Some now, h_state := Syncing\<rparr>"

definition record_delivery_progress :: "dt \<Rightarrow> nat \<Rightarrow> health \<Rightarrow> health" where
  "record_delivery_progress now n h =
     (if 0 < n
      then h\<lparr>h_success_at := Some now, h_ok_batches := h_ok_batches h + 1,
             h_delivered := h_delivered h + n\<rparr>
      else h)"

definition record_success :: "dt \<Rightarrow> nat \<Rightarrow> health \<Rightarrow> health" where
  "record_success now n h =
     (record_delivery_progress now n (h\<lparr>h_failures := 0\<rparr>))\<lparr>h_state := Idle\<rparr>"

definition record_error ::
  "string option \<Rightarrow> dt \<Rightarrow> string \<Rightarrow> string \<Rightarrow> error_operation \<Rightarrow> bool \<Rightarrow> worker_state \<Rightarrow>
     health \<Rightarrow> health \<times> error_event" where
  "record_error api_key now etype message operation retryable ws h =
     (let msg = safe_message api_key message;
          n = h_failures h + 1
      in (h\<lparr>h_error_at := Some now, h_error_type := Some etype, h_error_message := Some msg,
            h_failures := n, h_failed_batches := h_failed_batches h + 1, h_state := ws\<rparr>,
          \<lparr>er_occurred_at = now, er_operation = operation, er_type = etype, er_message = msg,
           er_retryable = retryable, er_failures = n\<rparr>))"

section \<open>Status\<close>

record delivery_status =
  ds_enabled :: bool
  ds_state :: worker_state
  ds_counts :: counts
  ds_oldest :: "dt option"
  ds_health :: health
  ds_backoff :: nat

definition pending_records :: "delivery_status \<Rightarrow> nat" where
  "pending_records d =
     fst (ct_events (ds_counts d)) + fst (ct_tasks (ds_counts d)) + fst (ct_outcomes (ds_counts d)) +
     fst (ct_revenues (ds_counts d)) + fst (ct_jobs (ds_counts d))"

definition quarantined_records :: "delivery_status \<Rightarrow> nat" where
  "quarantined_records d =
     snd (ct_events (ds_counts d)) + snd (ct_tasks (ds_counts d)) + snd (ct_outcomes (ds_counts d)) +
     snd (ct_revenues (ds_counts d)) + snd (ct_jobs (ds_counts d))"

definition healthy :: "delivery_status \<Rightarrow> bool" where
  "healthy d \<longleftrightarrow> ds_state d \<notin> {AuthFailed, Backoff} \<and> quarantined_records d = 0"

definition oldest :: "counts \<Rightarrow> dt option" where
  "oldest c = (case ct_oldest c of None \<Rightarrow> None | Some s \<Rightarrow> parse_canonical s)"

definition worker_status :: "health \<Rightarrow> nat \<Rightarrow> store \<Rightarrow> delivery_status" where
  "worker_status h backoff s =
     \<lparr>ds_enabled = True, ds_state = h_state h, ds_counts = delivery_counts s,
      ds_oldest = oldest (delivery_counts s), ds_health = h,
      ds_backoff = (if h_state h = Backoff then backoff else 0)\<rparr>"

definition no_counts :: counts where
  "no_counts = \<lparr>ct_events = (0, 0), ct_tasks = (0, 0), ct_outcomes = (0, 0), ct_revenues = (0, 0),
     ct_jobs = (0, 0), ct_oldest = None\<rparr>"

definition local_delivery_status :: "store option \<Rightarrow> delivery_status" where
  "local_delivery_status s =
     (let c = (case s of None \<Rightarrow> no_counts | Some st \<Rightarrow> delivery_counts st)
      in \<lparr>ds_enabled = False, ds_state = LocalOnly, ds_counts = c, ds_oldest = oldest c,
          ds_health = new_health\<lparr>h_state := LocalOnly\<rparr>, ds_backoff = 0\<rparr>)"

section \<open>Redaction of the key\<close>

lemma prefix_py_replace:
  assumes "rep \<noteq> []" "hd rep \<notin> set p"
  shows "prefix p (py_replace pat rep s) \<Longrightarrow> prefix p s"
  using assms
proof (induction pat rep s arbitrary: p rule: py_replace.induct)
  case (1 pat rep s)
  consider "pat = [] \<or> s = []" | "pat \<noteq> []" "s \<noteq> []" "take (length pat) s = pat"
    | "pat \<noteq> []" "s \<noteq> []" "take (length pat) s \<noteq> pat" by blast
  then show ?case
  proof cases
    case 1
    with "1.prems" show ?thesis by (simp add: py_replace.simps [of pat rep s])
  next
    case 2
    with "1.prems" have "prefix p (rep @ py_replace pat rep (drop (length pat) s))"
      by (simp add: py_replace.simps [of pat rep s])
    moreover obtain c r where "rep = c # r" using "1.prems"(2) by (cases rep) auto
    ultimately have "p = []" using "1.prems"(3) by (cases p) auto
    then show ?thesis by simp
  next
    case 3
    with "1.prems" have pre: "prefix p (hd s # py_replace pat rep (tl s))"
      by (simp add: py_replace.simps [of pat rep s])
    show ?thesis
    proof (cases p)
      case (Cons c p')
      with pre have "c = hd s" "prefix p' (py_replace pat rep (tl s))" by auto
      moreover have "prefix p' (tl s)"
        using "1.IH"(2) [of p'] 3 calculation(2) "1.prems"(2,3) Cons by auto
      ultimately show ?thesis using Cons 3 by (cases s) auto
    qed simp
  qed
qed

lemma sublist_bracketed:
  assumes "k \<noteq> []" "a \<notin> set k" "b \<notin> set k"
  shows "sublist k (a # m @ b # r) \<longleftrightarrow> sublist k m \<or> sublist k r"
proof -
  have out: "sublist k (x # ys) \<longleftrightarrow> sublist k ys" if "x \<notin> set k" for x ys
    using that assms(1) by (cases k) (auto simp: sublist_Cons_right)
  have "sublist k (a # m @ b # r) \<longleftrightarrow> sublist k (m @ b # r)" by (rule out [OF assms(2)])
  also have "\<dots> \<longleftrightarrow> sublist k m \<or> sublist k (b # r) \<or>
      (\<exists>k1 k2. k = k1 @ k2 \<and> suffix k1 m \<and> prefix k2 (b # r))"
    by (auto simp: sublist_append)
  also have "\<dots> \<longleftrightarrow> sublist k m \<or> sublist k r"
  proof -
    have "sublist k m" if "k = k1 @ k2" "suffix k1 m" "prefix k2 (b # r)" for k1 k2
      using that assms(3) by (cases k2) (auto dest: suffix_imp_sublist)
    then show ?thesis using out [OF assms(3)] by auto
  qed
  finally show ?thesis .
qed

lemma replace_removes:
  assumes "k \<noteq> []" "CHR 0x5B \<notin> set k" "CHR 0x5D \<notin> set k" "\<not> sublist k ''REDACTED''"
  shows "\<not> sublist k (py_replace k redacted_text s)"
  using assms
proof (induction k redacted_text s rule: py_replace.induct)
  case (1 pat s)
  consider "s = []" | "s \<noteq> []" "take (length pat) s = pat" | "s \<noteq> []" "take (length pat) s \<noteq> pat"
    by blast
  then show ?case
  proof cases
    case 1
    with "1.prems" show ?thesis by (simp add: py_replace.simps [of pat redacted_text "[]"])
  next
    case 2
    have "redacted_text = CHR 0x5B # ''REDACTED'' @ [CHR 0x5D]" by (simp add: redacted_text_def)
    then have "py_replace pat redacted_text s =
        CHR 0x5B # ''REDACTED'' @ CHR 0x5D # py_replace pat redacted_text (drop (length pat) s)"
      using 2 "1.prems"(1) by (simp add: py_replace.simps [of pat redacted_text s])
    then show ?thesis
      using sublist_bracketed [OF "1.prems"(1-3), of "''REDACTED''"] 1 2 "1.prems" by metis
  next
    case 3
    have hd: "redacted_text \<noteq> []" "hd redacted_text \<notin> set pat"
      using "1.prems"(2) by (simp_all add: redacted_text_def)
    have eq: "py_replace pat redacted_text s = hd s # py_replace pat redacted_text (tl s)"
      using 3 "1.prems"(1) by (simp add: py_replace.simps [of pat redacted_text s])
    have "\<not> prefix pat s" using 3 by (auto simp: prefix_def)
    then have "\<not> prefix pat (py_replace pat redacted_text s)"
      using prefix_py_replace [OF hd] by blast
    moreover have "\<not> sublist pat (py_replace pat redacted_text (tl s))"
      using 1(2) 3 "1.prems" by blast
    ultimately show ?thesis unfolding eq by (auto simp: sublist_Cons_right)
  qed
qed

lemma key_not_redacted_text:
  assumes "validate_api_key (Some k) = Inr r"
  shows "k \<noteq> [] \<and> \<not> sublist k ''REDACTED''"
proof -
  have "CHR ''d'' \<in> set k"
    using assms by (cases k) (auto simp: validate_api_key_def split: if_splits)
  then show ?thesis using set_mono_sublist by fastforce
qed

section \<open>Properties\<close>

text \<open>C18. No error message the worker records, and none it hands to a callback, contains the API
  key, for every accepted key without square brackets; and no message is longer than 1024
  characters.\<close>

theorem api_key_not_leaked:
  assumes "validate_api_key (Some k) = Inr r" "CHR 0x5B \<notin> set k" "CHR 0x5D \<notin> set k"
    and "record_error (Some k) now etype message operation retryable ws h = (h', ev)"
  shows "er_message ev = the (h_error_message h') \<and> \<not> sublist k (er_message ev) \<and>
    length (er_message ev) \<le> 1024"
proof -
  note k = key_not_redacted_text [OF assms(1)]
  have "\<not> sublist k (safe_message (Some k) message)"
  proof
    assume "sublist k (safe_message (Some k) message)"
    then have "sublist k (py_replace k redacted_text message)"
      using k sublist_order.order_trans [OF _ sublist_take]
      by (auto simp: safe_message_def)
    then show False using replace_removes [of k message] k assms(2,3) by blast
  qed
  then show ?thesis
    using assms(4) by (auto simp: record_error_def Let_def safe_message_def)
qed

theorem api_key_not_leaked_witness:
  "\<not> sublist ''dx_live_1'' (er_message (snd (record_error (Some ''dx_live_1'') (sample_time 0)
     ''URLError'' ''key dx_live_1 refused'' Transport True Backoff new_health)))"
proof -
  have "validate_api_key (Some ''dx_live_1'') = Inr (Some ''live'')"
    by (simp add: validate_api_key_def)
  from api_key_not_leaked [THEN conjunct2, THEN conjunct1, OF this _ _ prod.collapse [symmetric], of "sample_time 0" "''URLError''"
      "''key dx_live_1 refused''" Transport True Backoff new_health]
  show ?thesis by simp
qed

end
