(* ===== verification/Sync_Post.thy ===== *)
theory Sync_Post
  imports Delivery_Health
begin

text \<open>
  The upload of one batch (\<open>sync.py\<close>): \<open>_post_raw\<close> sends one body, \<open>_post_with_split\<close>
  cuts a batch that is too large for the ingestion queue into leaves that fit, posts them in
  order, acknowledges each accepted leaf at once and quarantines a single record that fits
  in no request.

  The control plane is the argument \<open>net\<close>: the reply to the n-th request, given its body.
  The log of requests (\<open>ps_log\<close>) is what the properties talk about. The batch size limit is
  an argument of the definitions; the worker passes \<open>max_payload_bytes\<close>. The store is the
  SQLite one, which has every optional method.
\<close>

definition max_payload_bytes :: nat where "max_payload_bytes = 120000"

record payload =
  pl_events :: "obj list"
  pl_tasks :: "obj list"
  pl_identities :: "obj list"
  pl_outcomes :: "obj list"
  pl_revenues :: "obj list"

definition payload_json :: "payload \<Rightarrow> json" where
  "payload_json p =
     JObj [(''events'', JArr (map JObj (pl_events p))), (''tasks'', JArr (map JObj (pl_tasks p))),
           (''business_identities'', JArr (map JObj (pl_identities p))),
           (''outcomes'', JArr (map JObj (pl_outcomes p))),
           (''revenue_revisions'', JArr (map JObj (pl_revenues p)))]"

definition payload_body :: "payload \<Rightarrow> string" where
  "payload_body p = json_dumps (payload_json p)"

definition durable_count :: "payload \<Rightarrow> nat" where
  "durable_count p =
     length (pl_events p) + length (pl_tasks p) + length (pl_outcomes p) + length (pl_revenues p)"

definition record_count :: "payload \<Rightarrow> nat" where
  "record_count p =
     length (pl_events p) + length (pl_tasks p) + length (pl_identities p) +
     length (pl_outcomes p) + length (pl_revenues p)"

section \<open>One request\<close>

text \<open>
  What \<open>urlopen\<close> gives: an answer with its status and its body as JSON (\<open>None\<close> when it is
  not JSON), an \<open>HTTPError\<close> with code and reason, or another network failure.
\<close>

datatype reply = Answered int "json option" | HttpFailure int string | NetworkFailure string

datatype post_error = HTTPError int string | URLError string | Raised py_error

record post_env =
  env_api_key :: "string option"
  env_now :: dt

record post_state =
  ps_store :: store
  ps_health :: health
  ps_stopped :: bool
  ps_errors :: "error_event list"
  ps_delivered :: nat
  ps_quarantined :: nat
  ps_log :: "(payload \<times> bool) list"

definition http_error_text :: "int \<Rightarrow> string \<Rightarrow> string" where
  "http_error_text code reason = ''HTTP Error '' @ show_int code @ '': '' @ reason"

text \<open>\<open>isinstance(rejected, (int, float)) and rejected > 0\<close>; a body that is no object, or no
  JSON at all, rejects nothing.\<close>

definition reply_rejects :: "json option \<Rightarrow> bool" where
  "reply_rejects r =
     (case r of
        Some (JObj d) \<Rightarrow> (case map_of d ''rejected'' of
                            Some (JInt i) \<Rightarrow> 0 < i | Some (JBool b) \<Rightarrow> b | _ \<Rightarrow> False)
      | _ \<Rightarrow> False)"

definition http_failure ::
  "post_env \<Rightarrow> int \<Rightarrow> string \<Rightarrow> post_state \<Rightarrow> (post_error + bool) \<times> post_state" where
  "http_failure env code reason s =
     (if code = 413 then (Inr False, s)
      else if code = 401 then
        (let (h, ev) = record_error (env_api_key env) (env_now env) ''HTTPError''
               (http_error_text code reason) Authentication False AuthFailed (ps_health s)
         in (Inr False, s\<lparr>ps_health := h, ps_errors := ps_errors s @ [ev], ps_stopped := True\<rparr>))
      else (Inl (HTTPError code reason), s))"

definition post_raw ::
  "post_env \<Rightarrow> reply \<Rightarrow> post_state \<Rightarrow> (post_error + bool) \<times> post_state" where
  "post_raw env rep s =
     (case rep of
        Answered code answer \<Rightarrow>
          if 300 \<le> code
          then http_failure env code (''Unexpected status '' @ show_int code) s
          else (Inr (\<not> reply_rejects answer), s)
      | HttpFailure code reason \<Rightarrow> http_failure env code reason s
      | NetworkFailure reason \<Rightarrow> (Inl (URLError reason), s))"

section \<open>What a leaf acknowledges\<close>

definition dict_item :: "obj \<Rightarrow> string \<Rightarrow> py_error + json" where
  "dict_item d k = (case map_of d k of None \<Rightarrow> Inl (LookupError k) | Some v \<Rightarrow> Inr v)"

definition text_item :: "string \<Rightarrow> obj \<Rightarrow> py_error + string" where
  "text_item k d = map_sum id py_str (dict_item d k)"

text \<open>\<open>(str(d[k]), int(d["lifecycle"]["revision"]))\<close>.\<close>

definition ledger_key :: "string \<Rightarrow> obj \<Rightarrow> py_error + uuid \<times> int" where
  "ledger_key k d =
     (case text_item k d of
        Inl e \<Rightarrow> Inl e
      | Inr u \<Rightarrow>
          (case dict_item d ''lifecycle'' of
             Inl e \<Rightarrow> Inl e
           | Inr (JObj l) \<Rightarrow>
               (case dict_item l ''revision'' of
                  Inl e \<Rightarrow> Inl e
                | Inr v \<Rightarrow> (case py_int v of
                              None \<Rightarrow> Inl (TypeError ''revision'') | Some r \<Rightarrow> Inr (u, r)))
           | Inr v \<Rightarrow> Inl (TypeError ''lifecycle'')))"

datatype event_key = PlainEvent uuid | JobRevision uuid int

text \<open>The revision of an event's lifecycle when it is an \<open>int\<close> (\<open>True\<close> and \<open>False\<close> are).\<close>

definition event_revision :: "obj \<Rightarrow> int option" where
  "event_revision d =
     (case dict_get d ''lifecycle'' of
        JObj l \<Rightarrow> (case dict_get l ''revision'' of
                     JInt i \<Rightarrow> Some i | JBool b \<Rightarrow> Some (of_bool b) | _ \<Rightarrow> None)
      | _ \<Rightarrow> None)"

definition event_key :: "(uuid \<times> int) list \<Rightarrow> obj \<Rightarrow> py_error + event_key" where
  "event_key jobs d =
     map_sum id (\<lambda>u. case event_revision d of
         Some r \<Rightarrow> if (u, r) \<in> set jobs then JobRevision u r else PlainEvent u
       | None \<Rightarrow> PlainEvent u) (text_item ''event_id'' d)"

record leaf_acks =
  la_events :: "event_key list"
  la_tasks :: "uuid list"
  la_outcomes :: "(uuid \<times> int) list"
  la_revenues :: "(uuid \<times> int) list"

definition leaf_acks_of :: "(uuid \<times> int) list \<Rightarrow> payload \<Rightarrow> py_error + leaf_acks" where
  "leaf_acks_of jobs p =
     (case collect (event_key jobs) (pl_events p) of
        Inl e \<Rightarrow> Inl e
      | Inr es \<Rightarrow>
     (case collect (text_item ''task_id'') (pl_tasks p) of
        Inl e \<Rightarrow> Inl e
      | Inr ts \<Rightarrow>
     (case collect (ledger_key ''outcome_id'') (pl_outcomes p) of
        Inl e \<Rightarrow> Inl e
      | Inr os \<Rightarrow>
     (case collect (ledger_key ''revenue_id'') (pl_revenues p) of
        Inl e \<Rightarrow> Inl e
      | Inr rs \<Rightarrow> Inr \<lparr>la_events = es, la_tasks = ts, la_outcomes = os, la_revenues = rs\<rparr>))))"

definition plain_ids :: "event_key list \<Rightarrow> uuid list" where
  "plain_ids = List.map_filter (\<lambda>k. case k of PlainEvent u \<Rightarrow> Some u | JobRevision u r \<Rightarrow> None)"

definition job_ids :: "event_key list \<Rightarrow> (uuid \<times> int) list" where
  "job_ids = List.map_filter (\<lambda>k. case k of PlainEvent u \<Rightarrow> None | JobRevision u r \<Rightarrow> Some (u, r))"

text \<open>The versions of the scanned snapshots; \<open>None\<close> on a store without them.\<close>

type_synonym versions = "(uuid \<rightharpoonup> int) option"

definition versioned :: "(uuid \<rightharpoonup> int) \<Rightarrow> uuid list \<Rightarrow> (uuid \<times> int) list" where
  "versioned m ids = List.map_filter (\<lambda>u. map_option (Pair u) (m u)) ids"

definition mark_event_snapshots_synced :: "versions \<Rightarrow> uuid list \<Rightarrow> event_rows \<Rightarrow> event_rows" where
  "mark_event_snapshots_synced vs ids rows =
     (case vs of Some m \<Rightarrow> mark_event_deliveries_synced (versioned m ids) rows
      | None \<Rightarrow> mark_synced ids rows)"

definition mark_event_snapshots_quarantined :: "versions \<Rightarrow> uuid list \<Rightarrow> event_rows \<Rightarrow> event_rows" where
  "mark_event_snapshots_quarantined vs ids rows =
     (case vs of Some m \<Rightarrow> mark_event_deliveries_quarantined (versioned m ids) rows
      | None \<Rightarrow> mark_quarantined ids rows)"

definition mark_task_snapshots_synced :: "versions \<Rightarrow> uuid list \<Rightarrow> task_rows \<Rightarrow> task_rows" where
  "mark_task_snapshots_synced vs ids rows =
     (case vs of Some m \<Rightarrow> mark_task_deliveries_synced (versioned m ids) rows
      | None \<Rightarrow> mark_tasks_synced ids rows)"

definition mark_task_snapshots_quarantined :: "versions \<Rightarrow> uuid list \<Rightarrow> task_rows \<Rightarrow> task_rows" where
  "mark_task_snapshots_quarantined vs ids rows =
     (case vs of Some m \<Rightarrow> mark_task_deliveries_quarantined (versioned m ids) rows
      | None \<Rightarrow> mark_tasks_quarantined ids rows)"

record batch_keys =
  bk_events :: versions
  bk_tasks :: versions
  bk_jobs :: "(uuid \<times> int) list"

definition mark_leaf_synced :: "batch_keys \<Rightarrow> leaf_acks \<Rightarrow> store \<Rightarrow> store" where
  "mark_leaf_synced bk la st =
     st\<lparr>st_events := (if plain_ids (la_events la) = [] then st_events st
          else mark_event_snapshots_synced (bk_events bk) (plain_ids (la_events la)) (st_events st)),
        st_jobs := (if job_ids (la_events la) = [] then st_jobs st
          else mark_provider_jobs_synced (job_ids (la_events la)) (st_jobs st)),
        st_tasks := (if la_tasks la = [] then st_tasks st
          else mark_task_snapshots_synced (bk_tasks bk) (la_tasks la) (st_tasks st)),
        st_outcomes := (if la_outcomes la = [] then st_outcomes st
          else mark_outcomes_synced (la_outcomes la) (st_outcomes st)),
        st_revenues := (if la_revenues la = [] then st_revenues st
          else mark_revenues_synced (la_revenues la) (st_revenues st))\<rparr>"

section \<open>Leaves\<close>

definition post_leaf ::
  "post_env \<Rightarrow> (nat \<Rightarrow> string \<Rightarrow> reply) \<Rightarrow> batch_keys \<Rightarrow> payload \<Rightarrow> post_state \<Rightarrow>
     (post_error + bool) \<times> post_state" where
  "post_leaf env net bk p s =
     (let (r, s1) = post_raw env (net (length (ps_log s)) (payload_body p)) s;
          s2 = s1\<lparr>ps_log := ps_log s @ [(p, r = Inr True)]\<rparr>
      in if r = Inr True
         then (case leaf_acks_of (bk_jobs bk) p of
                 Inl e \<Rightarrow> (Inl (Raised e), s2)
               | Inr la \<Rightarrow> (Inr True, s2\<lparr>ps_store := mark_leaf_synced bk la (ps_store s2),
                                         ps_delivered := ps_delivered s2 + record_count p\<rparr>))
         else (r, s2))"

definition quarantine_in ::
  "(store \<Rightarrow> store) \<Rightarrow> post_state \<Rightarrow> (post_error + bool) \<times> post_state" where
  "quarantine_in f s =
     (Inr True, s\<lparr>ps_store := f (ps_store s), ps_quarantined := ps_quarantined s + 1\<rparr>)"

text \<open>A batch that is too large and cannot be cut: its single record is quarantined.\<close>

definition set_aside :: "batch_keys \<Rightarrow> payload \<Rightarrow> post_state \<Rightarrow> (post_error + bool) \<times> post_state" where
  "set_aside bk p s =
     (case (pl_events p, pl_tasks p, pl_outcomes p, pl_revenues p) of
        ([e], _, _, _) \<Rightarrow>
          (case event_key (bk_jobs bk) e of
             Inl err \<Rightarrow> (Inl (Raised err), s)
           | Inr (JobRevision u r) \<Rightarrow> quarantine_in (\<lambda>st. st\<lparr>st_jobs :=
               mark_provider_jobs_quarantined [(u, r)] (st_jobs st)\<rparr>) s
           | Inr (PlainEvent u) \<Rightarrow> quarantine_in (\<lambda>st. st\<lparr>st_events :=
               mark_event_snapshots_quarantined (bk_events bk) [u] (st_events st)\<rparr>) s)
      | (_, [t], _, _) \<Rightarrow>
          (case text_item ''task_id'' t of
             Inl err \<Rightarrow> (Inl (Raised err), s)
           | Inr u \<Rightarrow> quarantine_in (\<lambda>st. st\<lparr>st_tasks :=
               mark_task_snapshots_quarantined (bk_tasks bk) [u] (st_tasks st)\<rparr>) s)
      | (_, _, [out], _) \<Rightarrow>
          (case ledger_key ''outcome_id'' out of
             Inl err \<Rightarrow> (Inl (Raised err), s)
           | Inr k \<Rightarrow> quarantine_in (\<lambda>st. st\<lparr>st_outcomes :=
               mark_outcomes_quarantined [k] (st_outcomes st)\<rparr>) s)
      | (_, _, _, [r]) \<Rightarrow>
          (case ledger_key ''revenue_id'' r of
             Inl err \<Rightarrow> (Inl (Raised err), s)
           | Inr k \<Rightarrow> quarantine_in (\<lambda>st. st\<lparr>st_revenues :=
               mark_revenues_quarantined [k] (st_revenues st)\<rparr>) s)
      | _ \<Rightarrow> (Inr True, s))"

section \<open>Splitting\<close>

definition halves :: "'a list \<Rightarrow> 'a list \<times> 'a list" where
  "halves xs = (take (length xs div 2) xs, drop (length xs div 2) xs)"

definition no_records :: payload where
  "no_records = \<lparr>pl_events = [], pl_tasks = [], pl_identities = [], pl_outcomes = [], pl_revenues = []\<rparr>"

text \<open>The identities whose task is in the first half, and the others.\<close>

definition split_identities :: "obj list \<Rightarrow> obj list \<Rightarrow> py_error + obj list \<times> obj list" where
  "split_identities tasks ids =
     (case collect (text_item ''task_id'') tasks of
        Inl e \<Rightarrow> Inl e
      | Inr ts \<Rightarrow>
          (case collect (\<lambda>i. map_sum id (Pair i) (text_item ''task_id'' i)) ids of
             Inl e \<Rightarrow> Inl e
           | Inr us \<Rightarrow> Inr (map fst (filter (\<lambda>(i, u). u \<in> set ts) us),
                           map fst (filter (\<lambda>(i, u). u \<notin> set ts) us))))"

text \<open>The two parts a batch is cut into, first the one that is posted first.\<close>

definition split_payload :: "payload \<Rightarrow> py_error + (payload \<times> payload) option" where
  "split_payload p =
     (let (e1, e2) = halves (pl_events p); (t1, t2) = halves (pl_tasks p);
          (o1, o2) = halves (pl_outcomes p); (r1, r2) = halves (pl_revenues p)
      in if 1 < length (pl_events p)
         then Inr (Some (p\<lparr>pl_events := e1\<rparr>, no_records\<lparr>pl_events := e2\<rparr>))
         else if 1 < length (pl_tasks p)
         then map_sum id (\<lambda>(i1, i2). Some (no_records\<lparr>pl_tasks := t1, pl_identities := i1\<rparr>,
                                           p\<lparr>pl_tasks := t2, pl_identities := i2\<rparr>))
                (split_identities t1 (pl_identities p))
         else if 1 < length (pl_outcomes p)
         then Inr (Some (p\<lparr>pl_outcomes := o1, pl_revenues := []\<rparr>,
                         no_records\<lparr>pl_outcomes := o2, pl_revenues := pl_revenues p\<rparr>))
         else if 1 < length (pl_revenues p)
         then Inr (Some (p\<lparr>pl_revenues := r1\<rparr>, no_records\<lparr>pl_revenues := r2\<rparr>))
         else if 1 < durable_count p \<and> pl_tasks p \<noteq> []
         then Inr (Some (no_records\<lparr>pl_tasks := pl_tasks p, pl_identities := pl_identities p\<rparr>,
                         p\<lparr>pl_tasks := [], pl_identities := []\<rparr>))
         else if 1 < durable_count p \<and> pl_outcomes p \<noteq> []
         then Inr (Some (no_records\<lparr>pl_outcomes := pl_outcomes p\<rparr>,
                         p\<lparr>pl_tasks := [], pl_identities := [], pl_outcomes := []\<rparr>))
         else if 1 < durable_count p \<and> pl_revenues p \<noteq> []
         then Inr (Some (no_records\<lparr>pl_revenues := pl_revenues p\<rparr>,
                         p\<lparr>pl_tasks := [], pl_identities := [], pl_outcomes := [], pl_revenues := []\<rparr>))
         else Inr None)"

lemmas payload_counts = durable_count_def record_count_def no_records_def halves_def

lemma split_smaller:
  assumes "split_payload p = Inr (Some (a, b))"
  shows "durable_count a < durable_count p" "durable_count b < durable_count p"
  using assms
  by (auto simp: split_payload_def payload_counts Let_def map_sum_def min_def
      split: if_splits sum.splits)

text \<open>Continue with the second part only after the first was delivered.\<close>

definition and_then ::
  "(post_error + bool) \<times> 's \<Rightarrow> ('s \<Rightarrow> (post_error + bool) \<times> 's) \<Rightarrow> (post_error + bool) \<times> 's" where
  "and_then rs k = (if fst rs = Inr True then k (snd rs) else rs)"

function post_with_split ::
  "nat \<Rightarrow> post_env \<Rightarrow> (nat \<Rightarrow> string \<Rightarrow> reply) \<Rightarrow> batch_keys \<Rightarrow> payload \<Rightarrow> post_state \<Rightarrow>
     (post_error + bool) \<times> post_state" where
  "post_with_split limit env net bk p s =
     (if length (payload_body p) \<le> limit then post_leaf env net bk p s
      else (case split_payload p of
              Inl e \<Rightarrow> (Inl (Raised e), s)
            | Inr (Some (a, b)) \<Rightarrow>
                and_then (post_with_split limit env net bk a s) (post_with_split limit env net bk b)
            | Inr None \<Rightarrow> set_aside bk p s))"
  by pat_completeness auto

termination
  by (relation "measure (\<lambda>(limit, env, net, bk, p, s). durable_count p)")
    (auto dest: split_smaller)

declare post_with_split.simps [simp del]

section \<open>The plan of a batch\<close>

text \<open>
  The reference for \<open>post_with_split\<close>: which requests a batch gives depends on the batch
  alone, not on the network or the store. \<open>plan\<close> lists the leaves, and \<open>run_plan\<close> handles
  them one after the other until one fails.
\<close>

datatype plan_step = Leaf payload | Malformed py_error

function plan :: "nat \<Rightarrow> payload \<Rightarrow> plan_step list" where
  "plan limit p =
     (if length (payload_body p) \<le> limit then [Leaf p]
      else (case split_payload p of
              Inl e \<Rightarrow> [Malformed e]
            | Inr (Some (a, b)) \<Rightarrow> plan limit a @ plan limit b
            | Inr None \<Rightarrow> [Leaf p]))"
  by pat_completeness auto

termination
  by (relation "measure (\<lambda>(limit, p). durable_count p)") (auto dest: split_smaller)

declare plan.simps [simp del]

definition run_step ::
  "nat \<Rightarrow> post_env \<Rightarrow> (nat \<Rightarrow> string \<Rightarrow> reply) \<Rightarrow> batch_keys \<Rightarrow> plan_step \<Rightarrow> post_state \<Rightarrow>
     (post_error + bool) \<times> post_state" where
  "run_step limit env net bk x s =
     (case x of
        Malformed e \<Rightarrow> (Inl (Raised e), s)
      | Leaf p \<Rightarrow> if length (payload_body p) \<le> limit then post_leaf env net bk p s
                  else set_aside bk p s)"

fun run_plan ::
  "nat \<Rightarrow> post_env \<Rightarrow> (nat \<Rightarrow> string \<Rightarrow> reply) \<Rightarrow> batch_keys \<Rightarrow> plan_step list \<Rightarrow> post_state \<Rightarrow>
     (post_error + bool) \<times> post_state" where
  "run_plan limit env net bk [] s = (Inr True, s)"
| "run_plan limit env net bk (x # xs) s =
     and_then (run_step limit env net bk x s) (run_plan limit env net bk xs)"

lemma and_then_assoc: "and_then (and_then r f) g = and_then r (\<lambda>s. and_then (f s) g)"
  by (simp add: and_then_def)

lemma and_then_return: "and_then r (run_plan limit env net bk []) = r"
  by (cases r) (simp add: and_then_def)

lemma run_plan_append:
  "run_plan limit env net bk (xs @ ys) s =
     and_then (run_plan limit env net bk xs s) (run_plan limit env net bk ys)"
  by (induction xs arbitrary: s) (auto simp: and_then_def)

lemma post_with_split_plan_aux:
  "post_with_split limit env net bk p s = run_plan limit env net bk (plan limit p) s"
proof (induction limit p arbitrary: s rule: plan.induct)
  case (1 limit p)
  show ?case
  proof (cases "length (payload_body p) \<le> limit")
    case True
    then show ?thesis
      by (simp add: post_with_split.simps [of limit env net bk p s] plan.simps [of limit p]
          run_step_def and_then_return)
  next
    case False
    show ?thesis
    proof (cases "split_payload p")
      case (Inl e)
      with False show ?thesis
        by (simp add: post_with_split.simps [of limit env net bk p s] plan.simps [of limit p]
            run_step_def and_then_return)
    next
      case (Inr parts)
      show ?thesis
      proof (cases parts)
        case None
        with False Inr show ?thesis
          by (simp add: post_with_split.simps [of limit env net bk p s] plan.simps [of limit p]
              run_step_def and_then_return)
      next
        case (Some ab)
        then obtain a b where ab: "parts = Some (a, b)" by (cases ab) auto
        from 1 [OF False Inr ab refl] have
          "post_with_split limit env net bk a s = run_plan limit env net bk (plan limit a) s"
          "post_with_split limit env net bk b = run_plan limit env net bk (plan limit b)" for s
          by auto
        with False Inr ab show ?thesis
          by (simp add: post_with_split.simps [of limit env net bk p s] plan.simps [of limit p]
              run_plan_append)
      qed
    qed
  qed
qed

text \<open>Induction over the cuts of a batch: the leaves, and the parts of a cut.\<close>

lemma plan_induct [case_names fits malformed cut single]:
  assumes "\<And>p. length (payload_body p) \<le> limit \<Longrightarrow> P p [Leaf p]"
    and "\<And>p e. split_payload p = Inl e \<Longrightarrow> P p [Malformed e]"
    and "\<And>p a b. \<lbrakk>split_payload p = Inr (Some (a, b)); P a (plan limit a); P b (plan limit b)\<rbrakk>
      \<Longrightarrow> P p (plan limit a @ plan limit b)"
    and "\<And>p. \<lbrakk>limit < length (payload_body p); split_payload p = Inr None\<rbrakk> \<Longrightarrow> P p [Leaf p]"
  shows "P p (plan limit p)"
proof (induction "durable_count p" arbitrary: p rule: less_induct)
  case less
  note IH = less
  consider "length (payload_body p) \<le> limit"
    | e where "limit < length (payload_body p)" "split_payload p = Inl e"
    | "limit < length (payload_body p)" "split_payload p = Inr None"
    | a b where "limit < length (payload_body p)" "split_payload p = Inr (Some (a, b))"
    by (metis linorder_not_le option.exhaust sum.exhaust surj_pair)
  then show ?case
  proof cases
    case 1
    then show ?thesis by (simp add: plan.simps [of limit p] assms(1))
  next
    case 2
    then show ?thesis by (simp add: plan.simps [of limit p] assms(2))
  next
    case 3
    then show ?thesis by (simp add: plan.simps [of limit p] assms(4))
  next
    case 4
    with IH split_smaller [OF 4(2)] have "P p (plan limit a @ plan limit b)"
      by (intro assms(3)) auto
    with 4 show ?thesis by (simp add: plan.simps [of limit p])
  qed
qed

text \<open>Every identity belongs to a task of the batch, and every task has an id.\<close>

definition identities_ok :: "payload \<Rightarrow> bool" where
  "identities_ok p \<longleftrightarrow>
     (\<forall>t \<in> set (pl_tasks p). \<exists>u. text_item ''task_id'' t = Inr u) \<and>
     text_item ''task_id'' ` set (pl_identities p) \<subseteq> text_item ''task_id'' ` set (pl_tasks p)"

definition leaves :: "plan_step list \<Rightarrow> payload list" where
  "leaves = List.map_filter (\<lambda>x. case x of Leaf p \<Rightarrow> Some p | Malformed e \<Rightarrow> None)"

lemma leaves_simps [simp]:
  "leaves [] = []" "leaves (Leaf p # xs) = p # leaves xs" "leaves (Malformed e # xs) = leaves xs"
  "leaves (xs @ ys) = leaves xs @ leaves ys"
  by (simp_all add: leaves_def List.map_filter_def)

lemma halves_append: "fst (halves xs) @ snd (halves xs) = xs"
  by (simp add: halves_def)

lemma split_identities_spec:
  assumes "split_identities ts ids = Inr (i1, i2)"
  shows "i1 = filter (\<lambda>i. text_item ''task_id'' i \<in> text_item ''task_id'' ` set ts) ids"
    and "i2 = filter (\<lambda>i. text_item ''task_id'' i \<notin> text_item ''task_id'' ` set ts) ids"
proof -
  let ?f = "text_item ''task_id''"
  from assms obtain us vs where us: "map ?f ts = map Inr us"
      "map (\<lambda>i. map_sum id (Pair i) (?f i)) ids = map Inr vs"
      "i1 = map fst (filter (\<lambda>(i, u). u \<in> set us) vs)"
      "i2 = map fst (filter (\<lambda>(i, u). u \<notin> set us) vs)"
    by (auto simp: split_identities_def collect_map split: sum.splits)
  have ts: "?f ` set ts = Inr ` set us" by (metis us(1) list.set_map)
  have "filter (\<lambda>i. Q (?f i)) ids = map fst (filter (\<lambda>(i, u). Q (Inr u)) vs)" for Q
    using us(2)
  proof (induction ids arbitrary: vs)
    case (Cons i ids)
    then show ?case by (cases "?f i") (auto simp: Cons_eq_map_conv)
  qed simp
  from this [of "\<lambda>x. x \<in> ?f ` set ts"] this [of "\<lambda>x. x \<notin> ?f ` set ts"]
  show "i1 = filter (\<lambda>i. ?f i \<in> ?f ` set ts) ids" "i2 = filter (\<lambda>i. ?f i \<notin> ?f ` set ts) ids"
    by (simp_all add: us(3,4) ts image_iff)
qed

lemma identities_ok_split:
  assumes "identities_ok p"
  shows "\<exists>parts. split_identities (fst (halves (pl_tasks p))) (pl_identities p) = Inr parts"
proof -
  let ?f = "text_item ''task_id''"
  have "\<exists>ys. collect ?f (fst (halves (pl_tasks p))) = Inr ys"
    using assms by (intro collect_total) (auto simp: identities_ok_def halves_def dest: in_set_takeD)
  moreover have "\<exists>ys. collect (\<lambda>i. map_sum id (Pair i) (?f i)) (pl_identities p) = Inr ys"
  proof (intro collect_total ballI)
    fix i assume "i \<in> set (pl_identities p)"
    with assms obtain t where "t \<in> set (pl_tasks p)" "?f i = ?f t"
      by (auto simp: identities_ok_def)
    then show "\<exists>y. map_sum id (Pair i) (?f i) = Inr y"
      using assms by (auto simp: identities_ok_def)
  qed
  ultimately show ?thesis by (auto simp: split_identities_def)
qed

lemma split_cases:
  assumes "split_payload p = Inr (Some (a, b))"
  obtains
    (events) "a = p\<lparr>pl_events := fst (halves (pl_events p))\<rparr>"
      "b = no_records\<lparr>pl_events := snd (halves (pl_events p))\<rparr>"
  | (tasks) i1 i2 where "length (pl_events p) \<le> 1"
      "split_identities (fst (halves (pl_tasks p))) (pl_identities p) = Inr (i1, i2)"
      "a = no_records\<lparr>pl_tasks := fst (halves (pl_tasks p)), pl_identities := i1\<rparr>"
      "b = p\<lparr>pl_tasks := snd (halves (pl_tasks p)), pl_identities := i2\<rparr>"
  | (outcomes) "a = p\<lparr>pl_outcomes := fst (halves (pl_outcomes p)), pl_revenues := []\<rparr>"
      "b = no_records\<lparr>pl_outcomes := snd (halves (pl_outcomes p)), pl_revenues := pl_revenues p\<rparr>"
  | (revenues) "a = p\<lparr>pl_revenues := fst (halves (pl_revenues p))\<rparr>"
      "b = no_records\<lparr>pl_revenues := snd (halves (pl_revenues p))\<rparr>"
  | (task) "a = no_records\<lparr>pl_tasks := pl_tasks p, pl_identities := pl_identities p\<rparr>"
      "b = p\<lparr>pl_tasks := [], pl_identities := []\<rparr>"
  | (outcome) "pl_tasks p = []" "a = no_records\<lparr>pl_outcomes := pl_outcomes p\<rparr>"
      "b = p\<lparr>pl_tasks := [], pl_identities := [], pl_outcomes := []\<rparr>"
  | (revenue) "pl_tasks p = []" "pl_outcomes p = []" "a = no_records\<lparr>pl_revenues := pl_revenues p\<rparr>"
      "b = p\<lparr>pl_tasks := [], pl_identities := [], pl_outcomes := [], pl_revenues := []\<rparr>"
proof -
  have le: "\<not> 1 < length xs \<Longrightarrow> length xs \<le> 1" for xs :: "obj list" by simp
  show thesis
  proof (cases "1 < length (pl_events p)")
    case True
    then have "split_payload p = Inr (Some (p\<lparr>pl_events := fst (halves (pl_events p))\<rparr>,
        no_records\<lparr>pl_events := snd (halves (pl_events p))\<rparr>))"
      unfolding split_payload_def Let_def split_beta by (simp only: if_True)
    from trans [OF assms [symmetric] this] show ?thesis
      by (intro events) (simp_all only: sum.inject option.inject prod.inject)
  next
    case ev: False
    show ?thesis
    proof (cases "1 < length (pl_tasks p)")
      case True
      with ev assms have "map_sum id (\<lambda>(i1, i2). Some
            (no_records\<lparr>pl_tasks := fst (halves (pl_tasks p)), pl_identities := i1\<rparr>,
             p\<lparr>pl_tasks := snd (halves (pl_tasks p)), pl_identities := i2\<rparr>))
          (split_identities (fst (halves (pl_tasks p))) (pl_identities p)) = Inr (Some (a, b))"
        by (simp add: split_payload_def Let_def split_beta)
      then show ?thesis
        using tasks [OF le [OF ev]]
        by (cases "split_identities (fst (halves (pl_tasks p))) (pl_identities p)") auto
    next
      case ts: False
      note parts = assms [symmetric, unfolded split_payload_def Let_def split_beta if_not_P [OF ev]
          if_not_P [OF ts]]
      consider "1 < length (pl_outcomes p)"
        | "\<not> 1 < length (pl_outcomes p)" "1 < length (pl_revenues p)"
        | "\<not> 1 < length (pl_outcomes p)" "\<not> 1 < length (pl_revenues p)" "1 < durable_count p" "pl_tasks p \<noteq> []"
        | "\<not> 1 < length (pl_outcomes p)" "\<not> 1 < length (pl_revenues p)" "1 < durable_count p" "pl_tasks p = []"
            "pl_outcomes p \<noteq> []"
        | "\<not> 1 < length (pl_outcomes p)" "\<not> 1 < length (pl_revenues p)" "1 < durable_count p" "pl_tasks p = []"
            "pl_outcomes p = []" "pl_revenues p \<noteq> []"
        | "\<not> 1 < length (pl_outcomes p)" "\<not> 1 < length (pl_revenues p)"
            "\<not> (1 < durable_count p \<and> pl_tasks p \<noteq> [])" "\<not> (1 < durable_count p \<and> pl_outcomes p \<noteq> [])"
            "\<not> (1 < durable_count p \<and> pl_revenues p \<noteq> [])"
        by blast
      then show ?thesis
      proof cases
        case 1 with parts show ?thesis by (intro outcomes) (simp_all only: if_True sum.inject option.inject prod.inject)
      next
        case 2 with parts show ?thesis by (intro revenues) (simp_all only: if_True if_False sum.inject option.inject prod.inject)
      next
        case 3 with parts show ?thesis by (intro task) (simp_all only: simp_thms if_True if_False sum.inject option.inject prod.inject)
      next
        case 4 with parts show ?thesis by (intro outcome) (simp_all only: simp_thms if_True if_False sum.inject option.inject prod.inject)
      next
        case 5 with parts show ?thesis by (intro revenue) (simp_all only: simp_thms if_True if_False sum.inject option.inject prod.inject)
      next
        case 6 with parts show ?thesis by (simp only: simp_thms if_True if_False sum.inject option.distinct)
      qed
    qed
  qed
qed

lemma split_conserves:
  assumes "split_payload p = Inr (Some (a, b))"
  shows "pl_events a @ pl_events b = pl_events p \<and> pl_tasks a @ pl_tasks b = pl_tasks p \<and>
    pl_outcomes a @ pl_outcomes b = pl_outcomes p \<and> pl_revenues a @ pl_revenues b = pl_revenues p \<and>
    (identities_ok p \<longrightarrow>
      mset (pl_identities a) + mset (pl_identities b) = mset (pl_identities p))"
  using assms
proof (cases rule: split_cases)
  case (tasks i1 i2)
  note parts = split_identities_spec [OF tasks(2)]
  show ?thesis by (simp add: tasks(3,4) parts no_records_def halves_append)
qed (simp_all add: no_records_def halves_append identities_ok_def)

lemma identities_ok_parts:
  assumes "split_payload p = Inr (Some (a, b))" "identities_ok p"
  shows "identities_ok a \<and> identities_ok b"
  using assms(1)
proof (cases rule: split_cases)
  case (tasks i1 i2)
  note parts = split_identities_spec [OF tasks(2)]
  have "set (pl_tasks p) = set (fst (halves (pl_tasks p))) \<union> set (snd (halves (pl_tasks p)))"
    by (metis halves_append set_append)
  with assms(2) show ?thesis
    by (auto simp: tasks(3,4) parts identities_ok_def no_records_def)
qed (use assms(2) in \<open>auto simp: identities_ok_def no_records_def\<close>)

lemma split_none: "split_payload p = Inr None \<Longrightarrow> durable_count p \<le> 1"
  by (auto simp: split_payload_def Let_def split_beta durable_count_def map_sum_def
      split: if_splits sum.splits)

lemma identities_ok_not_malformed: "identities_ok p \<Longrightarrow> split_payload p \<noteq> Inl e"
  using identities_ok_split [of p]
  by (auto simp: split_payload_def Let_def split_beta split: if_splits)

text \<open>What the leaves \<open>qs\<close> of a batch \<open>p\<close> amount to.\<close>

definition covers :: "payload \<Rightarrow> payload list \<Rightarrow> bool" where
  "covers p qs \<longleftrightarrow>
     concat (map pl_events qs) = pl_events p \<and> concat (map pl_tasks qs) = pl_tasks p \<and>
     concat (map pl_outcomes qs) = pl_outcomes p \<and> concat (map pl_revenues qs) = pl_revenues p \<and>
     mset (concat (map pl_identities qs)) = mset (pl_identities p)"

lemma plan_covers:
  "identities_ok p \<longrightarrow> (\<exists>qs. plan limit p = map Leaf qs \<and> covers p qs \<and>
     (\<forall>q \<in> set qs. identities_ok q) \<and> (\<forall>q \<in> set qs. limit < length (payload_body q) \<longrightarrow> durable_count q \<le> 1))"
proof (induction p rule: plan_induct [where limit = limit])
  case (fits p)
  then show ?case by (intro impI exI [of _ "[p]"]) (simp add: covers_def)
next
  case (malformed p e)
  then show ?case using identities_ok_not_malformed by blast
next
  case (cut p a b)
  show ?case
  proof
    assume ok: "identities_ok p"
    with cut identities_ok_parts [OF cut(1)] obtain qa qb
      where "plan limit a = map Leaf qa" "covers a qa" "plan limit b = map Leaf qb" "covers b qb"
        "\<forall>q \<in> set qa. identities_ok q" "\<forall>q \<in> set qb. identities_ok q"
        "\<forall>q \<in> set qa. limit < length (payload_body q) \<longrightarrow> durable_count q \<le> 1"
        "\<forall>q \<in> set qb. limit < length (payload_body q) \<longrightarrow> durable_count q \<le> 1"
      by blast
    with split_conserves [OF cut(1)] ok
    show "\<exists>qs. plan limit a @ plan limit b = map Leaf qs \<and> covers p qs \<and>
        (\<forall>q \<in> set qs. identities_ok q) \<and> (\<forall>q \<in> set qs. limit < length (payload_body q) \<longrightarrow> durable_count q \<le> 1)"
      by (intro exI [of _ "qa @ qb"]) (auto simp: covers_def)
  qed
next
  case (single p)
  then show ?case
    using split_none [of p] by (intro impI exI [of _ "[p]"]) (simp add: covers_def)
qed

text \<open>A cut never leaves an event to the first part and a task to the second.\<close>

lemma split_tasks_first:
  assumes "split_payload p = Inr (Some (a, b))"
  shows "pl_events a = [] \<or> pl_tasks b = []"
  using assms by (cases rule: split_cases) (auto simp: no_records_def)

lemma leaf_records:
  "\<forall>q \<in> set (leaves (plan limit p)).
     set (pl_events q) \<subseteq> set (pl_events p) \<and> set (pl_tasks q) \<subseteq> set (pl_tasks p)"
proof (induction p rule: plan_induct [where limit = limit])
  case (cut p a b)
  have "set (pl_events p) = set (pl_events a) \<union> set (pl_events b)"
      "set (pl_tasks p) = set (pl_tasks a) \<union> set (pl_tasks b)"
    using split_conserves [OF cut(1)] by (metis set_append)+
  with cut(2,3) show ?case by auto
qed simp_all

lemma plan_tasks_first:
  "sorted_wrt (\<lambda>q q'. pl_events q \<noteq> [] \<longrightarrow> pl_tasks q' = []) (leaves (plan limit p))"
proof (induction p rule: plan_induct [where limit = limit])
  case (cut p a b)
  have "pl_events q = [] \<or> pl_tasks q' = []"
    if "q \<in> set (leaves (plan limit a))" "q' \<in> set (leaves (plan limit b))" for q q'
    using split_tasks_first [OF cut(1)] leaf_records [of limit a] leaf_records [of limit b] that
    by fastforce
  with cut(2,3) show ?case by (auto simp: sorted_wrt_append)
qed simp_all

lemma split_counts:
  assumes "split_payload p = Inr (Some (a, b))"
  shows "durable_count a + durable_count b = durable_count p \<and> 0 < durable_count a \<and> 0 < durable_count b"
  using split_conserves [OF assms] split_smaller [OF assms]
  by (auto simp: durable_count_def dest!: arg_cong [where f = length])

lemma plan_length: "length (plan limit p) \<le> max 1 (durable_count p)"
proof (induction p rule: plan_induct [where limit = limit])
  case (cut p a b)
  with split_counts [OF cut(1)] show ?case by auto
qed simp_all

section \<open>What the marks follow from\<close>

text \<open>The row identities a payload stands for, per table.\<close>

definition version_fits :: "versions \<Rightarrow> uuid \<Rightarrow> int \<Rightarrow> bool" where
  "version_fits vs u v = (case vs of Some m \<Rightarrow> m u = Some v | None \<Rightarrow> True)"

definition event_idents :: "batch_keys \<Rightarrow> payload \<Rightarrow> (uuid \<times> int) set" where
  "event_idents bk p = {(u, v). Inr (PlainEvent u) \<in> event_key (bk_jobs bk) ` set (pl_events p) \<and>
     version_fits (bk_events bk) u v}"

definition job_idents :: "batch_keys \<Rightarrow> payload \<Rightarrow> (uuid \<times> int) set" where
  "job_idents bk p = {(u, r). Inr (JobRevision u r) \<in> event_key (bk_jobs bk) ` set (pl_events p)}"

definition task_idents :: "batch_keys \<Rightarrow> payload \<Rightarrow> (uuid \<times> int) set" where
  "task_idents bk p = {(u, v). Inr u \<in> text_item ''task_id'' ` set (pl_tasks p) \<and>
     version_fits (bk_tasks bk) u v}"

definition outcome_idents :: "payload \<Rightarrow> (uuid \<times> int) set" where
  "outcome_idents p = {k. Inr k \<in> ledger_key ''outcome_id'' ` set (pl_outcomes p)}"

definition revenue_idents :: "payload \<Rightarrow> (uuid \<times> int) set" where
  "revenue_idents p = {k. Inr k \<in> ledger_key ''revenue_id'' ` set (pl_revenues p)}"

lemmas idents = event_idents_def job_idents_def task_idents_def outcome_idents_def revenue_idents_def

abbreviation event_row_key :: "event vrow \<Rightarrow> uuid \<times> int" where
  "event_row_key r \<equiv> (ev_id (body r), version r)"
abbreviation task_row_key :: "task vrow \<Rightarrow> uuid \<times> int" where
  "task_row_key r \<equiv> (tk_id (body r), version r)"
abbreviation job_row_key :: "provider_job qrow \<Rightarrow> uuid \<times> int" where
  "job_row_key r \<equiv> (job_event_id (body r), job_revision (body r))"
abbreviation outcome_row_key :: "outcome qrow \<Rightarrow> uuid \<times> int" where
  "outcome_row_key r \<equiv> (out_id (body r), out_revision (body r))"
abbreviation revenue_row_key :: "revenue qrow \<Rightarrow> uuid \<times> int" where
  "revenue_row_key r \<equiv> (rev_id (body r), rev_revision (body r))"

text \<open>\<open>store_moved bk A B s s'\<close>: rows were acknowledged only for a payload in \<open>A\<close> and set aside
  only for one in \<open>B\<close>; \<open>store_done bk p s\<close>: no row the payload stands for is pending.\<close>

definition store_moved :: "batch_keys \<Rightarrow> payload set \<Rightarrow> payload set \<Rightarrow> store \<Rightarrow> store \<Rightarrow> bool" where
  "store_moved bk A B s s' \<longleftrightarrow>
     queue_moved status event_row_key (\<Union>(event_idents bk ` A)) (\<Union>(event_idents bk ` B))
       (st_events s) (st_events s') \<and>
     queue_moved status job_row_key (\<Union>(job_idents bk ` A)) (\<Union>(job_idents bk ` B))
       (st_jobs s) (st_jobs s') \<and>
     queue_moved status task_row_key (\<Union>(task_idents bk ` A)) (\<Union>(task_idents bk ` B))
       (st_tasks s) (st_tasks s') \<and>
     queue_moved status outcome_row_key (\<Union>(outcome_idents ` A)) (\<Union>(outcome_idents ` B))
       (st_outcomes s) (st_outcomes s') \<and>
     queue_moved status revenue_row_key (\<Union>(revenue_idents ` A)) (\<Union>(revenue_idents ` B))
       (st_revenues s) (st_revenues s')"

definition store_done :: "batch_keys \<Rightarrow> payload \<Rightarrow> store \<Rightarrow> bool" where
  "store_done bk p s \<longleftrightarrow>
     none_pending status event_row_key (event_idents bk p) (st_events s) \<and>
     none_pending status job_row_key (job_idents bk p) (st_jobs s) \<and>
     none_pending status task_row_key (task_idents bk p) (st_tasks s) \<and>
     none_pending status outcome_row_key (outcome_idents p) (st_outcomes s) \<and>
     none_pending status revenue_row_key (revenue_idents p) (st_revenues s)"

lemma store_moved_refl: "store_moved bk A B s s"
  by (simp add: store_moved_def queue_moved_refl)

lemma store_moved_mono:
  "\<lbrakk>store_moved bk A B s s'; A \<subseteq> A'; B \<subseteq> B'\<rbrakk> \<Longrightarrow> store_moved bk A' B' s s'"
  unfolding store_moved_def by (elim conjE, intro conjI; erule queue_moved_mono) blast+

lemma store_moved_trans:
  "\<lbrakk>store_moved bk A B s s'; store_moved bk A B s' s''\<rbrakk> \<Longrightarrow> store_moved bk A B s s''"
  unfolding store_moved_def by (elim conjE, intro conjI; rule queue_moved_trans)

lemma store_done_moved: "\<lbrakk>store_moved bk A B s s'; store_done bk p s\<rbrakk> \<Longrightarrow> store_done bk p s'"
  unfolding store_moved_def store_done_def by (elim conjE, intro conjI; erule none_pending_moved)

lemma in_plain_ids: "u \<in> set (plain_ids ks) \<longleftrightarrow> PlainEvent u \<in> set ks"
  by (induction ks) (auto simp: plain_ids_def List.map_filter_def split: event_key.splits)

lemma in_job_ids: "(u, r) \<in> set (job_ids ks) \<longleftrightarrow> JobRevision u r \<in> set ks"
  by (induction ks) (auto simp: job_ids_def List.map_filter_def split: event_key.splits)

lemma in_versioned: "(u, v) \<in> set (versioned m ids) \<longleftrightarrow> u \<in> set ids \<and> m u = Some v"
  by (induction ids) (auto simp: versioned_def List.map_filter_def)

lemma marks_moved:
  assumes "\<And>u v. \<lbrakk>u \<in> set ids; version_fits vs u v\<rbrakk> \<Longrightarrow> (u, v) \<in> K"
  shows "queue_moved status event_row_key K B rows (mark_event_snapshots_synced vs ids rows)"
    and "queue_moved status event_row_key A K rows (mark_event_snapshots_quarantined vs ids rows)"
    and "queue_moved status task_row_key K B rows' (mark_task_snapshots_synced vs ids rows')"
    and "queue_moved status task_row_key A K rows' (mark_task_snapshots_quarantined vs ids rows')"
  using assms
  by (auto simp: mark_event_snapshots_synced_def mark_event_snapshots_quarantined_def
      mark_task_snapshots_synced_def mark_task_snapshots_quarantined_def in_versioned version_fits_def
      intro!: eventq.ack_moved eventq.quarantine_moved eventq_by_id.ack_moved eventq_by_id.quarantine_moved
        taskq.ack_moved taskq.quarantine_moved taskq_by_id.ack_moved taskq_by_id.quarantine_moved
      split: option.splits)

lemma marks_done:
  assumes "\<And>u v. (u, v) \<in> K \<Longrightarrow> u \<in> set ids \<and> version_fits vs u v"
  shows "none_pending status event_row_key K (mark_event_snapshots_synced vs ids rows)"
    and "none_pending status event_row_key K (mark_event_snapshots_quarantined vs ids rows)"
    and "none_pending status task_row_key K (mark_task_snapshots_synced vs ids rows')"
    and "none_pending status task_row_key K (mark_task_snapshots_quarantined vs ids rows')"
  using assms
  by (auto simp: mark_event_snapshots_synced_def mark_event_snapshots_quarantined_def
      mark_task_snapshots_synced_def mark_task_snapshots_quarantined_def in_versioned version_fits_def
      intro!: eventq.ack_none_pending eventq.quarantine_none_pending eventq_by_id.ack_none_pending
        eventq_by_id.quarantine_none_pending taskq.ack_none_pending taskq.quarantine_none_pending
        taskq_by_id.ack_none_pending taskq_by_id.quarantine_none_pending
      split: option.splits)

lemma marks_Nil [simp]:
  "mark_event_snapshots_synced vs [] rows = rows" "mark_task_snapshots_synced vs [] rows' = rows'"
  "mark_provider_jobs_synced [] rows1 = rows1" "mark_outcomes_synced [] rows2 = rows2"
  "mark_revenues_synced [] rows3 = rows3"
  by (simp_all add: mark_event_snapshots_synced_def mark_task_snapshots_synced_def versioned_def
      mark_event_deliveries_synced_def mark_task_deliveries_synced_def mark_synced_def
      mark_tasks_synced_def mark_provider_jobs_synced_def mark_outcomes_synced_def
      mark_revenues_synced_def map_filter_simps split: option.splits)

lemma mark_leaf_synced_simps:
  "st_events (mark_leaf_synced bk la st) =
     mark_event_snapshots_synced (bk_events bk) (plain_ids (la_events la)) (st_events st)"
  "st_jobs (mark_leaf_synced bk la st) = mark_provider_jobs_synced (job_ids (la_events la)) (st_jobs st)"
  "st_tasks (mark_leaf_synced bk la st) =
     mark_task_snapshots_synced (bk_tasks bk) (la_tasks la) (st_tasks st)"
  "st_outcomes (mark_leaf_synced bk la st) = mark_outcomes_synced (la_outcomes la) (st_outcomes st)"
  "st_revenues (mark_leaf_synced bk la st) = mark_revenues_synced (la_revenues la) (st_revenues st)"
  by (simp_all add: mark_leaf_synced_def)

lemma image_Inr_mem: "map f xs = map Inr ys \<Longrightarrow> Inr y \<in> f ` set xs \<longleftrightarrow> y \<in> set ys"
  by (metis (no_types, lifting) image_iff list.set_map old.sum.inject(2))

lemma leaf_acks_idents:
  assumes "leaf_acks_of (bk_jobs bk) p = Inr la"
  shows "event_idents bk p = {(u, v). u \<in> set (plain_ids (la_events la)) \<and> version_fits (bk_events bk) u v}"
    "job_idents bk p = set (job_ids (la_events la))"
    "task_idents bk p = {(u, v). u \<in> set (la_tasks la) \<and> version_fits (bk_tasks bk) u v}"
    "outcome_idents p = set (la_outcomes la)" "revenue_idents p = set (la_revenues la)"
proof -
  from assms have "map (event_key (bk_jobs bk)) (pl_events p) = map Inr (la_events la)"
      "map (text_item ''task_id'') (pl_tasks p) = map Inr (la_tasks la)"
      "map (ledger_key ''outcome_id'') (pl_outcomes p) = map Inr (la_outcomes la)"
      "map (ledger_key ''revenue_id'') (pl_revenues p) = map Inr (la_revenues la)"
    by (auto simp: leaf_acks_of_def collect_map split: sum.splits)
  note this [THEN image_Inr_mem]
  then show "event_idents bk p = {(u, v). u \<in> set (plain_ids (la_events la)) \<and> version_fits (bk_events bk) u v}"
    "job_idents bk p = set (job_ids (la_events la))"
    "task_idents bk p = {(u, v). u \<in> set (la_tasks la) \<and> version_fits (bk_tasks bk) u v}"
    "outcome_idents p = set (la_outcomes la)" "revenue_idents p = set (la_revenues la)"
    by (auto simp: idents in_plain_ids in_job_ids)
qed

lemma mark_leaf_moved:
  assumes "leaf_acks_of (bk_jobs bk) p = Inr la"
  shows "store_moved bk {p} B st (mark_leaf_synced bk la st)"
    and "store_done bk p (mark_leaf_synced bk la st)"
  unfolding store_moved_def store_done_def mark_leaf_synced_simps leaf_acks_idents [OF assms] image_insert
    image_empty Union_insert Union_empty Un_empty_right
  by (intro conjI marks_moved jobq.ack_moved outq.ack_moved revq.ack_moved; simp)
    (intro conjI marks_done jobq.ack_none_pending outq.ack_none_pending revq.ack_none_pending; auto)

text \<open>What one step of the plan does: its requests, what they acknowledge and set aside.\<close>

definition step_effect ::
  "nat \<Rightarrow> batch_keys \<Rightarrow> payload list \<Rightarrow> post_error + bool \<Rightarrow> post_state \<Rightarrow> post_state \<Rightarrow> bool" where
  "step_effect limit bk qs r s s' \<longleftrightarrow>
     (\<exists>new. ps_log s' = ps_log s @ new \<and>
        (\<forall>(q, ok) \<in> set new. q \<in> set qs \<and> length (payload_body q) \<le> limit) \<and>
        store_moved bk {q. (q, True) \<in> set new} {q \<in> set qs. limit < length (payload_body q)}
          (ps_store s) (ps_store s') \<and>
        (r = Inr True \<longrightarrow> (\<forall>q \<in> set qs. store_done bk q (ps_store s'))))"

lemma post_raw_frame:
  "post_raw env rep s = (r, s') \<Longrightarrow> ps_store s' = ps_store s \<and> ps_log s' = ps_log s \<and>
     ps_delivered s' = ps_delivered s \<and> ps_quarantined s' = ps_quarantined s"
  by (auto simp: post_raw_def http_failure_def split: reply.splits if_splits prod.splits)

lemma post_leaf_effect:
  assumes "length (payload_body p) \<le> limit" "post_leaf env net bk p s = (r, s')"
  shows "step_effect limit bk [p] r s s'"
proof -
  obtain r1 s1 where raw: "post_raw env (net (length (ps_log s)) (payload_body p)) s = (r1, s1)"
    by force
  note frame = post_raw_frame [OF raw]
  show ?thesis
  proof (cases "r1 = Inr True")
    case False
    with assms raw frame show ?thesis
      by (auto simp: post_leaf_def step_effect_def store_moved_refl)
  next
    case True
    show ?thesis
    proof (cases "leaf_acks_of (bk_jobs bk) p")
      case (Inl e)
      with True assms raw frame show ?thesis
        by (auto simp: post_leaf_def step_effect_def store_moved_refl)
    next
      case (Inr la)
      with True assms raw frame have "ps_log s' = ps_log s @ [(p, True)]"
          "ps_store s' = mark_leaf_synced bk la (ps_store s)"
        by (auto simp: post_leaf_def)
      then show ?thesis
        using assms(1) mark_leaf_moved [OF Inr]
        by (auto simp: step_effect_def intro!: exI [of _ "[(p, True)]"])
    qed
  qed
qed

lemma single_record:
  assumes "durable_count p \<le> 1"
  obtains (none) "pl_events p = []" "pl_tasks p = []" "pl_outcomes p = []" "pl_revenues p = []"
  | (event) e where "pl_events p = [e]" "pl_tasks p = []" "pl_outcomes p = []" "pl_revenues p = []"
  | (task) t where "pl_events p = []" "pl_tasks p = [t]" "pl_outcomes p = []" "pl_revenues p = []"
  | (outcome) out where "pl_events p = []" "pl_tasks p = []" "pl_outcomes p = [out]" "pl_revenues p = []"
  | (revenue) r where "pl_events p = []" "pl_tasks p = []" "pl_outcomes p = []" "pl_revenues p = [r]"
proof (cases "pl_events p")
  case (Cons e es)
  with assms show ?thesis by (intro event [of e]) (simp_all add: durable_count_def)
next
  case ev: Nil
  show ?thesis
  proof (cases "pl_tasks p")
    case (Cons t ts)
    with assms ev show ?thesis by (intro task [of t]) (simp_all add: durable_count_def)
  next
    case ts: Nil
    show ?thesis
    proof (cases "pl_outcomes p")
      case (Cons out os)
      with assms ev ts show ?thesis by (intro outcome [of out]) (simp_all add: durable_count_def)
    next
      case os: Nil
      show ?thesis
      proof (cases "pl_revenues p")
        case (Cons r rs)
        with assms ev ts os show ?thesis by (intro revenue [of r]) (simp_all add: durable_count_def)
      next
        case Nil
        with ev ts os show ?thesis by (intro none)
      qed
    qed
  qed
qed

lemma set_aside_log: "set_aside bk p s = (r, s') \<Longrightarrow> ps_log s' = ps_log s"
  by (auto simp: set_aside_def quarantine_in_def split: list.splits sum.splits event_key.splits)

lemma set_aside_effect:
  assumes "limit < length (payload_body p)" "durable_count p \<le> 1" "set_aside bk p s = (r, s')"
  shows "step_effect limit bk [p] r s s'"
proof -
  note frame = set_aside_log [OF assms(3)]
  have "store_moved bk {} {p} (ps_store s) (ps_store s') \<and>
      (r = Inr True \<longrightarrow> store_done bk p (ps_store s'))"
    using assms(2)
  proof (cases rule: single_record)
    case none
    with assms(3) have "r = Inr True" "s' = s" by (simp_all add: set_aside_def)
    then show ?thesis
      by (simp add: store_moved_refl store_done_def idents none none_pending_empty)
  next
    case (event e)
    show ?thesis
    proof (cases "event_key (bk_jobs bk) e")
      case (Inl err)
      with event assms(3) have "r = Inl (Raised err)" "s' = s" by (simp_all add: set_aside_def)
      then show ?thesis by (simp add: store_moved_refl)
    next
      case (Inr k)
      with event assms(3) show ?thesis
        by (cases k)
          (auto simp: set_aside_def quarantine_in_def store_moved_def store_done_def idents
            queue_moved_refl none_pending_empty
            intro!: marks_moved marks_done jobq.quarantine_moved jobq.quarantine_none_pending)
    qed
  next
    case (task t)
    show ?thesis
    proof (cases "text_item ''task_id'' t")
      case (Inl err)
      with task assms(3) have "r = Inl (Raised err)" "s' = s" by (simp_all add: set_aside_def)
      then show ?thesis by (simp add: store_moved_refl)
    next
      case (Inr u)
      with task assms(3) show ?thesis
        by (auto simp: set_aside_def quarantine_in_def store_moved_def store_done_def idents
            queue_moved_refl none_pending_empty intro!: marks_moved marks_done)
    qed
  next
    case (outcome out)
    show ?thesis
    proof (cases "ledger_key ''outcome_id'' out")
      case (Inl err)
      with outcome assms(3) have "r = Inl (Raised err)" "s' = s" by (simp_all add: set_aside_def)
      then show ?thesis by (simp add: store_moved_refl)
    next
      case (Inr k)
      with outcome assms(3) show ?thesis
        by (auto simp: set_aside_def quarantine_in_def store_moved_def store_done_def idents
            queue_moved_refl none_pending_empty
            intro!: outq.quarantine_moved outq.quarantine_none_pending)
    qed
  next
    case (revenue rv)
    show ?thesis
    proof (cases "ledger_key ''revenue_id'' rv")
      case (Inl err)
      with revenue assms(3) have "r = Inl (Raised err)" "s' = s" by (simp_all add: set_aside_def)
      then show ?thesis by (simp add: store_moved_refl)
    next
      case (Inr k)
      with revenue assms(3) show ?thesis
        by (auto simp: set_aside_def quarantine_in_def store_moved_def store_done_def idents
            queue_moved_refl none_pending_empty
            intro!: revq.quarantine_moved revq.quarantine_none_pending)
    qed
  qed
  moreover have "{q \<in> set [p]. limit < length (payload_body q)} = {p}" using assms(1) by auto
  ultimately show ?thesis unfolding step_effect_def frame by (intro exI [of _ "[]"]) simp
qed

text \<open>A step handles one leaf; the leaves that do not fit hold at most one record.\<close>

definition step_ok :: "nat \<Rightarrow> plan_step \<Rightarrow> bool" where
  "step_ok limit x \<longleftrightarrow>
     (\<forall>q. x = Leaf q \<longrightarrow> limit < length (payload_body q) \<longrightarrow> durable_count q \<le> 1)"

lemma plan_steps_ok: "list_all (step_ok limit) (plan limit p)"
  by (induction p rule: plan_induct [where limit = limit])
    (auto simp: step_ok_def dest: split_none)

lemma run_step_effect:
  assumes "step_ok limit x" "run_step limit env net bk x s = (r, s')"
  shows "step_effect limit bk (leaves [x]) r s s'"
proof (cases x)
  case (Leaf p)
  with assms show ?thesis
    by (cases "length (payload_body p) \<le> limit")
      (auto simp: run_step_def step_ok_def intro: post_leaf_effect set_aside_effect)
next
  case (Malformed e)
  with assms show ?thesis by (auto simp: run_step_def step_effect_def store_moved_refl)
qed

lemma step_effect_trans:
  assumes "step_effect limit bk qs (Inr True) s s1" "step_effect limit bk qs' r s1 s2"
  shows "step_effect limit bk (qs @ qs') r s s2"
proof -
  from assms(1) obtain n1 where n1: "ps_log s1 = ps_log s @ n1"
      "\<forall>(q, ok) \<in> set n1. q \<in> set qs \<and> length (payload_body q) \<le> limit"
      "store_moved bk {q. (q, True) \<in> set n1} {q \<in> set qs. limit < length (payload_body q)}
        (ps_store s) (ps_store s1)" "\<forall>q \<in> set qs. store_done bk q (ps_store s1)"
    by (auto simp: step_effect_def)
  from assms(2) obtain n2 where n2: "ps_log s2 = ps_log s1 @ n2"
      "\<forall>(q, ok) \<in> set n2. q \<in> set qs' \<and> length (payload_body q) \<le> limit"
      "store_moved bk {q. (q, True) \<in> set n2} {q \<in> set qs'. limit < length (payload_body q)}
        (ps_store s1) (ps_store s2)" "r = Inr True \<longrightarrow> (\<forall>q \<in> set qs'. store_done bk q (ps_store s2))"
    by (auto simp: step_effect_def)
  let ?A = "{q. (q, True) \<in> set (n1 @ n2)}"
  let ?B = "{q \<in> set (qs @ qs'). limit < length (payload_body q)}"
  have "store_moved bk ?A ?B (ps_store s) (ps_store s1)" "store_moved bk ?A ?B (ps_store s1) (ps_store s2)"
    by (rule store_moved_mono [OF n1(3)] store_moved_mono [OF n2(3)]; auto)+
  then have "store_moved bk ?A ?B (ps_store s) (ps_store s2)" by (rule store_moved_trans)
  moreover have "r = Inr True \<longrightarrow> (\<forall>q \<in> set (qs @ qs'). store_done bk q (ps_store s2))"
    using n2(4) n1(4) store_done_moved [OF n2(3)] by auto
  ultimately show ?thesis
    unfolding step_effect_def using n1(1,2) n2(1,2) by (intro exI [of _ "n1 @ n2"]) auto
qed

lemma step_effect_stop:
  assumes "step_effect limit bk qs r s s'" "r \<noteq> Inr True"
  shows "step_effect limit bk (qs @ qs') r s s'"
proof -
  from assms obtain new where new: "ps_log s' = ps_log s @ new"
      "\<forall>(q, ok) \<in> set new. q \<in> set qs \<and> length (payload_body q) \<le> limit"
      "store_moved bk {q. (q, True) \<in> set new} {q \<in> set qs. limit < length (payload_body q)}
        (ps_store s) (ps_store s')"
    by (auto simp: step_effect_def)
  moreover from new(3) have "store_moved bk {q. (q, True) \<in> set new}
      {q \<in> set (qs @ qs'). limit < length (payload_body q)} (ps_store s) (ps_store s')"
    by (rule store_moved_mono) auto
  ultimately show ?thesis
    unfolding step_effect_def using assms(2) by (intro exI [of _ new]) auto
qed

lemma run_plan_effect:
  assumes "list_all (step_ok limit) xs" "run_plan limit env net bk xs s = (r, s')"
  shows "step_effect limit bk (leaves xs) r s s'"
  using assms
proof (induction xs arbitrary: s)
  case Nil
  then show ?case by (auto simp: step_effect_def store_moved_refl)
next
  case (Cons x xs)
  obtain r1 s1 where x: "run_step limit env net bk x s = (r1, s1)" by force
  have e1: "step_effect limit bk (leaves [x]) r1 s s1"
    by (rule run_step_effect [OF _ x]) (use Cons.prems(1) in simp)
  have lv: "leaves (x # xs) = leaves [x] @ leaves xs" by (metis append_Cons append_Nil leaves_simps(4))
  show ?case
  proof (cases "r1 = Inr True")
    case True
    with Cons.prems x have "run_plan limit env net bk xs s1 = (r, s')" by (simp add: and_then_def)
    with Cons.IH Cons.prems(1) have "step_effect limit bk (leaves xs) r s1 s'" by simp
    with e1 True show ?thesis unfolding lv by (intro step_effect_trans) auto
  next
    case False
    with Cons.prems x have "r1 = r" "s1 = s'" by (auto simp: and_then_def)
    with e1 False show ?thesis unfolding lv by (intro step_effect_stop) auto
  qed
qed

section \<open>Counting\<close>

lemma plan_nonempty: "0 < durable_count p \<longrightarrow> (\<forall>q \<in> set (leaves (plan limit p)). 0 < durable_count q)"
proof (induction p rule: plan_induct [where limit = limit])
  case (cut p a b)
  from split_counts [OF cut(1)] have "0 < durable_count a" "0 < durable_count b" by blast+
  with cut(2,3) show ?case by (simp add: ball_Un)
qed simp_all

lemma post_leaf_counts:
  assumes "post_leaf env net bk p s = (Inr True, s')"
  shows "ps_delivered s' = ps_delivered s + record_count p \<and> ps_quarantined s' = ps_quarantined s"
proof -
  obtain r1 s1 where raw: "post_raw env (net (length (ps_log s)) (payload_body p)) s = (r1, s1)"
    by force
  with assms have "r1 = Inr True" by (auto simp: post_leaf_def Let_def split: if_splits)
  with assms raw post_raw_frame [OF raw] show ?thesis
    by (cases "leaf_acks_of (bk_jobs bk) p") (auto simp: post_leaf_def)
qed

lemma quarantine_in_counts:
  "quarantine_in f s = (r, s') \<Longrightarrow>
     ps_delivered s' = ps_delivered s \<and> ps_quarantined s' = ps_quarantined s + 1"
  by (auto simp: quarantine_in_def)

lemma set_aside_counts:
  assumes "durable_count p = 1" "set_aside bk p s = (Inr True, s')"
  shows "ps_delivered s' = ps_delivered s \<and> ps_quarantined s' = ps_quarantined s + 1"
proof -
  from assms(1) have "durable_count p \<le> 1" by simp
  then show ?thesis
  proof (cases rule: single_record)
    case none
    with assms(1) show ?thesis by (simp add: durable_count_def)
  next
    case (event e)
    show ?thesis
    proof (cases "event_key (bk_jobs bk) e")
      case (Inr k)
      with event assms(2) show ?thesis by (cases k) (auto simp: set_aside_def dest: quarantine_in_counts)
    qed (use event assms(2) in \<open>simp add: set_aside_def\<close>)
  next
    case (task t)
    with assms(2) show ?thesis
      by (cases "text_item ''task_id'' t") (auto simp: set_aside_def dest: quarantine_in_counts)
  next
    case (outcome out)
    with assms(2) show ?thesis
      by (cases "ledger_key ''outcome_id'' out") (auto simp: set_aside_def dest: quarantine_in_counts)
  next
    case (revenue r)
    with assms(2) show ?thesis
      by (cases "ledger_key ''revenue_id'' r") (auto simp: set_aside_def dest: quarantine_in_counts)
  qed
qed

lemma run_plan_counts:
  assumes "list_all (step_ok limit) xs" "\<forall>q \<in> set (leaves xs). 0 < durable_count q"
    "run_plan limit env net bk xs s = (Inr True, s')"
  shows "ps_delivered s' = ps_delivered s +
      sum_list (map record_count (filter (\<lambda>q. length (payload_body q) \<le> limit) (leaves xs))) \<and>
    ps_quarantined s' = ps_quarantined s +
      length (filter (\<lambda>q. \<not> length (payload_body q) \<le> limit) (leaves xs))"
  using assms
proof (induction xs arbitrary: s)
  case (Cons x xs)
  obtain r1 s1 where x: "run_step limit env net bk x s = (r1, s1)" by force
  with Cons.prems(3) have r1: "r1 = Inr True" and rest: "run_plan limit env net bk xs s1 = (Inr True, s')"
    by (auto simp: and_then_def split: if_splits)
  from Cons.IH [OF _ _ rest] Cons.prems(1,2)
  have IH: "ps_delivered s' = ps_delivered s1 +
      sum_list (map record_count (filter (\<lambda>q. length (payload_body q) \<le> limit) (leaves xs)))"
    "ps_quarantined s' = ps_quarantined s1 +
      length (filter (\<lambda>q. \<not> length (payload_body q) \<le> limit) (leaves xs))"
    by (cases x; simp)+
  show ?case
  proof (cases x)
    case (Leaf q)
    show ?thesis
    proof (cases "length (payload_body q) \<le> limit")
      case True
      with x r1 Leaf IH post_leaf_counts [of env net bk q s s1] show ?thesis by (simp add: run_step_def)
    next
      case False
      with Cons.prems(1,2) Leaf have "durable_count q = 1"
        by (auto simp: step_ok_def linorder_not_le)
      with False x r1 Leaf IH set_aside_counts [of q bk s s1] show ?thesis by (simp add: run_step_def)
    qed
  next
    case (Malformed e)
    with x r1 show ?thesis by (simp add: run_step_def)
  qed
qed simp

lemma post_leaf_log: "length (ps_log (snd (post_leaf env net bk p s))) = length (ps_log s) + 1"
  by (simp add: post_leaf_def Let_def split: prod.split sum.split)

lemma run_plan_log: "length (ps_log (snd (run_plan limit env net bk xs s))) \<le> length (ps_log s) + length xs"
proof (induction xs arbitrary: s)
  case (Cons x xs)
  obtain r1 s1 where x: "run_step limit env net bk x s = (r1, s1)" by force
  have "length (ps_log s1) \<le> length (ps_log s) + 1"
  proof (cases x)
    case (Leaf q)
    with x post_leaf_log [of env net bk q s] show ?thesis
      by (auto simp: run_step_def dest!: set_aside_log split: if_splits)
  next
    case (Malformed e)
    with x show ?thesis by (auto simp: run_step_def)
  qed
  with x Cons.IH [of s1] show ?case by (auto simp: and_then_def)
qed simp

lemma covers_done:
  assumes "covers p qs" "\<forall>q \<in> set qs. store_done bk q st"
  shows "store_done bk p st"
proof -
  have sets: "set (pl_events p) = (\<Union>q \<in> set qs. set (pl_events q))"
      "set (pl_tasks p) = (\<Union>q \<in> set qs. set (pl_tasks q))"
      "set (pl_outcomes p) = (\<Union>q \<in> set qs. set (pl_outcomes q))"
      "set (pl_revenues p) = (\<Union>q \<in> set qs. set (pl_revenues q))"
    using assms(1) unfolding covers_def by (metis set_concat set_map image_image)+
  show ?thesis
    unfolding store_done_def none_pending_def idents sets
    using assms(2) [unfolded store_done_def none_pending_def idents] by fastforce
qed

lemma record_count_concat:
  "sum_list (map record_count qs) = length (concat (map pl_events qs)) + length (concat (map pl_tasks qs)) +
     length (concat (map pl_identities qs)) + length (concat (map pl_outcomes qs)) +
     length (concat (map pl_revenues qs))"
  by (induction qs) (auto simp: record_count_def)

lemma covers_records:
  assumes "covers p qs"
  shows "sum_list (map record_count qs) = record_count p"
proof -
  have "record_count p = length (concat (map pl_events qs)) + length (concat (map pl_tasks qs)) +
      length (concat (map pl_identities qs)) + length (concat (map pl_outcomes qs)) +
      length (concat (map pl_revenues qs))"
    using assms unfolding covers_def record_count_def by (metis size_mset)
  then show ?thesis by (simp only: record_count_concat)
qed

section \<open>Properties\<close>

text \<open>C5. Uploading a batch is uploading a list of leaves in order, stopping at the first that
  fails, and the list depends on the batch alone: the leaves hold exactly the records of the
  batch, each once and in their order, every business identity goes with its task, only a
  single record is larger than a request may be, and there are no more leaves than records.\<close>

theorem batch_is_plan:
  assumes "identities_ok p"
  shows "\<exists>qs. (\<forall>env net bk s. post_with_split limit env net bk p s =
        run_plan limit env net bk (map Leaf qs) s) \<and> covers p qs \<and>
      (\<forall>q \<in> set qs. identities_ok q \<and> (limit < length (payload_body q) \<longrightarrow> durable_count q \<le> 1)) \<and>
      length qs \<le> max 1 (durable_count p)"
proof -
  from plan_covers [of p limit] assms obtain qs where qs: "plan limit p = map Leaf qs" "covers p qs"
      "\<forall>q \<in> set qs. identities_ok q"
      "\<forall>q \<in> set qs. limit < length (payload_body q) \<longrightarrow> durable_count q \<le> 1" by blast
  from plan_length [of limit p] have "length qs \<le> max 1 (durable_count p)" by (simp add: qs(1))
  with qs show ?thesis
    by (intro exI [of _ qs]) (simp add: post_with_split_plan_aux)
qed

definition sample_batch :: payload where
  "sample_batch = no_records\<lparr>pl_tasks := [[(''task_id'', JStr ''t1'')], [(''task_id'', JStr ''t2'')]],
     pl_identities := [[(''task_id'', JStr ''t2'')]]\<rparr>"

lemma sample_batch_ok: "identities_ok sample_batch"
  by (simp add: identities_ok_def sample_batch_def no_records_def text_item_def dict_item_def)

theorem batch_is_plan_witness: "\<exists>qs. covers sample_batch qs \<and> length qs \<le> 2"
  using batch_is_plan [OF sample_batch_ok, of 0]
  by (auto simp: sample_batch_def no_records_def durable_count_def)

text \<open>C6. Tasks reach the control plane no later than events: in the order a batch is uploaded, no
  leaf after one that carries an event carries a task.\<close>

theorem tasks_before_events:
  "\<exists>xs. (\<forall>env net bk s. post_with_split limit env net bk p s = run_plan limit env net bk xs s) \<and>
     sorted_wrt (\<lambda>q q'. pl_events q \<noteq> [] \<longrightarrow> pl_tasks q' = []) (leaves xs)"
  using plan_tasks_first post_with_split_plan_aux by blast

theorem tasks_before_events_witness:
  "\<exists>xs. (\<forall>env net bk s. post_with_split 0 env net bk sample_batch s = run_plan 0 env net bk xs s)"
  using tasks_before_events [of 0 sample_batch] by blast

text \<open>C3. Whatever the control plane answers, also when the upload fails half way: every request
  fits the limit, a row of any of the five tables is acknowledged only for a request that was
  accepted, and set aside only for a leaf that fits in no request; no other row changes state.\<close>

theorem acknowledged_only_accepted:
  assumes "post_with_split limit env net bk p s = (r, s')"
  shows "\<exists>new B. ps_log s' = ps_log s @ new \<and>
      (\<forall>(q, ok) \<in> set new. length (payload_body q) \<le> limit) \<and>
      (\<forall>q \<in> B. limit < length (payload_body q)) \<and>
      store_moved bk {q. (q, True) \<in> set new} B (ps_store s) (ps_store s')"
proof -
  have "step_effect limit bk (leaves (plan limit p)) r s s'"
    using assms run_plan_effect [OF plan_steps_ok] by (simp add: post_with_split_plan_aux)
  then obtain new where "ps_log s' = ps_log s @ new"
      "\<forall>(q, ok) \<in> set new. q \<in> set (leaves (plan limit p)) \<and> length (payload_body q) \<le> limit"
      "store_moved bk {q. (q, True) \<in> set new}
        {q \<in> set (leaves (plan limit p)). limit < length (payload_body q)} (ps_store s) (ps_store s')"
    by (auto simp: step_effect_def)
  then show ?thesis
    by (intro exI [of _ new] exI [of _ "{q \<in> set (leaves (plan limit p)). limit < length (payload_body q)}"])
      auto
qed

definition sample_post_state :: post_state where
  "sample_post_state =
     \<lparr>ps_store = \<lparr>st_events = [], st_tasks = [new_vrow (new_task ''t1'' (sample_time 0)),
          new_vrow (new_task ''t2'' (sample_time 0)), new_vrow (new_task ''t3'' (sample_time 0))],
        st_outcomes = [], st_revenues = [], st_jobs = []\<rparr>,
      ps_health = new_health, ps_stopped = False, ps_errors = [], ps_delivered = 0,
      ps_quarantined = 0, ps_log = []\<rparr>"

definition sample_keys :: batch_keys where
  "sample_keys = \<lparr>bk_events = Some Map.empty, bk_tasks = Some [''t1'' \<mapsto> 1, ''t2'' \<mapsto> 1], bk_jobs = []\<rparr>"

abbreviation accept_all :: "nat \<Rightarrow> string \<Rightarrow> reply" where
  "accept_all \<equiv> \<lambda>n req. Answered 202 None"

abbreviation sample_upload :: "(post_error + bool) \<times> post_state" where
  "sample_upload \<equiv> post_with_split (length (payload_body sample_batch))
     \<lparr>env_api_key = None, env_now = sample_time 0\<rparr> accept_all sample_keys sample_batch sample_post_state"

lemma sample_upload_result:
  "fst sample_upload = Inr True \<and> map status (st_tasks (ps_store (snd sample_upload))) = [Synced, Synced, Pending]
   \<and> ps_log (snd sample_upload) = [(sample_batch, True)]"
proof -
  have acks: "leaf_acks_of [] sample_batch =
      Inr \<lparr>la_events = [], la_tasks = [''t1'', ''t2''], la_outcomes = [], la_revenues = []\<rparr>"
    by (simp add: leaf_acks_of_def sample_batch_def no_records_def text_item_def dict_item_def)
  show ?thesis
    by (simp add: post_with_split.simps [where p = sample_batch] post_leaf_def post_raw_def reply_rejects_def
        sample_keys_def acks mark_leaf_synced_def plain_ids_def job_ids_def
        mark_task_snapshots_synced_def versioned_def map_filter_simps taskq.ack_spec mark_where_def
        sample_post_state_def new_vrow_def new_task_def Let_def)
qed

theorem acknowledged_only_accepted_witness:
  "\<exists>new. ps_log (snd sample_upload) = new \<and> (\<forall>(q, ok) \<in> set new. length (payload_body q) \<le>
     length (payload_body sample_batch))"
proof -
  have "ps_log sample_post_state = []" by (simp add: sample_post_state_def)
  then show ?thesis
    using acknowledged_only_accepted [OF prod.collapse [symmetric],
      of "length (payload_body sample_batch)" "\<lparr>env_api_key = None, env_now = sample_time 0\<rparr>" accept_all
        sample_keys sample_batch sample_post_state]
    by auto
qed

text \<open>C4. An upload that reports success settled the batch: no row a record of the batch stands for
  is still pending, the records in accepted leaves were counted as delivered, those in leaves
  too large as quarantined, and the two add up to the batch.\<close>

theorem batch_settled:
  assumes "post_with_split limit env net bk p s = (Inr True, s')"
    and "identities_ok p" "0 < durable_count p"
  shows "store_done bk p (ps_store s') \<and>
    (\<exists>big. ps_quarantined s' = ps_quarantined s + length big \<and>
       ps_delivered s' + sum_list (map record_count big) = ps_delivered s + record_count p \<and>
       (\<forall>q \<in> set big. limit < length (payload_body q) \<and> durable_count q = 1))"
proof -
  from plan_covers [of p limit] assms(2) obtain qs where qs: "plan limit p = map Leaf qs" "covers p qs"
    by blast
  have lv: "leaves (plan limit p) = qs"
    unfolding qs(1) by (induction qs) simp_all
  note run = assms(1) [unfolded post_with_split_plan_aux]
  have pos: "\<forall>q \<in> set qs. 0 < durable_count q" using plan_nonempty [of p limit] assms(3) lv by simp
  have "step_effect limit bk qs (Inr True) s s'"
    using run_plan_effect [OF plan_steps_ok run] lv by simp
  then have "\<forall>q \<in> set qs. store_done bk q (ps_store s')" by (auto simp: step_effect_def)
  with qs(2) have fin: "store_done bk p (ps_store s')" by (rule covers_done)
  let ?fits = "\<lambda>q. length (payload_body q) \<le> limit"
  let ?big = "filter (\<lambda>q. \<not> ?fits q) qs"
  have cnt: "ps_delivered s' = ps_delivered s + sum_list (map record_count (filter ?fits qs))"
      "ps_quarantined s' = ps_quarantined s + length ?big"
    using run_plan_counts [OF plan_steps_ok _ run] pos lv by simp_all
  have "sum_list (map record_count (filter ?fits qs)) + sum_list (map record_count ?big) = record_count p"
    using covers_records [OF qs(2)] sum_list_filter_split [of record_count qs ?fits] by simp
  moreover have "\<forall>q \<in> set ?big. limit < length (payload_body q) \<and> durable_count q = 1"
    using plan_steps_ok [of limit p] pos unfolding qs(1)
    by (fastforce simp: list_all_iff step_ok_def linorder_not_le)
  ultimately show ?thesis using fin cnt by (intro conjI exI [of _ ?big]) auto
qed

theorem batch_settled_witness:
  "store_done sample_keys sample_batch (ps_store (snd sample_upload))"
proof -
  have up: "sample_upload = (Inr True, snd sample_upload)"
    using sample_upload_result by (metis prod.collapse)
  have "0 < durable_count sample_batch" by (simp add: durable_count_def sample_batch_def)
  from batch_settled [OF up sample_batch_ok this] show ?thesis by blast
qed

text \<open>One upload makes at most as many requests as the batch has records, whatever the answers.\<close>

lemma requests_bounded:
  "length (ps_log (snd (post_with_split limit env net bk p s))) \<le> length (ps_log s) + max 1 (durable_count p)"
  using run_plan_log [of limit env net bk "plan limit p" s] plan_length [of limit p]
  by (simp add: post_with_split_plan_aux)

end
