(* ===== verification/Delivery_Safety.thy ===== *)
theory Delivery_Safety
  imports Event_Store
begin

text \<open>
  Why event and task rows carry a \<open>sync_version\<close>: the upload worker works on snapshots
  taken earlier, while the application keeps changing the rows. The state below adds to a
  table the snapshots in flight and a log of the snapshots ingestion accepted; the
  invariant is that a row is synced only if its current contents were accepted.
\<close>

record 'a delivery =
  dl_rows :: "'a vrow list"
  dl_inflight :: "('a \<times> int) list"
  dl_sent :: "('a \<times> int) list"

definition snapshot_inv :: "('a \<Rightarrow> uuid) \<Rightarrow> 'a delivery \<Rightarrow> bool" where
  "snapshot_inv kid s \<longleftrightarrow>
     distinct (map (\<lambda>r. kid (body r)) (dl_rows s)) \<and>
     (\<forall>r \<in> set (dl_rows s). status r = Synced \<longrightarrow> (body r, version r) \<in> set (dl_sent s)) \<and>
     (\<forall>(x, v) \<in> set (dl_inflight s). \<exists>r \<in> set (dl_rows s).
        kid (body r) = kid x \<and> v \<le> version r \<and> (version r = v \<longrightarrow> body r = x))"

locale snapshot_queue =
  fixes kid :: "'a \<Rightarrow> uuid"
    and ack :: "(uuid \<times> int) list \<Rightarrow> 'a vrow list \<Rightarrow> 'a vrow list"
    and upd :: "'a \<Rightarrow> 'a vrow list \<Rightarrow> 'a vrow list"
    and scan :: "'a vrow list \<Rightarrow> int \<Rightarrow> ('a \<times> int) list"
    and merge :: "'a \<Rightarrow> 'a \<Rightarrow> 'a"
  assumes ack_is: "ack ids rows =
      mark_where status (\<lambda>s r. r\<lparr>status := s\<rparr>) (\<lambda>r. (kid (body r), version r)) Synced ids rows"
    and upd_is: "upd x rows = update_where (\<lambda>r. kid (body r) = kid x)
      (\<lambda>r. r\<lparr>body := merge x (body r), status := Pending, version := version r + 1\<rparr>) rows"
    and merge_kid: "kid y = kid x \<Longrightarrow> kid (merge x y) = kid y"
    and scan_is: "set (scan rows n) \<subseteq> {(body r, version r) | r. r \<in> set rows \<and> status r = Pending}"
begin

lemma inv_start: "snapshot_inv kid \<lparr>dl_rows = [], dl_inflight = [], dl_sent = []\<rparr>"
  by (simp add: snapshot_inv_def)

lemma inv_insert:
  assumes "snapshot_inv kid s" "kid x \<notin> kid ` body ` set (dl_rows s)"
  shows "snapshot_inv kid (s\<lparr>dl_rows := dl_rows s @ [new_vrow x]\<rparr>)"
  using assms unfolding snapshot_inv_def
  by (fastforce simp: new_vrow_def image_iff)

lemma inv_update:
  assumes inv: "snapshot_inv kid s"
  shows "snapshot_inv kid (s\<lparr>dl_rows := upd x (dl_rows s)\<rparr>)"
proof -
  let ?f = "\<lambda>r. if kid (body r) = kid x
    then r\<lparr>body := merge x (body r), status := Pending, version := version r + 1\<rparr> else r"
  have kid: "kid (body (?f r)) = kid (body r)" for r by (simp add: merge_kid)
  have rows: "upd x (dl_rows s) = map ?f (dl_rows s)" by (simp add: upd_is update_where_def)
  have d: "distinct (map (\<lambda>r. kid (body r)) (map ?f (dl_rows s)))"
  proof -
    have "map (\<lambda>r. kid (body r)) (map ?f (dl_rows s)) = map (\<lambda>r. kid (body r)) (dl_rows s)"
      unfolding map_map comp_def by (intro map_cong refl kid)
    with inv show ?thesis by (simp only: snapshot_inv_def)
  qed
  have sy: "\<forall>r \<in> set (map ?f (dl_rows s)). status r = Synced \<longrightarrow> (body r, version r) \<in> set (dl_sent s)"
    using inv by (auto simp: snapshot_inv_def)
  have fl: "\<exists>r \<in> set (map ?f (dl_rows s)). kid (body r) = kid y \<and> v \<le> version r \<and>
      (version r = v \<longrightarrow> body r = y)" if "(y, v) \<in> set (dl_inflight s)" for y v
  proof -
    from inv that obtain r where r: "r \<in> set (dl_rows s)" "kid (body r) = kid y" "v \<le> version r"
        "version r = v \<longrightarrow> body r = y"
      by (auto simp: snapshot_inv_def)
    then have "?f r \<in> set (map ?f (dl_rows s))" by simp
    moreover have "kid (body (?f r)) = kid y" by (rule trans [OF kid r(2)])
    moreover have "v \<le> version (?f r) \<and> (version (?f r) = v \<longrightarrow> body (?f r) = y)"
      using r(3,4) by simp
    ultimately show ?thesis by blast
  qed
  from d sy fl show ?thesis unfolding snapshot_inv_def rows by auto
qed

lemma inv_scan:
  assumes "snapshot_inv kid s"
  shows "snapshot_inv kid (s\<lparr>dl_inflight := scan (dl_rows s) n\<rparr>)"
  using assms scan_is [of "dl_rows s" n] unfolding snapshot_inv_def by fastforce

text \<open>A mark other than the acknowledgement changes no contents and syncs nothing.\<close>

lemma inv_map:
  assumes inv: "snapshot_inv kid s"
    and f: "\<And>r. body (f r) = body r" "\<And>r. version (f r) = version r"
      "\<And>r. status (f r) = Synced \<Longrightarrow> status r = Synced"
  shows "snapshot_inv kid (s\<lparr>dl_rows := map f (dl_rows s)\<rparr>)"
  using inv f unfolding snapshot_inv_def by (fastforce simp: comp_def)

text \<open>Acknowledging the accepted snapshots syncs only rows that still hold them.\<close>

lemma inv_ack:
  assumes inv: "snapshot_inv kid s" and acc: "set accepted \<subseteq> set (dl_inflight s)"
  shows "snapshot_inv kid
    (s\<lparr>dl_rows := ack (map (\<lambda>(x, v). (kid x, v)) accepted) (dl_rows s), dl_sent := accepted @ dl_sent s\<rparr>)"
proof -
  define ids where "ids = map (\<lambda>(x, v). (kid x, v)) accepted"
  define f where "f r = (if status r = Pending \<and> (kid (body r), version r) \<in> set ids
    then r\<lparr>status := Synced\<rparr> else r)" for r :: "'a vrow"
  have rows: "ack (map (\<lambda>(x, v). (kid x, v)) accepted) (dl_rows s) = map f (dl_rows s)"
    by (simp add: ack_is mark_where_def f_def ids_def)
  have same: "body (f r) = body r" "version (f r) = version r" for r by (simp_all add: f_def)
  have sy: "(body r, version r) \<in> set (accepted @ dl_sent s)"
    if r: "r \<in> set (dl_rows s)" and st: "status (f r) = Synced" for r
  proof (cases "status r = Pending \<and> (kid (body r), version r) \<in> set ids")
    case True
    then obtain x where x: "(x, version r) \<in> set accepted" "kid x = kid (body r)"
      by (auto simp: ids_def)
    with acc inv obtain q where q: "q \<in> set (dl_rows s)" "kid (body q) = kid x"
        "version q = version r \<longrightarrow> body q = x"
      by (fastforce simp: snapshot_inv_def)
    have "q = r"
      using inv r q(1) x(2) q(2) by (auto simp: snapshot_inv_def distinct_map inj_on_def)
    with q(3) x(1) show ?thesis by auto
  next
    case False
    then have "f r = r" unfolding f_def by (rule if_not_P)
    with st have "status r = Synced" by simp
    with r inv show ?thesis by (auto simp: snapshot_inv_def)
  qed
  then show ?thesis
    using inv unfolding snapshot_inv_def rows by (fastforce simp: same comp_def)
qed

lemma inv_filter_idle:
  assumes "snapshot_inv kid s" "dl_inflight s = []"
  shows "snapshot_inv kid (s\<lparr>dl_rows := filter P (dl_rows s)\<rparr>)"
  using assms by (auto simp: snapshot_inv_def distinct_map_filter)

lemma inv_idle: "snapshot_inv kid s \<Longrightarrow> snapshot_inv kid (s\<lparr>dl_inflight := []\<rparr>)"
  by (simp add: snapshot_inv_def)

end

section \<open>Events\<close>

text \<open>
  The steps of the program on the event table: the application inserts and updates, the
  worker scans, acknowledges what ingestion accepted, quarantines what it cannot convert,
  requeues, and purges between two scans.
\<close>

inductive event_delivery ::
  "(string \<Rightarrow> string) \<Rightarrow> (string \<Rightarrow> uuid) \<Rightarrow> event delivery \<Rightarrow> bool" for sha256hex uuid5 where
  ed_start: "event_delivery sha256hex uuid5 \<lparr>dl_rows = [], dl_inflight = [], dl_sent = []\<rparr>"
| ed_insert: "\<lbrakk>event_delivery sha256hex uuid5 s;
    insert_event sha256hex uuid5 amb (dl_rows s) e = (Inr (e', rows'), amb')\<rbrakk>
    \<Longrightarrow> event_delivery sha256hex uuid5 (s\<lparr>dl_rows := rows'\<rparr>)"
| ed_update: "event_delivery sha256hex uuid5 s
    \<Longrightarrow> event_delivery sha256hex uuid5 (s\<lparr>dl_rows := update_event e (dl_rows s)\<rparr>)"
| ed_scan: "event_delivery sha256hex uuid5 s
    \<Longrightarrow> event_delivery sha256hex uuid5 (s\<lparr>dl_inflight := query_event_deliveries_for_sync (dl_rows s) n\<rparr>)"
| ed_ack: "\<lbrakk>event_delivery sha256hex uuid5 s; set accepted \<subseteq> set (dl_inflight s)\<rbrakk>
    \<Longrightarrow> event_delivery sha256hex uuid5
      (s\<lparr>dl_rows := mark_event_deliveries_synced (map (\<lambda>(e, v). (ev_id e, v)) accepted) (dl_rows s),
         dl_sent := accepted @ dl_sent s\<rparr>)"
| ed_quarantine: "event_delivery sha256hex uuid5 s
    \<Longrightarrow> event_delivery sha256hex uuid5 (s\<lparr>dl_rows := mark_event_deliveries_quarantined ids (dl_rows s)\<rparr>)"
| ed_requeue: "event_delivery sha256hex uuid5 s
    \<Longrightarrow> event_delivery sha256hex uuid5 (s\<lparr>dl_rows := snd (requeue_quarantined_events (dl_rows s))\<rparr>)"
| ed_idle: "event_delivery sha256hex uuid5 s \<Longrightarrow> event_delivery sha256hex uuid5 (s\<lparr>dl_inflight := []\<rparr>)"
| ed_purge: "\<lbrakk>event_delivery sha256hex uuid5 s; dl_inflight s = []\<rbrakk>
    \<Longrightarrow> event_delivery sha256hex uuid5 (s\<lparr>dl_rows := snd (purge_synced cutoff (dl_rows s))\<rparr>)"

lemma set_sql_limit: "set (sql_limit n rows) \<subseteq> set rows"
  by (auto simp: sql_limit_def dest: in_set_takeD)

interpretation event_snapshots: snapshot_queue ev_id mark_event_deliveries_synced update_event
    query_event_deliveries_for_sync "\<lambda>e y. (stored_event e)\<lparr>ev_task_id := ev_task_id y\<rparr>"
proof (unfold_locales, goal_cases)
  case (1 ids rows)
  show ?case by (rule eventq.ack_spec)
next
  case (2 x rows)
  show ?case by (simp add: update_event_def)
next
  case (3 y x)
  then show ?case by (simp add: stored_event_def)
next
  case (4 rows n)
  show ?case
    using set_sql_limit by (force simp: query_event_deliveries_for_sync_def)
qed

lemma insert_event_rows:
  assumes "insert_event sha256hex uuid5 amb rows e = (Inr (e', rows'), amb')"
  shows "rows' = rows \<or>
    (rows' = rows @ [new_vrow (stored_event e')] \<and> ev_id e' \<notin> ev_id ` body ` set rows)"
  using assms
  by (auto simp: insert_event_def insert_stamped_def Let_def find_None_iff
      split: prod.splits sum.splits option.splits if_splits)

lemma event_delivery_inv: "event_delivery sha256hex uuid5 s \<Longrightarrow> snapshot_inv ev_id s"
proof (induction rule: event_delivery.induct)
  case ed_start
  show ?case by (rule event_snapshots.inv_start)
next
  case (ed_insert s amb e e' rows' amb')
  from insert_event_rows [OF ed_insert.hyps(2)] show ?case
  proof
    assume "rows' = dl_rows s"
    then show ?thesis using ed_insert.IH by simp
  next
    assume r: "rows' = dl_rows s @ [new_vrow (stored_event e')] \<and> ev_id e' \<notin> ev_id ` body ` set (dl_rows s)"
    then have "ev_id (stored_event e') \<notin> ev_id ` body ` set (dl_rows s)" by (simp add: stored_event_def)
    with r show ?thesis using event_snapshots.inv_insert [OF ed_insert.IH] by simp
  qed
next
  case (ed_update s e)
  then show ?case by (intro event_snapshots.inv_update)
next
  case (ed_scan s n)
  then show ?case by (intro event_snapshots.inv_scan)
next
  case (ed_ack s accepted)
  then show ?case by (intro event_snapshots.inv_ack)
next
  case (ed_quarantine s ids)
  show ?case unfolding eventq.quarantine_spec mark_where_def
    by (rule event_snapshots.inv_map [OF ed_quarantine.IH]) (auto split: if_splits)
next
  case (ed_requeue s)
  show ?case unfolding requeue_quarantined_events_def update_where_def snd_conv
    by (rule event_snapshots.inv_map [OF ed_requeue.IH]) (auto split: if_splits)
next
  case (ed_idle s)
  then show ?case by (intro event_snapshots.inv_idle)
next
  case (ed_purge s cutoff)
  then show ?case
    unfolding purge_synced_def Let_def snd_conv by (intro event_snapshots.inv_filter_idle)
qed

section \<open>Tasks\<close>

inductive task_delivery :: "task delivery \<Rightarrow> bool" where
  td_start: "task_delivery \<lparr>dl_rows = [], dl_inflight = [], dl_sent = []\<rparr>"
| td_insert: "\<lbrakk>task_delivery s; insert_task (dl_rows s) t = Inr rows'\<rbrakk>
    \<Longrightarrow> task_delivery (s\<lparr>dl_rows := rows'\<rparr>)"
| td_update: "task_delivery s \<Longrightarrow> task_delivery (s\<lparr>dl_rows := update_task t (dl_rows s)\<rparr>)"
| td_scan: "task_delivery s
    \<Longrightarrow> task_delivery (s\<lparr>dl_inflight := query_task_deliveries_for_sync (dl_rows s) n\<rparr>)"
| td_ack: "\<lbrakk>task_delivery s; set accepted \<subseteq> set (dl_inflight s)\<rbrakk>
    \<Longrightarrow> task_delivery
      (s\<lparr>dl_rows := mark_task_deliveries_synced (map (\<lambda>(t, v). (tk_id t, v)) accepted) (dl_rows s),
         dl_sent := accepted @ dl_sent s\<rparr>)"
| td_quarantine: "task_delivery s
    \<Longrightarrow> task_delivery (s\<lparr>dl_rows := mark_task_deliveries_quarantined ids (dl_rows s)\<rparr>)"
| td_idle: "task_delivery s \<Longrightarrow> task_delivery (s\<lparr>dl_inflight := []\<rparr>)"

interpretation task_snapshots: snapshot_queue tk_id mark_task_deliveries_synced update_task
    query_task_deliveries_for_sync "\<lambda>t y. stored_task t"
proof (unfold_locales, goal_cases)
  case (1 ids rows)
  show ?case by (rule taskq.ack_spec)
next
  case (2 x rows)
  show ?case by (simp add: update_task_def)
next
  case (3 y x)
  then show ?case by (simp add: stored_task_def)
next
  case (4 rows n)
  show ?case
    using set_sql_limit by (force simp: query_task_deliveries_for_sync_def)
qed

lemma task_delivery_inv: "task_delivery s \<Longrightarrow> snapshot_inv tk_id s"
proof (induction rule: task_delivery.induct)
  case td_start
  show ?case by (rule task_snapshots.inv_start)
next
  case (td_insert s t rows')
  have "tk_id (stored_task t) \<notin> tk_id ` body ` set (dl_rows s)"
      "rows' = dl_rows s @ [new_vrow (stored_task t)]"
    using td_insert.hyps(2)
    by (auto simp: insert_task_def stored_task_def find_None_iff split: if_splits)
  then show ?case using task_snapshots.inv_insert [OF td_insert.IH] by simp
next
  case (td_update s t)
  then show ?case by (intro task_snapshots.inv_update)
next
  case (td_scan s n)
  then show ?case by (intro task_snapshots.inv_scan)
next
  case (td_ack s accepted)
  then show ?case by (intro task_snapshots.inv_ack)
next
  case (td_quarantine s ids)
  show ?case unfolding taskq.quarantine_spec mark_where_def
    by (rule task_snapshots.inv_map [OF td_quarantine.IH]) (auto split: if_splits)
next
  case (td_idle s)
  then show ?case by (intro task_snapshots.inv_idle)
qed

section \<open>Properties\<close>


definition no_ambient :: ambient where
  "no_ambient = \<lparr>amb_capability = None, amb_registry = [], amb_scope = None\<rparr>"

definition plain_event :: event where
  "plain_event = (sample_event (uuid_text 5) (sample_time 0))\<lparr>ev_pricing_version := None\<rparr>"

lemma insert_plain_event:
  "insert_event sample_hex (\<lambda>s. uuid_text 9) no_ambient [] plain_event =
     (Inr (plain_event, [new_vrow plain_event]), no_ambient)"
  by (simp add: insert_event_def stamp_on_insert_def no_ambient_def plain_event_def sample_event_def
      apply_event_capability_def dict_get_def apply_event_provenance_def provenance_for_event_def
      inferred_provenance_def apply_event_idempotency_def idempotency_hash_def capture_key_def
      insert_stamped_def stored_event_def)

definition sent_state :: "event delivery" where
  "sent_state = \<lparr>dl_rows = [(new_vrow plain_event)\<lparr>status := Synced\<rparr>],
     dl_inflight = [(plain_event, 1)], dl_sent = [(plain_event, 1)]\<rparr>"

lemma sent_state_reach: "event_delivery sample_hex (\<lambda>s. uuid_text 9) sent_state"
proof -
  let ?s1 = "\<lparr>dl_rows = [new_vrow plain_event], dl_inflight = [], dl_sent = []\<rparr>"
  let ?s2 = "?s1\<lparr>dl_inflight := query_event_deliveries_for_sync (dl_rows ?s1) 10\<rparr>"
  have "event_delivery sample_hex (\<lambda>s. uuid_text 9) ?s1"
    using ed_insert [OF ed_start, of sample_hex "\<lambda>s. uuid_text 9" no_ambient plain_event]
      insert_plain_event by simp
  then have s2: "event_delivery sample_hex (\<lambda>s. uuid_text 9) ?s2" by (rule ed_scan)
  have fl: "query_event_deliveries_for_sync [new_vrow plain_event] 10 = [(plain_event, 1)]"
    by (simp add: query_event_deliveries_for_sync_def new_vrow_def sql_limit_def)
  show ?thesis
    using ed_ack [OF s2, of "[(plain_event, 1)]"]
    by (simp add: fl [unfolded new_vrow_def] sent_state_def eventq.ack_spec mark_where_def new_vrow_def)
qed


text \<open>The same for tasks: a task row marked synced holds a task snapshot that ingestion
  accepted, so the costs rolled up after an upload started are uploaded again.\<close>

lemma synced_task_was_accepted:
  assumes "task_delivery s" "r \<in> set (dl_rows s)" "status r = Synced"
  shows "(body r, version r) \<in> set (dl_sent s)"
  using task_delivery_inv [OF assms(1)] assms(2,3) by (auto simp: snapshot_inv_def)

definition sent_task :: task where
  "sent_task = new_task (uuid_text 1) (sample_time 0)"

lemma synced_task_was_accepted_witness:
  "\<exists>s r. task_delivery s \<and> r \<in> set (dl_rows s) \<and> status r = Synced \<and>
     (body r, version r) \<in> set (dl_sent s)"
proof -
  have st: "stored_task sent_task = sent_task"
    by (simp add: stored_task_def sent_task_def new_task_def no_hosts_def)
  let ?s1 = "\<lparr>dl_rows = [new_vrow sent_task], dl_inflight = [], dl_sent = []\<rparr>"
  let ?s2 = "?s1\<lparr>dl_inflight := query_task_deliveries_for_sync (dl_rows ?s1) 10\<rparr>"
  let ?r = "(new_vrow sent_task)\<lparr>status := Synced\<rparr>"
  let ?s3 = "\<lparr>dl_rows = [?r], dl_inflight = [(sent_task, 1)], dl_sent = [(sent_task, 1)]\<rparr>"
  have "task_delivery ?s1"
    using td_insert [OF td_start, of sent_task] st by (simp add: insert_task_def)
  then have s2: "task_delivery ?s2" by (rule td_scan)
  have fl: "query_task_deliveries_for_sync [new_vrow sent_task] 10 = [(sent_task, 1)]"
    by (simp add: query_task_deliveries_for_sync_def new_vrow_def sql_limit_def)
  have s3: "task_delivery ?s3"
    using td_ack [OF s2, of "[(sent_task, 1)]"]
    by (simp add: fl [unfolded new_vrow_def] taskq.ack_spec mark_where_def new_vrow_def)
  have "(body ?r, version ?r) \<in> set (dl_sent ?s3)"
    by (rule synced_task_was_accepted [OF s3]) simp_all
  then show ?thesis
    by (intro exI [of _ ?s3] exI [of _ ?r]) (use s3 in simp)
qed

text \<open>An acknowledgement by event id alone, which the worker falls back to on stores without
  versioned acknowledgement, does lose changes: an event changed while its first version is in
  flight is marked synced although the new contents were never sent.\<close>

lemma unversioned_ack_loses_update:
  assumes "rows = [new_vrow e]" "ev_id e' = ev_id e"
  shows "map (\<lambda>r. (status r, version r)) (mark_synced [ev_id e] (update_event e' rows)) = [(Synced, 2)] \<and>
    map (\<lambda>r. (status r, version r)) (mark_event_deliveries_synced [(ev_id e, 1)] (update_event e' rows)) =
      [(Pending, 2)]"
  using assms
  by (simp add: mark_synced_def update_event_def update_where_def new_vrow_def stored_event_def
      eventq.ack_spec mark_where_def)

lemma unversioned_ack_loses_update_witness:
  "map status (mark_synced [ev_id plain_event] (update_event plain_event [new_vrow plain_event])) = [Synced]"
  using unversioned_ack_loses_update [OF refl, of plain_event plain_event] by auto

end
