(* ===== verification/Sessions.thy ===== *)
theory Sessions
  imports Delivery_Safety "HOL-Library.AList"
begin

text \<open>
  Automatic tasks (\<open>context.py\<close>, \<open>auto_task.py\<close>, \<open>session.py\<close>): the business context of a
  caller, the task built from it, and the session manager that groups calls made outside an
  explicit task. Task objects are shared by reference (the manager, the context variable of
  each logical execution and the application hold the same object, and the sync thread
  changes it), so they live in a heap addressed by numbers. An execution is a thread or an
  asyncio task; \<open>ss_current\<close> is its context variable.
\<close>

section \<open>Business context\<close>

record biz_context =
  cx_customer_id :: "string option"
  cx_project_id :: "string option"
  cx_user_id :: "string option"
  cx_product_id :: "string option"
  cx_metadata :: obj
  cx_agent :: "string option"
  cx_agent_version :: "string option"
  cx_workflow_id :: "string option"
  cx_workflow_session_id :: "string option"

definition context_texts :: "biz_context \<Rightarrow> (string \<times> string option) list" where
  "context_texts c =
     [(''customer_id'', cx_customer_id c), (''project_id'', cx_project_id c),
      (''user_id'', cx_user_id c), (''product_id'', cx_product_id c), (''agent'', cx_agent c),
      (''agent_version'', cx_agent_version c), (''workflow_id'', cx_workflow_id c),
      (''workflow_session_id'', cx_workflow_session_id c)]"

definition bad_text :: "string option \<Rightarrow> bool" where
  "bad_text v = (case v of None \<Rightarrow> False | Some s \<Rightarrow> py_strip s = [] \<or> 256 < length s)"

text \<open>\<open>set_context\<close>: the context that is stored, from the arguments given.\<close>

definition set_context :: "biz_context \<Rightarrow> py_error + biz_context" where
  "set_context c =
     (case first_error
        ([((cx_agent c = None) \<noteq> (cx_agent_version c = None),
           ValueError ''agent and agent_version must be supplied together''),
          (cx_workflow_session_id c \<noteq> None \<and> cx_workflow_id c = None,
           ValueError ''workflow_session_id requires workflow_id'')] @
         map (\<lambda>(name, v). (bad_text v, ValueError (name @ '' must contain between 1 and 256 characters'')))
           (context_texts c)) of
        Some e \<Rightarrow> Inl e
      | None \<Rightarrow> Inr c)"

text \<open>Python's truth value of an optional text.\<close>

definition text_truthy :: "string option \<Rightarrow> bool" where
  "text_truthy v = (case v of None \<Rightarrow> False | Some s \<Rightarrow> s \<noteq> [])"

definition has_business_identity :: "biz_context \<Rightarrow> bool" where
  "has_business_identity c \<longleftrightarrow>
     list_ex text_truthy [cx_customer_id c, cx_project_id c, cx_user_id c, cx_product_id c,
       cx_agent c, cx_workflow_id c]"

definition create_auto_task :: "biz_context option \<Rightarrow> string \<Rightarrow> uuid \<Rightarrow> dt \<Rightarrow> task" where
  "create_auto_task ctx task_type tid now =
     (let t = (new_task tid now)\<lparr>tk_type := task_type\<rparr>
      in case ctx of
           None \<Rightarrow> t
         | Some c \<Rightarrow> t\<lparr>tk_customer_id := cx_customer_id c, tk_project_id := cx_project_id c,
             tk_user_id := cx_user_id c, tk_product_id := cx_product_id c,
             tk_root_id := (if has_business_identity c then Some tid else None),
             tk_agent_id := cx_agent c, tk_agent_version := cx_agent_version c,
             tk_workflow_id := cx_workflow_id c,
             tk_workflow_session_id := cx_workflow_session_id c, tk_metadata := cx_metadata c\<rparr>)"

section \<open>The session manager\<close>

record 'x sessions =
  ss_heap :: "nat \<rightharpoonup> task"
  ss_sessions :: "'x \<rightharpoonup> nat"
  ss_owners :: "uuid \<rightharpoonup> 'x"
  ss_activity :: "('x \<times> int) list"
  ss_current :: "'x \<rightharpoonup> nat"

definition no_sessions :: "'x sessions" where
  "no_sessions = \<lparr>ss_heap = Map.empty, ss_sessions = Map.empty, ss_owners = Map.empty,
     ss_activity = [], ss_current = Map.empty\<rparr>"

abbreviation task_at :: "'x sessions \<Rightarrow> nat \<Rightarrow> task" where
  "task_at s l \<equiv> the (ss_heap s l)"

abbreviation live :: "'x sessions \<Rightarrow> nat \<Rightarrow> bool" where
  "live s l \<equiv> tk_ended_at (task_at s l) = None"

definition touch :: "'x \<Rightarrow> int \<Rightarrow> 'x sessions \<Rightarrow> 'x sessions" where
  "touch x now s = s\<lparr>ss_activity := AList.update x now (ss_activity s)\<rparr>"

definition drop_session :: "'x \<Rightarrow> nat \<Rightarrow> 'x sessions \<Rightarrow> 'x sessions" where
  "drop_session x l s =
     s\<lparr>ss_sessions := (ss_sessions s)(x := None),
       ss_owners := (ss_owners s)(tk_id (task_at s l) := None),
       ss_activity := AList.delete x (ss_activity s)\<rparr>"

definition set_current_task :: "'x \<Rightarrow> nat option \<Rightarrow> 'x sessions \<Rightarrow> 'x sessions" where
  "set_current_task x l s = s\<lparr>ss_current := (ss_current s)(x := l)\<rparr>"

text \<open>
  The first half of \<open>get_or_create_session\<close>: the task the execution's context variable names
  is used (\<open>Inl\<close>) when it is the execution's own live session or a live explicit task;
  otherwise the variable is cleared.
\<close>

definition existing_task :: "'x \<Rightarrow> int \<Rightarrow> 'x sessions \<Rightarrow> nat \<times> 'x sessions + 'x sessions" where
  "existing_task x now s =
     (case ss_current s x of
        None \<Rightarrow> Inr s
      | Some e \<Rightarrow>
          if ss_sessions s x = Some e \<and> live s e then Inl (e, touch x now s)
          else if ss_sessions s x = Some e then Inr (set_current_task x None (drop_session x e s))
          else if ss_owners s (tk_id (task_at s e)) = None \<and> live s e then Inl (e, s)
          else Inr (set_current_task x None s))"

definition create_session ::
  "'x \<Rightarrow> int \<Rightarrow> nat \<Rightarrow> task \<Rightarrow> 'x sessions \<Rightarrow> task_rows \<Rightarrow> (nat \<times> 'x sessions) \<times> task_rows" where
  "create_session x now l t s rows =
     ((l, set_current_task x (Some l)
            (touch x now (s\<lparr>ss_heap := (ss_heap s)(l \<mapsto> t), ss_sessions := (ss_sessions s)(x \<mapsto> l),
                            ss_owners := (ss_owners s)(tk_id t \<mapsto> x)\<rparr>))),
      (case insert_task rows t of Inl e \<Rightarrow> rows | Inr rows' \<Rightarrow> rows'))"

definition get_or_create_session ::
  "'x \<Rightarrow> int \<Rightarrow> nat \<Rightarrow> uuid \<Rightarrow> dt \<Rightarrow> biz_context option \<Rightarrow> 'x sessions \<Rightarrow> task_rows \<Rightarrow>
     (nat \<times> 'x sessions) \<times> task_rows" where
  "get_or_create_session x now l tid started ctx s rows =
     (case existing_task x now s of
        Inl r \<Rightarrow> (r, rows)
      | Inr s1 \<Rightarrow>
          (let t = create_auto_task ctx ''agent_session'' tid started
           in case ss_sessions s1 x of
                None \<Rightarrow> create_session x now l t s1 rows
              | Some m \<Rightarrow>
                  if live s1 m then ((m, set_current_task x (Some m) (touch x now s1)), rows)
                  else create_session x now l t (drop_session x m s1) rows))"

text \<open>
  \<open>finalize_idle_sessions\<close>: \<open>locked\<close> says for which tasks the write raises (then the session
  stays managed, with its previous state), \<open>ended\<close> gives the end times.
\<close>

definition finalize_one ::
  "('x \<Rightarrow> dt) \<Rightarrow> (uuid \<Rightarrow> bool) \<Rightarrow> 'x \<Rightarrow> 'x sessions \<times> task_rows \<times> task list \<Rightarrow>
     'x sessions \<times> task_rows \<times> task list" where
  "finalize_one ended locked x = (\<lambda>(s, rows, fin).
     (case ss_sessions s x of
        None \<Rightarrow> (s\<lparr>ss_activity := AList.delete x (ss_activity s)\<rparr>, rows, fin)
      | Some l \<Rightarrow>
          (let t = (task_at s l)\<lparr>tk_status := ''success'', tk_ended_at := Some (ended x)\<rparr>
           in if locked (tk_id t) then (s, rows, fin)
              else (drop_session x l (s\<lparr>ss_heap := (ss_heap s)(l \<mapsto> t)\<rparr>), update_task t rows, fin @ [t]))))"

definition idle_executions :: "int \<Rightarrow> int \<Rightarrow> 'x sessions \<Rightarrow> 'x list" where
  "idle_executions now idle s = map fst (filter (\<lambda>(x, last_at). idle \<le> now - last_at) (ss_activity s))"

definition finalize_idle_sessions ::
  "int \<Rightarrow> int \<Rightarrow> ('x \<Rightarrow> dt) \<Rightarrow> (uuid \<Rightarrow> bool) \<Rightarrow> 'x sessions \<Rightarrow> task_rows \<Rightarrow>
     'x sessions \<times> task_rows \<times> task list" where
  "finalize_idle_sessions now idle ended locked s rows =
     fold (finalize_one ended locked) (idle_executions now idle s) (s, rows, [])"

definition clear_sessions :: "'x sessions \<Rightarrow> 'x sessions" where
  "clear_sessions s = s\<lparr>ss_sessions := Map.empty, ss_owners := Map.empty, ss_activity := []\<rparr>"

section \<open>Executions using the manager\<close>

text \<open>
  The steps of the program: an execution asks for a task, the sync thread finalizes idle
  sessions, an execution starts with a copy of another's context, enters an explicit task
  (nested tasks get their parent), returns to an earlier task, and a task object is ended.
\<close>

definition enter_task :: "'x \<Rightarrow> nat \<Rightarrow> task \<Rightarrow> 'x sessions \<Rightarrow> 'x sessions" where
  "enter_task x l t s =
     (let t' = (case ss_current s x of
                  Some p \<Rightarrow> if tk_parent_id t = None then t\<lparr>tk_parent_id := Some (tk_id (task_at s p))\<rparr> else t
                | None \<Rightarrow> t)
      in set_current_task x (Some l) (s\<lparr>ss_heap := (ss_heap s)(l \<mapsto> t')\<rparr>))"

definition fresh :: "nat \<Rightarrow> uuid \<Rightarrow> 'x sessions \<Rightarrow> bool" where
  "fresh l u s \<longleftrightarrow> ss_heap s l = None \<and> (\<forall>t \<in> ran (ss_heap s). tk_id t \<noteq> u)"

inductive sessions_reach :: "'x sessions \<Rightarrow> bool" where
  sr_start: "sessions_reach no_sessions"
| sr_use: "\<lbrakk>sessions_reach s; fresh l tid s;
    get_or_create_session x now l tid started ctx s rows = ((m, s'), rows')\<rbrakk> \<Longrightarrow> sessions_reach s'"
| sr_finalize: "\<lbrakk>sessions_reach s;
    finalize_idle_sessions now idle ended locked s rows = (s', rows', fin)\<rbrakk> \<Longrightarrow> sessions_reach s'"
| sr_spawn: "sessions_reach s \<Longrightarrow> sessions_reach (set_current_task y (ss_current s x) s)"
| sr_enter: "\<lbrakk>sessions_reach s; fresh l (tk_id t) s\<rbrakk> \<Longrightarrow> sessions_reach (enter_task x l t s)"
| sr_leave: "\<lbrakk>sessions_reach s; case l of None \<Rightarrow> True | Some m \<Rightarrow> ss_heap s m \<noteq> None\<rbrakk>
    \<Longrightarrow> sessions_reach (set_current_task x l s)"
| sr_finish: "\<lbrakk>sessions_reach s; ss_heap s l = Some t\<rbrakk>
    \<Longrightarrow> sessions_reach (s\<lparr>ss_heap := (ss_heap s)(l \<mapsto> t\<lparr>tk_status := st, tk_ended_at := Some d\<rparr>)\<rparr>)"

text \<open>
  The invariant: sessions and owners are inverse to each other through the task ids, a
  session is watched for inactivity, and context variables name existing tasks.
\<close>

definition owned :: "'x sessions \<Rightarrow> bool" where
  "owned s \<longleftrightarrow> (\<forall>x l. ss_sessions s x = Some l \<longrightarrow>
     (\<exists>t. ss_heap s l = Some t \<and> ss_owners s (tk_id t) = Some x))"

definition owning :: "'x sessions \<Rightarrow> bool" where
  "owning s \<longleftrightarrow> (\<forall>u x. ss_owners s u = Some x \<longrightarrow>
     (\<exists>l t. ss_sessions s x = Some l \<and> ss_heap s l = Some t \<and> tk_id t = u))"

definition watched :: "'x sessions \<Rightarrow> bool" where
  "watched s \<longleftrightarrow> dom (ss_sessions s) \<subseteq> fst ` set (ss_activity s) \<and> distinct (map fst (ss_activity s))"

definition pointing :: "'x sessions \<Rightarrow> bool" where
  "pointing s \<longleftrightarrow> ran (ss_current s) \<subseteq> dom (ss_heap s)"

definition sessions_inv :: "'x sessions \<Rightarrow> bool" where
  "sessions_inv s \<longleftrightarrow> owned s \<and> owning s \<and> watched s \<and> pointing s"

lemmas inv_parts = owned_def owning_def watched_def pointing_def

lemma sessions_inv_start: "sessions_inv no_sessions"
  by (simp add: sessions_inv_def inv_parts no_sessions_def)

lemma inv_touch: "sessions_inv s \<Longrightarrow> sessions_inv (touch x now s)"
  by (auto simp: sessions_inv_def inv_parts touch_def dom_update distinct_update)

lemma ran_upd_subset: "ran (f(x := v)) \<subseteq> ran f \<union> (case v of None \<Rightarrow> {} | Some y \<Rightarrow> {y})"
  by (auto simp: ran_def split: if_splits)

lemma inv_current:
  assumes "sessions_inv s" "case l of None \<Rightarrow> True | Some m \<Rightarrow> ss_heap s m \<noteq> None"
  shows "sessions_inv (set_current_task x l s)"
proof -
  have "pointing (set_current_task x l s)"
    using assms ran_upd_subset [of "ss_current s" x l]
    by (auto simp: sessions_inv_def pointing_def set_current_task_def split: option.splits)
  with assms(1) show ?thesis
    by (simp add: sessions_inv_def set_current_task_def owned_def owning_def watched_def)
qed

lemma owner_inj:
  assumes "sessions_inv s" "ss_sessions s x = Some l" "ss_sessions s y = Some l"
  shows "x = y"
proof -
  from assms obtain t t' where "ss_heap s l = Some t" "ss_owners s (tk_id t) = Some x"
      "ss_heap s l = Some t'" "ss_owners s (tk_id t') = Some y"
    unfolding sessions_inv_def owned_def by meson
  then show ?thesis by simp
qed

lemma keys_delete: "fst ` set (AList.delete x xs) = fst ` set xs - {x}"
  by (metis delete_keys list.set_map set_removeAll)

lemma inv_drop:
  assumes inv: "sessions_inv s" and l: "ss_sessions s x = Some l"
  shows "sessions_inv (drop_session x l s)"
proof -
  from inv l obtain t where t: "ss_heap s l = Some t" "ss_owners s (tk_id t) = Some x"
    by (auto simp: sessions_inv_def owned_def)
  let ?d = "drop_session x l s"
  have "owned ?d"
    unfolding owned_def
  proof (intro allI impI)
    fix y m assume "ss_sessions ?d y = Some m"
    then have y: "y \<noteq> x" "ss_sessions s y = Some m"
      by (auto simp: drop_session_def split: if_splits)
    with inv obtain t' where "ss_heap s m = Some t'" "ss_owners s (tk_id t') = Some y"
      by (auto simp: sessions_inv_def owned_def)
    with t y show "\<exists>t. ss_heap ?d m = Some t \<and> ss_owners ?d (tk_id t) = Some y"
      by (auto simp: drop_session_def)
  qed
  moreover have "owning ?d"
    unfolding owning_def
  proof (intro allI impI)
    fix u y assume "ss_owners ?d u = Some y"
    with t have u: "u \<noteq> tk_id t" "ss_owners s u = Some y"
      by (auto simp: drop_session_def split: if_splits)
    with inv obtain m t' where m: "ss_sessions s y = Some m" "ss_heap s m = Some t'" "tk_id t' = u"
      unfolding sessions_inv_def owning_def by meson
    with u t l have "y \<noteq> x" by auto
    with m show "\<exists>l t. ss_sessions ?d y = Some l \<and> ss_heap ?d l = Some t \<and> tk_id t = u"
      by (auto simp: drop_session_def)
  qed
  moreover have "watched ?d" "pointing ?d"
    using inv by (auto simp: sessions_inv_def watched_def pointing_def drop_session_def keys_delete
        delete_keys distinct_removeAll)
  ultimately show ?thesis by (simp add: sessions_inv_def)
qed

lemma inv_heap:
  assumes inv: "sessions_inv s" and h: "\<And>m t. ss_heap s m = Some t \<Longrightarrow> \<exists>t'. h m = Some t' \<and> tk_id t' = tk_id t"
  shows "sessions_inv (s\<lparr>ss_heap := h\<rparr>)"
proof -
  have "owned (s\<lparr>ss_heap := h\<rparr>)"
    unfolding owned_def
  proof (intro allI impI)
    fix x l assume "ss_sessions (s\<lparr>ss_heap := h\<rparr>) x = Some l"
    with inv obtain t where "ss_heap s l = Some t" "ss_owners s (tk_id t) = Some x"
      by (auto simp: sessions_inv_def owned_def)
    with h [of l t] show "\<exists>t. ss_heap (s\<lparr>ss_heap := h\<rparr>) l = Some t \<and>
        ss_owners (s\<lparr>ss_heap := h\<rparr>) (tk_id t) = Some x"
      by auto
  qed
  moreover have "owning (s\<lparr>ss_heap := h\<rparr>)"
    unfolding owning_def
  proof (intro allI impI)
    fix u x assume "ss_owners (s\<lparr>ss_heap := h\<rparr>) u = Some x"
    then have "ss_owners s u = Some x" by simp
    with inv obtain l t where "ss_sessions s x = Some l" "ss_heap s l = Some t" "tk_id t = u"
      unfolding sessions_inv_def owning_def by meson
    with h [of l t] show "\<exists>l t. ss_sessions (s\<lparr>ss_heap := h\<rparr>) x = Some l \<and>
        ss_heap (s\<lparr>ss_heap := h\<rparr>) l = Some t \<and> tk_id t = u"
      by auto
  qed
  moreover have "pointing (s\<lparr>ss_heap := h\<rparr>)"
    using inv h unfolding sessions_inv_def pointing_def by fastforce
  ultimately show ?thesis using inv by (simp add: sessions_inv_def watched_def)
qed

lemma inv_add:
  assumes inv: "sessions_inv s" and new: "fresh l u s"
  shows "sessions_inv (s\<lparr>ss_heap := (ss_heap s)(l \<mapsto> t)\<rparr>)"
  by (rule inv_heap [OF inv]) (use new in \<open>auto simp: fresh_def\<close>)

lemma inv_register:
  assumes inv: "sessions_inv s" and free: "ss_sessions s x = None"
    and t: "ss_heap s l = Some t" "ss_owners s (tk_id t) = None"
  shows "sessions_inv (s\<lparr>ss_sessions := (ss_sessions s)(x \<mapsto> l), ss_owners := (ss_owners s)(tk_id t \<mapsto> x),
    ss_activity := AList.update x now (ss_activity s)\<rparr>)"
proof -
  let ?n = "s\<lparr>ss_sessions := (ss_sessions s)(x \<mapsto> l), ss_owners := (ss_owners s)(tk_id t \<mapsto> x),
    ss_activity := AList.update x now (ss_activity s)\<rparr>"
  have "owned ?n"
    unfolding owned_def
  proof (intro allI impI)
    fix y m assume "ss_sessions ?n y = Some m"
    then consider "y = x" "m = l" | "ss_sessions s y = Some m" "y \<noteq> x"
      by (cases "y = x") simp_all
    then show "\<exists>t'. ss_heap ?n m = Some t' \<and> ss_owners ?n (tk_id t') = Some y"
    proof cases
      case 1
      with t show ?thesis by auto
    next
      case 2
      with inv obtain t' where "ss_heap s m = Some t'" "ss_owners s (tk_id t') = Some y"
        by (auto simp: sessions_inv_def owned_def)
      with t(2) show ?thesis by auto
    qed
  qed
  moreover have "owning ?n"
    unfolding owning_def
  proof (intro allI impI)
    fix u y assume "ss_owners ?n u = Some y"
    then consider "u = tk_id t" "y = x" | "ss_owners s u = Some y"
      by (cases "u = tk_id t") simp_all
    then show "\<exists>l t. ss_sessions ?n y = Some l \<and> ss_heap ?n l = Some t \<and> tk_id t = u"
    proof cases
      case 1
      with t show ?thesis by auto
    next
      case 2
      with inv obtain m t' where "ss_sessions s y = Some m" "ss_heap s m = Some t'" "tk_id t' = u"
        unfolding sessions_inv_def owning_def by meson
      moreover from this free have "y \<noteq> x" by auto
      ultimately show ?thesis by auto
    qed
  qed
  ultimately show ?thesis
    using inv by (auto simp: sessions_inv_def watched_def pointing_def dom_update distinct_update)
qed

lemma inv_create:
  assumes inv: "sessions_inv s" and free: "ss_sessions s x = None" and new: "fresh l (tk_id t) s"
  shows "sessions_inv (snd (fst (create_session x now l t s rows)))"
proof -
  let ?s = "s\<lparr>ss_heap := (ss_heap s)(l \<mapsto> t)\<rparr>"
  have "ss_owners s (tk_id t) = None"
  proof (cases "ss_owners s (tk_id t)")
    case (Some y)
    with inv obtain m t' where "ss_heap s m = Some t'" "tk_id t' = tk_id t"
      unfolding sessions_inv_def owning_def by meson
    with new show ?thesis by (auto simp: fresh_def ran_def)
  qed
  with inv_register [OF inv_add [OF inv new, of t], of x l t now] free
  have "sessions_inv (?s\<lparr>ss_sessions := (ss_sessions s)(x \<mapsto> l), ss_owners := (ss_owners s)(tk_id t \<mapsto> x),
      ss_activity := AList.update x now (ss_activity s)\<rparr>)" by simp
  then have "sessions_inv (set_current_task x (Some l)
      (?s\<lparr>ss_sessions := (ss_sessions s)(x \<mapsto> l), ss_owners := (ss_owners s)(tk_id t \<mapsto> x),
        ss_activity := AList.update x now (ss_activity s)\<rparr>))"
    by (rule inv_current) simp
  then show ?thesis by (simp add: create_session_def touch_def)
qed

text \<open>A task an execution may record costs on: it is live, and no other execution manages it.\<close>

definition usable :: "'x \<Rightarrow> nat \<Rightarrow> 'x sessions \<Rightarrow> bool" where
  "usable x l s \<longleftrightarrow> ss_heap s l \<noteq> None \<and> live s l \<and> ss_current s x = Some l \<and>
     (\<forall>y. ss_sessions s y = Some l \<longrightarrow> y = x)"

lemma heap_frames [simp]:
  "ss_heap (touch x now s) = ss_heap s" "ss_heap (drop_session x l s) = ss_heap s"
  "ss_heap (set_current_task x v s) = ss_heap s" "ss_sessions (touch x now s) = ss_sessions s"
  "ss_current (touch x now s) = ss_current s" "ss_sessions (set_current_task x v s) = ss_sessions s"
  "ss_current (drop_session x l s) = ss_current s"
  "ss_current (set_current_task x v s) x = v"
  "ss_sessions (drop_session x l s) x = None" "ss_sessions (drop_session x l s) y =
     (if y = x then None else ss_sessions s y)"
  by (simp_all add: touch_def drop_session_def set_current_task_def)

lemma existing_used:
  assumes inv: "sessions_inv s" and ex: "existing_task x now s = Inl (l, s')"
  shows "sessions_inv s' \<and> usable x l s'"
proof -
  obtain e where e: "ss_current s x = Some e" using ex by (auto simp: existing_task_def split: option.splits)
  have hp: "ss_heap s e \<noteq> None"
    using inv e by (auto simp: sessions_inv_def pointing_def ran_def)
  show ?thesis
  proof (cases "ss_sessions s x = Some e \<and> live s e")
    case True
    with ex e have "l = e" "s' = touch x now s" by (simp_all add: existing_task_def)
    with True e hp inv owner_inj [OF inv] show ?thesis by (auto simp: usable_def inv_touch)
  next
    case False
    with ex e have l: "l = e" "s' = s" "ss_owners s (tk_id (task_at s e)) = None" "live s e"
      by (auto simp: existing_task_def split: if_splits)
    have "ss_sessions s y \<noteq> Some e" for y
    proof
      assume "ss_sessions s y = Some e"
      with inv obtain t where "ss_heap s e = Some t" "ss_owners s (tk_id t) = Some y"
        unfolding sessions_inv_def owned_def by meson
      with l(3) show False by simp
    qed
    with l e hp inv show ?thesis by (simp add: usable_def)
  qed
qed

lemma existing_left:
  assumes inv: "sessions_inv s" and ex: "existing_task x now s = Inr s'"
  shows "sessions_inv s' \<and> ss_heap s' = ss_heap s"
proof (cases "ss_current s x")
  case None
  with ex inv show ?thesis by (simp add: existing_task_def)
next
  case (Some e)
  have "s' = set_current_task x None (drop_session x e s) \<and> ss_sessions s x = Some e \<or>
      s' = set_current_task x None s"
    using ex Some by (auto simp: existing_task_def split: if_splits)
  then show ?thesis
    using inv by (auto intro!: inv_current inv_drop)
qed

lemma create_usable:
  assumes "fresh l (tk_id t) s" "tk_ended_at t = None" "sessions_inv s" "ss_sessions s x = None"
    and "create_session x now l t s rows = ((m, s'), rows')"
  shows "sessions_inv s' \<and> usable x m s'"
proof -
  have "sessions_inv s'" using inv_create [OF assms(3,4,1), of now rows] assms(5) by simp
  moreover have "ss_sessions s y \<noteq> Some l" for y
    using assms(1,3) unfolding sessions_inv_def owned_def fresh_def by fastforce
  ultimately show ?thesis
    using assms(2,5)
    by (auto simp: create_session_def usable_def set_current_task_def touch_def split: if_splits)
qed

lemma get_or_create_usable:
  assumes inv: "sessions_inv s" and new: "fresh l tid s"
    and res: "get_or_create_session x now l tid started ctx s rows = ((m, s'), rows')"
  shows "sessions_inv s' \<and> usable x m s'"
proof (cases "existing_task x now s")
  case (Inl r)
  with res existing_used [OF inv] show ?thesis by (cases r) (auto simp: get_or_create_session_def)
next
  case (Inr s1)
  let ?t = "create_auto_task ctx ''agent_session'' tid started"
  have t: "tk_id ?t = tid" "tk_ended_at ?t = None"
    by (auto simp: create_auto_task_def new_task_def Let_def split: option.split)
  from existing_left [OF inv Inr] have s1: "sessions_inv s1" "ss_heap s1 = ss_heap s" by auto
  show ?thesis
  proof (cases "ss_sessions s1 x")
    case None
    have "fresh l (tk_id ?t) s1" using new by (simp add: fresh_def s1(2) t(1))
    from create_usable [OF this t(2) s1(1) None] res Inr None show ?thesis
      by (simp add: get_or_create_session_def)
  next
    case (Some k)
    show ?thesis
    proof (cases "live s1 k")
      case True
      with res Inr Some have m: "m = k" "s' = set_current_task x (Some k) (touch x now s1)"
        by (auto simp: get_or_create_session_def Let_def)
      from s1(1) Some have hk: "ss_heap s1 k \<noteq> None" unfolding sessions_inv_def owned_def by blast
      have "sessions_inv s'" unfolding m(2) by (rule inv_current [OF inv_touch [OF s1(1)]]) (use hk in simp)
      moreover have "y = x" if "ss_sessions s1 y = Some k" for y
        using owner_inj [OF s1(1) that Some] .
      ultimately show ?thesis using True hk by (simp add: usable_def m)
    next
      case False
      let ?d = "drop_session x k s1"
      have "fresh l (tk_id ?t) ?d" using new by (simp add: fresh_def s1(2) t(1))
      from create_usable [OF this t(2) inv_drop [OF s1(1) Some] heap_frames(9), of now rows m s' rows']
      show ?thesis using res Inr Some False by (simp add: get_or_create_session_def Let_def)
    qed
  qed
qed

lemma inv_unwatch:
  assumes "sessions_inv s" "ss_sessions s x = None"
  shows "sessions_inv (s\<lparr>ss_activity := AList.delete x (ss_activity s)\<rparr>)"
  using assms
  by (auto simp: sessions_inv_def inv_parts keys_delete delete_keys distinct_removeAll)

lemma finalize_one_inv:
  assumes "sessions_inv s" "finalize_one ended locked x (s, rows, fin) = (s', rows', fin')"
  shows "sessions_inv s'"
proof (cases "ss_sessions s x")
  case None
  with assms inv_unwatch [OF assms(1) None] show ?thesis by (simp add: finalize_one_def)
next
  case (Some l)
  let ?t = "(task_at s l)\<lparr>tk_status := ''success'', tk_ended_at := Some (ended x)\<rparr>"
  let ?h = "s\<lparr>ss_heap := (ss_heap s)(l \<mapsto> ?t)\<rparr>"
  have "sessions_inv ?h" by (rule inv_heap [OF assms(1)]) auto
  then have "sessions_inv (drop_session x l ?h)" by (rule inv_drop) (use Some in simp)
  with assms Some show ?thesis by (auto simp: finalize_one_def Let_def split: if_splits)
qed

lemma finalize_inv:
  "sessions_inv s \<Longrightarrow> sessions_inv (fst (fold (finalize_one ended locked) xs (s, rows, fin)))"
proof (induction xs arbitrary: s rows fin)
  case (Cons x xs)
  obtain s1 rows1 fin1 where one: "finalize_one ended locked x (s, rows, fin) = (s1, rows1, fin1)"
    by (metis surj_pair)
  with Cons.IH [OF finalize_one_inv [OF Cons.prems one]] show ?case by simp
qed simp

lemma sessions_reach_inv: "sessions_reach s \<Longrightarrow> sessions_inv s"
proof (induction rule: sessions_reach.induct)
  case sr_start
  show ?case by (rule sessions_inv_start)
next
  case (sr_use s l tid x now started ctx rows m s' rows')
  from get_or_create_usable [OF sr_use.IH sr_use.hyps(2,3)] show ?case by blast
next
  case (sr_finalize s now idle ended locked rows s' rows' fin)
  then show ?case
    using finalize_inv [of s ended locked "idle_executions now idle s" rows "[]"]
    by (simp add: finalize_idle_sessions_def)
next
  case (sr_spawn s y x)
  then have "case ss_current s x of None \<Rightarrow> True | Some m \<Rightarrow> ss_heap s m \<noteq> None"
    by (auto simp: sessions_inv_def pointing_def ran_def split: option.split)
  with sr_spawn.IH show ?case by (rule inv_current)
next
  case (sr_enter s l t x)
  then show ?case
    unfolding enter_task_def Let_def by (intro inv_current [OF inv_add]) auto
next
  case (sr_leave s l x)
  show ?case by (rule inv_current [OF sr_leave.IH sr_leave.hyps(2)])
next
  case (sr_finish s l t st d)
  show ?case by (rule inv_heap [OF sr_finish.IH]) (use sr_finish.hyps(2) in auto)
qed

section \<open>What finalization does\<close>

text \<open>A session whose write goes through is finished and no longer managed; the others stay.\<close>

definition finished_row :: "uuid \<Rightarrow> task vrow \<Rightarrow> bool" where
  "finished_row u r \<longleftrightarrow> (tk_id (body r) = u \<longrightarrow>
     status r = Pending \<and> tk_status (body r) = ''success'' \<and> tk_ended_at (body r) \<noteq> None)"

lemma finalize_other:
  assumes "finalize_one ended locked y (s, rows, fin) = (s', rows', fin')" "y \<noteq> x"
  shows "ss_sessions s' x = ss_sessions s x"
  using assms by (auto simp: finalize_one_def Let_def split: option.splits if_splits)

lemma finalize_rest:
  "x \<notin> set xs \<Longrightarrow>
     ss_sessions (fst (fold (finalize_one ended locked) xs (s, rows, fin))) x = ss_sessions s x"
proof (induction xs arbitrary: s rows fin)
  case (Cons y xs)
  obtain s1 rows1 fin1 where one: "finalize_one ended locked y (s, rows, fin) = (s1, rows1, fin1)"
    by (metis surj_pair)
  moreover have "ss_sessions s1 x = ss_sessions s x"
    by (rule finalize_other [OF one]) (use Cons.prems in auto)
  ultimately show ?case using Cons by simp
qed simp

lemma update_task_keeps_finished:
  "\<lbrakk>\<forall>r \<in> set rows. finished_row u r; tk_status t = ''success''; tk_ended_at t \<noteq> None\<rbrakk>
    \<Longrightarrow> \<forall>r \<in> set (update_task t rows). finished_row u r"
  by (auto simp: update_task_def update_where_def finished_row_def stored_task_def)

lemma finalize_keeps_finished:
  "\<forall>r \<in> set rows. finished_row u r \<Longrightarrow>
     \<forall>r \<in> set (fst (snd (fold (finalize_one ended locked) xs (s, rows, fin)))). finished_row u r"
proof (induction xs arbitrary: s rows fin)
  case (Cons y xs)
  obtain s1 rows1 fin1 where one: "finalize_one ended locked y (s, rows, fin) = (s1, rows1, fin1)"
    by (metis surj_pair)
  then have "\<forall>r \<in> set rows1. finished_row u r"
    using Cons.prems
    by (auto simp: finalize_one_def Let_def split: option.splits if_splits
        dest: update_task_keeps_finished [rule_format, rotated 3])
  with Cons.IH one show ?case by simp
qed simp

lemma finalize_other_task:
  assumes "sessions_inv s" "ss_sessions s x = Some l" "y \<noteq> x"
    and "finalize_one ended locked y (s, rows, fin) = (s', rows', fin')"
  shows "ss_heap s' l = ss_heap s l"
proof -
  have "ss_sessions s y \<noteq> Some l" using owner_inj [OF assms(1,2)] assms(3) by blast
  with assms(4) show ?thesis
    by (auto simp: finalize_one_def Let_def split: option.splits if_splits)
qed

lemma finalize_prefix:
  assumes "sessions_inv s" "ss_sessions s x = Some l" "x \<notin> set xs"
    and "fold (finalize_one ended locked) xs (s, rows, fin) = (s', rows', fin')"
  shows "sessions_inv s' \<and> ss_sessions s' x = Some l \<and> ss_heap s' l = ss_heap s l"
  using assms
proof (induction xs arbitrary: s rows fin)
  case (Cons y xs)
  obtain s1 rows1 fin1 where one: "finalize_one ended locked y (s, rows, fin) = (s1, rows1, fin1)"
    by (metis surj_pair)
  from Cons.prems have y: "y \<noteq> x" "x \<notin> set xs" by auto
  have "ss_sessions s1 x = Some l" using finalize_other [OF one y(1)] Cons.prems(2) by simp
  from Cons.IH [OF finalize_one_inv [OF Cons.prems(1) one] this y(2)] one Cons.prems(4)
    finalize_other_task [OF Cons.prems(1,2) y(1) one]
  show ?case by simp
qed simp

lemma finalize_this:
  assumes "ss_sessions s x = Some l" "ss_heap s l = Some t" "\<not> locked (tk_id t)"
    and "finalize_one ended locked x (s, rows, fin) = (s', rows', fin')"
  shows "ss_sessions s' x = None \<and> (\<forall>r \<in> set rows'. finished_row (tk_id t) r)"
  using assms
  by (auto simp: finalize_one_def Let_def update_task_def update_where_def finished_row_def
      stored_task_def)

section \<open>Properties\<close>

text \<open>C31. Whatever executions do and whenever the sync thread finalizes sessions, a call outside an
  explicit task gets a task that is still running, that its context variable names, and that no
  other execution's session manager entry holds: two executions never share a live automatic
  session, and no cost is put on a finished task.\<close>

theorem session_is_usable:
  assumes "sessions_reach s" "fresh l tid s"
    and "get_or_create_session x now l tid started ctx s rows = ((m, s'), rows')"
  shows "usable x m s'"
  using get_or_create_usable [OF sessions_reach_inv [OF assms(1)] assms(2,3)] by blast

theorem session_is_usable_witness:
  "usable (0::nat) 7 (snd (fst (get_or_create_session 0 5 7 (uuid_text 1) (sample_time 0) None no_sessions [])))"
proof -
  have "fresh 7 (uuid_text 1) (no_sessions :: nat sessions)" by (simp add: fresh_def no_sessions_def)
  moreover have "get_or_create_session (0::nat) 5 7 (uuid_text 1) (sample_time 0) None no_sessions [] =
      ((7, snd (fst (get_or_create_session 0 5 7 (uuid_text 1) (sample_time 0) None no_sessions []))),
       snd (get_or_create_session (0::nat) 5 7 (uuid_text 1) (sample_time 0) None no_sessions []))"
    by (simp add: get_or_create_session_def existing_task_def create_session_def no_sessions_def Let_def)
  ultimately show ?thesis by (rule session_is_usable [OF sr_start])
qed

text \<open>Finalizing idle sessions finishes every idle one whose write goes through: it leaves the
  manager, and its stored row, even if it had been uploaded before, is pending again with the
  final state. Sessions that are not idle stay managed.\<close>

lemma idle_session_finalized:
  assumes "sessions_reach s" "ss_sessions s x = Some l" "ss_heap s l = Some t" "\<not> locked (tk_id t)"
    and "(x, last_at) \<in> set (ss_activity s)" "idle \<le> now - last_at"
    and "finalize_idle_sessions now idle ended locked s rows = (s', rows', fin)"
  shows "ss_sessions s' x = None \<and> (\<forall>r \<in> set rows'. finished_row (tk_id t) r) \<and>
    (\<forall>y. y \<notin> set (idle_executions now idle s) \<longrightarrow> ss_sessions s' y = ss_sessions s y)"
proof -
  note inv = sessions_reach_inv [OF assms(1)]
  let ?xs = "idle_executions now idle s"
  have x: "x \<in> set ?xs" using assms(5,6) by (force simp: idle_executions_def)
  have "distinct ?xs"
    using inv by (simp add: sessions_inv_def watched_def idle_executions_def distinct_map_filter)
  with x obtain as bs where xs: "?xs = as @ x # bs" "x \<notin> set as" "x \<notin> set bs"
    by (metis distinct.simps(2) distinct_append split_list disjoint_insert(1) list.simps(15))
  obtain s1 rows1 fin1 where a: "fold (finalize_one ended locked) as (s, rows, []) = (s1, rows1, fin1)"
    by (metis surj_pair)
  obtain s2 rows2 fin2 where b: "finalize_one ended locked x (s1, rows1, fin1) = (s2, rows2, fin2)"
    by (metis surj_pair)
  from finalize_prefix [OF inv assms(2) xs(2) a] assms(3)
  have "ss_sessions s1 x = Some l" "ss_heap s1 l = Some t" by simp_all
  from finalize_this [OF this assms(4) b] have f: "ss_sessions s2 x = None"
      "\<forall>r \<in> set rows2. finished_row (tk_id t) r" by auto
  have c: "fold (finalize_one ended locked) bs (s2, rows2, fin2) = (s', rows', fin)"
    using assms(7) by (simp add: finalize_idle_sessions_def xs(1) a b)
  have "ss_sessions s' x = None"
    using finalize_rest [OF xs(3), of ended locked s2 rows2 fin2] c f(1) by simp
  moreover have "\<forall>r \<in> set rows'. finished_row (tk_id t) r"
    using finalize_keeps_finished [OF f(2), of ended locked bs s2 fin2] c by simp
  moreover have "ss_sessions s' y = ss_sessions s y" if "y \<notin> set ?xs" for y
    using finalize_rest [OF that, of ended locked s rows "[]"] assms(7)
    by (simp add: finalize_idle_sessions_def)
  ultimately show ?thesis by blast
qed

definition one_session :: "nat sessions" where
  "one_session = snd (fst (get_or_create_session 0 5 7 (uuid_text 1) (sample_time 0) None no_sessions []))"

lemma idle_session_finalized_witness:
  "ss_sessions (fst (finalize_idle_sessions 50 30 (\<lambda>x. sample_time 9) (\<lambda>u. False) one_session [])) 0 = None"
proof -
  have eq: "one_session = \<lparr>ss_heap = [7 \<mapsto> create_auto_task None ''agent_session'' (uuid_text 1) (sample_time 0)],
      ss_sessions = [0 \<mapsto> 7], ss_owners = [uuid_text 1 \<mapsto> 0], ss_activity = [(0, 5)], ss_current = [0 \<mapsto> 7]\<rparr>"
    by (simp add: one_session_def get_or_create_session_def existing_task_def create_session_def
        no_sessions_def Let_def touch_def set_current_task_def create_auto_task_def new_task_def)
  have reach: "sessions_reach one_session"
  proof (rule sr_use [OF sr_start])
    show "fresh 7 (uuid_text 1) (no_sessions :: nat sessions)" by (simp add: fresh_def no_sessions_def)
    show "get_or_create_session 0 5 7 (uuid_text 1) (sample_time 0) None no_sessions [] =
        ((fst (fst (get_or_create_session (0::nat) 5 7 (uuid_text 1) (sample_time 0) None no_sessions [])),
          one_session),
         snd (get_or_create_session (0::nat) 5 7 (uuid_text 1) (sample_time 0) None no_sessions []))"
      by (simp add: one_session_def)
  qed
  obtain s' rows' fin where fin: "finalize_idle_sessions 50 30 (\<lambda>x. sample_time 9) (\<lambda>u. False) one_session [] =
      (s', rows', fin)" by (metis surj_pair)
  from idle_session_finalized [OF reach, of 0 7 _ "\<lambda>u. False" 5 30 50 "\<lambda>x. sample_time 9" "[]"] fin
  show ?thesis by (simp add: eq)
qed

end
