(* ===== verification/Redaction.thy ===== *)
theory Redaction
  imports Python_Text
begin

text \<open>
  Privacy filters (\<open>redaction.py\<close>): removal of configured keys from dictionaries, hashing of
  identifiers, the size limit on free-form details, and the removal of credentials from
  captured URLs. SHA-256 is the argument \<open>sha256hex\<close>.
\<close>

section \<open>Dictionaries\<close>

primrec redact_value :: "string list \<Rightarrow> json \<Rightarrow> json" where
  "redact_value names JNull = JNull"
| "redact_value names (JBool b) = JBool b"
| "redact_value names (JInt i) = JInt i"
| "redact_value names (JStr s) = JStr s"
| "redact_value names (JArr xs) = JArr xs"
| "redact_value names (JObj kvs) =
     JObj (filter (\<lambda>(k, v). k \<notin> set names) (map (map_prod id (redact_value names)) kvs))"

definition redact_dict :: "obj \<Rightarrow> string list \<Rightarrow> obj" where
  "redact_dict d names =
     filter (\<lambda>(k, v). k \<notin> set names) (map (map_prod id (redact_value names)) d)"

text \<open>The keys at every level of nested dictionaries, not looking into lists, and all keys.\<close>

primrec dict_keys :: "json \<Rightarrow> string set" where
  "dict_keys JNull = {}"
| "dict_keys (JBool b) = {}"
| "dict_keys (JInt i) = {}"
| "dict_keys (JStr s) = {}"
| "dict_keys (JArr xs) = {}"
| "dict_keys (JObj kvs) = fst ` set kvs \<union> \<Union>(snd ` set (map (map_prod id dict_keys) kvs))"

primrec all_keys :: "json \<Rightarrow> string set" where
  "all_keys JNull = {}"
| "all_keys (JBool b) = {}"
| "all_keys (JInt i) = {}"
| "all_keys (JStr s) = {}"
| "all_keys (JArr xs) = \<Union>(set (map all_keys xs))"
| "all_keys (JObj kvs) = fst ` set kvs \<union> \<Union>(snd ` set (map (map_prod id all_keys) kvs))"

lemma redact_dict_value: "JObj (redact_dict d names) = redact_value names (JObj d)"
  by (simp add: redact_dict_def)

lemma redact_value_keys: "dict_keys (redact_value names v) = dict_keys (redact_value names v) - set names"
proof (induction v)
  case (JObj kvs)
  have "k \<notin> set names" if "k \<in> dict_keys (redact_value names w)" "(a, w) \<in> set kvs" for k a w
    using JObj that by (force simp: snds.simps)
  then show ?case by fastforce
qed simp_all

lemma redact_value_again: "redact_value names (redact_value names v) = redact_value names v"
proof (induction v)
  case (JObj kvs)
  have "redact_value names (redact_value names w) = redact_value names w" if "(a, w) \<in> set kvs" for a w
    using JObj that by (force simp: snds.simps)
  then have "map (map_prod id (redact_value names \<circ> redact_value names)) kvs =
      map (map_prod id (redact_value names)) kvs"
    by (auto intro!: map_cong)
  then show ?case
    by (simp add: filter_map comp_def map_prod_def case_prod_beta)
qed simp_all

section \<open>Identifiers\<close>

definition pii_keys :: "string list" where "pii_keys = [''customer_id'', ''project_id'']"

definition hash_keys :: "(string \<Rightarrow> string) \<Rightarrow> obj \<Rightarrow> obj" where
  "hash_keys sha256hex d =
     map (\<lambda>(k, v). (k, if k \<in> set pii_keys then (case v of JStr s \<Rightarrow> JStr (sha256hex s) | _ \<Rightarrow> v) else v)) d"

text \<open>\<open>_hash_pii\<close> of the worker: the dictionary itself and its \<open>details\<close> and \<open>metadata\<close>.\<close>

definition hash_pii :: "(string \<Rightarrow> string) \<Rightarrow> bool \<Rightarrow> obj \<Rightarrow> obj" where
  "hash_pii sha256hex enabled d =
     (if enabled
      then map (\<lambda>(k, v). (k, if k \<in> {''details'', ''metadata''}
                             then (case v of JObj kvs \<Rightarrow> JObj (hash_keys sha256hex kvs) | _ \<Rightarrow> v) else v))
             (hash_keys sha256hex d)
      else d)"

section \<open>Size\<close>

definition max_details_bytes :: nat where "max_details_bytes = 10240"

definition enforce_metadata_limit :: "obj \<Rightarrow> obj" where
  "enforce_metadata_limit details =
     (let byte_size = length (json_dumps (JObj details))
      in if byte_size \<le> max_details_bytes then details
         else [(''_truncated'', JBool True), (''_original_size_bytes'', JInt (int byte_size))])"

section \<open>URLs\<close>

definition lower_char :: "char \<Rightarrow> char" where
  "lower_char c = (let n = of_char c :: nat
     in if 65 \<le> n \<and> n \<le> 90 \<or> 192 \<le> n \<and> n \<le> 222 \<and> n \<noteq> 215 then char_of (n + 32) else c)"

definition py_lower :: "string \<Rightarrow> string" where "py_lower = map lower_char"

fun split_char :: "char \<Rightarrow> string \<Rightarrow> string list" where
  "split_char c [] = [[]]"
| "split_char c (x # xs) =
     (if x = c then [] # split_char c xs
      else (case split_char c xs of [] \<Rightarrow> [[x]] | p # ps \<Rightarrow> (x # p) # ps))"

definition sensitive_params :: "string list" where
  "sensitive_params =
     [''api_key'', ''apikey'', ''access_token'', ''token'', ''auth'', ''password'', ''secret'',
      ''signature'', ''x-amz-signature'', ''x-amz-credential'', ''x-amz-security-token'',
      ''session'', ''keyterm'', ''keywords'', ''custom_topic'', ''custom_intent'', ''search'',
      ''replace'', ''tag'', ''extra'', ''callback'']"

definition ends_with :: "string \<Rightarrow> string \<Rightarrow> bool" where
  "ends_with s suf \<longleftrightarrow> length suf \<le> length s \<and> drop (length s - length suf) s = suf"

definition sensitive :: "string \<Rightarrow> bool" where
  "sensitive name \<longleftrightarrow>
     (let l = py_lower name
      in l \<in> set sensitive_params \<or> ends_with l ''-signature'' \<or> ends_with l ''-credential'' \<or>
         ends_with l ''-security-token'')"

definition param_name :: "string \<Rightarrow> string" where
  "param_name part = takeWhile (\<lambda>c. c \<noteq> CHR ''='') part"

definition scrub_part :: "string \<Rightarrow> string" where
  "scrub_part part = (if sensitive (param_name part) then param_name part @ ''=REDACTED'' else part)"

text \<open>What \<open>(.+)$\<close> captures: no newline, but one at the very end is dropped.\<close>

definition dot_rest :: "string \<Rightarrow> string option" where
  "dot_rest s =
     (if s = [] then None
      else if CHR 0x0A \<notin> set s then Some s
      else if last s = CHR 0x0A \<and> CHR 0x0A \<notin> set (butlast s) \<and> butlast s \<noteq> [] then Some (butlast s)
      else None)"

text \<open>The regular expression \<open>^(https?://)([^@/?#]+@)?(.+)$\<close>: groups 1 and 3.\<close>

definition after_scheme :: "string \<Rightarrow> string option" where
  "after_scheme rest =
     (let u = takeWhile (\<lambda>c. c \<notin> set ''@/?#'') rest; r = dropWhile (\<lambda>c. c \<notin> set ''@/?#'') rest
      in if u \<noteq> [] \<and> r \<noteq> [] \<and> hd r = CHR ''@'' \<and> dot_rest (tl r) \<noteq> None then dot_rest (tl r)
         else dot_rest rest)"

definition strip_userinfo :: "string \<Rightarrow> string" where
  "strip_userinfo url =
     (if take 7 url = ''http://''
      then (case after_scheme (drop 7 url) of None \<Rightarrow> url | Some r \<Rightarrow> ''http://'' @ r)
      else if take 8 url = ''https://''
      then (case after_scheme (drop 8 url) of None \<Rightarrow> url | Some r \<Rightarrow> ''https://'' @ r)
      else url)"

definition before_char :: "char \<Rightarrow> string \<Rightarrow> string" where
  "before_char c s = takeWhile (\<lambda>x. x \<noteq> c) s"

definition from_char :: "char \<Rightarrow> string \<Rightarrow> string" where
  "from_char c s = dropWhile (\<lambda>x. x \<noteq> c) s"

definition scrub_url :: "string \<Rightarrow> string" where
  "scrub_url url0 =
     (if url0 = [] then url0
      else (let url = strip_userinfo url0; main = before_char CHR ''#'' url; fragment = from_char CHR ''#'' url
            in if CHR ''?'' \<notin> set main then main @ fragment
               else before_char CHR ''?'' main @ ''?'' @
                    join ''&'' (map scrub_part (split_char CHR ''&'' (tl (from_char CHR ''?'' main)))) @
                    fragment))"

text \<open>The query parameters of a URL, as \<open>scrub_url\<close> cuts them.\<close>

definition url_params :: "string \<Rightarrow> string list" where
  "url_params url =
     (let main = before_char CHR ''#'' url
      in if CHR ''?'' \<notin> set main then []
         else split_char CHR ''&'' (tl (from_char CHR ''?'' main)))"

lemma split_char_parts: "p \<in> set (split_char c s) \<Longrightarrow> c \<notin> set p \<and> set p \<subseteq> set s"
proof (induction s arbitrary: p)
  case (Cons x xs)
  show ?case
  proof (cases "x = c")
    case True
    with Cons.prems consider "p = []" | "p \<in> set (split_char c xs)" by auto
    then show ?thesis using Cons.IH by cases auto
  next
    case False
    show ?thesis
    proof (cases "split_char c xs")
      case Nil
      with False Cons.prems show ?thesis by simp
    next
      case parts: (Cons q qs)
      with False Cons.prems consider "p = x # q" | "p \<in> set (split_char c xs)" by auto
      then show ?thesis using Cons.IH [of q] Cons.IH [of p] parts False by cases auto
    qed
  qed
qed simp

lemma split_char_not_Nil [simp]: "split_char c s \<noteq> []"
  by (induction c s rule: split_char.induct) (auto split: list.splits)

lemma split_char_plain: "c \<notin> set s \<Longrightarrow> split_char c s = [s]"
  by (induction s) auto

lemma split_char_append: "c \<notin> set p \<Longrightarrow> split_char c (p @ c # s) = p # split_char c s"
  by (induction p) auto

lemma split_join:
  "\<lbrakk>ps \<noteq> []; \<forall>p \<in> set ps. c \<notin> set p\<rbrakk> \<Longrightarrow> split_char c (join [c] ps) = ps"
  by (induction "[c]" ps rule: join.induct) (simp_all add: split_char_plain split_char_append)

lemma set_join: "set (join [c] ps) \<subseteq> insert c (\<Union>(set ` set ps))"
  by (induction "[c]" ps rule: join.induct) auto

lemma set_scrub_part: "set (scrub_part p) \<subseteq> set p \<union> set ''=REDACTED''"
  by (auto simp: scrub_part_def param_name_def dest: set_takeWhileD)

lemma param_name_scrub: "param_name (scrub_part p) = param_name p"
proof -
  have "takeWhile (\<lambda>c. c \<noteq> CHR ''='') (takeWhile (\<lambda>c. c \<noteq> CHR ''='') p @ ''=REDACTED'') =
      takeWhile (\<lambda>c. c \<noteq> CHR ''='') p"
    by (subst takeWhile_append2) (auto dest: set_takeWhileD)
  then show ?thesis by (simp add: scrub_part_def param_name_def)
qed

lemma before_char_append: "c \<notin> set s \<Longrightarrow> before_char c (s @ t) = s @ before_char c t"
  unfolding before_char_def by (induction s) auto

lemma before_char_not_in: "c \<notin> set (before_char c s)"
  by (auto simp: before_char_def dest: set_takeWhileD)

lemma before_from: "before_char c (from_char c s) = []"
  unfolding before_char_def from_char_def by (induction s) auto

lemma query_parts:
  assumes "p \<in> set (split_char CHR ''&'' (tl (from_char CHR ''?'' main)))"
  shows "set p \<subseteq> set main"
proof -
  have "set (tl xs) \<subseteq> set xs" for xs :: string by (cases xs) auto
  moreover have "set (from_char CHR ''?'' main) \<subseteq> set main"
    by (auto simp: from_char_def dest: set_dropWhileD)
  ultimately show ?thesis using split_char_parts [OF assms] by blast
qed

lemma scrubbed_query_no_hash:
  assumes "CHR ''#'' \<notin> set main"
  shows "CHR ''#'' \<notin> set (before_char CHR ''?'' main @ ''?'' @
    join ''&'' (map scrub_part (split_char CHR ''&'' (tl (from_char CHR ''?'' main)))))"
    (is "_ \<notin> set (_ @ _ @ join _ (map _ ?ps))")
proof -
  have "CHR ''#'' \<notin> set (join ''&'' (map scrub_part ?ps))"
  proof
    assume "CHR ''#'' \<in> set (join ''&'' (map scrub_part ?ps))"
    then obtain p where "p \<in> set ?ps" "CHR ''#'' \<in> set (scrub_part p)"
      using set_join [of "CHR ''&''" "map scrub_part ?ps"] by auto
    with query_parts [of p main] set_scrub_part [of p] assms show False by auto
  qed
  moreover have "CHR ''#'' \<notin> set (before_char CHR ''?'' main)"
    using assms by (auto simp: before_char_def dest: set_takeWhileD)
  ultimately show ?thesis by simp
qed

lemma split_scrubbed:
  "split_char CHR ''&'' (join ''&'' (map scrub_part (split_char CHR ''&'' s))) =
     map scrub_part (split_char CHR ''&'' s)"
proof (rule split_join)
  have "CHR ''&'' \<notin> set (scrub_part p)" if "p \<in> set (split_char CHR ''&'' s)" for p
    using split_char_parts [OF that] set_scrub_part [of p] by auto
  then show "\<forall>p \<in> set (map scrub_part (split_char CHR ''&'' s)). CHR ''&'' \<notin> set p" by simp
qed simp

text \<open>Every parameter of a scrubbed URL was scrubbed.\<close>

lemma scrubbed_params: "set (url_params (scrub_url url)) \<subseteq> range scrub_part"
proof (cases "url = []")
  case True
  then show ?thesis by (simp add: scrub_url_def url_params_def before_char_def)
next
  case url: False
  let ?url = "strip_userinfo url"
  let ?main = "before_char CHR ''#'' ?url" and ?frag = "from_char CHR ''#'' ?url"
  let ?base = "before_char CHR ''?'' ?main" and ?ps = "split_char CHR ''&'' (tl (from_char CHR ''?'' ?main))"
  show ?thesis
  proof (cases "CHR ''?'' \<in> set ?main")
    case False
    then have "scrub_url url = ?main @ ?frag" using url by (simp add: scrub_url_def Let_def)
    then have "before_char CHR ''#'' (scrub_url url) = ?main"
      by (simp add: before_char_append before_char_not_in before_from)
    with False show ?thesis by (simp add: url_params_def)
  next
    case True
    let ?q = "join ''&'' (map scrub_part ?ps)"
    have r: "scrub_url url = (?base @ ''?'' @ ?q) @ ?frag" using True url by (simp add: scrub_url_def Let_def)
    have "before_char CHR ''#'' (scrub_url url) = ?base @ ''?'' @ ?q"
      unfolding r using scrubbed_query_no_hash [OF before_char_not_in] before_from
      by (metis append_Nil2 before_char_append)
    moreover have "from_char CHR ''?'' (?base @ ''?'' @ ?q) = ''?'' @ ?q"
      unfolding from_char_def using before_char_not_in [of "CHR ''?''" ?main]
      by (subst dropWhile_append2) auto
    ultimately have "url_params (scrub_url url) = map scrub_part ?ps"
      by (simp add: url_params_def split_scrubbed)
    then show ?thesis by auto
  qed
qed

section \<open>Properties\<close>

text \<open>Redaction removes every configured key at every level of nested dictionaries, and is
  idempotent.\<close>

lemma redaction_complete:
  "dict_keys (JObj (redact_dict d names)) \<inter> set names = {} \<and>
   redact_dict (redact_dict d names) names = redact_dict d names"
proof
  show "dict_keys (JObj (redact_dict d names)) \<inter> set names = {}"
    unfolding redact_dict_value using redact_value_keys [of names "JObj d"] by blast
  have "JObj (redact_dict (redact_dict d names) names) = JObj (redact_dict d names)"
    unfolding redact_dict_value by (rule redact_value_again)
  then show "redact_dict (redact_dict d names) names = redact_dict d names" by simp
qed

text \<open>Redaction does not look into lists: a configured key of a dictionary inside a list stays
  in the upload, although the documentation promises all nesting levels.\<close>

lemma redaction_skips_lists:
  "a \<noteq> k \<Longrightarrow> redact_dict [(a, JArr [JObj [(k, v)]])] [k] = [(a, JArr [JObj [(k, v)]])] \<and>
     k \<in> all_keys (JObj (redact_dict [(a, JArr [JObj [(k, v)]])] [k]))"
  by (simp add: redact_dict_def)

lemma redaction_skips_lists_witness:
  "''email'' \<in> all_keys (JObj (redact_dict [(''users'', JArr [JObj [(''email'', JNull)]])] [''email'']))"
  using redaction_skips_lists [of "''users''" "''email''" JNull] by simp

text \<open>No captured URL keeps the value of a sensitive query parameter: every parameter of a
  scrubbed URL whose name is sensitive, in any case, reads REDACTED.\<close>

lemma scrubbed_url_params:
  assumes "part \<in> set (url_params (scrub_url url))" "sensitive (param_name part)"
  shows "part = param_name part @ ''=REDACTED''"
proof -
  from assms(1) scrubbed_params obtain p where "part = scrub_part p" by blast
  with assms(2) show ?thesis
    using param_name_scrub [of p] by (auto simp: scrub_part_def split: if_splits)
qed

lemma scrubbed_url_params_witness:
  "''token=REDACTED'' = param_name ''token=REDACTED'' @ ''=REDACTED''"
proof -
  have "url_params (scrub_url ''https://u:p@h/a?q=1&token=x#f'') = [''q=1'', ''token=REDACTED'']"
    by (simp add: scrub_url_def url_params_def strip_userinfo_def after_scheme_def dot_rest_def
        before_char_def from_char_def scrub_part_def param_name_def sensitive_def sensitive_params_def
        py_lower_def lower_char_def ends_with_def)
  moreover have "sensitive (param_name ''token=REDACTED'')"
    by (simp add: param_name_def sensitive_def sensitive_params_def py_lower_def lower_char_def)
  ultimately show ?thesis
    using scrubbed_url_params [of "''token=REDACTED''" "''https://u:p@h/a?q=1&token=x#f''"] by simp
qed

text \<open>An unescaped at sign in a password ends the user information early: the rest of the
  password stays.\<close>

lemma scrub_keeps_password_tail:
  "scrub_url ''https://u:p@ss@h'' = ''https://ss@h''"
  by (simp add: scrub_url_def strip_userinfo_def after_scheme_def dot_rest_def before_char_def
      from_char_def)

end
