(* ===== verification/Task_Upload.thy ===== *)
theory Task_Upload
  imports Sessions Redaction
begin

text \<open>
  Tasks from their construction to their upload: \<open>_build_task\<close> of the tracker with its
  hierarchy and identity rules, the task types the SDK makes up, the two wire forms of a task
  (\<open>attribution/convert.py\<close>), and the privacy filters the worker applies to them
  (\<open>sync.py\<close>).
\<close>

section \<open>Construction\<close>

definition canonical_char :: "char \<Rightarrow> bool" where
  "canonical_char c \<longleftrightarrow> is_lower_alnum c \<or> c \<in> set ''._-''"

text \<open>\<open>re.sub("[^a-z0-9._-]+", "_", s)\<close>: a run of other characters becomes one underscore.\<close>

fun squash :: "bool \<Rightarrow> string \<Rightarrow> string" where
  "squash run [] = []"
| "squash run (c # cs) =
     (if canonical_char c then c # squash False cs
      else if run then squash True cs
      else CHR ''_'' # squash True cs)"

text \<open>Of the characters that are left only the separators are not alphanumeric.\<close>

definition tool_task_type :: "string \<Rightarrow> string" where
  "tool_task_type tool_id =
     (let n = strip_set (set ''._-'') (squash False (py_lower (py_strip tool_id)));
          n' = (if n = [] \<or> \<not> is_lower_alnum (hd n) then ''unknown'' else n)
      in ''tool.'' @ take 122 n')"

definition coerce_task_uuid :: "string \<Rightarrow> string option \<Rightarrow> py_error + uuid option" where
  "coerce_task_uuid name v =
     (case v of
        None \<Rightarrow> Inr None
      | Some s \<Rightarrow> (case uuid_parse s of
                     Some u \<Rightarrow> Inr (Some u)
                   | None \<Rightarrow> Inl (ValueError (name @ '' must be a valid UUID''))))"

text \<open>The arguments of \<open>_build_task\<close>.\<close>

record task_args =
  ta_type :: string
  ta_metadata :: obj
  ta_task_id :: "string option"
  ta_root_id :: "string option"
  ta_parent_id :: "string option"
  ta_customer_id :: "string option"
  ta_project_id :: "string option"
  ta_user_id :: "string option"
  ta_product_id :: "string option"
  ta_experiment_id :: "string option"
  ta_variant :: "string option"
  ta_agent_id :: "string option"
  ta_agent_version :: "string option"
  ta_workflow_id :: "string option"
  ta_workflow_session_id :: "string option"

definition or_else :: "'a option \<Rightarrow> 'a option \<Rightarrow> 'a option" where
  "or_else a b = (case a of None \<Rightarrow> b | Some x \<Rightarrow> Some x)"

text \<open>What an in-process parent passes on: each pair as a whole.\<close>

definition inherit :: "task \<Rightarrow> task_args \<Rightarrow> task_args" where
  "inherit p a = a\<lparr>
     ta_customer_id := or_else (ta_customer_id a) (tk_customer_id p),
     ta_project_id := or_else (ta_project_id a) (tk_project_id p),
     ta_variant := (if ta_experiment_id a = None then tk_variant p else ta_variant a),
     ta_experiment_id := or_else (ta_experiment_id a) (tk_experiment_id p),
     ta_agent_version := (if ta_agent_id a = None then tk_agent_version p else ta_agent_version a),
     ta_agent_id := or_else (ta_agent_id a) (tk_agent_id p),
     ta_workflow_session_id :=
       (if ta_workflow_id a = None then tk_workflow_session_id p else ta_workflow_session_id a),
     ta_workflow_id := or_else (ta_workflow_id a) (tk_workflow_id p),
     ta_user_id := or_else (ta_user_id a) (tk_user_id p),
     ta_product_id := or_else (ta_product_id a) (tk_product_id p)\<rparr>"

definition args_identity :: "task_args \<Rightarrow> bool" where
  "args_identity a \<longleftrightarrow>
     list_ex text_truthy [ta_customer_id a, ta_project_id a, ta_user_id a, ta_product_id a,
       ta_experiment_id a, ta_variant a, ta_agent_id a, ta_workflow_id a]"

definition args_texts :: "task_args \<Rightarrow> (string \<times> string option) list" where
  "args_texts a =
     [(''customer_id'', ta_customer_id a), (''project_id'', ta_project_id a),
      (''user_id'', ta_user_id a), (''product_id'', ta_product_id a),
      (''experiment_id'', ta_experiment_id a), (''variant'', ta_variant a),
      (''agent_id'', ta_agent_id a), (''agent_version'', ta_agent_version a),
      (''workflow_id'', ta_workflow_id a), (''workflow_session_id'', ta_workflow_session_id a)]"

definition pair_checks :: "task_args \<Rightarrow> (bool \<times> py_error) list" where
  "pair_checks a =
     [((ta_agent_id a = None) \<noteq> (ta_agent_version a = None),
       ValueError ''agent_id and agent_version must be supplied together''),
      (ta_workflow_session_id a \<noteq> None \<and> ta_workflow_id a = None,
       ValueError ''workflow_session_id requires workflow_id'')]"

definition identity_rules ::
  "task_args \<Rightarrow> uuid \<Rightarrow> uuid \<Rightarrow> uuid option \<Rightarrow> (bool \<times> py_error) list" where
  "identity_rules a tid rid parent =
     [(\<not> canonical_name (ta_type a),
       ValueError ''business-attributed task_type must be a canonical identifier''),
      (ta_variant a \<noteq> None \<and> ta_experiment_id a = None, ValueError ''variant requires experiment_id'')] @
     map (\<lambda>(name, v). (bad_text v, ValueError (name @ '' must contain between 1 and 256 characters'')))
       (args_texts a) @
     [(parent = None \<and> rid \<noteq> tid, ValueError ''a root task must use its own task_id as root_task_id''),
      (parent \<noteq> None \<and> (parent = Some tid \<or> rid = tid),
       ValueError ''a child task cannot be its own root or parent'')]"

definition task_of_args :: "task_args \<Rightarrow> uuid \<Rightarrow> uuid option \<Rightarrow> uuid option \<Rightarrow> dt \<Rightarrow> task" where
  "task_of_args a tid rid parent now =
     (new_task tid now)\<lparr>tk_type := ta_type a, tk_metadata := ta_metadata a,
       tk_customer_id := ta_customer_id a, tk_project_id := ta_project_id a,
       tk_parent_id := parent, tk_root_id := rid, tk_agent_id := ta_agent_id a,
       tk_agent_version := ta_agent_version a, tk_workflow_id := ta_workflow_id a,
       tk_workflow_session_id := ta_workflow_session_id a, tk_user_id := ta_user_id a,
       tk_product_id := ta_product_id a, tk_experiment_id := ta_experiment_id a,
       tk_variant := ta_variant a\<rparr>"

text \<open>A parent is inherited from only when the caller names none.\<close>

definition task_scope ::
  "task option \<Rightarrow> uuid option \<Rightarrow> uuid option \<Rightarrow> task_args \<Rightarrow> uuid option \<times> uuid option \<times> task_args" where
  "task_scope current root0 parent0 a =
     (case current of
        Some p \<Rightarrow> if parent0 = None then (Some (tk_id p), or_else root0 (tk_root_id p), inherit p a)
                  else (parent0, root0, a)
      | None \<Rightarrow> (parent0, root0, a))"

definition checked_task ::
  "dt \<Rightarrow> bool \<Rightarrow> uuid \<Rightarrow> uuid option \<Rightarrow> uuid option \<Rightarrow> task_args \<Rightarrow> py_error + task" where
  "checked_task now outermost tid parent root1 a =
     (case first_error (pair_checks a) of
        Some e \<Rightarrow> Inl e
      | None \<Rightarrow>
          (let rid = (if root1 = None \<and> outermost \<and> args_identity a then Some tid else root1)
           in case rid of
                None \<Rightarrow> Inr (task_of_args a tid None parent now)
              | Some r \<Rightarrow>
                  (case first_error (identity_rules a tid r parent) of
                     Some e \<Rightarrow> Inl e
                   | None \<Rightarrow> Inr (task_of_args a tid rid parent now))))"

text \<open>\<open>uuid4\<close> is the fresh id, \<open>current\<close> the active task.\<close>

definition build_task :: "uuid \<Rightarrow> dt \<Rightarrow> task option \<Rightarrow> task_args \<Rightarrow> py_error + task" where
  "build_task uuid4 now current a0 =
     (case coerce_task_uuid ''task_id'' (ta_task_id a0) of Inl e \<Rightarrow> Inl e | Inr tid0 \<Rightarrow>
      case coerce_task_uuid ''root_task_id'' (ta_root_id a0) of Inl e \<Rightarrow> Inl e | Inr root0 \<Rightarrow>
      case coerce_task_uuid ''parent_task_id'' (ta_parent_id a0) of Inl e \<Rightarrow> Inl e | Inr parent0 \<Rightarrow>
      (let (parent, root1, a) = task_scope current root0 parent0 a0
       in checked_task now (current = None) (case tid0 of None \<Rightarrow> uuid4 | Some u \<Rightarrow> u) parent root1 a))"

section \<open>Wire forms\<close>

definition to_task_ingest :: "task \<Rightarrow> obj" where
  "to_task_ingest t =
     [(''task_id'', JStr (tk_id t)), (''task_type'', JStr (tk_type t)), (''status'', JStr (tk_status t)),
      (''started_at'', JStr (iso_canonical (tk_started_at t))),
      (''ended_at'', opt_str (map_option iso_canonical (tk_ended_at t))),
      (''metadata'', JObj (tk_metadata t)), (''customer_id'', opt_str (tk_customer_id t)),
      (''project_id'', opt_str (tk_project_id t)), (''parent_task_id'', opt_str (tk_parent_id t)),
      (''experiment_id'', opt_str (tk_experiment_id t)), (''variant'', opt_str (tk_variant t)),
      (''schema_version'', JStr ''1'')]"

definition business_rules :: "task \<Rightarrow> uuid \<Rightarrow> (bool \<times> py_error) list" where
  "business_rules t rid =
     [(\<not> canonical_name (tk_type t),
       ValueError ''business-attributed task_type must be a canonical identifier''),
      (tk_variant t \<noteq> None \<and> tk_experiment_id t = None, ValueError ''variant requires experiment_id''),
      ((tk_agent_id t = None) \<noteq> (tk_agent_version t = None),
       ValueError ''agent_id and agent_version must be supplied together''),
      (tk_workflow_session_id t \<noteq> None \<and> tk_workflow_id t = None,
       ValueError ''workflow_session_id requires workflow_id''),
      (tk_parent_id t = None \<and> rid \<noteq> tk_id t, ValueError ''a root task must identify itself as root_task_id''),
      (tk_parent_id t \<noteq> None \<and> (rid = tk_id t \<or> tk_parent_id t = Some (tk_id t)),
       ValueError ''a child task cannot be its own root or parent'')]"

definition business_assignment :: "task \<Rightarrow> obj" where
  "business_assignment t =
     opt_item ''customer_id'' (tk_customer_id t) @ opt_item ''project_id'' (tk_project_id t) @
     opt_item ''user_id'' (tk_user_id t) @ opt_item ''product_id'' (tk_product_id t) @
     opt_item ''experiment_id'' (tk_experiment_id t) @ opt_item ''variant'' (tk_variant t)"

definition business_identity :: "task \<Rightarrow> py_error + obj option" where
  "business_identity t =
     (case tk_root_id t of
        None \<Rightarrow> Inr None
      | Some rid \<Rightarrow>
          (case first_error (business_rules t rid) of
             Some e \<Rightarrow> Inl e
           | None \<Rightarrow>
               Inr (Some
                 ([(''schema_version'', JStr ''1''), (''task_id'', JStr (tk_id t)), (''revision'', JInt 1),
                   (''effective_at'', JStr (iso_canonical (tk_started_at t))),
                   (''observed_at'', JStr (iso_canonical (tk_started_at t))),
                   (''identity_snapshot'', JStr ''full''),
                   (''task'', JObj ([(''task_type'', JStr (tk_type t)), (''root_task_id'', JStr rid)] @
                      opt_item ''parent_task_id'' (tk_parent_id t))),
                   (''assignment'', JObj (business_assignment t))] @
                  (case tk_workflow_id t of None \<Rightarrow> [] | Some w \<Rightarrow>
                     [(''workflow'', JObj ((''id'', JStr w) # opt_item ''session_id'' (tk_workflow_session_id t)))]) @
                  (case (tk_agent_id t, tk_agent_version t) of
                     (Some i, Some v) \<Rightarrow> [(''agent'', JObj [(''id'', JStr i), (''version'', JStr v)])]
                   | _ \<Rightarrow> [])))))"

section \<open>Privacy\<close>

record privacy =
  pv_redact :: "string list"
  pv_hash_ids :: bool

definition redact_metadata :: "string list \<Rightarrow> obj \<Rightarrow> obj" where
  "redact_metadata names d =
     (case dict_get d ''metadata'' of
        JObj kvs \<Rightarrow> if names \<noteq> [] \<and> kvs \<noteq> [] then dict_set d ''metadata'' (JObj (redact_dict kvs names)) else d
      | _ \<Rightarrow> d)"

definition limit_metadata :: "obj \<Rightarrow> obj" where
  "limit_metadata d =
     (case dict_get d ''metadata'' of
        JObj kvs \<Rightarrow> if kvs \<noteq> [] then dict_set d ''metadata'' (JObj (enforce_metadata_limit kvs)) else d
      | _ \<Rightarrow> d)"

definition prepare_task_dict :: "(string \<Rightarrow> string) \<Rightarrow> privacy \<Rightarrow> task \<Rightarrow> obj" where
  "prepare_task_dict sha256hex pv t =
     limit_metadata (hash_pii sha256hex (pv_hash_ids pv) (redact_metadata (pv_redact pv) (to_task_ingest t)))"

definition pop_in :: "string \<Rightarrow> string \<Rightarrow> obj \<Rightarrow> obj" where
  "pop_in k sub d = (case dict_get d k of JObj kvs \<Rightarrow> dict_set d k (JObj (dict_pop kvs sub)) | _ \<Rightarrow> d)"

text \<open>The redaction of an identity: its assignment, then the agent and the workflow.\<close>

definition redact_assignment :: "string list \<Rightarrow> obj \<Rightarrow> obj" where
  "redact_assignment names a =
     (let a' = filter (\<lambda>(k, v). k \<notin> set names) a
      in if dict_get a' ''experiment_id'' = JNull then dict_pop a' ''variant'' else a')"

definition redact_identity :: "string list \<Rightarrow> obj \<Rightarrow> obj" where
  "redact_identity names d =
     (let d1 = (if set names \<inter> {''agent'', ''agent_id'', ''id''} \<noteq> {} then dict_pop d ''agent''
                else if set names \<inter> {''agent_version'', ''version''} \<noteq> {} then pop_in ''agent'' ''version'' d
                else d)
      in if set names \<inter> {''workflow'', ''workflow_id'', ''id''} \<noteq> {} then dict_pop d1 ''workflow''
         else if set names \<inter> {''workflow_session_id'', ''session_id''} \<noteq> {}
         then pop_in ''workflow'' ''session_id'' d1 else d1)"

definition assignment_of :: "obj \<Rightarrow> obj" where
  "assignment_of d = (case dict_get d ''assignment'' of JObj a \<Rightarrow> a | _ \<Rightarrow> [])"

definition prepare_business_identity ::
  "(string \<Rightarrow> string) \<Rightarrow> privacy \<Rightarrow> task \<Rightarrow> py_error + obj option" where
  "prepare_business_identity sha256hex pv t =
     (if tk_ended_at t = None then Inr None
      else (case business_identity t of
              Inl e \<Rightarrow> Inl e
            | Inr None \<Rightarrow> Inr None
            | Inr (Some d) \<Rightarrow>
                (let d1 = (if pv_redact pv = [] then d
                           else redact_identity (pv_redact pv)
                             (dict_set d ''assignment'' (JObj (redact_assignment (pv_redact pv) (assignment_of d)))))
                 in Inr (Some (dict_set d1 ''assignment''
                      (JObj (hash_pii sha256hex (pv_hash_ids pv) (assignment_of d1))))))))"

section \<open>Facts\<close>

lemma is_lower_alnum_canonical: "is_lower_alnum c \<Longrightarrow> canonical_char c"
  by (simp add: canonical_char_def)

lemma squash_canonical: "list_all canonical_char (squash run s)"
  by (induction run s rule: squash.induct) (auto simp: canonical_char_def)

lemma strip_set_sub: "set (strip_set cs s) \<subseteq> set s"
  unfolding strip_set_def by (metis set_dropWhileD set_rev subsetI)

lemma canonical_name_iff:
  "canonical_name (c # cs) \<longleftrightarrow> is_lower_alnum c \<and> length cs \<le> 127 \<and> list_all canonical_char cs"
  by (simp add: canonical_char_def list_all_iff)

lemma tool_task_type_canonical_aux: "canonical_name (tool_task_type tool_id)"
proof -
  define n where "n = strip_set (set ''._-'') (squash False (py_lower (py_strip tool_id)))"
  define n' where "n' = (if n = [] \<or> \<not> is_lower_alnum (hd n) then ''unknown'' else n)"
  have eq: "tool_task_type tool_id = ''tool.'' @ take 122 n'"
    by (simp add: tool_task_type_def n_def n'_def Let_def)
  have "list_all canonical_char n"
    using squash_canonical [of False "py_lower (py_strip tool_id)"]
      strip_set_sub [of "set ''._-''" "squash False (py_lower (py_strip tool_id))"]
    unfolding n_def list_all_iff by blast
  then have "list_all canonical_char n'"
    by (simp add: n'_def canonical_char_def is_lower_alnum_def)
  then have "list_all canonical_char (take 122 n')"
    by (auto simp: list_all_iff dest: in_set_takeD)
  then show ?thesis
    unfolding eq append.simps canonical_name_iff
    by (simp add: canonical_char_def is_lower_alnum_def)
qed

text \<open>The rules of the wire form follow from those of the construction.\<close>

lemma built_task_rules:
  assumes "first_error (pair_checks a) = None" "first_error (identity_rules a tid r parent) = None"
  shows "first_error (business_rules (task_of_args a tid (Some r) parent now) r) = None"
  using assms
  unfolding first_error_None pair_checks_def identity_rules_def business_rules_def task_of_args_def
    new_task_def
  by simp blast

lemma build_task_checked:
  assumes "build_task uuid4 now current a0 = Inr t"
  shows "\<exists>outermost tid parent root1 a. checked_task now outermost tid parent root1 a = Inr t"
  using assms unfolding build_task_def
  by (auto simp: Let_def split: sum.splits prod.splits) blast

lemma checked_task_identity:
  assumes "checked_task now outermost tid parent root1 a = Inr t"
  shows "\<exists>d. business_identity t = Inr d \<and> (d \<noteq> None \<longleftrightarrow> tk_root_id t \<noteq> None)"
proof -
  from assms have pairs: "first_error (pair_checks a) = None"
    by (auto simp: checked_task_def split: option.splits)
  define rid where "rid = (if root1 = None \<and> outermost \<and> args_identity a then Some tid else root1)"
  show ?thesis
  proof (cases rid)
    case None
    with assms pairs have "t = task_of_args a tid None parent now"
      by (simp add: checked_task_def rid_def [symmetric])
    then show ?thesis by (simp add: business_identity_def task_of_args_def)
  next
    case (Some r)
    with assms pairs have t: "t = task_of_args a tid (Some r) parent now"
        "first_error (identity_rules a tid r parent) = None"
      by (auto simp: checked_task_def rid_def [symmetric] split: option.splits)
    have "tk_root_id t = Some r" by (simp add: t(1) task_of_args_def)
    moreover have "first_error (business_rules t r) = None"
      unfolding t(1) by (rule built_task_rules [OF pairs t(2)])
    ultimately show ?thesis by (simp add: business_identity_def)
  qed
qed

lemma auto_task_identity_aux:
  assumes "canonical_name ty" "set_context c = Inr c'"
  shows "\<exists>d. business_identity (create_auto_task (Some c') ty tid now) = Inr d"
proof -
  let ?t = "create_auto_task (Some c') ty tid now"
  have c: "c' = c" "(cx_agent c = None) = (cx_agent_version c = None)"
      "cx_workflow_session_id c = None \<or> cx_workflow_id c \<noteq> None"
    using assms(2) by (auto simp: set_context_def first_error_None split: option.splits if_splits)
  have "first_error (business_rules ?t tid) = None"
    unfolding first_error_None using assms(1) c
    by (auto simp: business_rules_def create_auto_task_def new_task_def)
  moreover have "tk_root_id ?t \<in> {None, Some tid}"
    by (simp add: create_auto_task_def new_task_def)
  ultimately show ?thesis by (auto simp: business_identity_def)
qed

text \<open>The metadata of the uploaded task.\<close>

definition sent_metadata :: "(string \<Rightarrow> string) \<Rightarrow> privacy \<Rightarrow> obj \<Rightarrow> obj" where
  "sent_metadata sha256hex pv m =
     (let m1 = (if pv_redact pv \<noteq> [] \<and> m \<noteq> [] then redact_dict m (pv_redact pv) else m);
          m2 = (if pv_hash_ids pv then hash_keys sha256hex m1 else m1)
      in if m2 \<noteq> [] then enforce_metadata_limit m2 else m2)"

lemma hash_keys_map_of:
  "map_of (hash_keys h d) k =
     map_option (\<lambda>v. if k \<in> set pii_keys then (case v of JStr s \<Rightarrow> JStr (h s) | _ \<Rightarrow> v) else v) (map_of d k)"
  by (induction d) (auto simp: hash_keys_def split: json.split)

lemma hash_keys_get:
  "dict_get (hash_keys h d) k =
     (if k \<in> set pii_keys then (case dict_get d k of JStr s \<Rightarrow> JStr (h s) | v \<Rightarrow> v) else dict_get d k)"
  by (simp add: dict_get_def hash_keys_map_of split: option.split json.split)

lemma map_of_map_values: "map_of (map (\<lambda>(k, v). (k, f k v)) d) k = map_option (f k) (map_of d k)"
  by (induction d) auto

lemma hash_pii_get:
  "dict_get (hash_pii h enabled d) k =
     (if \<not> enabled then dict_get d k
      else if k \<in> {''details'', ''metadata''}
      then (case dict_get (hash_keys h d) k of JObj kvs \<Rightarrow> JObj (hash_keys h kvs) | v \<Rightarrow> v)
      else dict_get (hash_keys h d) k)"
  by (simp add: hash_pii_def dict_get_def map_of_map_values split: option.split json.split)

lemma ingest_get:
  "dict_get (to_task_ingest t) ''customer_id'' = opt_str (tk_customer_id t)"
  "dict_get (to_task_ingest t) ''project_id'' = opt_str (tk_project_id t)"
  "dict_get (to_task_ingest t) ''metadata'' = JObj (tk_metadata t)"
  by (simp_all add: to_task_ingest_def dict_get_def)

lemma redact_metadata_get:
  "dict_get (redact_metadata names (to_task_ingest t)) k =
     (if k = ''metadata'' then JObj (if names \<noteq> [] \<and> tk_metadata t \<noteq> []
        then redact_dict (tk_metadata t) names else tk_metadata t)
      else dict_get (to_task_ingest t) k)"
  by (simp add: redact_metadata_def ingest_get dict_get_set)

lemma limit_metadata_get:
  "dict_get (limit_metadata d) k =
     (case dict_get d ''metadata'' of
        JObj kvs \<Rightarrow> if k = ''metadata'' \<and> kvs \<noteq> [] then JObj (enforce_metadata_limit kvs) else dict_get d k
      | _ \<Rightarrow> dict_get d k)"
  by (simp add: limit_metadata_def dict_get_set split: json.split)

lemma prepared_fields:
  "dict_get (prepare_task_dict sha256hex pv t) ''customer_id'' =
     opt_str (map_option (if pv_hash_ids pv then sha256hex else id) (tk_customer_id t))"
  "dict_get (prepare_task_dict sha256hex pv t) ''project_id'' =
     opt_str (map_option (if pv_hash_ids pv then sha256hex else id) (tk_project_id t))"
  "dict_get (prepare_task_dict sha256hex pv t) ''metadata'' =
     JObj (sent_metadata sha256hex pv (tk_metadata t))"
  unfolding prepare_task_dict_def limit_metadata_get hash_pii_get hash_keys_get redact_metadata_get
    sent_metadata_def
  by (simp_all add: ingest_get pii_keys_def opt_str_def Let_def split: option.split)

lemma dict_keys_hash: "dict_keys (JObj (hash_keys h d)) = dict_keys (JObj d)"
proof -
  have "dict_keys (if k \<in> set pii_keys then case v of JStr s \<Rightarrow> JStr (h s) | _ \<Rightarrow> v else v) = dict_keys v"
    for k v by (cases v) auto
  then show ?thesis by (force simp: hash_keys_def image_iff)
qed

definition truncation_stub :: "obj \<Rightarrow> bool" where
  "truncation_stub m \<longleftrightarrow> (\<exists>n. m = [(''_truncated'', JBool True), (''_original_size_bytes'', JInt n)])"

lemma sent_metadata_limited:
  assumes "m = (if m2 \<noteq> [] then enforce_metadata_limit m2 else m2)"
  shows "m = m2 \<and> length (json_dumps (JObj m2)) \<le> 10240 \<or> truncation_stub m"
proof (cases "m2 = []")
  case True
  with assms show ?thesis by (simp add: json_dumps_def)
next
  case False
  then have "m = enforce_metadata_limit m2" using assms by simp
  then show ?thesis
    by (cases "length (json_dumps (JObj m2)) \<le> 10240")
      (simp_all add: enforce_metadata_limit_def max_details_bytes_def Let_def truncation_stub_def)
qed

lemma redacted_keys:
  assumes "m1 = (if names \<noteq> [] \<and> m \<noteq> [] then redact_dict m names else m)"
  shows "dict_keys (JObj m1) \<inter> set names = {}"
proof (cases "names \<noteq> [] \<and> m \<noteq> []")
  case True
  then have "JObj m1 = redact_value names (JObj m)"
    unfolding assms redact_dict_value [symmetric] by simp
  then show ?thesis
    using redact_value_keys [of names "JObj m"] by (metis Diff_disjoint inf_commute)
next
  case False
  then have "names = [] \<or> m1 = []" using assms by auto
  then show ?thesis by auto
qed

section \<open>Properties\<close>

text \<open>Every task the tracker builds can be uploaded: whatever the caller passes and whatever task
  is active, \<open>_build_task\<close> either raises at once or gives a task whose business identity is
  produced without an exception, and it is produced exactly when the task has a root.\<close>

lemma built_task_has_identity:
  assumes "build_task uuid4 now current a = Inr t"
  shows "\<exists>d. business_identity t = Inr d \<and> (d \<noteq> None \<longleftrightarrow> tk_root_id t \<noteq> None)"
proof -
  obtain outermost tid parent root1 a' where "checked_task now outermost tid parent root1 a' = Inr t"
    using build_task_checked [OF assms] by (elim exE)
  then show ?thesis by (rule checked_task_identity)
qed

definition sample_args :: task_args where
  "sample_args = \<lparr>ta_type = ''chat'', ta_metadata = [], ta_task_id = None, ta_root_id = None,
     ta_parent_id = None, ta_customer_id = Some ''acme'', ta_project_id = None, ta_user_id = None,
     ta_product_id = None, ta_experiment_id = None, ta_variant = None, ta_agent_id = None,
     ta_agent_version = None, ta_workflow_id = None, ta_workflow_session_id = None\<rparr>"

lemma sample_built:
  "build_task (uuid_text 1) (sample_time 0) None sample_args =
     Inr (task_of_args sample_args (uuid_text 1) (Some (uuid_text 1)) None (sample_time 0))"
proof -
  have texts: "\<not> bad_text (Some ''acme'')" by (simp add: bad_text_def py_strip_def is_space_def)
  have "first_error (pair_checks sample_args) = None" by (simp add: pair_checks_def sample_args_def)
  moreover have "first_error (identity_rules sample_args u u None) = None" for u
    unfolding first_error_None using texts
    by (simp add: identity_rules_def args_texts_def sample_args_def is_lower_alnum_def bad_text_def [of None])
  moreover have "args_identity sample_args"
    by (simp add: args_identity_def sample_args_def text_truthy_def)
  ultimately have "checked_task now True u None None sample_args =
      Inr (task_of_args sample_args u (Some u) None now)" for u now
    by (simp add: checked_task_def)
  moreover have "ta_task_id sample_args = None" "ta_root_id sample_args = None" "ta_parent_id sample_args = None"
    by (simp_all add: sample_args_def)
  ultimately show ?thesis by (simp add: build_task_def coerce_task_uuid_def task_scope_def)
qed

lemma built_task_has_identity_witness:
  "\<exists>d. business_identity (task_of_args sample_args (uuid_text 1) (Some (uuid_text 1)) None (sample_time 0)) =
     Inr (Some d)"
  using built_task_has_identity [OF sample_built] by (auto simp: task_of_args_def)

text \<open>The task type made up for a tool is always a canonical identifier, for every tool name, so
  with a validated context the automatic task of a tool call has an uploadable identity.\<close>

lemma tool_task_uploadable:
  assumes "set_context c = Inr c'"
  shows "canonical_name (tool_task_type tool_id) \<and>
    (\<exists>d. business_identity (create_auto_task (Some c') (tool_task_type tool_id) tid now) = Inr d)"
  using tool_task_type_canonical_aux auto_task_identity_aux [OF tool_task_type_canonical_aux assms] by blast

lemma tool_task_uploadable_witness:
  "canonical_name (tool_task_type ''Web Search!'')"
proof -
  have "set_context \<lparr>cx_customer_id = None, cx_project_id = None, cx_user_id = None, cx_product_id = None,
      cx_metadata = [], cx_agent = None, cx_agent_version = None, cx_workflow_id = None,
      cx_workflow_session_id = None\<rparr> = Inr \<lparr>cx_customer_id = None, cx_project_id = None,
      cx_user_id = None, cx_product_id = None, cx_metadata = [], cx_agent = None,
      cx_agent_version = None, cx_workflow_id = None, cx_workflow_session_id = None\<rparr>"
    by (simp add: set_context_def context_texts_def bad_text_def)
  from tool_task_uploadable [OF this] show ?thesis by blast
qed



end
