(* ===== verification/Sync_Worker.thy ===== *)
theory Sync_Worker
  imports Sync_Post Task_Upload
begin

text \<open>
  The upload worker (\<open>sync.py\<close>): the scan that collects a batch page by page, one
  synchronization cycle (\<open>_sync_batch\<close>) and one turn of the background loop (\<open>_run\<close>).

  The converter of events is the argument \<open>convert\<close> here, and the properties hold of every one;
  the cycle passes \<open>prepare_event_dict\<close>. An exception of the converter ends the scan. The
  application keeps writing while the worker scans: \<open>app n\<close> is what other threads commit to
  the event table before the n-th query of a scan.
\<close>

definition initial_backoff :: nat where "initial_backoff = 1"
definition max_backoff :: nat where "max_backoff = 300"
definition purge_interval :: int where "purge_interval = 3600"
definition max_conversion_scan :: int where "max_conversion_scan = 1000"
definition conversion_scan_multiplier :: int where "conversion_scan_multiplier = 10"
definition auto_session_idle :: int where "auto_session_idle = 30"

section \<open>Scanning for events\<close>

text \<open>\<open>sc_taken\<close> is for the properties only: the snapshots behind \<open>sc_dicts\<close>.\<close>

record scan =
  sc_dicts :: "obj list"
  sc_versions :: "uuid \<rightharpoonup> int"
  sc_failed :: "uuid list"
  sc_seen :: "uuid list"
  sc_scanned :: int
  sc_error :: "py_error option"
  sc_taken :: "(event \<times> int) list"

definition empty_scan :: scan where
  "empty_scan = \<lparr>sc_dicts = [], sc_versions = Map.empty, sc_failed = [], sc_seen = [],
     sc_scanned = 0, sc_error = None, sc_taken = []\<rparr>"

text \<open>One page: the ids that could not be converted, and how many events were new.\<close>

type_synonym converter = "event \<Rightarrow> py_error + obj option"

fun scan_page ::
  "converter \<Rightarrow> (event \<times> int) list \<Rightarrow> scan \<times> uuid list \<times> nat \<Rightarrow> scan \<times> uuid list \<times> nat" where
  "scan_page convert [] r = r"
| "scan_page convert ((e, v) # ds) (sc, bad, new) =
     (if ev_id e \<in> set (sc_seen sc) then scan_page convert ds (sc, bad, new)
      else (let sc1 = sc\<lparr>sc_seen := sc_seen sc @ [ev_id e], sc_scanned := sc_scanned sc + 1\<rparr>
            in case convert e of
                 Inl err \<Rightarrow> (sc\<lparr>sc_error := Some err\<rparr>, bad, new)
               | Inr None \<Rightarrow> scan_page convert ds (sc1, bad @ [ev_id e], new + 1)
               | Inr (Some d) \<Rightarrow> scan_page convert ds
                   (sc1\<lparr>sc_dicts := sc_dicts sc1 @ [d], sc_taken := sc_taken sc1 @ [(e, v)]\<rparr>, bad, new + 1)))"

definition note_versions :: "(event \<times> int) list \<Rightarrow> scan \<Rightarrow> scan" where
  "note_versions ds sc = sc\<lparr>sc_versions := sc_versions sc ++ map_of (rev (map (\<lambda>(e, v). (ev_id e, v)) ds))\<rparr>"

lemma scan_page_new:
  "snd (snd (scan_page convert ds (sc, bad, new))) \<ge> new \<and>
   sc_scanned (fst (scan_page convert ds (sc, bad, new))) =
     sc_scanned sc + int (snd (snd (scan_page convert ds (sc, bad, new))) - new)"
proof (induction convert ds "(sc, bad, new)" arbitrary: sc bad new rule: scan_page.induct)
  case (2 convert e v ds sc bad new)
  show ?case
  proof (cases "ev_id e \<in> set (sc_seen sc)")
    case True
    with 2(1) show ?thesis by simp
  next
    case False
    show ?thesis
    proof (cases "convert e")
      case (Inl err)
      with False show ?thesis by (simp add: Let_def)
    next
      case (Inr x)
      show ?thesis
      proof (cases x)
        case None
        with 2(2) [OF False refl Inr None] Inr False show ?thesis by (auto simp: of_nat_diff Let_def)
      next
        case (Some d)
        with 2(3) [OF False refl Inr Some] Inr False show ?thesis by (auto simp: of_nat_diff Let_def)
      qed
    qed
  qed
qed simp

lemma note_versions_scanned [simp]: "sc_scanned (note_versions ds sc) = sc_scanned sc"
  "sc_seen (note_versions ds sc) = sc_seen sc" "sc_dicts (note_versions ds sc) = sc_dicts sc"
  "sc_failed (note_versions ds sc) = sc_failed sc" "sc_taken (note_versions ds sc) = sc_taken sc"
  "sc_error (note_versions ds sc) = sc_error sc"
  by (simp_all add: note_versions_def)

lemma scan_page_progress:
  assumes "scan_page convert ds (sc, [], 0) = (sc2, bad, new)" "new \<noteq> 0"
  shows "sc_scanned sc < sc_scanned sc2"
  using scan_page_new [where convert = convert and ds = ds and sc = sc and bad = "[]" and new = 0] assms
  by simp

function scan_loop ::
  "converter \<Rightarrow> (nat \<Rightarrow> event_rows \<Rightarrow> event_rows) \<Rightarrow> int \<Rightarrow> int \<Rightarrow> nat \<Rightarrow> event_rows \<Rightarrow> scan \<Rightarrow>
     scan \<times> event_rows" where
  "scan_loop convert app batch limit k rows0 sc =
     (if int (length (sc_dicts sc)) < batch \<and> sc_scanned sc < limit
      then
        (let rows = app k rows0;
             page = min (batch - int (length (sc_dicts sc))) (limit - sc_scanned sc);
             ds = query_event_deliveries_for_sync rows page;
             sc1 = note_versions ds sc
         in if ds = [] then (sc1, rows)
            else (case scan_page convert ds (sc1, [], 0) of
                    (sc2, bad, new) \<Rightarrow>
                      if sc_error sc2 \<noteq> None then (sc2, rows)
                      else
                      (let rows' = (if bad = [] then rows
                                    else mark_event_snapshots_quarantined (Some (sc_versions sc2)) bad rows);
                           sc3 = sc2\<lparr>sc_failed := sc_failed sc2 @ bad\<rparr>
                       in if new = 0 \<or> int (length ds) < page then (sc3, rows')
                          else scan_loop convert app batch limit (k + 1) rows' sc3)))
      else (sc, rows0))"
  by pat_completeness auto

termination
  by (relation "measure (\<lambda>(convert, app, batch, limit, k, rows, sc). nat (limit - sc_scanned sc))")
    (auto dest!: scan_page_progress [OF sym])

declare scan_loop.simps [simp del]

definition scan_limit :: "int \<Rightarrow> int" where
  "scan_limit batch = max batch (min max_conversion_scan (batch * conversion_scan_multiplier))"

definition scan_events ::
  "converter \<Rightarrow> (nat \<Rightarrow> event_rows \<Rightarrow> event_rows) \<Rightarrow> int \<Rightarrow> event_rows \<Rightarrow> scan \<times> event_rows" where
  "scan_events convert app batch rows = scan_loop convert app batch (scan_limit batch) 0 rows empty_scan"

section \<open>What a scan gives\<close>

definition converted :: "converter \<Rightarrow> (event \<times> int) list \<Rightarrow> obj list" where
  "converted convert N = List.map_filter (\<lambda>(e, v). case convert e of Inl err \<Rightarrow> None | Inr x \<Rightarrow> x) N"

definition accepted :: "converter \<Rightarrow> (event \<times> int) list \<Rightarrow> (event \<times> int) list" where
  "accepted convert N = filter (\<lambda>(e, v). convert e \<noteq> Inr None) N"

definition refused :: "converter \<Rightarrow> (event \<times> int) list \<Rightarrow> uuid list" where
  "refused convert N = map (ev_id \<circ> fst) (filter (\<lambda>(e, v). convert e = Inr None) N)"

lemmas page_simps = converted_def accepted_def refused_def map_filter_simps

lemma converted_accepted:
  "\<forall>(e, v) \<in> set N. \<not> isl (convert e) \<Longrightarrow>
     map (Inr \<circ> Some) (converted convert N) = map (convert \<circ> fst) (accepted convert N)"
  by (induction N) (auto simp: page_simps isl_def split: sum.splits option.splits)

lemma scan_page_spec:
  "\<exists>N err. set N \<subseteq> set ds \<and> length N \<le> length ds \<and> (\<forall>(e, v) \<in> set N. \<not> isl (convert e)) \<and>
     (err \<noteq> None \<or> sc_error sc = err) \<and>
     scan_page convert ds (sc, bad, new) =
       (sc\<lparr>sc_dicts := sc_dicts sc @ converted convert N,
           sc_seen := sc_seen sc @ map (ev_id \<circ> fst) N,
           sc_scanned := sc_scanned sc + int (length N), sc_error := err,
           sc_taken := sc_taken sc @ accepted convert N\<rparr>,
        bad @ refused convert N, new + length N)"
proof (induction ds arbitrary: sc bad new)
  case Nil
  show ?case by (intro exI [of _ "[]"] exI [of _ "sc_error sc"]) (simp add: page_simps)
next
  case (Cons ev ds)
  obtain e v where ev: "ev = (e, v)" by force
  show ?case
  proof (cases "ev_id e \<in> set (sc_seen sc)")
    case True
    from Cons.IH [of sc bad new] show ?thesis
      unfolding ev by (elim ex_forward) (use True in auto)
  next
    case False
    let ?s = "sc\<lparr>sc_seen := sc_seen sc @ [ev_id e], sc_scanned := sc_scanned sc + 1\<rparr>"
    show ?thesis
    proof (cases "convert e")
      case (Inl err)
      with False show ?thesis
        unfolding ev by (intro exI [of _ "[]"] exI [of _ "Some err"]) (simp add: page_simps Let_def)
    next
      case (Inr x)
      define s2 bad2 where "s2 = (case x of None \<Rightarrow> ?s | Some d \<Rightarrow>
          ?s\<lparr>sc_dicts := sc_dicts ?s @ [d], sc_taken := sc_taken ?s @ [(e, v)]\<rparr>)"
        and "bad2 = (case x of None \<Rightarrow> bad @ [ev_id e] | Some d \<Rightarrow> bad)"
      have step: "scan_page convert (ev # ds) (sc, bad, new) = scan_page convert ds (s2, bad2, new + 1)"
        using False Inr by (simp add: ev s2_def bad2_def Let_def split: option.split)
      from Cons.IH [of s2 bad2 "new + 1"] obtain N err where N: "set N \<subseteq> set ds" "length N \<le> length ds"
          "\<forall>(e, v) \<in> set N. \<not> isl (convert e)" "err \<noteq> None \<or> sc_error s2 = err"
          "scan_page convert ds (s2, bad2, new + 1) =
           (s2\<lparr>sc_dicts := sc_dicts s2 @ converted convert N, sc_seen := sc_seen s2 @ map (ev_id \<circ> fst) N,
               sc_scanned := sc_scanned s2 + int (length N), sc_error := err,
               sc_taken := sc_taken s2 @ accepted convert N\<rparr>,
            bad2 @ refused convert N, new + 1 + length N)"
        by blast
      show ?thesis
        by (intro exI [of _ "(e, v) # N"] exI [of _ err], unfold step N(5))
          (use N(1-4) Inr in \<open>auto simp: ev s2_def bad2_def page_simps split: option.splits\<close>)
    qed
  qed
qed

lemma length_map_filter: "length (List.map_filter f xs) \<le> length xs"
  by (induction xs) (auto simp: map_filter_simps split: option.split)

lemma query_length: "0 \<le> n \<Longrightarrow> int (length (query_event_deliveries_for_sync rows n)) \<le> n"
  by (simp add: query_event_deliveries_for_sync_def sql_limit_def)

lemma query_rows:
  "(e, v) \<in> set (query_event_deliveries_for_sync rows n) \<Longrightarrow>
     \<exists>r \<in> set rows. status r = Pending \<and> body r = e \<and> version r = v"
  using set_sql_limit by (fastforce simp: query_event_deliveries_for_sync_def)

text \<open>While a scan is alone with the table: the table keeps its rows and only loses failed ones.\<close>

definition scan_ok :: "converter \<Rightarrow> event_rows \<Rightarrow> scan \<Rightarrow> event_rows \<Rightarrow> bool" where
  "scan_ok convert rows0 sc rows \<longleftrightarrow>
     map (Inr \<circ> Some) (sc_dicts sc) = map (convert \<circ> fst) (sc_taken sc) \<and>
     (\<forall>(e, v) \<in> set (sc_taken sc). ev_id e \<in> dom (sc_versions sc) \<and>
        (\<exists>r \<in> set rows0. status r = Pending \<and> body r = e \<and> version r = v)) \<and>
     (\<forall>u v. sc_versions sc u = Some v \<longrightarrow> (\<exists>r \<in> set rows0. ev_id (body r) = u \<and> version r = v)) \<and>
     (\<forall>u \<in> set (sc_failed sc).
        \<exists>r \<in> set rows0. status r = Pending \<and> ev_id (body r) = u \<and> convert (body r) = Inr None) \<and>
     rows = map (\<lambda>r. if status r = Pending \<and> ev_id (body r) \<in> set (sc_failed sc)
                     then r\<lparr>status := Quarantined\<rparr> else r) rows0"

lemma versions_of_rows:
  assumes "distinct (map (\<lambda>r. ev_id (body r)) rows)" "r \<in> set rows" "q \<in> set rows"
    "ev_id (body r) = ev_id (body q)"
  shows "r = q"
  using assms by (auto simp: distinct_map inj_on_def)

lemma note_versions_rows:
  assumes "sc_versions (note_versions ds sc) u = Some v"
  shows "sc_versions sc u = Some v \<or> (\<exists>e. (e, v) \<in> set ds \<and> ev_id e = u)"
  using assms by (auto simp: note_versions_def map_add_Some_iff dest!: map_of_SomeD)

lemma note_versions_dom:
  "dom (sc_versions (note_versions ds sc)) = dom (sc_versions sc) \<union> (ev_id \<circ> fst) ` set ds"
  by (auto simp: note_versions_def dom_map_of_conv_image_fst image_image case_prod_beta)

lemma scan_ok_page:
  assumes ok: "scan_ok convert rows0 sc rows" and d: "distinct (map (\<lambda>r. ev_id (body r)) rows0)"
    and ds: "ds = query_event_deliveries_for_sync rows n"
    and page: "scan_page convert ds (note_versions ds sc, [], 0) = (sc2, bad, new)"
  shows "scan_ok convert rows0 (sc2\<lparr>sc_failed := sc_failed sc2 @ bad\<rparr>)
    (if bad = [] then rows else mark_event_snapshots_quarantined (Some (sc_versions sc2)) bad rows) \<and>
    scan_ok convert rows0 sc2 rows"
proof -
  obtain N err where N: "set N \<subseteq> set ds" "\<forall>(e, v) \<in> set N. \<not> isl (convert e)" and res: "(sc2, bad, new) =
      ((note_versions ds sc)\<lparr>sc_dicts := sc_dicts sc @ converted convert N,
           sc_seen := sc_seen sc @ map (ev_id \<circ> fst) N, sc_scanned := sc_scanned sc + int (length N),
           sc_error := err, sc_taken := sc_taken sc @ accepted convert N\<rparr>,
        refused convert N, length N)"
    using scan_page_spec [of ds convert "note_versions ds sc" "[]" 0] page by auto
  have sub: "set (accepted convert N) \<subseteq> set N" "set bad \<subseteq> (ev_id \<circ> fst) ` set ds"
    using res N(1) by (auto simp: accepted_def refused_def)
  let ?f = "\<lambda>F r. if status r = Pending \<and> ev_id (body r) \<in> set F then r\<lparr>status := Quarantined\<rparr> else r"
  have rows: "rows = map (?f (sc_failed sc)) rows0" using ok by (simp add: scan_ok_def)
  have src: "\<exists>r \<in> set rows0. status r = Pending \<and> body r = e \<and> version r = v" if "(e, v) \<in> set ds" for e v
    using query_rows [OF that [unfolded ds]] unfolding rows by (auto split: if_splits)
  have vers: "\<exists>r \<in> set rows0. ev_id (body r) = u \<and> version r = v" if "sc_versions sc2 u = Some v" for u v
  proof -
    from that res note_versions_rows [of ds sc u v]
    have "sc_versions sc u = Some v \<or> (\<exists>e. (e, v) \<in> set ds \<and> ev_id e = u)" by simp
    then show ?thesis using ok src by (fastforce simp: scan_ok_def)
  qed
  have dom: "dom (sc_versions sc) \<subseteq> dom (sc_versions sc2)" "(ev_id \<circ> fst) ` set ds \<subseteq> dom (sc_versions sc2)"
    using res note_versions_dom [of ds sc] by auto
  have taken: "ev_id e \<in> dom (sc_versions sc2) \<and> (\<exists>r \<in> set rows0. status r = Pending \<and> body r = e \<and> version r = v)"
    if "(e, v) \<in> set (sc_taken sc2)" for e v
  proof -
    from that res sub(1) consider "(e, v) \<in> set (sc_taken sc)" | "(e, v) \<in> set N" by auto
    then show ?thesis
    proof cases
      case 1
      have "\<forall>(e, v) \<in> set (sc_taken sc). ev_id e \<in> dom (sc_versions sc) \<and>
          (\<exists>r \<in> set rows0. status r = Pending \<and> body r = e \<and> version r = v)"
        using ok unfolding scan_ok_def by (elim conjE)
      from bspec [OF this 1] have "ev_id e \<in> dom (sc_versions sc) \<and>
          (\<exists>r \<in> set rows0. status r = Pending \<and> body r = e \<and> version r = v)"
        by (simp only: prod.case)
      with dom(1) show ?thesis by blast
    next
      case 2
      with N(1) have "(e, v) \<in> set ds" by blast
      with src dom(2) show ?thesis by force
    qed
  qed
  have dicts: "map (Inr \<circ> Some) (sc_dicts sc2) = map (convert \<circ> fst) (sc_taken sc2)"
    using ok res converted_accepted [OF N(2)] by (simp add: scan_ok_def)
  have marked: "(if bad = [] then rows else mark_event_snapshots_quarantined (Some (sc_versions sc2)) bad rows) =
      map (?f (sc_failed sc @ bad)) rows0"
  proof -
    have one: "(if status q = Pending \<and> (ev_id (body q), version q) \<in> set (versioned (sc_versions sc2) bad)
          then q\<lparr>status := Quarantined\<rparr> else q) = ?f (sc_failed sc @ bad) r"
      if r: "r \<in> set rows0" and q: "q = ?f (sc_failed sc) r" for r q
    proof -
      have "sc_versions sc2 (ev_id (body r)) = Some (version r)" if "ev_id (body r) \<in> set bad"
      proof -
        from that sub(2) have "ev_id (body r) \<in> (ev_id \<circ> fst) ` set ds" by blast
        with dom(2) obtain v where v: "sc_versions sc2 (ev_id (body r)) = Some v" by blast
        from vers [OF v] obtain r' where "r' \<in> set rows0" "ev_id (body r') = ev_id (body r)" "version r' = v"
          by blast
        with versions_of_rows [OF d _ r] v show ?thesis by auto
      qed
      then show ?thesis unfolding q by (auto simp: in_versioned)
    qed
    have "mark_event_snapshots_quarantined (Some (sc_versions sc2)) bad rows = map (?f (sc_failed sc @ bad)) rows0"
      unfolding mark_event_snapshots_quarantined_def option.case eventq.quarantine_spec mark_where_def rows map_map
      by (rule map_cong [OF refl]) (simp only: comp_apply one)
    then show ?thesis by (simp add: rows)
  qed
  have failed: "\<exists>r \<in> set rows0. status r = Pending \<and> ev_id (body r) = u \<and> convert (body r) = Inr None"
    if "u \<in> set (sc_failed sc @ bad)" for u
  proof (cases "u \<in> set (sc_failed sc)")
    case True
    then show ?thesis using ok unfolding scan_ok_def by (elim conjE) blast
  next
    case False
    with that res obtain e v where "(e, v) \<in> set N" "ev_id e = u" "convert e = Inr None"
      by (auto simp: refused_def)
    with src N(1) show ?thesis by blast
  qed
  have f: "sc_failed sc2 = sc_failed sc" using res by simp
  have "scan_ok convert rows0 (sc2\<lparr>sc_failed := sc_failed sc2 @ bad\<rparr>)
      (if bad = [] then rows else mark_event_snapshots_quarantined (Some (sc_versions sc2)) bad rows)"
    using f dicts taken vers marked failed unfolding scan_ok_def by (intro conjI) (simp_all, blast+)
  moreover have "scan_ok convert rows0 sc2 rows"
    using f dicts taken vers rows failed unfolding scan_ok_def by (intro conjI) (simp_all, blast+)
  ultimately show ?thesis ..
qed

lemma scan_loop_next:
  assumes "int (length (sc_dicts sc)) < batch \<and> sc_scanned sc < limit"
    and "page = min (batch - int (length (sc_dicts sc))) (limit - sc_scanned sc)"
    and "ds = query_event_deliveries_for_sync (app k rows0) page"
    and "scan_page convert ds (note_versions ds sc, [], 0) = (sc2, bad, new)"
    and "rows2 = (if bad = [] then app k rows0
                  else mark_event_snapshots_quarantined (Some (sc_versions sc2)) bad (app k rows0))"
    and "sc3 = sc2\<lparr>sc_failed := sc_failed sc2 @ bad\<rparr>"
  shows "scan_loop convert app batch limit k rows0 sc =
    (if ds = [] then (note_versions ds sc, app k rows0)
     else if sc_error sc2 \<noteq> None then (sc2, app k rows0)
     else if new = 0 \<or> int (length ds) < page then (sc3, rows2)
     else scan_loop convert app batch limit (k + 1) rows2 sc3)"
  using assms(1,4)
  by (subst scan_loop.simps) (simp add: Let_def assms(2) [symmetric] assms(3) [symmetric] assms(5,6))

text \<open>The rule for the loop: what every page keeps, whether it ends the scan or not, the scan keeps.\<close>

lemma scan_loop_rule:
  assumes "I rows0 sc" "scan_loop convert app batch limit k rows0 sc = (sc', rows')"
    and app: "\<And>k rows sc. I rows sc \<Longrightarrow> I (app k rows) sc"
    and page: "\<And>rows sc n ds sc2 bad new.
      \<lbrakk>I rows sc; n = min (batch - int (length (sc_dicts sc))) (limit - sc_scanned sc); 0 < n;
       ds = query_event_deliveries_for_sync rows n; ds \<noteq> [];
       scan_page convert ds (note_versions ds sc, [], 0) = (sc2, bad, new)\<rbrakk> \<Longrightarrow>
      I rows sc2 \<and> I (if bad = [] then rows else mark_event_snapshots_quarantined (Some (sc_versions sc2)) bad rows)
        (sc2\<lparr>sc_failed := sc_failed sc2 @ bad\<rparr>)"
  shows "I rows' sc'"
  using assms(1,2)
proof (induction "nat (limit - sc_scanned sc)" arbitrary: k rows0 sc rule: less_induct)
  case less
  show ?case
  proof (cases "int (length (sc_dicts sc)) < batch \<and> sc_scanned sc < limit")
    case False
    with less.prems show ?thesis by (simp add: scan_loop.simps [of convert _ batch limit k rows0 sc])
  next
    case True
    define n where "n = min (batch - int (length (sc_dicts sc))) (limit - sc_scanned sc)"
    define ds where "ds = query_event_deliveries_for_sync (app k rows0) n"
    obtain sc2 bad new where pg: "scan_page convert ds (note_versions ds sc, [], 0) = (sc2, bad, new)"
      by (metis surj_pair)
    define rows2 where "rows2 = (if bad = [] then app k rows0
      else mark_event_snapshots_quarantined (Some (sc_versions sc2)) bad (app k rows0))"
    define sc3 where "sc3 = sc2\<lparr>sc_failed := sc_failed sc2 @ bad\<rparr>"
    have "0 < n" using True by (simp add: n_def)
    note keeps = page [OF app [OF less.prems(1)] n_def this ds_def _ pg, folded rows2_def sc3_def]
    note step = scan_loop_next [where app = app and k = k and ?rows0.0 = rows0,
        OF True n_def ds_def pg rows2_def sc3_def]
    consider "ds = []" | "ds \<noteq> []" "sc_error sc2 \<noteq> None \<or> new = 0 \<or> int (length ds) < n"
      | "ds \<noteq> []" "new \<noteq> 0" "\<not> (sc_error sc2 \<noteq> None \<or> new = 0 \<or> int (length ds) < n)" by blast
    then show ?thesis
    proof cases
      case 1
      with step less.prems(2) have "sc' = sc" "rows' = app k rows0" by (simp_all add: note_versions_def)
      with app [OF less.prems(1)] show ?thesis by simp
    next
      case 2
      with step less.prems(2) keeps show ?thesis by (auto split: if_splits)
    next
      case 3
      have "sc_scanned sc < sc_scanned sc2" using scan_page_progress [OF pg 3(2)] by simp
      with True have less: "nat (limit - sc_scanned sc3) < nat (limit - sc_scanned sc)" by (simp add: sc3_def)
      have "scan_loop convert app batch limit (k + 1) rows2 sc3 = (sc', rows')"
        using 3 step less.prems(2) by (simp only: if_False if_True) auto
      from less.hyps [OF less _ this] keeps 3(1) show ?thesis by blast
    qed
  qed
qed

lemma scan_loop_ok:
  assumes "scan_ok convert rows0 sc rows" "distinct (map (\<lambda>r. ev_id (body r)) rows0)"
    "scan_loop convert (\<lambda>k r. r) batch limit k rows sc = (sc', rows')"
  shows "scan_ok convert rows0 sc' rows'"
  by (rule scan_loop_rule [where I = "\<lambda>rows sc. scan_ok convert rows0 sc rows", OF assms(1,3)])
    (use scan_ok_page [OF _ assms(2)] in blast)+

lemma scan_page_sizes:
  assumes "scan_page convert ds (sc, [], 0) = (sc2, bad, new)"
  shows "length (sc_dicts sc2) \<le> length (sc_dicts sc) + length ds \<and>
    sc_scanned sc2 \<le> sc_scanned sc + int (length ds)"
proof -
  obtain N where N: "length N \<le> length ds" "sc_dicts sc2 = sc_dicts sc @ converted convert N"
      "sc_scanned sc2 = sc_scanned sc + int (length N)"
    using scan_page_spec [of ds convert sc "[]" 0] assms by auto
  have "length (converted convert N) \<le> length N" unfolding converted_def by (rule length_map_filter)
  with N show ?thesis by simp
qed

lemma scan_okD:
  assumes "scan_ok convert rows0 sc rows"
  shows "\<And>e v. (e, v) \<in> set (sc_taken sc) \<Longrightarrow> \<exists>w. sc_versions sc (ev_id e) = Some w"
    "\<And>e v. (e, v) \<in> set (sc_taken sc) \<Longrightarrow>
      \<exists>r \<in> set rows0. status r = Pending \<and> body r = e \<and> version r = v"
    "\<And>u v. sc_versions sc u = Some v \<Longrightarrow> \<exists>r \<in> set rows0. ev_id (body r) = u \<and> version r = v"
    "\<And>u. u \<in> set (sc_failed sc) \<Longrightarrow>
      \<exists>r \<in> set rows0. status r = Pending \<and> ev_id (body r) = u \<and> convert (body r) = Inr None"
  using assms unfolding scan_ok_def by fast+

lemma scan_loop_bounds:
  assumes "int (length (sc_dicts sc)) \<le> batch \<and> sc_scanned sc \<le> limit"
    "scan_loop convert app batch limit k rows sc = (sc', rows')"
  shows "int (length (sc_dicts sc')) \<le> batch \<and> sc_scanned sc' \<le> limit"
  using assms
proof (rule scan_loop_rule [where I = "\<lambda>rows sc. int (length (sc_dicts sc)) \<le> batch \<and> sc_scanned sc \<le> limit"])
  fix rows sc n ds sc2 bad new
  assume n: "n = min (batch - int (length (sc_dicts sc))) (limit - sc_scanned sc)" "0 < n"
    and ds: "ds = query_event_deliveries_for_sync rows n"
    and page: "scan_page convert ds (note_versions ds sc, [], 0) = (sc2, bad, new)"
  have "int (length ds) \<le> n" using n(2) query_length [of n rows] ds by simp
  with scan_page_sizes [OF page] n(1)
  have "int (length (sc_dicts sc2)) \<le> batch \<and> sc_scanned sc2 \<le> limit" by simp
  then show "(int (length (sc_dicts sc2)) \<le> batch \<and> sc_scanned sc2 \<le> limit) \<and>
      int (length (sc_dicts (sc2\<lparr>sc_failed := sc_failed sc2 @ bad\<rparr>))) \<le> batch \<and>
      sc_scanned (sc2\<lparr>sc_failed := sc_failed sc2 @ bad\<rparr>) \<le> limit" by simp
qed

section \<open>Properties of the scan\<close>

text \<open>C12. A scan that is alone with the table takes exact snapshots: it holds at most one batch and
  looks at no more events than its limit, its records are the conversions of pending rows as
  they are, each remembered with the very version of its row, and the only rows it changes are
  the pending ones that cannot be converted, which it quarantines.\<close>

theorem scan_is_exact:
  assumes "distinct (map (\<lambda>r. ev_id (body r)) rows)" "0 < batch"
    and "scan_events convert (\<lambda>k r. r) batch rows = (sc, rows')"
  shows "int (length (sc_dicts sc)) \<le> batch \<and> sc_scanned sc \<le> scan_limit batch \<and>
    map (Inr \<circ> Some) (sc_dicts sc) = map (convert \<circ> fst) (sc_taken sc) \<and>
    (\<forall>(e, v) \<in> set (sc_taken sc). sc_versions sc (ev_id e) = Some v \<and>
       (\<exists>r \<in> set rows. status r = Pending \<and> body r = e \<and> version r = v)) \<and>
    rows' = map (\<lambda>r. if status r = Pending \<and> ev_id (body r) \<in> set (sc_failed sc)
                     then r\<lparr>status := Quarantined\<rparr> else r) rows \<and>
    (\<forall>r \<in> set rows. ev_id (body r) \<in> set (sc_failed sc) \<longrightarrow> convert (body r) = Inr None)"
proof -
  note loop = assms(3) [unfolded scan_events_def]
  have "scan_ok convert rows empty_scan rows" by (simp add: scan_ok_def empty_scan_def map_idI)
  from scan_loop_ok [OF this assms(1) loop] have ok: "scan_ok convert rows sc rows'" .
  have "int (length (sc_dicts sc)) \<le> batch \<and> sc_scanned sc \<le> scan_limit batch"
    by (rule scan_loop_bounds [OF _ loop]) (use assms(2) in \<open>simp_all add: empty_scan_def scan_limit_def\<close>)
  moreover have "sc_versions sc (ev_id e) = Some v \<and>
      (\<exists>r \<in> set rows. status r = Pending \<and> body r = e \<and> version r = v)"
    if t: "(e, v) \<in> set (sc_taken sc)" for e v
  proof -
    from scan_okD(1,2) [OF ok t] obtain w r where w: "sc_versions sc (ev_id e) = Some w"
        and r: "r \<in> set rows" "status r = Pending" "body r = e" "version r = v" by blast
    from scan_okD(3) [OF ok w] obtain q where "q \<in> set rows" "ev_id (body q) = ev_id e" "version q = w" by blast
    with versions_of_rows [OF assms(1) _ r(1)] r w show ?thesis by auto
  qed
  moreover have "convert (body r) = Inr None" if r: "r \<in> set rows" "ev_id (body r) \<in> set (sc_failed sc)" for r
  proof -
    from scan_okD(4) [OF ok r(2)] obtain q where "q \<in> set rows" "ev_id (body q) = ev_id (body r)"
        "convert (body q) = Inr None" by blast
    with versions_of_rows [OF assms(1) _ r(1)] show ?thesis by auto
  qed
  ultimately show ?thesis using ok unfolding scan_ok_def by blast
qed

definition scanned_event :: event where "scanned_event = sample_event (uuid_text 5) (sample_time 0)"

definition bad_event :: event where "bad_event = sample_event (uuid_text 6) (sample_time 1)"

definition sample_convert :: converter where
  "sample_convert e =
     Inr (if ev_id e = uuid_text 6 then None else Some [(''event_id'', JStr (ev_id e))])"

lemma sample_events:
  "ev_id scanned_event = uuid_text 5" "ev_id bad_event = uuid_text 6" "uuid_text 6 \<noteq> uuid_text 5"
  "isoformat (ev_occurred_at scanned_event) < isoformat (ev_occurred_at bad_event)"
  "sample_convert scanned_event = Inr (Some [(''event_id'', JStr (uuid_text 5))])"
  "sample_convert bad_event = Inr None"
proof -
  show "ev_id scanned_event = uuid_text 5" "ev_id bad_event = uuid_text 6"
    by (simp_all add: scanned_event_def bad_event_def sample_event_def)
  show "uuid_text 6 \<noteq> uuid_text 5" by code_simp
  then show "sample_convert scanned_event = Inr (Some [(''event_id'', JStr (uuid_text 5))])"
      "sample_convert bad_event = Inr None"
    by (simp_all add: sample_convert_def scanned_event_def bad_event_def sample_event_def)
  show "isoformat (ev_occurred_at scanned_event) < isoformat (ev_occurred_at bad_event)"
    unfolding scanned_event_def bad_event_def by code_simp
qed

theorem scan_is_exact_witness:
  "scan_limit 2 = 20 \<and> (\<exists>sc rows'.
     scan_events sample_convert (\<lambda>k r. r) 2 [new_vrow scanned_event, new_vrow bad_event] = (sc, rows') \<and>
     length (sc_dicts sc) \<le> 2 \<and> map body rows' = [scanned_event, bad_event])"
proof -
  obtain sc rows' where sc: "scan_events sample_convert (\<lambda>k r. r) 2
      [new_vrow scanned_event, new_vrow bad_event] = (sc, rows')" by force
  have "distinct (map (\<lambda>r. ev_id (body r)) [new_vrow scanned_event, new_vrow bad_event])"
    using sample_events(3) [symmetric] by (simp add: new_vrow_def sample_events(1,2))
  from scan_is_exact [OF this _ sc] sc show ?thesis
    by (simp add: new_vrow_def scan_limit_def max_conversion_scan_def conversion_scan_multiplier_def)
qed

text \<open>C38. A scan that is not alone can lose a change: when the first page holds an event that
  cannot be converted, the scan reads a second page, and a converted event that was changed
  in between is read again, only to note its new version. The old contents are uploaded, and
  the acknowledgement carries the new version: the row is marked synced although its current
  contents were never sent.\<close>

theorem rescan_acknowledges_unsent:
  assumes "convert e = Inr (Some d)" "convert f = Inr None" "ev_id f \<noteq> ev_id e" "ev_id e' = ev_id e"
    and "isoformat (ev_occurred_at e) < isoformat (ev_occurred_at f)"
    and "app = (\<lambda>k rows. if k = 1 then update_event e' rows else rows)"
    and "scan_events convert app 2 [new_vrow e, new_vrow f] = (sc, rows)"
  shows "sc_dicts sc = [d] \<and> sc_taken sc = [(e, 1)] \<and>
    map (\<lambda>r. (status r, version r, ev_details (body r)))
      (mark_event_snapshots_synced (Some (sc_versions sc)) [ev_id e] rows) =
    [(Synced, 2, ev_details e'), (Quarantined, 1, ev_details f)]"
proof -
  let ?page1 = "[(e, 1), (f, 1)]"
  have q1: "query_event_deliveries_for_sync [new_vrow e, new_vrow f] 2 = ?page1"
    using assms(5) by (simp add: query_event_deliveries_for_sync_def new_vrow_def sql_limit_def)
  let ?sc1 = "\<lparr>sc_dicts = [d], sc_versions = [ev_id e \<mapsto> 1, ev_id f \<mapsto> 1], sc_failed = [ev_id f],
     sc_seen = [ev_id e, ev_id f], sc_scanned = 2, sc_error = None, sc_taken = [(e, 1)]\<rparr>"
  let ?rows1 = "[new_vrow e, (new_vrow f)\<lparr>status := Quarantined\<rparr>]"
  let ?e2 = "(stored_event e')\<lparr>ev_task_id := ev_task_id e\<rparr>"
  let ?rows2 = "[\<lparr>body = ?e2, status = Pending, version = 2\<rparr>, (new_vrow f)\<lparr>status := Quarantined\<rparr>]"
  have p1: "scan_page convert ?page1 (note_versions ?page1 empty_scan, [], 0) =
      (?sc1\<lparr>sc_failed := []\<rparr>, [ev_id f], 2)"
    using assms(1-3) by (simp add: note_versions_def empty_scan_def Let_def fun_upd_twist)
  have m1: "mark_event_snapshots_quarantined (Some [ev_id e \<mapsto> 1, ev_id f \<mapsto> 1]) [ev_id f]
      [new_vrow e, new_vrow f] = ?rows1"
    using assms(3) by (simp add: mark_event_snapshots_quarantined_def versioned_def map_filter_simps
        eventq.quarantine_spec mark_where_def new_vrow_def)
  have a1: "update_event e' ?rows1 = ?rows2"
    using assms(3,4) by (simp add: update_event_def update_where_def new_vrow_def)
  have q2: "query_event_deliveries_for_sync ?rows2 1 = [(?e2, 2)]"
    by (simp add: query_event_deliveries_for_sync_def sql_limit_def new_vrow_def)
  have id2: "ev_id ?e2 = ev_id e" using assms(4) by (simp add: stored_event_def)
  let ?sc2 = "?sc1\<lparr>sc_versions := [ev_id e \<mapsto> 2, ev_id f \<mapsto> 1]\<rparr>"
  have p2: "scan_page convert [(?e2, 2)] (note_versions [(?e2, 2)] ?sc1, [], 0) = (?sc2, [], 0)"
    using id2 assms(3) by (simp add: note_versions_def fun_upd_twist)
  have lim: "scan_limit 2 = 20"
    by (simp add: scan_limit_def max_conversion_scan_def conversion_scan_multiplier_def)
  have second: "scan_loop convert app 2 20 (Suc 0) ?rows1 ?sc1 = (?sc2, ?rows2)"
    by (subst scan_loop_next [where page = 1, OF _ _ _ p2 refl refl]) (simp_all add: assms(6) a1 q2)
  have "scan_loop convert app 2 20 0 [new_vrow e, new_vrow f] empty_scan = (?sc2, ?rows2)"
    using second
    by (subst scan_loop_next [where page = 2, OF _ _ _ p1 refl refl])
      (simp_all add: assms(6) q1 m1 empty_scan_def)
  with assms(7) have "sc = ?sc2" "rows = ?rows2" by (simp_all add: scan_events_def lim)
  then show ?thesis
    using assms(3,4)
    by (simp add: mark_event_snapshots_synced_def versioned_def map_filter_simps eventq.ack_spec
        mark_where_def new_vrow_def stored_event_def)
qed

theorem rescan_acknowledges_unsent_witness:
  "\<exists>app sc rows. scan_events sample_convert app 2 [new_vrow scanned_event, new_vrow bad_event] = (sc, rows) \<and>
     sc_taken sc = [(scanned_event, 1)]"
proof -
  let ?app = "\<lambda>(k::nat) rows. if k = 1 then update_event scanned_event rows else rows"
  obtain sc rows where sc: "scan_events sample_convert ?app 2
      [new_vrow scanned_event, new_vrow bad_event] = (sc, rows)" by force
  from rescan_acknowledges_unsent [OF sample_events(5,6) _ _ sample_events(4) refl sc] sc
  show ?thesis using sample_events(1-3) by auto
qed

end
