(* ===== verification/Attribution_Parts.thy ===== *)
theory Attribution_Parts
  imports Task_Upload "HOL-Library.Sublist"
begin

text \<open>
  The parts the event converters share (\<open>attribution/convert.py\<close>): reading numbers and texts
  from the free-form details of an event, canonical identifiers, positive quantities, and what
  an event says about its provider, its resource, its cost evidence, and its component with
  the metered usage.
\<close>

section \<open>More decimal arithmetic\<close>

definition dec_neg :: "dec \<Rightarrow> dec" where
  "dec_neg d = Dec (- coeff d) (expo d)"

definition dec_sub :: "dec \<Rightarrow> dec \<Rightarrow> dec" where
  "dec_sub a b = dec_add a (dec_neg b)"

text \<open>Scale a coefficient to exponent 0 after \<open>k\<close> digits, rounding halves away from zero.\<close>

definition half_up :: "nat \<Rightarrow> int \<Rightarrow> int" where
  "half_up k c =
     (let n = nat \<bar>c\<bar>; q = n div 10 ^ k; r = n mod 10 ^ k
      in sgn c * int (if 10 ^ k \<le> 2 * r then q + 1 else q))"

text \<open>\<open>int(d.to_integral_value(rounding=ROUND_HALF_UP))\<close>.\<close>

definition dec_half_up :: "dec \<Rightarrow> int" where
  "dec_half_up d =
     (if 0 \<le> expo d then coeff d * 10 ^ nat (expo d) else half_up (nat (- expo d)) (coeff d))"

text \<open>\<open>d.quantize(Decimal("0.000000000001"), ROUND_HALF_UP)\<close> of a finer value; None is
  \<open>InvalidOperation\<close>, the result has more digits than the context.\<close>

definition quantize_12 :: "dec \<Rightarrow> dec option" where
  "quantize_12 d =
     (let c = half_up (nat (- expo d - 12)) (coeff d)
      in if dec_prec < ndigits (nat \<bar>c\<bar>) then None else Some (Dec c (- 12)))"

definition dec_integral :: "dec \<Rightarrow> int option" where
  "dec_integral d =
     (if 0 \<le> expo d then Some (coeff d * 10 ^ nat (expo d))
      else if coeff d mod 10 ^ nat (- expo d) = 0 then Some (coeff d div 10 ^ nat (- expo d))
      else None)"

section \<open>Reading details\<close>

text \<open>\<open>_decimal_detail\<close>: the first key whose value is a finite number.\<close>

fun decimal_detail :: "obj \<Rightarrow> string list \<Rightarrow> dec option" where
  "decimal_detail details [] = None"
| "decimal_detail details (k # ks) =
     (case dict_get details k of
        JInt i \<Rightarrow> Some (Dec i 0)
      | JStr s \<Rightarrow> (case decimal_of_text (py_strip s) of
                     DecFinite d \<Rightarrow> Some d | _ \<Rightarrow> decimal_detail details ks)
      | _ \<Rightarrow> decimal_detail details ks)"

text \<open>\<open>_string_detail\<close>: the first key whose value is a text that is not blank.\<close>

fun string_detail :: "obj \<Rightarrow> string list \<Rightarrow> string option" where
  "string_detail details [] = None"
| "string_detail details (k # ks) =
     (case dict_get details k of
        JStr s \<Rightarrow> if py_strip s \<noteq> [] then Some s else string_detail details ks
      | _ \<Rightarrow> string_detail details ks)"

declare decimal_detail.simps [simp del] string_detail.simps [simp del]

text \<open>\<open>_decimal_detail(...) or d\<close>: a zero counts as missing.\<close>

definition or_dec :: "dec option \<Rightarrow> dec \<Rightarrow> dec" where
  "or_dec x d = (case x of None \<Rightarrow> d | Some a \<Rightarrow> if coeff a = 0 then d else a)"

definition strip_scheme :: "string \<Rightarrow> string" where
  "strip_scheme s =
     (case strip_prefix ''http://'' s of
        Some t \<Rightarrow> t
      | None \<Rightarrow> (case strip_prefix ''https://'' s of Some t \<Rightarrow> t | None \<Rightarrow> s))"

text \<open>\<open>_canonical_name(value, fallback)\<close>.\<close>

definition to_canonical_name :: "string option \<Rightarrow> string \<Rightarrow> string" where
  "to_canonical_name value fallback =
     (let s = strip_scheme (py_lower (py_strip (case value of None \<Rightarrow> [] | Some v \<Rightarrow> v)));
          n = take 128 (strip_set (set ''_-.'') (squash False s))
      in if n = [] then fallback else n)"

section \<open>Usage\<close>

text \<open>\<open>_positive_quantity\<close> of a number, and of an untrusted value.\<close>

definition positive_quantity :: "dec \<Rightarrow> string option" where
  "positive_quantity d =
     (if coeff d \<le> 0 then None
      else (case (if expo d < - 12 then quantize_12 d else Some d) of
              None \<Rightarrow> None
            | Some q \<Rightarrow> if coeff q \<le> 0 then None else Some (canonical_decimal q)))"

definition positive_value :: "json \<Rightarrow> string option" where
  "positive_value v =
     (case v of
        JNull \<Rightarrow> None
      | JBool b \<Rightarrow> None
      | _ \<Rightarrow> (case decimal_of_text (py_str v) of DecFinite d \<Rightarrow> positive_quantity d | _ \<Rightarrow> None))"

text \<open>A metered line of an event: metric, quantity and unit.\<close>

record meter =
  mt_metric :: string
  mt_quantity :: string
  mt_unit :: string

definition usage_line_for :: "string \<Rightarrow> dec option \<Rightarrow> meter option" where
  "usage_line_for metric quantity =
     (case quantity of
        None \<Rightarrow> None
      | Some q \<Rightarrow> map_option
          (\<lambda>n. \<lparr>mt_metric = metric, mt_quantity = n, mt_unit = the (map_of unit_by_metric metric)\<rparr>)
          (positive_quantity q))"

definition compact_usage :: "meter option list \<Rightarrow> meter list" where
  "compact_usage ls = List.map_filter id ls"

section \<open>Provider\<close>

definition text_of :: "string option \<Rightarrow> string" where
  "text_of x = (case x of None \<Rightarrow> [] | Some s \<Rightarrow> s)"

definition starts_with :: "string \<Rightarrow> string \<Rightarrow> bool" where
  "starts_with s p \<longleftrightarrow> take (length p) s = p"

text \<open>\<open>a or b\<close> on optional texts: an empty text counts as missing.\<close>

definition or_text :: "string option \<Rightarrow> string option \<Rightarrow> string option" where
  "or_text a b = (if text_of a \<noteq> [] then a else b)"

definition llm_provider :: "string option \<Rightarrow> string \<times> string" where
  "llm_provider provider =
     (let raw = py_lower (text_of provider)
      in if sublist ''openai'' raw then (''openai'', ''responses'')
         else if sublist ''anthropic'' raw then (''anthropic'', ''messages'')
         else if sublist ''bedrock'' raw then (''aws'', ''bedrock'')
         else if sublist ''gemini'' raw \<or> raw = ''google'' then (''google'', ''generate_content'')
         else if sublist ''cohere'' raw then (''cohere'', ''chat'')
         else if sublist ''vercel'' raw then (''vercel'', ''ai_sdk'')
         else if sublist ''langchain'' raw then (''langchain'', ''chat'')
         else (to_canonical_name provider ''unknown'', ''api''))"

definition compute_name :: "string option \<Rightarrow> string option \<Rightarrow> string" where
  "compute_name billing provider =
     (let b = text_of billing
      in if starts_with b ''azure'' then ''azure''
         else if b = ''gce'' \<or> b = ''cloud_functions'' \<or> starts_with b ''cloud_'' then ''google_cloud''
         else if b = ''vercel_fluid'' then ''vercel''
         else if b = ''k8s_pod'' then ''kubernetes''
         else if b = ''lambda'' \<or> b = ''fargate'' \<or> b = ''ec2'' then ''aws''
         else to_canonical_name provider ''runtime'')"

definition external_provider :: "event \<Rightarrow> string \<times> string" where
  "external_provider e =
     (let raw = (if text_of (ev_service_name e) = [] then ''external'' else text_of (ev_service_name e))
      in if starts_with raw ''mcp:'' then (''mcp'', to_canonical_name (Some (drop 4 raw)) ''tool'')
         else if CHR ''.'' \<in> set raw then (to_canonical_name (Some raw) ''external'', ''http_api'')
         else (to_canonical_name (ev_provider e) (to_canonical_name (Some raw) ''external''),
               to_canonical_name (Some raw) ''api''))"

definition provider_pair :: "event \<Rightarrow> string \<times> string" where
  "provider_pair e =
     (let billing = string_detail (ev_details e) [''billing_model''];
          cloud = or_text (string_detail (ev_details e) [''cloud_provider'']) (ev_provider e)
      in if ev_type e = ''llm_call'' then llm_provider (ev_provider e)
         else if ev_type e = ''compute_cost''
         then (compute_name billing (ev_provider e),
               to_canonical_name (or_text billing (ev_service_name e)) ''compute'')
         else if ev_type e = ''gpu_cost'' \<or> ev_type e = ''gpu_utilization_signal''
         then (if billing = Some ''local_gpu_usage_only'' then (''self_hosted'', ''gpu_compute'')
               else (to_canonical_name cloud ''runtime'', to_canonical_name billing ''gpu''))
         else if ev_type e = ''network'' then (to_canonical_name cloud ''internet'', ''egress'')
         else if ev_type e = ''retry_marker'' then (''dexcost'', ''retry'')
         else external_provider e)"

definition provider_for :: "event \<Rightarrow> obj" where
  "provider_for e =
     (let (name, service0) = provider_pair e;
          service = (case string_detail (ev_details e) [''attribution_provider_service''] of
                       None \<Rightarrow> service0 | Some s \<Rightarrow> to_canonical_name (Some s) service0);
          record_id = string_detail (ev_details e) [''provider_record_id'', ''request_id'', ''call_sid''];
          region = string_detail (ev_details e) [''region'', ''cloud_region'']
      in [(''name'', JStr name), (''service'', JStr service)] @
         (case record_id of None \<Rightarrow> []
          | Some r \<Rightarrow> if length r \<le> 256 then [(''record_id'', JStr r)] else []) @
         (case region of None \<Rightarrow> []
          | Some r \<Rightarrow> [(''region'', JStr (to_canonical_name (Some r) ''unknown''))]))"

section \<open>Resource\<close>

text \<open>The type and the id of a resource.\<close>

definition resource_for :: "event \<Rightarrow> (string \<times> string) option" where
  "resource_for e =
     (let d = ev_details e;
          etype = string_detail d [''attribution_resource_type''];
          eid = string_detail d [''attribution_resource_id''];
          reason = py_strip (text_of (ev_retry_reason e));
          sku = string_detail d [''gpu_sku'', ''instance_type''];
          machine = string_detail d [''instance_type'', ''architecture'']
      in if eid \<noteq> None \<and> etype \<in> Some ` set [''model'', ''sku'', ''instance'', ''endpoint'', ''session'', ''other'']
         then Some (text_of etype, take 256 (text_of eid))
         else if ev_type e = ''retry_marker'' \<and> reason \<noteq> [] then Some (''other'', take 256 reason)
         else if text_of (ev_model e) \<noteq> [] then Some (''model'', take 256 (text_of (ev_model e)))
         else if (ev_type e = ''gpu_cost'' \<or> ev_type e = ''gpu_utilization_signal'') \<and> sku \<noteq> None
         then Some (''sku'', take 256 (text_of sku))
         else if ev_type e = ''compute_cost'' \<and> machine \<noteq> None
         then Some (''instance'', take 256 (text_of machine))
         else None)"

section \<open>Cost evidence\<close>

record evidence =
  cv_amount :: string
  cv_currency :: string
  cv_source :: string
  cv_confidence :: string
  cv_version :: "string option"

definition evidence_to_dict :: "evidence \<Rightarrow> obj" where
  "evidence_to_dict c =
     [(''amount'', JStr (cv_amount c)), (''currency'', JStr (cv_currency c)),
      (''source'', JStr (cv_source c)), (''confidence'', JStr (cv_confidence c))] @
     opt_item ''pricing_version'' (cv_version c)"

text \<open>The expressions \<open>0(?:\.0+)?\<close> and \<open>[A-Z]{3}\<close>.\<close>

definition zero_text :: "string \<Rightarrow> bool" where
  "zero_text s \<longleftrightarrow> s = ''0'' \<or>
     (take 2 s = ''0.'' \<and> drop 2 s \<noteq> [] \<and> list_all (\<lambda>c. c = CHR ''0'') (drop 2 s))"

definition three_capitals :: "string \<Rightarrow> bool" where
  "three_capitals s \<longleftrightarrow> length s = 3 \<and> list_all (\<lambda>c. CHR ''A'' \<le> c \<and> c \<le> CHR ''Z'') s"

definition reported_amount :: "bool \<Rightarrow> obj \<Rightarrow> string option" where
  "reported_amount allow_zero d =
     (case string_detail d [''provider_reported_cost_amount''] of
        Some s \<Rightarrow>
          if allow_zero \<and> zero_text (py_strip s) then Some ''0''
          else Option.bind (decimal_detail d [''provider_reported_cost_amount'']) positive_quantity
      | None \<Rightarrow> Option.bind (decimal_detail d [''provider_reported_cost_amount'']) positive_quantity)"

definition sdk_catalog :: "string \<Rightarrow> bool" where
  "sdk_catalog source \<longleftrightarrow> source \<in> set [''service_catalog'', ''litellm'', ''tokencost''] \<or>
     starts_with source ''compute_catalog:'' \<or> starts_with source ''gpu_catalog:'' \<or>
     starts_with source ''egress_catalog:''"

definition manual_source :: "string \<Rightarrow> bool" where
  "manual_source source \<longleftrightarrow> source \<in> set [''manual'', ''custom'', ''rate_per_minute'', ''user_override'']"

definition catalog_evidence :: "string \<Rightarrow> string option" where
  "catalog_evidence source =
     (if source = ''rate_registry'' then Some ''sdk_rate_registry''
      else if sdk_catalog source then Some ''sdk_catalog'' else None)"

text \<open>The evidence of the amount the SDK recorded.\<close>

definition sdk_evidence :: "event \<Rightarrow> evidence option" where
  "sdk_evidence e =
     (case positive_quantity (ev_cost e) of
        None \<Rightarrow> None
      | Some amount \<Rightarrow>
          (let usd = (\<lambda>source confidence v. Some \<lparr>cv_amount = amount, cv_currency = ''USD'',
                        cv_source = source, cv_confidence = confidence, cv_version = v\<rparr>);
               source = text_of (ev_pricing_source e); mapped = catalog_evidence source
           in if ev_type e = ''retry_marker'' then usd ''manual'' ''exact'' None
              else if source = ''provider_response''
              then usd ''provider_reported'' (if ev_confidence e = ''exact'' then ''exact'' else ''estimated'') None
              else if manual_source source
              then usd ''manual'' (ev_confidence e) None
              else if mapped = None \<or> text_of (ev_pricing_version e) = [] then None
              else usd (the mapped) (if ev_confidence e = ''exact'' then ''computed'' else ev_confidence e)
                     (ev_pricing_version e)))"

definition evidence_for :: "bool \<Rightarrow> event \<Rightarrow> evidence option" where
  "evidence_for allow_zero e =
     (case (reported_amount allow_zero (ev_details e),
            string_detail (ev_details e) [''provider_reported_cost_currency'']) of
        (Some amount, Some currency) \<Rightarrow>
          if three_capitals currency
          then Some \<lparr>cv_amount = amount, cv_currency = currency, cv_source = ''provider_reported'',
                     cv_confidence = ''exact'', cv_version = None\<rparr>
          else sdk_evidence e
      | _ \<Rightarrow> sdk_evidence e)"

section \<open>Component and usage\<close>

type_synonym mapped_usage = "string \<times> meter list \<times> dec option"

definition or_zero :: "int option \<Rightarrow> int" where
  "or_zero x = (case x of None \<Rightarrow> 0 | Some i \<Rightarrow> i)"

text \<open>The token meters of a call; without any it counts as one request.\<close>

definition token_meters :: "dec \<Rightarrow> dec \<Rightarrow> dec \<Rightarrow> dec \<Rightarrow> dec option \<Rightarrow> meter list" where
  "token_meters input cached cache_write output reasoning =
     (let usage = compact_usage
        [usage_line_for ''input_tokens'' (Some input),
         usage_line_for ''cache_read_input_tokens'' (Some cached),
         usage_line_for ''cache_write_input_tokens'' (Some cache_write),
         usage_line_for ''output_tokens'' (Some output),
         usage_line_for ''reasoning_output_tokens'' reasoning]
      in if usage = [] then compact_usage [usage_line_for ''request_count'' (Some (Dec 1 0))] else usage)"

definition llm_usage :: "event \<Rightarrow> mapped_usage option" where
  "llm_usage e =
     (let d = ev_details e;
          cached = Dec (or_zero (ev_cached_tokens e)) 0;
          cache_write = or_dec (decimal_detail d [''cache_write_input_tokens'', ''cache_creation_input_tokens'']) dec0;
          provider = py_lower (text_of (ev_provider e));
          disjoint = (sublist ''anthropic'' provider \<or> sublist ''bedrock'' provider \<or> provider = ''aws'');
          input = Dec (or_zero (ev_input_tokens e)) 0;
          output = Dec (or_zero (ev_output_tokens e)) 0;
          reasoning = decimal_detail d [''reasoning_output_tokens'', ''reasoning_tokens'']
      in if string_detail d [''openai_usage_error''] \<noteq> None then None
         else if \<not> disjoint \<and> dec_lt input (dec_add cached cache_write) then None
         else if (case reasoning of None \<Rightarrow> False | Some r \<Rightarrow> dec_lt output r) then None
         else
           Some (''llm'',
             token_meters (if disjoint then input else dec_sub (dec_sub input cached) cache_write) cached cache_write
               (case reasoning of None \<Rightarrow> output | Some r \<Rightarrow> dec_sub output r) reasoning,
             None))"

definition thousand :: dec where "thousand = Dec 1000 0"
definition gib :: dec where "gib = Dec 1073741824 0"

text \<open>A division by a number that is not zero.\<close>

definition div_by :: "dec \<Rightarrow> dec \<Rightarrow> dec" where
  "div_by a b = the (dec_div a b)"

definition compute_usage :: "event \<Rightarrow> mapped_usage" where
  "compute_usage e =
     (let d = ev_details e;
          s0 = div_by (or_dec (decimal_detail d [''duration_ms'']) dec0) thousand;
          s = (if coeff s0 = 0 then or_dec (decimal_detail d [''wall_clock_seconds'']) dec0 else s0);
          gibs = map_option (\<lambda>b. dec_mul (div_by b gib) s)
                   (decimal_detail d [''memory_bytes_limit'', ''memory_bytes_peak''])
      in (''compute'',
          compact_usage
            [usage_line_for ''compute_seconds'' (Some s),
             usage_line_for ''vcpu_seconds'' (decimal_detail d [''vcpu_seconds_used'']),
             usage_line_for ''memory_gib_seconds'' gibs,
             usage_line_for ''request_count'' (decimal_detail d [''invocation_count''])],
          Some s))"

definition gpu_usage :: "event \<Rightarrow> mapped_usage" where
  "gpu_usage e =
     (let d = ev_details e;
          s = div_by (or_dec (decimal_detail d [''duration_ms'']) dec0) thousand;
          measured = decimal_detail d [''gpu_seconds_used''];
          count = or_dec (decimal_detail d [''gpu_count'']) (Dec 1 0);
          billing = text_of (string_detail d [''billing_model'']);
          billed = (if billing \<in> set [''per_gpu_second_active'', ''local_gpu_usage_only''] then measured
                    else Some (dec_mul s count))
      in (''gpu'', compact_usage [usage_line_for ''gpu_seconds'' billed], Some s))"

definition network_usage :: "event \<Rightarrow> mapped_usage" where
  "network_usage e =
     (''network'',
      compact_usage
        [usage_line_for ''bytes_out'' (decimal_detail (ev_details e) [''request_bytes'']),
         usage_line_for ''bytes_in'' (decimal_detail (ev_details e) [''response_bytes''])],
      None)"

definition inferred_metric :: "string \<Rightarrow> string" where
  "inferred_metric per =
     (if sublist ''page'' per then ''page_count''
      else if sublist ''credit'' per then ''credit_count''
      else if sublist ''image'' per then ''image_count''
      else if sublist ''call'' per then ''call_count''
      else if sublist ''character'' per then ''characters''
      else ''request_count'')"

definition external_usage :: "event \<Rightarrow> mapped_usage option" where
  "external_usage e =
     (let d = ev_details e;
          metric = string_detail d [''attribution_usage_metric''];
          per = to_canonical_name (string_detail d [''attribution_usage_per'']) ''request'';
          component = string_detail d [''attribution_component'']
      in if metric \<noteq> None \<and> map_of unit_by_metric (text_of metric) = None then None
         else Some
           (if component \<in> Some ` set [''speech_to_text'', ''text_to_speech''] then text_of component
            else ''external'',
            compact_usage
              [usage_line_for (case metric of None \<Rightarrow> inferred_metric per | Some m \<Rightarrow> m)
                 (Some (or_dec (decimal_detail d [''attribution_usage_quantity'']) (Dec 1 0)))],
            decimal_detail d [''attribution_usage_duration_seconds'']))"

definition component_and_usage :: "event \<Rightarrow> mapped_usage option" where
  "component_and_usage e =
     (if ev_type e = ''gpu_utilization_signal'' then None
      else if ev_type e = ''retry_marker''
      then Some (''external'', compact_usage [usage_line_for ''request_count'' (Some (Dec 1 0))], None)
      else if ev_type e = ''llm_call'' then llm_usage e
      else if ev_type e = ''compute_cost'' then Some (compute_usage e)
      else if ev_type e = ''gpu_cost'' then Some (gpu_usage e)
      else if ev_type e = ''network'' then Some (network_usage e)
      else if ev_type e = ''external_cost'' then external_usage e
      else None)"

end
