(* ===== verification/Calendar.thy ===== *)
theory Calendar
  imports Timestamps
begin

text \<open>
  Subtracting a duration from a datetime: the inverse of \<open>instant\<close>, as \<open>_ord2ymd\<close> and
  \<open>datetime.__sub__\<close> of the standard library compute it, and the exception outside the
  years 1 to 9999.
\<close>

fun year_from :: "nat \<Rightarrow> nat \<Rightarrow> nat \<Rightarrow> nat" where
  "year_from 0 y n = y"
| "year_from (Suc k) y n = (if days_before_year (Suc y) < n then year_from k (Suc y) n else y)"

fun month_from :: "nat \<Rightarrow> nat \<Rightarrow> nat \<Rightarrow> nat \<Rightarrow> nat" where
  "month_from 0 y m n = m"
| "month_from (Suc k) y m n = (if days_before_month y (Suc m) < n then month_from k y (Suc m) n else m)"

text \<open>The date of an ordinal: a year of 366 days at most bounds the search from below.\<close>

definition date_of_ordinal :: "nat \<Rightarrow> nat \<times> nat \<times> nat" where
  "date_of_ordinal n =
     (let y = year_from n (n div 366 + 1) n;
          r = n - days_before_year y;
          m = month_from 11 y 1 r
      in (y, m, r - days_before_month y m))"

definition dt_of_instant :: "int \<Rightarrow> dt" where
  "dt_of_instant i =
     (let us = nat i;
          s = us div 1000000; mi = s div 60; h = mi div 60;
          (y, m, d) = date_of_ordinal (h div 24)
      in \<lparr>year = y, month = m, day = d, hour = h mod 24, minute = mi mod 60, second = s mod 60,
          microsecond = us mod 1000000\<rparr>)"

definition first_day :: int where "first_day = 86400000000"

text \<open>\<open>d - timedelta(microseconds=us)\<close>.\<close>

definition minus_microseconds :: "dt \<Rightarrow> int \<Rightarrow> py_error + dt" where
  "minus_microseconds d us =
     (if instant d - us < first_day \<or> 3652060 * first_day \<le> instant d - us
      then Inl (OverflowError ''date value out of range'') else Inr (dt_of_instant (instant d - us)))"

section \<open>The inverse\<close>

lemma days_before_year_ge: "1 \<le> y \<Longrightarrow> y - 1 \<le> days_before_year y"
proof (induction y rule: dec_induct)
  case base
  show ?case by simp
next
  case (step y)
  then show ?case by (auto simp: days_before_year_Suc)
qed

lemma year_from_spec:
  assumes "1 \<le> y" "days_before_year y < n" "n < y + k"
  shows "y \<le> year_from k y n \<and> days_before_year (year_from k y n) < n \<and>
    n \<le> days_before_year (Suc (year_from k y n))"
  using assms
proof (induction k arbitrary: y)
  case 0
  then show ?case using days_before_year_ge [of y] by simp
next
  case (Suc k)
  show ?case
  proof (cases "days_before_year (Suc y) < n")
    case True
    with Suc.IH [of "Suc y"] Suc.prems show ?thesis by auto
  qed (use Suc.prems in simp)
qed

lemma start_year: "1 \<le> n \<Longrightarrow> days_before_year (n div 366 + 1) < n"
proof -
  assume n: "1 \<le> n"
  show ?thesis
  proof (cases "n div 366")
    case 0
    with n show ?thesis by (simp add: days_before_year_def)
  next
    case (Suc q)
    have "days_before_year (Suc (Suc q)) = days_before_year (Suc q) + (if is_leap (Suc q) then 366 else 365)"
      by (rule days_before_year_Suc) simp
    moreover have "days_before_year 2 = 365" by (simp add: days_before_year_def)
    moreover have "days_before_year (Suc (Suc q)) \<le> 365 + 366 * q"
    proof (induction q)
      case 0
      then show ?case by (simp add: days_before_year_def)
    next
      case (Suc q)
      then show ?case by (auto simp: days_before_year_Suc [of "Suc (Suc q)"])
    qed
    moreover have "366 * Suc q \<le> n" using Suc by (metis div_times_less_eq_dividend mult.commute)
    ultimately show ?thesis using Suc by simp
  qed
qed

lemma month_from_spec:
  assumes "1 \<le> m" "days_before_month y m < n" "m + k = 12" "n \<le> days_before_month y 13"
  shows "m \<le> month_from k y m n \<and> month_from k y m n \<le> 12 \<and>
    days_before_month y (month_from k y m n) < n \<and> n \<le> days_before_month y (Suc (month_from k y m n))"
  using assms
proof (induction k arbitrary: m)
  case 0
  then show ?case by simp
next
  case (Suc k)
  show ?case
  proof (cases "days_before_month y (Suc m) < n")
    case True
    with Suc.IH [of "Suc m"] Suc.prems show ?thesis by auto
  qed (use Suc.prems in simp)
qed

lemma date_of_ordinal_spec:
  assumes "1 \<le> n" "n \<le> 3652059" "date_of_ordinal n = (y, m, d)"
  shows "1 \<le> y \<and> y < 10000 \<and> 1 \<le> m \<and> m \<le> 12 \<and> 1 \<le> d \<and> d \<le> days_in_month y m \<and>
    days_before_year y + days_before_month y m + d = n"
proof -
  let ?r = "n - days_before_year y"
  have y: "y = year_from n (n div 366 + 1) n" and m: "m = month_from 11 y 1 ?r"
    and d: "d = ?r - days_before_month y m"
    using assms(3) by (auto simp: date_of_ordinal_def Let_def)
  have ys: "n div 366 + 1 \<le> y" "days_before_year y < n" "n \<le> days_before_year (Suc y)"
    using year_from_spec [OF _ start_year [OF assms(1)], of n] y by simp_all
  have y1: "1 \<le> y" using ys(1) by simp
  have "y < 10000"
  proof (rule ccontr)
    assume "\<not> y < 10000"
    then have "days_before_year 10000 \<le> days_before_year y"
      using days_before_year_mono [of 10000 y] by (cases "y = 10000") auto
    with ys(2) assms(2) show False by (simp add: days_before_year_def)
  qed
  have r: "?r \<le> days_before_month y 13" "0 < ?r"
    using ys(2,3) days_before_year_Suc [OF y1] unfolding days_in_year by (auto split: if_splits)
  have "days_before_month y 1 = 0" by (simp add: days_before_month_def)
  with month_from_spec [of 1 y ?r 11] r m
  have ms: "1 \<le> m" "m \<le> 12" "days_before_month y m < ?r" "?r \<le> days_before_month y (Suc m)" by simp_all
  have "days_before_month y (Suc m) = days_before_month y m + days_in_month y m"
    by (rule days_before_month_Suc [OF ms(1)])
  with ms(4) have le: "?r \<le> days_before_month y m + days_in_month y m" by simp
  have "1 \<le> d" "d \<le> days_in_month y m" "days_before_year y + days_before_month y m + d = n"
    using ms(3) le d ys(2) by linarith+
  with ms(1,2) y1 \<open>y < 10000\<close> show ?thesis by blast
qed

lemma dt_of_instant_parts:
  assumes "first_day \<le> i" "i < 3652060 * first_day"
  shows "datetime_ok (dt_of_instant i)" and "instant (dt_of_instant i) = i"
proof -
  let ?us = "nat i" let ?s = "?us div 1000000" let ?mi = "?s div 60" let ?h = "?mi div 60"
  obtain y m d where ymd: "date_of_ordinal (?h div 24) = (y, m, d)" by (metis prod_cases3)
  have h: "?h div 24 = ?us div 86400000000" by (simp add: div_mult2_eq [symmetric])
  have "86400000000 \<le> ?us" "?us < 3652060 * 86400000000"
    using assms by (simp_all add: first_day_def)
  then have "1 \<le> ?h div 24" "?h div 24 \<le> 3652059"
    unfolding h by (simp_all add: div_greater_zero_iff Suc_le_eq less_Suc_eq_le [symmetric] less_mult_imp_div_less)
  from date_of_ordinal_spec [OF this ymd]
  have ok: "1 \<le> y" "y < 10000" "1 \<le> m" "m \<le> 12" "1 \<le> d" "d \<le> days_in_month y m"
      "days_before_year y + days_before_month y m + d = ?h div 24" by simp_all
  have D: "dt_of_instant i = \<lparr>year = y, month = m, day = d, hour = ?h mod 24, minute = ?mi mod 60,
      second = ?s mod 60, microsecond = ?us mod 1000000\<rparr>"
    by (simp add: dt_of_instant_def ymd Let_def)
  have "d \<le> 31" using ok(6) by (auto simp: days_in_month_def split: if_splits)
  with ok show "datetime_ok (dt_of_instant i)" by (simp add: D datetime_ok_def)
  have "ordinal (dt_of_instant i) = ?h div 24" using ok(7) by (simp add: D ordinal_def)
  then have "(((ordinal (dt_of_instant i) * 24 + hour (dt_of_instant i)) * 60 + minute (dt_of_instant i)) * 60 +
      second (dt_of_instant i)) * 1000000 + microsecond (dt_of_instant i) = ?us"
    by (simp add: D)
  moreover have "int ?us = i" using assms by (simp add: first_day_def)
  ultimately show "instant (dt_of_instant i) = i" unfolding instant_nat by (simp only:)
qed

lemma minus_microseconds_spec:
  assumes "minus_microseconds d us = Inr s"
  shows "datetime_ok s \<and> instant s = instant d - us"
  using assms dt_of_instant_parts [of "instant d - us"]
  by (auto simp: minus_microseconds_def split: if_splits)

lemma minus_zero:
  assumes "datetime_ok d" "minus_microseconds d 0 = Inr s"
  shows "s = d"
proof -
  have "datetime_ok s" "instant s = instant d" using minus_microseconds_spec [OF assms(2)] by simp_all
  then have "dt_key s = dt_key d"
    using instant_less [of s d] instant_less [of d s] assms(1)
    by (metis less_irrefl linorder_neqE_nat)
  with dt_key_inj [of s d] assms(1) \<open>datetime_ok s\<close> show ?thesis by simp
qed

end
