(* ===== verification/Attribution_V3.thy ===== *)
theory Attribution_V3
  imports Attribution_Parts Calendar Job_Observations
begin

text \<open>
  The conversion of a stored event to an attribution-v3 observation
  (\<open>attribution/v3_convert.py\<close>). The result is a sum: the exception the conversion raises,
  or the observation, or None when the event cannot be represented.

  SHA-256 and the JSON-Schema validator are arguments, as for the provider jobs.
\<close>

section \<open>Numbers and texts\<close>

text \<open>\<open>float(d)\<close>, as far as \<open>is_integer\<close> and \<open>int\<close> look at it: the nearest double, ties to
  even, with subnormal numbers, if it is a finite integer.\<close>

fun bit_length :: "nat \<Rightarrow> nat" where
  "bit_length n = (if n = 0 then 0 else Suc (bit_length (n div 2)))"

declare bit_length.simps [simp del]

definition nearest :: "nat \<Rightarrow> nat \<Rightarrow> nat" where
  "nearest num den =
     (let q = num div den; r = num mod den
      in if den < 2 * r \<or> (2 * r = den \<and> odd q) then q + 1 else q)"

definition double_parts :: "nat \<Rightarrow> nat \<Rightarrow> nat \<times> int" where
  "double_parts num den =
     (let scaled = (\<lambda>e::int. if 0 \<le> e then (num, den * 2 ^ nat e) else (num * 2 ^ nat (- e), den));
          e0 = int (bit_length num) - int (bit_length den) - 53;
          e1 = (if (case scaled e0 of (a, b) \<Rightarrow> b * 2 ^ 53 \<le> a) then e0 + 1 else e0);
          e = max e1 (- 1074)
      in (case scaled e of (a, b) \<Rightarrow> nearest a b, e))"

definition float_integer :: "dec \<Rightarrow> int option" where
  "float_integer d =
     (let num = nat \<bar>coeff d\<bar> * 10 ^ nat (expo d); den = 10 ^ nat (- expo d);
          (m, e) = double_parts num den
      in if num = 0 then Some 0
         else if 0 \<le> e then (if 2 ^ 1024 \<le> m * 2 ^ nat e then None else Some (sgn (coeff d) * int (m * 2 ^ nat e)))
         else if m mod 2 ^ nat (- e) = 0 then Some (sgn (coeff d) * int (m div 2 ^ nat (- e)))
         else None)"

definition hex_lower :: "char \<Rightarrow> bool" where
  "hex_lower c \<longleftrightarrow> c \<in> set ''0123456789abcdef''"

text \<open>The expression \<open>_UUID\<close>, which ignores case.\<close>

definition uuid_shape :: "string \<Rightarrow> bool" where
  "uuid_shape s \<longleftrightarrow>
     (let t = py_lower s
      in length s = 36 \<and>
         list_all (\<lambda>i. if i \<in> set [8, 13, 18, 23] then t ! i = CHR ''-'' else hex_lower (t ! i)) [0..<36] \<and>
         t ! 14 \<in> set ''12345'' \<and> t ! 19 \<in> set ''89ab'')"

text \<open>The expressions \<open>_INTEGER\<close> and \<open>_DECIMAL\<close>.\<close>

definition whole_number :: "string \<Rightarrow> bool" where
  "whole_number s \<longleftrightarrow> s = ''0'' \<or>
     (s \<noteq> [] \<and> hd s \<noteq> CHR ''0'' \<and> length s \<le> 26 \<and> list_all is_digit s)"

definition unsigned :: "string \<Rightarrow> string" where
  "unsigned s = (if take 1 s = ''-'' then drop 1 s else s)"

definition integer_text :: "string \<Rightarrow> bool" where
  "integer_text s \<longleftrightarrow> whole_number (unsigned s)"

definition decimal_shape :: "string \<Rightarrow> bool" where
  "decimal_shape s \<longleftrightarrow>
     (let t = unsigned s; fp = dropWhile (\<lambda>c. c \<noteq> CHR ''.'') t
      in whole_number (takeWhile (\<lambda>c. c \<noteq> CHR ''.'') t) \<and>
         (fp = [] \<or> (2 \<le> length fp \<and> length fp \<le> 13 \<and> list_all is_digit (tl fp))))"

definition normalized_environment :: "json \<Rightarrow> string option" where
  "normalized_environment v =
     (case v of
        JStr s \<Rightarrow> (let c = py_lower (py_strip s)
                   in if canonical_name c \<and> length c \<le> 64 then Some c else None)
      | _ \<Rightarrow> None)"

section \<open>Dimensions\<close>

text \<open>Billing dimensions: the key and the typed value.\<close>

type_synonym dimensions = "(string \<times> json) list"

definition typed_value :: "string \<Rightarrow> json \<Rightarrow> json" where
  "typed_value kind v = JObj [(''type'', JStr kind), (''value'', v)]"

definition parse_dimension_value :: "json \<Rightarrow> json option" where
  "parse_dimension_value v =
     (case v of
        JObj d \<Rightarrow>
          (case (dict_get d ''type'', dict_get d ''value'') of
             (JStr kind, JStr s) \<Rightarrow>
               if kind = ''string'' \<and> 1 \<le> length s \<and> length s \<le> 256 \<or>
                  kind = ''integer'' \<and> integer_text s \<or> kind = ''decimal'' \<and> decimal_shape s
               then Some (typed_value kind (JStr s)) else None
           | (JStr kind, JBool b) \<Rightarrow> if kind = ''boolean'' then Some (typed_value kind (JBool b)) else None
           | _ \<Rightarrow> None)
      | _ \<Rightarrow> None)"

fun parse_dimensions :: "json list \<Rightarrow> dimensions option" where
  "parse_dimensions [] = Some []"
| "parse_dimensions (c # cs) =
     (case c of
        JObj d \<Rightarrow>
          (case (dict_get d ''key'', parse_dimension_value (dict_get d ''value'')) of
             (JStr key, Some v) \<Rightarrow>
               if canonical_name key then map_option (\<lambda>ds. (key, v) # ds) (parse_dimensions cs) else None
           | _ \<Rightarrow> None)
      | _ \<Rightarrow> None)"

definition explicit_dimensions :: "obj \<Rightarrow> dimensions option" where
  "explicit_dimensions details =
     (case dict_get details ''attribution_dimensions'' of
        JNull \<Rightarrow> Some []
      | JArr cs \<Rightarrow> if 24 < length cs then None else map_option (sort_key fst) (parse_dimensions cs)
      | _ \<Rightarrow> None)"

definition is_gpu_signal :: "event \<Rightarrow> bool" where
  "is_gpu_signal e \<longleftrightarrow> ev_type e = ''gpu_utilization_signal''"

definition gpu_signal_dimensions :: "obj \<Rightarrow> dimensions" where
  "gpu_signal_dimensions d =
     (case Option.bind (decimal_detail d [''gpu_index'']) float_integer of
        None \<Rightarrow> []
      | Some i \<Rightarrow> if 0 \<le> i then [(''gpu_index'', typed_value ''integer'' (JStr (show_int i)))] else []) @
     (case string_detail d [''gpu_sku''] of
        None \<Rightarrow> []
      | Some s \<Rightarrow> [(''gpu_sku'', typed_value ''string'' (JStr (take 256 s)))])"

definition v3_dimensions :: "event \<Rightarrow> dimensions option" where
  "v3_dimensions e =
     map_option (\<lambda>ds. if is_gpu_signal e then sort_key fst (ds @ gpu_signal_dimensions (ev_details e)) else ds)
       (explicit_dimensions (ev_details e))"

definition dimensions_json :: "dimensions \<Rightarrow> json" where
  "dimensions_json ds = JArr (map (\<lambda>(k, v). JObj [(''key'', JStr k), (''value'', v)]) ds)"

section \<open>Usage\<close>

definition gpu_signal_meters :: "obj \<Rightarrow> meter list" where
  "gpu_signal_meters d =
     compact_usage (map (\<lambda>(metric, key, unit).
         map_option (\<lambda>q. \<lparr>mt_metric = metric, mt_quantity = q, mt_unit = unit\<rparr>) (positive_value (dict_get d key)))
       [(''gpu.sm_utilization_percent'', ''sm_util_pct'', ''Percent''),
        (''gpu.memory_utilization_percent'', ''mem_util_pct'', ''Percent''),
        (''gpu.vram_peak_bytes'', ''vram_used_peak_bytes'', ''Bytes''),
        (''gpu.vram_capacity_bytes'', ''vram_total_bytes'', ''Bytes''),
        (''gpu.process_count'', ''process_count'', ''Processes''),
        (''gpu.sample_count'', ''sample_count'', ''Samples'')])"

definition gpu_signal_usage :: "event \<Rightarrow> mapped_usage" where
  "gpu_signal_usage e =
     (''gpu'', gpu_signal_meters (ev_details e),
      (case decimal_detail (ev_details e) [''task_duration_ms''] of
         None \<Rightarrow> None
       | Some ms \<Rightarrow> if 0 < coeff ms then Some (div_by ms thousand) else None))"

fun parse_meters :: "(string \<times> string) list \<Rightarrow> json list \<Rightarrow> meter list option" where
  "parse_meters seen [] = Some []"
| "parse_meters seen (l # ls) =
     (case l of
        JObj d \<Rightarrow>
          (case (dict_get d ''metric'', dict_get d ''unit'', positive_value (dict_get d ''quantity'')) of
             (JStr metric, JStr unit, Some q) \<Rightarrow>
               if canonical_name metric \<and> unit_name unit \<and> (metric, unit) \<notin> set seen
               then map_option (\<lambda>ms. \<lparr>mt_metric = metric, mt_quantity = q, mt_unit = unit\<rparr> # ms)
                      (parse_meters ((metric, unit) # seen) ls)
               else None
           | _ \<Rightarrow> None)
      | _ \<Rightarrow> None)"

definition explicit_usage_lines :: "event \<Rightarrow> meter list option" where
  "explicit_usage_lines e =
     (case dict_get (ev_details e) ''attribution_usage_lines'' of
        JArr ls \<Rightarrow> if 1 \<le> length ls \<and> length ls \<le> 32 then parse_meters [] ls else None
      | _ \<Rightarrow> None)"

definition unknown_explicit_usage :: "event \<Rightarrow> mapped_usage option" where
  "unknown_explicit_usage e =
     (let d = ev_details e
      in case (string_detail d [''attribution_usage_metric''], string_detail d [''attribution_usage_unit''],
               positive_value (dict_get d ''attribution_usage_quantity'')) of
           (Some metric, Some unit, Some q) \<Rightarrow>
             if ev_type e = ''external_cost'' \<and> map_of unit_by_metric metric = None \<and> canonical_name metric \<and>
                unit_name unit
             then Some (''external'', [\<lparr>mt_metric = metric, mt_quantity = q, mt_unit = unit\<rparr>],
                        decimal_detail d [''attribution_usage_duration_seconds''])
             else None
         | _ \<Rightarrow> None)"

text \<open>Which of the four sources of usage an event has: native lines of the provider, a GPU sample, one
  meter of an unknown service, or the fixed projection.\<close>

definition v3_usage :: "event \<Rightarrow> mapped_usage option" where
  "v3_usage e =
     (let legacy = (if is_gpu_signal e then None else component_and_usage e);
          seconds = decimal_detail (ev_details e) [''attribution_usage_duration_seconds'']
      in if has_key ''attribution_usage_lines'' (ev_details e)
         then map_option
                (\<lambda>ms. case legacy of
                    None \<Rightarrow> (''external'', ms, (case seconds of None \<Rightarrow> None | Some s \<Rightarrow> if coeff s = 0 then None else Some s))
                  | Some (c, _, s') \<Rightarrow>
                      (c, ms, (case seconds of None \<Rightarrow> s' | Some s \<Rightarrow> if coeff s = 0 then s' else Some s)))
                (explicit_usage_lines e)
         else if is_gpu_signal e then Some (gpu_signal_usage e)
         else (case unknown_explicit_usage e of Some u \<Rightarrow> Some u | None \<Rightarrow> legacy))"

definition attribution_components :: "string list" where
  "attribution_components =
     [''llm'', ''telephony'', ''voice_platform'', ''speech_to_text'', ''text_to_speech'',
      ''realtime_transport'', ''recording'', ''post_call_analysis'', ''compute'', ''gpu'', ''network'',
      ''storage'', ''external'']"

definition selected_component :: "event \<Rightarrow> string \<Rightarrow> string option" where
  "selected_component e fallback =
     (case string_detail (ev_details e) [''attribution_component''] of
        None \<Rightarrow> Some fallback
      | Some c \<Rightarrow> if c \<in> set attribution_components then Some c else None)"

definition v3_line_id :: "digest_fun \<Rightarrow> string \<Rightarrow> dimensions \<Rightarrow> meter \<Rightarrow> uuid" where
  "v3_line_id sha event_id ds m =
     deterministic_uuid sha ''dexcost:attribution-usage-line:v3''
       [event_id, mt_metric m, mt_unit m, json_dump False '','' '':'' (dimensions_json ds)]"

definition v3_line :: "digest_fun \<Rightarrow> string \<Rightarrow> dimensions \<Rightarrow> meter \<Rightarrow> json" where
  "v3_line sha event_id ds m =
     JObj [(''line_id'', JStr (v3_line_id sha event_id ds m)), (''metric'', JStr (mt_metric m)),
           (''quantity'', JStr (mt_quantity m)), (''unit'', JStr (mt_unit m)),
           (''dimensions'', dimensions_json ds)]"

section \<open>The operation\<close>

definition operation_names :: "(string \<times> string) list" where
  "operation_names =
     [(''llm_call'', ''llm.call''), (''external_cost'', ''external.call''),
      (''compute_cost'', ''compute.consume''), (''gpu_cost'', ''gpu.consume''),
      (''gpu_utilization_signal'', ''gpu.observe''), (''network'', ''network.transfer''),
      (''retry_marker'', ''retry.attempt'')]"

definition operation_name :: "event \<Rightarrow> string" where
  "operation_name e =
     (let fallback = (case map_of operation_names (ev_type e) of None \<Rightarrow> ''external.call'' | Some n \<Rightarrow> n)
      in case string_detail (ev_details e) [''attribution_operation_name''] of
           None \<Rightarrow> fallback
         | Some n \<Rightarrow> if canonical_name n then n else fallback)"

definition event_status :: "event \<Rightarrow> string" where
  "event_status e =
     (let explicit = text_of (string_detail (ev_details e) [''attribution_operation_status''])
      in if explicit \<in> set [''in_progress'', ''succeeded'', ''failed'', ''cancelled'', ''unknown''] then explicit
         else if is_gpu_signal e then ''unknown''
         else if ev_type e = ''retry_marker'' \<or> string_detail (ev_details e) [''error_type''] \<noteq> None
         then ''failed'' else ''succeeded'')"

fun error_code :: "obj \<Rightarrow> string list \<Rightarrow> string option" where
  "error_code d [] = None"
| "error_code d (k # ks) =
     (let code = (case dict_get d k of JStr s \<Rightarrow> py_strip s | JInt i \<Rightarrow> show_int i | _ \<Rightarrow> [])
      in if code \<noteq> [] then Some (take 64 code) else error_code d ks)"

definition event_error :: "obj \<Rightarrow> obj option" where
  "event_error d =
     (case string_detail d [''attribution_error_type'', ''error_type''] of
        None \<Rightarrow> None
      | Some raw \<Rightarrow>
          (let s = map (\<lambda>c. if canonical_char c then c else CHR ''_'') (py_lower (py_strip raw));
               t = take 127 (dropWhile (\<lambda>c. \<not> is_lower_alnum c) s)
           in if canonical_name t
              then Some ((''type'', JStr t) # opt_item ''code'' (error_code d [''attribution_error_code'', ''error_code'']))
              else None))"

definition max_latency_ms :: int where "max_latency_ms = 86400000"

definition latency_of :: "event \<Rightarrow> int option" where
  "latency_of e =
     map_option (\<lambda>n. max 0 (min n max_latency_ms))
       (case ev_latency_ms e of
          Some n \<Rightarrow> Some n
        | None \<Rightarrow> map_option dec_half_up (decimal_detail (ev_details e) [''latency_ms'']))"

definition event_trace :: "obj \<Rightarrow> obj option" where
  "event_trace d =
     (case (string_detail d [''trace_id''], string_detail d [''span_id'']) of
        (Some t, Some s) \<Rightarrow>
          if length t = 32 \<and> list_all hex_lower (py_lower t) \<and> length s = 16 \<and> list_all hex_lower (py_lower s)
          then Some [(''trace_id'', JStr (py_lower t)), (''span_id'', JStr (py_lower s))] else None
      | _ \<Rightarrow> None)"

definition opt_obj :: "string \<Rightarrow> obj option \<Rightarrow> obj" where
  "opt_obj k x = (case x of None \<Rightarrow> [] | Some d \<Rightarrow> [(k, JObj d)])"

text \<open>The number of the attempt, when it is a positive 32-bit integer.\<close>

definition attempt_number :: "obj \<Rightarrow> int option" where
  "attempt_number d =
     (case Option.bind (decimal_detail d [''attribution_attempt_number'']) dec_integral of
        None \<Rightarrow> None
      | Some n \<Rightarrow> if 0 < n \<and> n \<le> 2147483647 then Some n else None)"

text \<open>A text that looks like a UUID, in lower case, or the id of the event.\<close>

definition uuid_detail :: "event \<Rightarrow> string \<Rightarrow> uuid" where
  "uuid_detail e k =
     (case string_detail (ev_details e) [k] of
        None \<Rightarrow> py_lower (ev_id e)
      | Some s \<Rightarrow> if uuid_shape s then py_lower s else py_lower (ev_id e))"

definition lineage_ok :: "event \<Rightarrow> bool" where
  "lineage_ok e \<longleftrightarrow>
     (case ev_retry_of e of
        None \<Rightarrow> True
      | Some r \<Rightarrow> uuid_shape r \<and>
          (case string_detail (ev_details e) [''attribution_operation_id''] of
             None \<Rightarrow> False | Some s \<Rightarrow> uuid_shape s) \<and>
          (case attempt_number (ev_details e) of None \<Rightarrow> False | Some n \<Rightarrow> 1 < n))"

definition event_attempt :: "event \<Rightarrow> obj" where
  "event_attempt e =
     [(''id'', JStr (uuid_detail e ''attribution_attempt_id'')),
      (''number'', JInt (case attempt_number (ev_details e) of None \<Rightarrow> 1 | Some n \<Rightarrow> n))] @
     opt_item ''retry_of'' (map_option py_lower (ev_retry_of e))"

definition operation_for :: "event \<Rightarrow> obj option" where
  "operation_for e =
     (if \<not> lineage_ok e then None
      else Some
        ([(''id'', JStr (uuid_detail e ''attribution_operation_id'')), (''name'', JStr (operation_name e)),
          (''status'', JStr (event_status e)), (''attempt'', JObj (event_attempt e))] @
         (if event_status e = ''succeeded'' then [] else opt_obj ''error'' (event_error (ev_details e))) @
         opt_int_item ''latency_ms'' (latency_of e) @
         opt_obj ''trace'' (event_trace (ev_details e))))"

section \<open>The observation\<close>

definition resource_for_v3 :: "event \<Rightarrow> (string \<times> string) option" where
  "resource_for_v3 e =
     (case string_detail (ev_details e) [''attribution_resource_id''] of
        Some i \<Rightarrow>
          if string_detail (ev_details e) [''attribution_resource_type''] = Some ''tool''
          then Some (''tool'', take 256 i) else resource_for e
      | None \<Rightarrow> resource_for e)"

definition capability_for_v3 :: "event \<Rightarrow> obj option" where
  "capability_for_v3 e =
     (case dict_get (ev_details e) ''attribution_capability'' of
        JObj d \<Rightarrow> (case capability_from_dict (JObj d) of Inl err \<Rightarrow> None | Inr c \<Rightarrow> Some (capability_to_dict c))
      | _ \<Rightarrow> None)"

definition time_based :: "meter \<Rightarrow> bool" where
  "time_based m \<longleftrightarrow> map_of unit_by_metric (mt_metric m) = Some (mt_unit m) \<and> ends_with (mt_unit m) ''Seconds''"

definition has_period :: "meter list \<Rightarrow> dec option \<Rightarrow> bool" where
  "has_period ms seconds \<longleftrightarrow> list_ex time_based ms \<or> (case seconds of None \<Rightarrow> False | Some s \<Rightarrow> 0 \<le> coeff s)"

definition offset_microseconds :: "dec option \<Rightarrow> int" where
  "offset_microseconds seconds =
     (case seconds of
        None \<Rightarrow> 0 | Some s \<Rightarrow> if 0 < coeff s then dec_half_up (dec_mul s (Dec 1000000 0)) else 0)"

definition usage_period :: "event \<Rightarrow> meter list \<Rightarrow> dec option \<Rightarrow> py_error + obj option" where
  "usage_period e ms seconds =
     (if has_period ms seconds
      then (case minus_microseconds (ev_occurred_at e) (offset_microseconds seconds) of
              Inl err \<Rightarrow> Inl err
            | Inr s \<Rightarrow> Inr (Some [(''start_at'', JStr (iso_canonical s)),
                                (''end_at'', JStr (iso_canonical (ev_occurred_at e)))]))
      else Inr None)"

definition assemble ::
  "digest_fun \<Rightarrow> string option \<Rightarrow> event \<Rightarrow> string \<Rightarrow> meter list \<Rightarrow> dimensions \<Rightarrow> obj \<Rightarrow> obj option \<Rightarrow> obj" where
  "assemble sha environment e component ms ds operation period =
     [(''schema_version'', JStr ''3''), (''event_id'', JStr (py_lower (ev_id e))),
      (''task_id'', JStr (py_lower (ev_task_id e))),
      (''occurred_at'', JStr (iso_canonical (ev_occurred_at e))),
      (''observed_at'', JStr (iso_canonical (ev_occurred_at e))),
      (''component'', JStr component), (''provider'', JObj (provider_for e)),
      (''operation'', JObj operation),
      (''lifecycle'', JObj [(''state'', JStr ''final''), (''revision'', JInt 1)]),
      (''usage_snapshot'', JStr ''full''),
      (''usage'', JArr (map (v3_line sha (py_lower (ev_id e)) ds) ms))] @
     opt_item ''environment'' (normalized_environment (opt_str environment)) @
     (case resource_for_v3 e of None \<Rightarrow> []
      | Some (t, i) \<Rightarrow> [(''resource'', JObj [(''type'', JStr t), (''id'', JStr i)])]) @
     opt_obj ''capability'' (capability_for_v3 e) @
     (if is_gpu_signal e then [] else opt_obj ''cost_evidence'' (map_option evidence_to_dict (evidence_for True e))) @
     opt_obj ''usage_period'' period"

text \<open>The observation before its validation.\<close>

definition draft_v3 :: "digest_fun \<Rightarrow> string option \<Rightarrow> event \<Rightarrow> py_error + obj option" where
  "draft_v3 sha environment e =
     (case v3_usage e of None \<Rightarrow> Inr None | Some (component, ms, seconds) \<Rightarrow>
      case (v3_dimensions e, selected_component e component, operation_for e) of
        (Some ds, Some c, Some operation) \<Rightarrow>
          (case usage_period e ms seconds of
             Inl err \<Rightarrow> Inl err
           | Inr period \<Rightarrow> Inr (Some (assemble sha environment e c ms ds operation period)))
      | _ \<Rightarrow> Inr None)"

definition to_observation_v3 ::
  "(json \<Rightarrow> issue list) \<Rightarrow> digest_fun \<Rightarrow> string option \<Rightarrow> event \<Rightarrow> py_error + obj option" where
  "to_observation_v3 schema_issues sha environment e =
     (case draft_v3 sha environment e of
        Inl err \<Rightarrow> Inl err
      | Inr None \<Rightarrow> Inr None
      | Inr (Some d) \<Rightarrow>
          (case validate_v3 schema_issues (JObj d) of
             Inl err \<Rightarrow> Inl err
           | Inr (ok, issues) \<Rightarrow> Inr (if ok then Some d else None)))"

section \<open>What the worker sends\<close>

text \<open>\<open>_prepare_event_dict\<close> of the worker: the conversion sees only what is not redacted.\<close>

definition redact_dimensions :: "string list \<Rightarrow> obj \<Rightarrow> obj" where
  "redact_dimensions names d =
     (case dict_get d ''attribution_dimensions'' of
        JArr cs \<Rightarrow> dict_set d ''attribution_dimensions'' (JArr (filter
          (\<lambda>c. case c of JObj kvs \<Rightarrow> \<not> list_ex (\<lambda>n. dict_get kvs ''key'' = JStr n) names | _ \<Rightarrow> True) cs))
      | _ \<Rightarrow> d)"

definition sanitized :: "string list \<Rightarrow> event \<Rightarrow> event" where
  "sanitized names e =
     (if names = [] then e
      else e\<lparr>ev_details := redact_dimensions names (redact_dict (ev_details e) names)\<rparr>)"

definition prepare_event_dict ::
  "(json \<Rightarrow> issue list) \<Rightarrow> digest_fun \<Rightarrow> string option \<Rightarrow> privacy \<Rightarrow> event \<Rightarrow> py_error + obj option" where
  "prepare_event_dict schema_issues sha environment pv e =
     to_observation_v3 schema_issues sha environment (sanitized (pv_redact pv) e)"

end
