(* ===== verification/Attribution_Facts.thy ===== *)
theory Attribution_Facts
  imports Attribution_V3
begin

text \<open>
  What the conversion of events guarantees: which drafts the validator accepts, when the
  conversion raises, the identifiers and quantities it puts on the wire, and that redacted
  details do not reach it.
\<close>

section \<open>Items of an observation\<close>

lemma dict_get_append: "dict_get (xs @ ys) k = (if k \<in> fst ` set xs then dict_get xs k else dict_get ys k)"
  by (induction xs) (auto simp: dict_get_def)

lemma opt_item_keys: "fst ` set (opt_item k x) = (if x = None then {} else {k})"
  by (cases x) (simp_all add: opt_item_def)

lemma opt_obj_keys: "fst ` set (opt_obj k x) = (if x = None then {} else {k})"
  by (cases x) (simp_all add: opt_obj_def)

lemma opt_int_keys: "fst ` set (opt_int_item k x) = (if x = None then {} else {k})"
  by (cases x) (simp_all add: opt_int_item_def)

lemma dict_get_opt_obj: "dict_get (opt_obj k x) k' = (case x of None \<Rightarrow> JNull | Some d \<Rightarrow> if k' = k then JObj d else JNull)"
  by (simp add: opt_obj_def dict_get_def split: option.split)

lemma has_key_append: "has_key k (xs @ ys) \<longleftrightarrow> has_key k xs \<or> has_key k ys"
  by (auto simp: has_key_def)

lemma has_key_opt: "has_key k (opt_obj k' x) \<longleftrightarrow> k = k' \<and> x \<noteq> None"
  "has_key k (opt_item k' y) \<longleftrightarrow> k = k' \<and> y \<noteq> None"
  "has_key k (opt_int_item k' z) \<longleftrightarrow> k = k' \<and> z \<noteq> None"
  by (auto simp: has_key_def opt_obj_def opt_item_def opt_int_item_def split: option.splits)

text \<open>The evidence that is put into an observation.\<close>

definition sent_evidence :: "event \<Rightarrow> evidence option" where
  "sent_evidence e = (if is_gpu_signal e then None else evidence_for True e)"

lemma assemble_split:
  "assemble sha env e c ms ds op period =
     [(''schema_version'', JStr ''3''), (''event_id'', JStr (py_lower (ev_id e))),
      (''task_id'', JStr (py_lower (ev_task_id e))),
      (''occurred_at'', JStr (iso_canonical (ev_occurred_at e))),
      (''observed_at'', JStr (iso_canonical (ev_occurred_at e))),
      (''component'', JStr c), (''provider'', JObj (provider_for e)), (''operation'', JObj op),
      (''lifecycle'', JObj [(''state'', JStr ''final''), (''revision'', JInt 1)]),
      (''usage_snapshot'', JStr ''full''),
      (''usage'', JArr (map (v3_line sha (py_lower (ev_id e)) ds) ms))] @
     opt_item ''environment'' (normalized_environment (opt_str env)) @
     opt_obj ''resource'' (map_option (\<lambda>(t, i). [(''type'', JStr t), (''id'', JStr i)]) (resource_for_v3 e)) @
     opt_obj ''capability'' (capability_for_v3 e) @
     opt_obj ''cost_evidence'' (map_option evidence_to_dict (sent_evidence e)) @
     opt_obj ''usage_period'' period"
  by (simp add: assemble_def sent_evidence_def opt_obj_def split: option.split)

lemma assemble_gets:
  "dict_get (assemble sha env e c ms ds op period) ''event_id'' = JStr (py_lower (ev_id e))"
  "dict_get (assemble sha env e c ms ds op period) ''occurred_at'' = JStr (iso_canonical (ev_occurred_at e))"
  "dict_get (assemble sha env e c ms ds op period) ''observed_at'' = JStr (iso_canonical (ev_occurred_at e))"
  "dict_get (assemble sha env e c ms ds op period) ''provider'' = JObj (provider_for e)"
  "dict_get (assemble sha env e c ms ds op period) ''operation'' = JObj op"
  "dict_get (assemble sha env e c ms ds op period) ''lifecycle'' =
     JObj [(''state'', JStr ''final''), (''revision'', JInt 1)]"
  "dict_get (assemble sha env e c ms ds op period) ''usage'' =
     JArr (map (v3_line sha (py_lower (ev_id e)) ds) ms)"
  unfolding assemble_split by (simp_all add: item_simps)

lemma assemble_optional:
  "dict_get (assemble sha env e c ms ds op period) ''cost_evidence'' =
     (case sent_evidence e of None \<Rightarrow> JNull | Some v \<Rightarrow> JObj (evidence_to_dict v))"
  "dict_get (assemble sha env e c ms ds op period) ''usage_period'' =
     (case period of None \<Rightarrow> JNull | Some p \<Rightarrow> JObj p)"
  unfolding assemble_split
  by (simp_all add: item_simps dict_get_append opt_item_keys opt_obj_keys dict_get_opt_obj split: option.split)

section \<open>Positive quantities\<close>

lemma half_up_sign: "0 \<le> c \<Longrightarrow> 0 \<le> half_up k c"
  by (auto simp: half_up_def Let_def sgn_if)

lemma positive_quantity_value:
  assumes "positive_quantity d = Some s"
  obtains q where "s = canonical_decimal q" "0 < coeff q" "- 12 \<le> expo q"
    "q = d \<or> expo d < - 12 \<and> quantize_12 d = Some q"
  using assms
  by (cases "expo d < - 12") (auto simp: positive_quantity_def quantize_12_def Let_def split: if_splits option.splits)

lemma positive_not_zero: "positive_quantity d = Some s \<Longrightarrow> s \<noteq> ''0''"
  by (erule positive_quantity_value) (simp add: canonical_zero)

section \<open>Cost evidence\<close>

definition sound_evidence :: "evidence \<Rightarrow> bool" where
  "sound_evidence c \<longleftrightarrow>
     (cv_amount c = ''0'' \<longrightarrow> cv_source c = ''provider_reported'' \<and> cv_confidence c = ''exact'') \<and>
     (cv_source c = ''provider_reported'' \<longrightarrow> cv_confidence c \<in> {''exact'', ''estimated''}) \<and>
     (cv_source c \<in> {''sdk_catalog'', ''sdk_rate_registry''} \<longrightarrow>
        cv_confidence c \<noteq> ''exact'' \<and> cv_version c \<notin> {None, Some []})"

lemma sdk_evidence_cases:
  assumes "sdk_evidence e = Some c"
  shows "cv_amount c \<noteq> ''0''"
    and "cv_source c = ''manual'' \<or>
      cv_source c = ''provider_reported'' \<and> cv_confidence c \<in> {''exact'', ''estimated''} \<or>
      cv_source c \<in> {''sdk_catalog'', ''sdk_rate_registry''} \<and> cv_confidence c \<noteq> ''exact'' \<and>
      cv_version c \<notin> {None, Some []}"
proof -
  obtain amount where a: "positive_quantity (ev_cost e) = Some amount"
    using assms by (auto simp: sdk_evidence_def split: option.splits)
  note sdk = assms [unfolded sdk_evidence_def a option.case Let_def]
  have "cv_amount c = amount" using sdk by (cases c) (simp split: if_splits)
  with positive_not_zero [OF a] show "cv_amount c \<noteq> ''0''" by simp
  have cat: "\<And>s y. catalog_evidence s = Some y \<Longrightarrow> y = ''sdk_catalog'' \<or> y = ''sdk_rate_registry''"
    by (simp add: catalog_evidence_def split: if_splits)
  have ver: "\<And>v. text_of v \<noteq> [] \<Longrightarrow> v \<noteq> None \<and> v \<noteq> Some []"
    by (auto simp: text_of_def split: option.splits)
  show "cv_source c = ''manual'' \<or>
      cv_source c = ''provider_reported'' \<and> cv_confidence c \<in> {''exact'', ''estimated''} \<or>
      cv_source c \<in> {''sdk_catalog'', ''sdk_rate_registry''} \<and> cv_confidence c \<noteq> ''exact'' \<and>
      cv_version c \<notin> {None, Some []}"
    using sdk by (auto split: if_split_asm dest: cat ver)
qed

lemma sdk_evidence_sound: "sdk_evidence e = Some c \<Longrightarrow> sound_evidence c"
  by (frule sdk_evidence_cases(1), drule sdk_evidence_cases(2)) (auto simp: sound_evidence_def)

lemma evidence_sound: "evidence_for allow e = Some c \<Longrightarrow> sound_evidence c"
  by (auto simp: evidence_for_def sdk_evidence_sound split: option.splits if_splits)
    (auto simp: sound_evidence_def)

lemma sound_evidence_silent:
  assumes "sound_evidence c"
  shows "\<forall>r \<in> set (cost_issues (evidence_to_dict c)). r = Inr []"
proof -
  have get: "dict_get (evidence_to_dict c) ''amount'' = JStr (cv_amount c)"
      "dict_get (evidence_to_dict c) ''source'' = JStr (cv_source c)"
      "dict_get (evidence_to_dict c) ''confidence'' = JStr (cv_confidence c)"
      "dict_get (evidence_to_dict c) ''pricing_version'' = opt_str (cv_version c)"
    by (cases "cv_version c"; simp add: evidence_to_dict_def item_simps opt_item_def opt_str_def)+
  have names: "in_names (JStr s) ns = Inr (s \<in> set ns)" for s ns
    by (auto simp: in_names_def hashable_def)
  show ?thesis
    unfolding cost_issues_def get names using assms
    by (cases "cv_version c") (auto simp: sound_evidence_def issue_if_def opt_str_def split: bool.split)
qed

section \<open>Usage lines\<close>

lemma dimension_issues_iff:
  "dimension_issues i j (map JStr seen) (map (\<lambda>(k, v). JObj [(''key'', JStr k), (''value'', v)]) ds) = [] \<longleftrightarrow>
     distinct (map fst ds) \<and> set (map fst ds) \<inter> set seen = {}"
proof (induction ds arbitrary: j seen)
  case (Cons d ds)
  obtain k v where d: "d = (k, v)" by (cases d)
  show ?case
    using Cons.IH [of "Suc j" "k # seen"]
    by (auto simp: d as_dict_def dict_get_def seen_before_strings see_string issue_if_Nil_iff)
qed simp

definition registered_unit :: "meter \<Rightarrow> bool" where
  "registered_unit m \<longleftrightarrow> map_of unit_by_metric (mt_metric m) \<in> {None, Some (mt_unit m)}"

lemma v3_usage_issues_iff:
  "usage_issues i (map JStr seen) (map (v3_line sha u ds) ms) = [] \<longleftrightarrow>
     distinct (map (v3_line_id sha u ds) ms) \<and> set (map (v3_line_id sha u ds) ms) \<inter> set seen = {} \<and>
     (\<forall>m \<in> set ms. registered_unit m) \<and> (ms \<noteq> [] \<longrightarrow> distinct (map fst ds))"
proof (induction ms arbitrary: i seen)
  case (Cons m ms)
  have unit: "unit_issue i [(''line_id'', JStr (v3_line_id sha u ds m)), (''metric'', JStr (mt_metric m)),
      (''quantity'', JStr (mt_quantity m)), (''unit'', JStr (mt_unit m)), (''dimensions'', dimensions_json ds)] = []
      \<longleftrightarrow> registered_unit m"
    by (auto simp: unit_issue_def item_simps registered_unit_def issue_if_Nil_iff split: option.split)
  show ?case
    using Cons.IH [of "Suc i" "v3_line_id sha u ds m # seen"] dimension_issues_iff [of i 0 "[]" ds] unit
    by (auto simp: v3_line_def as_dict_def item_simps seen_before_strings see_string as_list_def dimensions_json_def
        issue_if_Nil_iff)
qed simp

section \<open>The operation\<close>

lemma operation_gets:
  assumes "operation_for e = Some op"
  shows "dict_get op ''attempt'' = JObj (event_attempt e)" and "dict_get op ''status'' = JStr (event_status e)"
    and "has_key ''error'' op \<Longrightarrow> event_status e \<noteq> ''succeeded''"
  using assms
  by (auto simp: operation_for_def item_simps has_key_append has_key_opt split: if_splits)

definition attempt_ok :: "event \<Rightarrow> bool" where
  "attempt_ok e \<longleftrightarrow>
     (case ev_retry_of e of
        None \<Rightarrow> (case attempt_number (ev_details e) of None \<Rightarrow> True | Some n \<Rightarrow> n = 1)
      | Some r \<Rightarrow> uuid_detail e ''attribution_attempt_id'' \<noteq> py_lower r)"

lemma attempt_number_range: "attempt_number d = Some n \<Longrightarrow> 1 \<le> n \<and> n \<le> 2147483647"
  by (auto simp: attempt_number_def split: option.splits if_splits)

lemma attempt_issues_iff:
  assumes "lineage_ok e"
  shows "attempt_issues (event_attempt e) = [] \<longleftrightarrow> attempt_ok e"
proof (cases "ev_retry_of e")
  case None
  then show ?thesis
    using attempt_number_range [of "ev_details e"]
    by (cases "attempt_number (ev_details e)")
      (force simp: attempt_issues_def event_attempt_def item_simps issue_if_Nil_iff attempt_ok_def opt_item_def)+
next
  case (Some r)
  with assms obtain n where "attempt_number (ev_details e) = Some n" "1 < n"
    by (auto simp: lineage_ok_def split: option.splits)
  with Some show ?thesis
    by (auto simp: attempt_issues_def event_attempt_def item_simps issue_if_Nil_iff attempt_ok_def opt_item_def)
qed

lemma operation_issues_iff:
  assumes "operation_for e = Some op"
  shows "operation_issues (Some op) = [] \<longleftrightarrow> attempt_ok e"
proof -
  have "lineage_ok e" using assms by (auto simp: operation_for_def split: if_splits)
  with attempt_issues_iff [of e] operation_gets [OF assms] show ?thesis
    by (auto simp: operation_issues_def as_dict_def issue_if_Nil_iff)
qed

section \<open>The validation of a draft\<close>

text \<open>What the validator asks of a draft beyond what the conversion sees to.\<close>

definition consistent :: "digest_fun \<Rightarrow> event \<Rightarrow> meter list \<Rightarrow> dimensions \<Rightarrow> bool" where
  "consistent sha e ms ds \<longleftrightarrow>
     event_status e \<noteq> ''in_progress'' \<and> (event_status e = ''succeeded'' \<longrightarrow> ms \<noteq> []) \<and> attempt_ok e \<and>
     (\<forall>m \<in> set ms. registered_unit m) \<and> (ms \<noteq> [] \<longrightarrow> distinct (map fst ds)) \<and>
     distinct (map (v3_line_id sha (py_lower (ev_id e)) ds) ms)"

lemma stamp_silent: "valid_dt d \<Longrightarrow> timestamp_issue (JStr (iso_canonical d)) p = Inr []"
  using timestamp_canonical by (simp add: timestamp_issue_def)

text \<open>The start of the period, when there is one, has a year of four digits.\<close>

definition plain_period :: "event \<Rightarrow> dec option \<Rightarrow> bool" where
  "plain_period e seconds \<longleftrightarrow>
     (case minus_microseconds (ev_occurred_at e) (offset_microseconds seconds) of
        Inl err \<Rightarrow> True | Inr s \<Rightarrow> 1000 \<le> year s)"

lemma offset_nonneg: "0 \<le> offset_microseconds seconds"
proof (cases seconds)
  case (Some s)
  have "0 < coeff s \<Longrightarrow> 0 \<le> coeff (dec_fix (Dec (coeff s * 1000000) (expo s)))"
    by (simp add: dec_fix_def Let_def)
  then have "0 < coeff s \<Longrightarrow> 0 \<le> dec_half_up (dec_mul s (Dec 1000000 0))"
    by (simp add: dec_half_up_def dec_mul_def half_up_sign)
  with Some show ?thesis by (simp add: offset_microseconds_def)
qed (simp add: offset_microseconds_def)

lemma usage_period_silent:
  assumes "valid_dt (ev_occurred_at e)" "plain_period e seconds" "usage_period e ms seconds = Inr period"
  shows "\<forall>r \<in> set (period_issues period). r = Inr []"
proof (cases period)
  case None
  then show ?thesis by (simp add: period_issues_def)
next
  case (Some p)
  then obtain s where s: "minus_microseconds (ev_occurred_at e) (offset_microseconds seconds) = Inr s"
      and p: "p = [(''start_at'', JStr (iso_canonical s)), (''end_at'', JStr (iso_canonical (ev_occurred_at e)))]"
    using assms(3) by (auto simp: usage_period_def split: if_splits sum.splits)
  from minus_microseconds_spec [OF s] assms(2) s
  have v: "valid_dt s" "instant s \<le> instant (ev_occurred_at e)"
    using offset_nonneg [of seconds] by (simp_all add: plain_period_def valid_dt_def)
  then show ?thesis
    using Some p assms(1) by (simp add: period_issues_def item_simps stamp_silent timestamp_canonical)
qed

lemma any_time_metric_v3:
  "any_time_metric (map (v3_line sha u ds) ms) = Inr (\<exists>m \<in> set ms. mt_metric m \<in> set time_metrics)"
  by (induction ms) (auto simp: v3_line_def as_dict_def item_simps in_names_def hashable_def)

lemma time_metric_unit:
  "k \<in> set time_metrics \<Longrightarrow> \<exists>u. map_of unit_by_metric k = Some u \<and> ends_with u ''Seconds''"
proof -
  have "list_all (\<lambda>k. case map_of unit_by_metric k of None \<Rightarrow> False | Some u \<Rightarrow> ends_with u ''Seconds'') time_metrics"
    by code_simp
  then show "k \<in> set time_metrics \<Longrightarrow> \<exists>u. map_of unit_by_metric k = Some u \<and> ends_with u ''Seconds''"
    by (auto simp: list_all_iff split: option.splits)
qed

lemma time_issues_silent:
  assumes "\<forall>m \<in> set ms. registered_unit m" "usage_period e ms seconds = Inr period"
  shows "time_issues (JStr ''final'') (map (v3_line sha u ds) ms) period = Inr []"
proof (cases "\<exists>m \<in> set ms. mt_metric m \<in> set time_metrics")
  case True
  then obtain m where m: "m \<in> set ms" "mt_metric m \<in> set time_metrics" by blast
  then have "time_based m"
    using time_metric_unit [OF m(2)] assms(1) by (auto simp: time_based_def registered_unit_def)
  with m(1) have "has_period ms seconds" by (auto simp: has_period_def list_ex_iff)
  then have "period_closed period"
    using assms(2) by (auto simp: usage_period_def period_closed_def has_key_def split: sum.splits)
  then show ?thesis
    by (simp add: time_issues_def in_names_def hashable_def any_time_metric_v3 issue_if_def)
next
  case False
  then show ?thesis
    by (auto simp: time_issues_def in_names_def hashable_def any_time_metric_v3 issue_if_def)
qed

lemma time_issues_no_raise: "\<exists>xs. time_issues (JStr ''final'') (map (v3_line sha u ds) ms) period = Inr xs"
  by (auto simp: time_issues_def in_names_def hashable_def any_time_metric_v3)

lemma all_issues_append_silent:
  "\<forall>r \<in> set rs. r = Inr [] \<Longrightarrow> all_issues (rs @ qs) = all_issues qs"
  by (induction rs) (auto split: sum.splits)

lemma all_issues_then_silent:
  "\<forall>r \<in> set qs. r = Inr [] \<Longrightarrow> all_issues (map Inr xss @ qs) = Inr (concat xss)"
  by (induction xss) (simp_all add: all_issues_Nil)

lemma draft_issues:
  assumes "valid_dt (ev_occurred_at e)" "plain_period e seconds" "usage_period e ms seconds = Inr period"
    and "operation_for e = Some op"
  shows "\<exists>xs. semantic_issues (JObj (assemble sha env e c ms ds op period)) = Inr xs \<and>
    (xs = [] \<longleftrightarrow> consistent sha e ms ds)"
proof -
  let ?u = "py_lower (ev_id e)" let ?ls = "map (v3_line sha ?u ds) ms"
  obtain ts where ts: "time_issues (JStr ''final'') ?ls period = Inr ts"
    using time_issues_no_raise by blast
  have gets: "as_dict (JObj op) = Some op" "as_list (JArr ?ls) = ?ls"
      "as_dict (JObj [(''state'', JStr ''final''), (''revision'', JInt 1)]) =
        Some [(''state'', JStr ''final''), (''revision'', JInt 1)]"
      "as_dict (case period of None \<Rightarrow> JNull | Some p \<Rightarrow> JObj p) = period"
      "as_dict (case sent_evidence e of None \<Rightarrow> JNull | Some v \<Rightarrow> JObj (evidence_to_dict v)) =
        map_option evidence_to_dict (sent_evidence e)"
    by (auto simp: as_dict_def as_list_def split: option.split)
  have cost: "\<forall>r \<in> set (case map_option evidence_to_dict (sent_evidence e) of None \<Rightarrow> [] | Some c \<Rightarrow> cost_issues c).
      r = Inr []"
    using sound_evidence_silent [OF evidence_sound]
    by (cases "evidence_for True e") (simp_all add: sent_evidence_def)
  let ?st = "state_issues (JStr ''final'') (JInt 1) (assemble sha env e c ms ds op period) period (Some op)
      (map_option evidence_to_dict (sent_evidence e)) ?ls"
  have state: "?st = [] \<longleftrightarrow> event_status e \<noteq> ''in_progress'' \<and> (event_status e = ''succeeded'' \<longrightarrow> ms \<noteq> [])"
    by (simp add: state_issues_def status_is_def operation_gets(2) [OF assms(4)] issue_if_Nil_iff)
  have "semantic_issues (JObj (assemble sha env e c ms ds op period)) =
      all_issues (map Inr [usage_issues 0 [] ?ls, operation_issues (Some op), ?st, ts] @
        (case map_option evidence_to_dict (sent_evidence e) of None \<Rightarrow> [] | Some c \<Rightarrow> cost_issues c))"
    using all_issues_append_silent [OF usage_period_silent [OF assms(1-3)]]
    by (simp add: semantic_issues_def assemble_gets assemble_optional gets item_simps stamp_silent assms(1) ts Let_def
        split: sum.split)
  also have "\<dots> = Inr (concat [usage_issues 0 [] ?ls, operation_issues (Some op), ?st, ts])"
    by (rule all_issues_then_silent [OF cost])
  finally have eq: "semantic_issues (JObj (assemble sha env e c ms ds op period)) =
      Inr (usage_issues 0 [] ?ls @ operation_issues (Some op) @ ?st @ ts)" by simp
  have "\<forall>m \<in> set ms. registered_unit m \<Longrightarrow> ts = []"
    using time_issues_silent [OF _ assms(3)] ts by (metis sum.inject(2))
  then have "usage_issues 0 [] ?ls @ operation_issues (Some op) @ ?st @ ts = [] \<longleftrightarrow> consistent sha e ms ds"
    using v3_usage_issues_iff [of 0 "[]" sha ?u ds ms] operation_issues_iff [OF assms(4)] state
    by (auto simp: consistent_def)
  with eq show ?thesis by blast
qed

section \<open>Canonical identifiers\<close>

lemma strip_set_hd:
  assumes "strip_set cs s \<noteq> []"
  shows "hd (strip_set cs s) \<notin> cs"
proof -
  define u where "u = dropWhile (\<lambda>c. c \<in> cs) s"
  define v where "v = dropWhile (\<lambda>c. c \<in> cs) (rev u)"
  have st: "strip_set cs s = rev v" by (simp add: strip_set_def u_def v_def)
  obtain ws where "rev u = ws @ v" unfolding v_def by (metis takeWhile_dropWhile_id)
  then have u: "u = rev v @ rev ws" by (metis rev_append rev_rev_ident)
  have "v \<noteq> []" using assms st by simp
  then have "hd u = hd (rev v)" "u \<noteq> []" using u by simp_all
  moreover from \<open>u \<noteq> []\<close> have "hd u \<notin> cs" unfolding u_def by (rule hd_dropWhile)
  ultimately show ?thesis using st by simp
qed

lemma to_canonical_name_ok:
  assumes "canonical_name fallback"
  shows "canonical_name (to_canonical_name v fallback)"
proof -
  define s where "s = squash False (strip_scheme (py_lower (py_strip (case v of None \<Rightarrow> [] | Some v \<Rightarrow> v))))"
  define t where "t = strip_set (set ''_-.'') s"
  have eq: "to_canonical_name v fallback = (if take 128 t = [] then fallback else take 128 t)"
    by (simp add: to_canonical_name_def s_def t_def Let_def)
  show ?thesis
  proof (cases t)
    case Nil
    with eq assms show ?thesis by simp
  next
    case (Cons c cs)
    have all: "list_all canonical_char t"
      using squash_canonical strip_set_sub [of "set ''_-.''" s] unfolding t_def s_def list_all_iff by blast
    have "c \<notin> set ''_-.''" using strip_set_hd [of "set ''_-.''" s] Cons unfolding t_def by (metis list.discI list.sel(1))
    with all Cons have "is_lower_alnum c" by (auto simp: canonical_char_def)
    moreover have "list_all canonical_char (take 127 cs)" using all Cons by (auto simp: list_all_iff dest: in_set_takeD)
    ultimately have "canonical_name (c # take 127 cs)" unfolding canonical_name_iff by simp
    with eq Cons show ?thesis by (simp add: take_Cons')
  qed
qed

lemma llm_provider_ok: "canonical_name (fst (llm_provider p)) \<and> canonical_name (snd (llm_provider p))"
proof -
  have lits: "list_all canonical_name [''openai'', ''responses'', ''anthropic'', ''messages'', ''aws'', ''bedrock'',
      ''google'', ''generate_content'', ''cohere'', ''chat'', ''vercel'', ''ai_sdk'', ''langchain'', ''unknown'', ''api'']"
    by code_simp
  note lit = lits [unfolded list.pred_inject]
  show ?thesis
    by (simp only: llm_provider_def Let_def lit to_canonical_name_ok fst_conv snd_conv simp_thms split: if_split)
qed

lemma compute_name_ok: "canonical_name (compute_name b p)"
proof -
  have lits: "list_all canonical_name [''azure'', ''google_cloud'', ''vercel'', ''kubernetes'', ''aws'', ''runtime'']"
    by code_simp
  note lit = lits [unfolded list.pred_inject]
  show ?thesis by (simp only: compute_name_def Let_def lit to_canonical_name_ok simp_thms split: if_split)
qed

lemma external_provider_ok: "canonical_name (fst (external_provider e)) \<and> canonical_name (snd (external_provider e))"
proof -
  have lits: "list_all canonical_name [''mcp'', ''tool'', ''external'', ''http_api'', ''api'']"
    by code_simp
  note lit = lits [unfolded list.pred_inject]
  show ?thesis
    by (simp only: external_provider_def Let_def lit to_canonical_name_ok fst_conv snd_conv simp_thms split: if_split)
qed

lemma provider_pair_ok: "canonical_name (fst (provider_pair e)) \<and> canonical_name (snd (provider_pair e))"
proof -
  have lits: "list_all canonical_name [''compute'', ''self_hosted'', ''gpu_compute'', ''runtime'', ''gpu'', ''internet'',
      ''egress'', ''dexcost'', ''retry'']"
    by code_simp
  note lit = lits [unfolded list.pred_inject]
  show ?thesis
    by (simp only: provider_pair_def Let_def lit to_canonical_name_ok llm_provider_ok compute_name_ok
        external_provider_ok fst_conv snd_conv simp_thms split: if_split)
qed

lemma operation_name_ok: "canonical_name (operation_name e)"
proof -
  have "list_all (\<lambda>(k, n). canonical_name n) operation_names" "canonical_name ''external.call''" by code_simp+
  then have "canonical_name (case map_of operation_names (ev_type e) of None \<Rightarrow> ''external.call'' | Some n \<Rightarrow> n)"
    by (auto simp: list_all_iff split: option.split dest!: map_of_SomeD)
  then show ?thesis by (simp add: operation_name_def Let_def split: option.split)
qed

section \<open>Meters\<close>

definition well_formed_meter :: "meter \<Rightarrow> bool" where
  "well_formed_meter m \<longleftrightarrow> canonical_name (mt_metric m) \<and> unit_name (mt_unit m) \<and>
     (\<exists>q. mt_quantity m = canonical_decimal q \<and> 0 < coeff q \<and> - 12 \<le> expo q)"

definition meter_key :: "meter \<Rightarrow> string \<times> string" where
  "meter_key m = (mt_metric m, mt_unit m)"

definition good_meters :: "meter list \<Rightarrow> bool" where
  "good_meters ms \<longleftrightarrow> distinct (map meter_key ms) \<and> (\<forall>m \<in> set ms. well_formed_meter m)"

lemma registry_ok_names: "map_of unit_by_metric k = Some u \<Longrightarrow> canonical_name k \<and> unit_name u"
proof -
  have "list_all (\<lambda>(k, u). canonical_name k \<and> unit_name u) unit_by_metric" by code_simp
  then show "map_of unit_by_metric k = Some u \<Longrightarrow> canonical_name k \<and> unit_name u"
    by (auto simp: list_all_iff dest!: map_of_SomeD)
qed

lemma positive_quantity_ok:
  assumes "positive_quantity d = Some s"
  shows "\<exists>q. s = canonical_decimal q \<and> 0 < coeff q \<and> - 12 \<le> expo q"
  using positive_quantity_value [OF assms] by metis

lemma positive_value_ok:
  "positive_value v = Some s \<Longrightarrow> \<exists>q. s = canonical_decimal q \<and> 0 < coeff q \<and> - 12 \<le> expo q"
  by (auto simp: positive_value_def split: json.splits dec_result.splits intro: positive_quantity_ok)

lemma usage_line_ok:
  assumes "usage_line_for k q = Some m" "map_of unit_by_metric k \<noteq> None"
  shows "well_formed_meter m \<and> mt_metric m = k \<and> registered_unit m"
  using assms registry_ok_names
  by (auto simp: usage_line_for_def well_formed_meter_def registered_unit_def split: option.splits
      dest: positive_quantity_ok)

lemma fixed_meters_good:
  assumes "distinct (map fst kqs)" "list_all (\<lambda>k. map_of unit_by_metric k \<noteq> None) (map fst kqs)"
  shows "good_meters (compact_usage (map (\<lambda>(k, q). usage_line_for k q) kqs)) \<and>
    mt_metric ` set (compact_usage (map (\<lambda>(k, q). usage_line_for k q) kqs)) \<subseteq> set (map fst kqs) \<and>
    (\<forall>m \<in> set (compact_usage (map (\<lambda>(k, q). usage_line_for k q) kqs)). registered_unit m)"
  using assms
proof (induction kqs)
  case (Cons kq kqs)
  obtain k q where kq: "kq = (k, q)" by (cases kq)
  let ?rest = "compact_usage (map (\<lambda>(k, q). usage_line_for k q) kqs)"
  have IH: "good_meters ?rest" "mt_metric ` set ?rest \<subseteq> set (map fst kqs)" "\<forall>m \<in> set ?rest. registered_unit m"
    using Cons by auto
  show ?case
  proof (cases "usage_line_for k q")
    case None
    with IH kq show ?thesis by (auto simp: compact_usage_def map_filter_simps)
  next
    case (Some m)
    have m: "well_formed_meter m" "mt_metric m = k" "registered_unit m"
      using usage_line_ok [OF Some] Cons.prems(2) kq by auto
    have "k \<notin> set (map fst kqs)" using Cons.prems(1) kq by auto
    with IH(2) m(2) have "meter_key m \<notin> set (map meter_key ?rest)" by (force simp: meter_key_def)
    with Some IH m kq show ?thesis by (auto simp: compact_usage_def map_filter_simps good_meters_def)
  qed
qed (simp add: compact_usage_def map_filter_simps good_meters_def)

text \<open>Each fixed projection: its meters are well formed, registered and not repeated.\<close>

definition fixed_ok :: "mapped_usage \<Rightarrow> bool" where
  "fixed_ok u \<longleftrightarrow> (case u of (c, ms, s) \<Rightarrow> c \<in> set attribution_components \<and> good_meters ms \<and>
     (\<forall>m \<in> set ms. registered_unit m))"

lemma fixed_okI:
  assumes "c \<in> set attribution_components" "ms = compact_usage (map (\<lambda>(k, q). usage_line_for k q) kqs)"
    and "distinct (map fst kqs)" "list_all (\<lambda>k. map_of unit_by_metric k \<noteq> None) (map fst kqs)"
  shows "fixed_ok (c, ms, s)"
  using fixed_meters_good [OF assms(3,4)] assms(1,2) by (simp add: fixed_ok_def)

lemma registered_names:
  "list_all (\<lambda>k. map_of unit_by_metric k \<noteq> None)
     [''input_tokens'', ''cache_read_input_tokens'', ''cache_write_input_tokens'', ''output_tokens'',
      ''reasoning_output_tokens'', ''request_count'', ''compute_seconds'', ''vcpu_seconds'',
      ''memory_gib_seconds'', ''gpu_seconds'', ''bytes_out'', ''bytes_in'']"
  "list_all (\<lambda>k. map_of unit_by_metric k \<noteq> None)
     [''page_count'', ''credit_count'', ''image_count'', ''call_count'', ''characters'', ''request_count'']"
  by code_simp+

lemma component_names:
  "list_all (\<lambda>c. c \<in> set attribution_components)
     [''llm'', ''compute'', ''gpu'', ''network'', ''external'', ''speech_to_text'', ''text_to_speech'']"
  by code_simp

lemma single_meter: "fixed_ok (''external'', compact_usage [usage_line_for k q], s)" if "map_of unit_by_metric k \<noteq> None"
  by (rule fixed_okI [where kqs = "[(k, q)]"]) (use that component_names in simp_all)

lemma token_meters_ok: "fixed_ok (''llm'', token_meters i c w o' r, s)"
proof -
  have "fixed_ok (''llm'', compact_usage [usage_line_for ''input_tokens'' (Some i), usage_line_for ''cache_read_input_tokens'' (Some c),
      usage_line_for ''cache_write_input_tokens'' (Some w), usage_line_for ''output_tokens'' (Some o'),
      usage_line_for ''reasoning_output_tokens'' r], s)"
    by (rule fixed_okI [where kqs = "[(''input_tokens'', Some i), (''cache_read_input_tokens'', Some c),
          (''cache_write_input_tokens'', Some w), (''output_tokens'', Some o'), (''reasoning_output_tokens'', r)]"])
      (use registered_names(1) component_names in simp_all)
  moreover have "fixed_ok (''llm'', compact_usage [usage_line_for ''request_count'' (Some (Dec 1 0))], s)"
    by (rule fixed_okI [where kqs = "[(''request_count'', Some (Dec 1 0))]"])
      (use registered_names(1) component_names in simp_all)
  ultimately show ?thesis by (simp add: token_meters_def Let_def)
qed

lemma token_meters_not_empty: "token_meters i c w o' r \<noteq> []"
proof -
  have "compact_usage [usage_line_for ''request_count'' (Some (Dec 1 0))] \<noteq> []" by code_simp
  then show ?thesis by (simp add: token_meters_def Let_def)
qed

lemma llm_usage_ok: "llm_usage e = Some (c, ms, s) \<Longrightarrow> fixed_ok (c, ms, s) \<and> ms \<noteq> []"
  using token_meters_ok token_meters_not_empty by (auto simp: llm_usage_def Let_def split: if_splits)

lemma compute_usage_ok: "fixed_ok (compute_usage e)"
  unfolding compute_usage_def Let_def
  by (rule fixed_okI [where kqs = "[(''compute_seconds'', _), (''vcpu_seconds'', _), (''memory_gib_seconds'', _),
        (''request_count'', _)]"]) (use registered_names(1) component_names in simp_all)

lemma gpu_usage_ok: "fixed_ok (gpu_usage e)"
  unfolding gpu_usage_def Let_def
  by (rule fixed_okI [where kqs = "[(''gpu_seconds'', _)]"]) (use registered_names(1) component_names in simp_all)

lemma network_usage_ok: "fixed_ok (network_usage e)"
  unfolding network_usage_def
  by (rule fixed_okI [where kqs = "[(''bytes_out'', _), (''bytes_in'', _)]"])
    (use registered_names(1) component_names in simp_all)

lemma external_usage_ok:
  assumes "external_usage e = Some (c, ms, s)"
  shows "fixed_ok (c, ms, s)"
proof -
  have inferred: "map_of unit_by_metric (inferred_metric p) \<noteq> None" for p
    using registered_names(2) by (simp add: inferred_metric_def)
  obtain k q where ms: "ms = compact_usage [usage_line_for k q]" and k: "map_of unit_by_metric k \<noteq> None"
      and c: "c \<in> set [''speech_to_text'', ''text_to_speech'', ''external'']"
    using assms inferred unfolding external_usage_def Let_def
    by (auto simp: text_of_def split: if_splits option.splits simp del: map_of.simps)
  then show ?thesis
    using fixed_okI [of c ms "[(k, q)]"] component_names by auto
qed

lemma component_and_usage_ok: "component_and_usage e = Some (c, ms, s) \<Longrightarrow> fixed_ok (c, ms, s)"
  using compute_usage_ok [of e] gpu_usage_ok [of e] network_usage_ok [of e] llm_usage_ok external_usage_ok
    single_meter [of "''request_count''"] registered_names(2)
  unfolding component_and_usage_def by (simp split: if_split_asm) blast+

lemma parse_meters_ok:
  "parse_meters seen ls = Some ms \<Longrightarrow> good_meters ms \<and> meter_key ` set ms \<inter> set seen = {} \<and> length ms = length ls"
proof (induction seen ls arbitrary: ms rule: parse_meters.induct)
  case (1 seen)
  then show ?case by (simp add: good_meters_def)
next
  case (2 seen l ls)
  from "2.prems" obtain d metric unit q ms' where parts: "l = JObj d" "dict_get d ''metric'' = JStr metric"
      "dict_get d ''unit'' = JStr unit" "positive_value (dict_get d ''quantity'') = Some q"
      "canonical_name metric" "unit_name unit" "(metric, unit) \<notin> set seen"
      "parse_meters ((metric, unit) # seen) ls = Some ms'"
      "ms = \<lparr>mt_metric = metric, mt_quantity = q, mt_unit = unit\<rparr> # ms'"
    by (auto split: json.splits option.splits if_splits)
  have cond: "canonical_name metric \<and> unit_name unit \<and> (metric, unit) \<notin> set seen" using parts by blast
  have "good_meters ms' \<and> meter_key ` set ms' \<inter> set ((metric, unit) # seen) = {} \<and> length ms' = length ls"
    by (rule "2.IH" [OF parts(1) refl parts(2) refl parts(3) parts(4) cond parts(8)])
  then have IH: "good_meters ms'" "meter_key ` set ms' \<inter> set ((metric, unit) # seen) = {}" "length ms' = length ls"
    by blast+
  with parts positive_value_ok [OF parts(4)] show ?case
    by (auto simp: good_meters_def well_formed_meter_def meter_key_def)
qed

lemma gpu_signal_meters_ok: "good_meters (gpu_signal_meters d)"
proof -
  let ?kus = "[(''gpu.sm_utilization_percent'', ''sm_util_pct'', ''Percent''),
        (''gpu.memory_utilization_percent'', ''mem_util_pct'', ''Percent''),
        (''gpu.vram_peak_bytes'', ''vram_used_peak_bytes'', ''Bytes''),
        (''gpu.vram_capacity_bytes'', ''vram_total_bytes'', ''Bytes''),
        (''gpu.process_count'', ''process_count'', ''Processes''),
        (''gpu.sample_count'', ''sample_count'', ''Samples'')]"
  let ?mk = "\<lambda>(metric, key, unit).
         map_option (\<lambda>q. \<lparr>mt_metric = metric, mt_quantity = q, mt_unit = unit\<rparr>) (positive_value (dict_get d key))"
  have gen: "good_meters (compact_usage (map ?mk kus)) \<and> mt_metric ` set (compact_usage (map ?mk kus)) \<subseteq> fst ` set kus"
    if "distinct (map fst kus)" "list_all (\<lambda>(m, k, u). canonical_name m \<and> unit_name u) kus" for kus
    using that
  proof (induction kus)
    case (Cons x kus)
    obtain m k u where x: "x = (m, k, u)" by (metis prod_cases3)
    have IH: "good_meters (compact_usage (map ?mk kus))" "mt_metric ` set (compact_usage (map ?mk kus)) \<subseteq> fst ` set kus"
      using Cons by auto
    show ?case
    proof (cases "positive_value (dict_get d k)")
      case None
      with IH x show ?thesis by (auto simp: compact_usage_def map_filter_simps)
    next
      case (Some q)
      have "m \<notin> fst ` set kus" using Cons.prems(1) x by (metis distinct.simps(2) fst_conv list.map(2) set_map)
      with IH(2) have "(m, u) \<notin> meter_key ` set (compact_usage (map ?mk kus))" by (force simp: meter_key_def)
      with Some IH x positive_value_ok [OF Some] Cons.prems(2) show ?thesis
        by (auto simp: compact_usage_def map_filter_simps good_meters_def well_formed_meter_def meter_key_def)
    qed
  qed (simp add: compact_usage_def map_filter_simps good_meters_def)
  have "distinct (map fst ?kus)" "list_all (\<lambda>(m, k, u). canonical_name m \<and> unit_name u) ?kus" by code_simp+
  with gen show ?thesis unfolding gpu_signal_meters_def by blast
qed

lemma explicit_usage_ok: "explicit_usage_lines e = Some ms \<Longrightarrow> good_meters ms \<and> ms \<noteq> []"
  using parse_meters_ok by (fastforce simp: explicit_usage_lines_def split: json.splits if_splits)

lemma unknown_usage_ok:
  "unknown_explicit_usage e = Some (c, ms, s) \<Longrightarrow> c = ''external'' \<and> good_meters ms"
  by (auto simp: unknown_explicit_usage_def good_meters_def well_formed_meter_def Let_def
      split: option.splits if_splits dest: positive_value_ok)

lemma v3_usage_ok:
  assumes "v3_usage e = Some (c, ms, s)"
  shows "c \<in> set attribution_components \<and> good_meters ms"
proof (cases "has_key ''attribution_usage_lines'' (ev_details e)")
  case True
  define legacy where "legacy = (if is_gpu_signal e then None else component_and_usage e)"
  from True assms obtain ms' where ms': "explicit_usage_lines e = Some ms'" by (auto simp: v3_usage_def Let_def)
  show ?thesis
  proof (cases legacy)
    case None
    with True assms ms' explicit_usage_ok [OF ms'] component_names show ?thesis
      by (simp add: v3_usage_def Let_def legacy_def [symmetric])
  next
    case (Some u)
    obtain c' l t where u: "u = (c', l, t)" by (metis prod_cases3)
    have "fixed_ok (c', l, t)"
      using Some u component_and_usage_ok by (auto simp: legacy_def split: if_splits)
    with True assms ms' explicit_usage_ok [OF ms'] Some u show ?thesis
      by (simp add: v3_usage_def Let_def legacy_def [symmetric] fixed_ok_def)
  qed
next
  case False
  show ?thesis
  proof (cases "is_gpu_signal e")
    case True
    with False assms gpu_signal_meters_ok component_names show ?thesis
      by (auto simp: v3_usage_def Let_def gpu_signal_usage_def)
  next
    case gpu: False
    with False assms component_and_usage_ok [of e c ms s] unknown_usage_ok [of e c ms s] component_names show ?thesis
      by (auto simp: v3_usage_def Let_def fixed_ok_def split: option.splits)
  qed
qed

end
