(* ===== verification/Sync_Cycle.thy ===== *)
theory Sync_Cycle
  imports Sync_Worker Attribution_Facts
begin

text \<open>
  One synchronization cycle of the upload worker (\<open>SyncWorker._sync_batch\<close>) and one turn of
  its background loop (\<open>_run\<close>), with \<open>flush\<close> and \<open>resume_after_auth\<close>. A cycle puts together
  the session manager, the scan, the ledgers, the wire forms and the upload.

  What a cycle meets is a record of its own: the configuration, the clock, the network, the
  schema validator, writes of other threads, and whether a flush is requested while it
  runs. Exceptions of the maintenance calls (requeue, purge), which are logged and ignored,
  and the throttled log lines are left out.
\<close>

record 'x worker =
  wk_post :: post_state
  wk_sessions :: "'x sessions"
  wk_finalize :: bool
  wk_flush :: bool
  wk_flush_done :: bool
  wk_backoff :: nat
  wk_recovered :: bool
  wk_recovering :: bool
  wk_last_purge :: int

record 'x cycle =
  cy_batch_size :: int
  cy_interval :: nat
  cy_limit :: nat
  cy_privacy :: privacy
  cy_environment :: "string option"
  cy_sha256 :: "string \<Rightarrow> string"
  cy_digest :: digest_fun
  cy_schema :: "json \<Rightarrow> issue list"
  cy_env :: post_env
  cy_net :: "nat \<Rightarrow> string \<Rightarrow> reply"
  cy_app :: "nat \<Rightarrow> event_rows \<Rightarrow> event_rows"
  cy_mono :: int
  cy_ended :: "'x \<Rightarrow> dt"
  cy_locked :: "uuid \<Rightarrow> bool"
  cy_cutoff :: dt
  cy_flushed :: bool

definition convert_event :: "'x cycle \<Rightarrow> converter" where
  "convert_event cy = prepare_event_dict (cy_schema cy) (cy_digest cy) (cy_environment cy) (cy_privacy cy)"

datatype cycle_error = CycleFailed post_error | BatchRejected | ConversionError "uuid list"

section \<open>Before the scan\<close>

abbreviation wk_store :: "'x worker \<Rightarrow> store" where
  "wk_store w \<equiv> ps_store (wk_post w)"

definition set_events :: "event_rows \<Rightarrow> 'x worker \<Rightarrow> 'x worker" where
  "set_events rows w = w\<lparr>wk_post := (wk_post w)\<lparr>ps_store := (wk_store w)\<lparr>st_events := rows\<rparr>\<rparr>\<rparr>"

text \<open>The sessions idle for long enough, or all of them when a flush asked for it.\<close>

definition finalize_sessions :: "'x cycle \<Rightarrow> 'x worker \<Rightarrow> 'x worker" where
  "finalize_sessions cy w =
     (let idle = (if wk_finalize w then 0 else auto_session_idle);
          (ss, rows, fin) = finalize_idle_sessions (cy_mono cy) idle (cy_ended cy) (cy_locked cy)
                              (wk_sessions w) (st_tasks (wk_store w))
      in w\<lparr>wk_finalize := False, wk_sessions := ss,
           wk_post := (wk_post w)\<lparr>ps_store := (wk_store w)\<lparr>st_tasks := rows\<rparr>\<rparr>\<rparr>)"

definition recover_quarantined_events :: "'x worker \<Rightarrow> 'x worker" where
  "recover_quarantined_events w =
     (if wk_recovered w then w
      else (let (n, rows) = requeue_quarantined_events (st_events (wk_store w))
            in set_events rows (w\<lparr>wk_recovered := True, wk_recovering := (wk_recovering w \<or> 0 < n)\<rparr>)))"

definition finish_quarantine_recovery :: "'x worker \<Rightarrow> 'x worker" where
  "finish_quarantine_recovery w =
     (if wk_recovering w \<and> query_events_for_sync (st_events (wk_store w)) 1 = []
      then w\<lparr>wk_recovering := False\<rparr> else w)"

definition purge_if_due :: "'x cycle \<Rightarrow> 'x worker \<Rightarrow> 'x worker" where
  "purge_if_due cy w =
     (if cy_mono cy - wk_last_purge w < purge_interval then w
      else set_events (snd (purge_synced (cy_cutoff cy) (st_events (wk_store w))))
             (w\<lparr>wk_last_purge := cy_mono cy\<rparr>))"

definition begin_cycle :: "'x cycle \<Rightarrow> 'x worker \<Rightarrow> 'x worker" where
  "begin_cycle cy w = purge_if_due cy (recover_quarantined_events (finalize_sessions cy w))"

section \<open>The batch\<close>

definition task_scan_limit :: int where "task_scan_limit = 1000"

definition batch_size :: "'x cycle \<Rightarrow> int" where "batch_size cy = max 1 (cy_batch_size cy)"

definition obj_of :: "json \<Rightarrow> obj" where
  "obj_of v = (case v of JObj d \<Rightarrow> d | _ \<Rightarrow> [])"

text \<open>Provider jobs fill what the events leave of a batch.\<close>

definition jobs_for_batch :: "int \<Rightarrow> scan \<Rightarrow> store \<Rightarrow> provider_job list" where
  "jobs_for_batch batch sc st =
     (if int (length (sc_dicts sc)) < batch
      then query_provider_jobs_for_sync (st_jobs st) (max 1 (batch - int (length (sc_dicts sc)))) else [])"

definition batch_payload :: "'x cycle \<Rightarrow> scan \<Rightarrow> store \<Rightarrow> py_error + payload \<times> batch_keys" where
  "batch_payload cy sc st =
     (let deliveries = query_task_deliveries_for_sync (st_tasks st) task_scan_limit;
          jobs = jobs_for_batch (batch_size cy) sc st
      in case collect (prepare_business_identity (cy_sha256 cy) (cy_privacy cy)) (map fst deliveries) of
           Inl e \<Rightarrow> Inl e
         | Inr ids \<Rightarrow>
             (case collect (to_attribution_observation (cy_schema cy) (cy_digest cy) (cy_environment cy)) jobs of
                Inl e \<Rightarrow> Inl e
              | Inr obs \<Rightarrow> Inr
                  (\<lparr>pl_events = sc_dicts sc @ map obj_of obs,
                    pl_tasks = map (prepare_task_dict (cy_sha256 cy) (cy_privacy cy) \<circ> fst) deliveries,
                    pl_identities = List.map_filter id ids,
                    pl_outcomes = map (obj_of \<circ> outcome_to_dict)
                      (query_outcomes_for_sync (st_outcomes st) (batch_size cy)),
                    pl_revenues = map revenue_to_dict
                      (query_revenues_for_sync (st_revenues st) (batch_size cy))\<rparr>,
                   \<lparr>bk_events = Some (sc_versions sc),
                    bk_tasks = Some (map_of (rev (map (\<lambda>(t, v). (tk_id t, v)) deliveries))),
                    bk_jobs = map (\<lambda>j. (job_event_id j, job_revision j)) jobs\<rparr>)))"

section \<open>The cycle\<close>

definition on_health :: "(health \<Rightarrow> health) \<Rightarrow> 'x worker \<Rightarrow> 'x worker" where
  "on_health f w = w\<lparr>wk_post := (wk_post w)\<lparr>ps_health := f (ps_health (wk_post w))\<rparr>\<rparr>"

text \<open>Quarantined conversions are reported when the rest of the cycle is done.\<close>

definition conclude :: "scan \<Rightarrow> bool \<Rightarrow> 'x worker \<Rightarrow> (cycle_error + bool) \<times> 'x worker" where
  "conclude sc sent w =
     (if sc_failed sc = [] then Inr sent else Inl (ConversionError (sc_failed sc)),
      finish_quarantine_recovery w)"

definition deliver :: "'x cycle \<Rightarrow> scan \<Rightarrow> payload \<Rightarrow> batch_keys \<Rightarrow> 'x worker \<Rightarrow>
    (cycle_error + bool) \<times> 'x worker" where
  "deliver cy sc p bk w =
     (let now = env_now (cy_env cy);
          start = (wk_post (on_health (record_attempt now) w))\<lparr>ps_delivered := 0, ps_quarantined := 0\<rparr>;
          (r, s) = post_with_split (cy_limit cy) (cy_env cy) (cy_net cy) bk p start;
          w' = w\<lparr>wk_post := s\<rparr>;
          progress = on_health (record_delivery_progress now (ps_delivered s)) w'
      in case r of
           Inl e \<Rightarrow> (Inl (CycleFailed e), progress)
         | Inr True \<Rightarrow> conclude sc True (on_health (record_success now (ps_delivered s)) w')
         | Inr False \<Rightarrow> (if ps_stopped s then Inr False else Inl BatchRejected, progress))"

definition sync_batch :: "'x cycle \<Rightarrow> 'x worker \<Rightarrow> (cycle_error + bool) \<times> 'x worker" where
  "sync_batch cy w0 =
     (let w1 = begin_cycle cy w0;
          (sc, rows) = scan_events (convert_event cy) (cy_app cy) (batch_size cy) (st_events (wk_store w1));
          w = set_events rows w1
      in case sc_error sc of
           Some e \<Rightarrow> (Inl (CycleFailed (Raised e)), w)
         | None \<Rightarrow>
      case batch_payload cy sc (wk_store w) of
           Inl e \<Rightarrow> (Inl (CycleFailed (Raised e)), w)
         | Inr (p, bk) \<Rightarrow> if durable_count p = 0 then conclude sc False w else deliver cy sc p bk w)"

section \<open>The loop\<close>

definition request_flush :: "'x worker \<Rightarrow> 'x worker" where
  "request_flush w = w\<lparr>wk_flush_done := False, wk_flush := True, wk_finalize := True\<rparr>"

definition acknowledge_flush :: "'x worker \<Rightarrow> 'x worker" where
  "acknowledge_flush w = (if wk_flush w then w\<lparr>wk_flush := False, wk_flush_done := True\<rparr> else w)"

definition resume_after_auth :: "'x worker \<Rightarrow> 'x worker" where
  "resume_after_auth w =
     on_health (\<lambda>h. h\<lparr>h_failures := 0, h_state := Idle\<rparr>)
       (w\<lparr>wk_post := (wk_post w)\<lparr>ps_stopped := False\<rparr>, wk_backoff := initial_backoff\<rparr>)"

fun error_type :: "cycle_error \<Rightarrow> string" where
  "error_type (CycleFailed (HTTPError code reason)) = ''HTTPError''"
| "error_type (CycleFailed (URLError reason)) = ''URLError''"
| "error_type (CycleFailed (Raised (ValueError m))) = ''ValueError''"
| "error_type (CycleFailed (Raised (TypeError m))) = ''TypeError''"
| "error_type (CycleFailed (Raised (RuntimeError m))) = ''RuntimeError''"
| "error_type (CycleFailed (Raised (LookupError m))) = ''KeyError''"
| "error_type (CycleFailed (Raised (OverflowError m))) = ''OverflowError''"
| "error_type (CycleFailed (Raised (AttributeError m))) = ''AttributeError''"
| "error_type (CycleFailed (Raised (InvalidOperation m))) = ''InvalidOperation''"
| "error_type BatchRejected = ''_AttributionBatchRejectedError''"
| "error_type (ConversionError ids) = ''_AttributionConversionError''"

fun py_error_text :: "py_error \<Rightarrow> string" where
  "py_error_text (ValueError m) = m"
| "py_error_text (TypeError m) = m"
| "py_error_text (RuntimeError m) = m"
| "py_error_text (LookupError m) = m"
| "py_error_text (OverflowError m) = m"
| "py_error_text (AttributeError m) = m"
| "py_error_text (InvalidOperation m) = m"

text \<open>The message; that of a Python exception is kept as far as the model has it.\<close>

fun error_message :: "cycle_error \<Rightarrow> string" where
  "error_message (CycleFailed (HTTPError code reason)) = http_error_text code reason"
| "error_message (CycleFailed (URLError reason)) = ''<urlopen error '' @ reason @ ''>''"
| "error_message (CycleFailed (Raised e)) = py_error_text e"
| "error_message BatchRejected = ''control plane did not accept the complete attribution batch''"
| "error_message (ConversionError ids) =
     show_int (int (length ids)) @ '' event(s) were quarantined because they cannot be '' @
     ''represented by attribution v3 (event IDs: '' @ join '', '' (take 3 ids) @ '')''"

definition note_error :: "'x cycle \<Rightarrow> cycle_error \<Rightarrow> error_operation \<Rightarrow> bool \<Rightarrow> worker_state \<Rightarrow>
    'x worker \<Rightarrow> 'x worker" where
  "note_error cy e operation retryable ws w =
     (let (h, ev) = record_error (env_api_key (cy_env cy)) (env_now (cy_env cy)) (error_type e)
            (error_message e) operation retryable ws (ps_health (wk_post w))
      in w\<lparr>wk_post := (wk_post w)\<lparr>ps_health := h, ps_errors := ps_errors (wk_post w) @ [ev]\<rparr>\<rparr>)"

text \<open>How a turn ends: the next one follows at once, after a wait, or never.\<close>

datatype ending = Again | Wait nat | Leave

definition pause :: "nat \<Rightarrow> 'x worker \<Rightarrow> ending \<times> 'x worker" where
  "pause n w = (if ps_stopped (wk_post w) then Leave else Wait n, w)"

definition after_cycle :: "'x cycle \<Rightarrow> cycle_error + bool \<Rightarrow> 'x worker \<Rightarrow> ending \<times> 'x worker" where
  "after_cycle cy r w =
     (case r of
        Inr True \<Rightarrow> (Again, w\<lparr>wk_backoff := initial_backoff\<rparr>)
      | Inr False \<Rightarrow>
          (let w1 = (if h_state (ps_health (wk_post w)) \<noteq> AuthFailed
                     then on_health (set_worker_state Idle) w else w)
           in if wk_finalize w1 then (Again, w1) else pause (cy_interval cy) (acknowledge_flush w1))
      | Inl (ConversionError ids) \<Rightarrow>
          pause (cy_interval cy)
            (acknowledge_flush (note_error cy (ConversionError ids) Conversion False Idle
               (w\<lparr>wk_backoff := initial_backoff\<rparr>)))
      | Inl e \<Rightarrow>
          (let n = min (wk_backoff w * 2) max_backoff
           in pause n (note_error cy e Transport True Backoff ((acknowledge_flush w)\<lparr>wk_backoff := n\<rparr>))))"

definition run_turn :: "'x cycle \<Rightarrow> 'x worker \<Rightarrow> ((cycle_error + bool) \<times> ending) \<times> 'x worker" where
  "run_turn cy w0 =
     (let (r, w1) = sync_batch cy w0;
          (next, w) = after_cycle cy r (if cy_flushed cy then request_flush w1 else w1)
      in ((r, next), w))"

text \<open>The turns of a worker that is not stopped, with what each of them met.\<close>

fun run_turns :: "'x cycle list \<Rightarrow> 'x worker \<Rightarrow> ((cycle_error + bool) \<times> ending) list \<times> 'x worker" where
  "run_turns [] w = ([], w)"
| "run_turns (cy # cys) w =
     (if ps_stopped (wk_post w) then ([], w)
      else (let (x, w1) = run_turn cy w; (xs, w') = run_turns cys w1 in (x # xs, w')))"

section \<open>Work that is left\<close>

text \<open>What a cycle can still do: records to deliver, sessions that may yet be finished (each
  makes one task pending), and quarantined events that are requeued once.\<close>

definition store_pending :: "store \<Rightarrow> nat" where
  "store_pending s =
     fst (queue_counts (st_events s)) + fst (queue_counts (st_tasks s)) +
     fst (queue_counts (st_outcomes s)) + fst (queue_counts (st_revenues s)) +
     fst (queue_counts (st_jobs s))"

definition work :: "'x worker \<Rightarrow> nat" where
  "work w =
     store_pending (wk_store w) + length (ss_activity (wk_sessions w)) +
     (if wk_recovered w then 0 else snd (queue_counts (st_events (wk_store w))))"

definition event_ids :: "event_rows \<Rightarrow> uuid list" where
  "event_ids rows = map (\<lambda>r. ev_id (body r)) rows"

definition task_ids :: "task_rows \<Rightarrow> uuid list" where
  "task_ids rows = map (\<lambda>r. tk_id (body r)) rows"

text \<open>The ids are primary keys, those of events in lower case (\<open>str(uuid)\<close>), and every session is
  watched.\<close>

definition worker_ok :: "'x worker \<Rightarrow> bool" where
  "worker_ok w \<longleftrightarrow> distinct (event_ids (st_events (wk_store w))) \<and>
     (\<forall>u \<in> set (event_ids (st_events (wk_store w))). py_lower u = u) \<and>
     distinct (task_ids (st_tasks (wk_store w))) \<and> sessions_inv (wk_sessions w)"

section \<open>Counting rows\<close>

lemma moved_pending:
  assumes "queue_moved status key A B rows rows'"
  shows "fst (queue_counts rows') \<le> fst (queue_counts rows)"
  using assms unfolding queue_moved_def queue_counts_def
  by (induction rule: list_all2_induct) auto

lemma moved_pending_strict:
  assumes "queue_moved status key A B rows rows'" "none_pending status key K rows'"
    and "r \<in> set rows" "status r = Pending" "key r \<in> K"
  shows "fst (queue_counts rows') < fst (queue_counts rows)"
  using assms(1) [unfolded queue_moved_def] assms(2-)
proof (induction rule: list_all2_induct)
  case (Cons x xs y ys)
  have le: "fst (queue_counts ys) \<le> fst (queue_counts xs)"
    by (rule moved_pending [where key = key and A = A and B = B]) (use Cons in \<open>simp add: queue_moved_def\<close>)
  show ?case
  proof (cases "r = x")
    case True
    with Cons.hyps(1) Cons.prems have "status x = Pending" "status y \<noteq> Pending"
      by (auto simp: none_pending_def)
    with le show ?thesis by (simp add: queue_counts_def)
  next
    case False
    with Cons.prems have "fst (queue_counts ys) < fst (queue_counts xs)"
      by (intro Cons.IH) (auto simp: none_pending_def)
    moreover have "status x \<noteq> Pending \<longrightarrow> status y \<noteq> Pending" using Cons.hyps(1) by auto
    ultimately show ?thesis by (auto simp: queue_counts_def)
  qed
qed simp

lemma moved_keys: "queue_moved st key A B rows rows' \<Longrightarrow> map key rows' = map key rows"
  unfolding queue_moved_def by (induction rule: list_all2_induct) auto

lemma update_one_pending:
  fixes rows :: "('a, 'b) qrow_scheme list"
  assumes "distinct (map (\<lambda>r. k (body r)) rows)"
  shows "fst (queue_counts (update_where (\<lambda>r. k (body r) = u) f rows)) \<le> fst (queue_counts rows) + 1"
  using assms
proof (induction rows)
  case (Cons r rows)
  show ?case
  proof (cases "k (body r) = u")
    case True
    then have "update_where (\<lambda>r. k (body r) = u) f rows = rows"
      using Cons.prems by (auto simp: update_where_def image_iff intro!: map_idI)
    with True show ?thesis by (simp add: update_where_def queue_counts_def)
  next
    case False
    with Cons show ?thesis by (auto simp: update_where_def queue_counts_def)
  qed
qed (simp add: update_where_def queue_counts_def)

lemma store_moved_pending: "store_moved bk A B s s' \<Longrightarrow> store_pending s' \<le> store_pending s"
  unfolding store_moved_def store_pending_def by (auto dest!: moved_pending intro!: add_mono)

lemma store_moved_ids:
  assumes "store_moved bk A B s s'"
  shows "event_ids (st_events s') = event_ids (st_events s)" "task_ids (st_tasks s') = task_ids (st_tasks s)"
proof -
  from assms have "map event_row_key (st_events s') = map event_row_key (st_events s)"
      "map task_row_key (st_tasks s') = map task_row_key (st_tasks s)"
    by (auto simp: store_moved_def dest: moved_keys)
  from this [THEN arg_cong [where f = "map fst"]]
  show "event_ids (st_events s') = event_ids (st_events s)" "task_ids (st_tasks s') = task_ids (st_tasks s)"
    by (simp_all add: event_ids_def task_ids_def comp_def)
qed

text \<open>One settled record is enough.\<close>

lemma store_moved_strict:
  assumes m: "store_moved bk A B s s'" and d: "store_done bk p s'"
    and "(\<exists>r \<in> set (st_events s). status r = Pending \<and> event_row_key r \<in> event_idents bk p) \<or>
      (\<exists>r \<in> set (st_jobs s). status r = Pending \<and> job_row_key r \<in> job_idents bk p) \<or>
      (\<exists>r \<in> set (st_tasks s). status r = Pending \<and> task_row_key r \<in> task_idents bk p) \<or>
      (\<exists>r \<in> set (st_outcomes s). status r = Pending \<and> outcome_row_key r \<in> outcome_idents p) \<or>
      (\<exists>r \<in> set (st_revenues s). status r = Pending \<and> revenue_row_key r \<in> revenue_idents p)"
  shows "store_pending s' < store_pending s"
proof -
  note moved = m [unfolded store_moved_def]
  note le = moved [THEN conjunct1, THEN moved_pending]
    moved [THEN conjunct2, THEN conjunct1, THEN moved_pending]
    moved [THEN conjunct2, THEN conjunct2, THEN conjunct1, THEN moved_pending]
    moved [THEN conjunct2, THEN conjunct2, THEN conjunct2, THEN conjunct1, THEN moved_pending]
    moved [THEN conjunct2, THEN conjunct2, THEN conjunct2, THEN conjunct2, THEN moved_pending]
  have "fst (queue_counts (st_events s')) < fst (queue_counts (st_events s)) \<or>
      fst (queue_counts (st_jobs s')) < fst (queue_counts (st_jobs s)) \<or>
      fst (queue_counts (st_tasks s')) < fst (queue_counts (st_tasks s)) \<or>
      fst (queue_counts (st_outcomes s')) < fst (queue_counts (st_outcomes s)) \<or>
      fst (queue_counts (st_revenues s')) < fst (queue_counts (st_revenues s))"
    using assms(3) moved d unfolding store_done_def
    by (elim disjE bexE conjE) (blast dest: moved_pending_strict)+
  with le show ?thesis unfolding store_pending_def by linarith
qed

section \<open>Before the scan, nothing is gained\<close>

lemma length_delete: "length (AList.delete x xs) \<le> length xs"
  by (induction xs) auto

lemma length_delete_less: "x \<in> fst ` set xs \<Longrightarrow> length (AList.delete x xs) < length xs"
  by (induction xs) (auto intro: le_imp_less_Suc length_delete)

lemma update_task_ids: "task_ids (update_task t rows) = task_ids rows"
  by (auto simp: task_ids_def update_task_def update_where_def stored_task_def)

lemma finalize_one_work:
  assumes "watched s" "distinct (task_ids rows)"
    and "finalize_one ended locked x (s, rows, fin) = (s', rows', fin')"
  shows "task_ids rows' = task_ids rows \<and>
    fst (queue_counts rows') + length (ss_activity s') \<le> fst (queue_counts rows) + length (ss_activity s)"
proof (cases "ss_sessions s x")
  case None
  with assms(3) show ?thesis by (auto simp: finalize_one_def length_delete)
next
  case (Some l)
  let ?t = "(task_at s l)\<lparr>tk_status := ''success'', tk_ended_at := Some (ended x)\<rparr>"
  have "x \<in> fst ` set (ss_activity s)" using Some assms(1) by (auto simp: watched_def)
  from length_delete_less [OF this]
  have del: "length (AList.delete x (ss_activity s)) + 1 \<le> length (ss_activity s)" by simp
  have "fst (queue_counts (update_task ?t rows)) \<le> fst (queue_counts rows) + 1"
    unfolding update_task_def by (rule update_one_pending) (use assms(2) in \<open>simp add: task_ids_def\<close>)
  then show ?thesis
    using Some assms(3) del update_task_ids [of ?t rows]
    by (auto simp: finalize_one_def Let_def drop_session_def split: if_splits)
qed

lemma finalize_work:
  assumes "sessions_inv s" "distinct (task_ids rows)"
    and "fold (finalize_one ended locked) xs (s, rows, fin) = (s', rows', fin')"
  shows "task_ids rows' = task_ids rows \<and> sessions_inv s' \<and>
    fst (queue_counts rows') + length (ss_activity s') \<le> fst (queue_counts rows) + length (ss_activity s)"
  using assms
proof (induction xs arbitrary: s rows fin)
  case (Cons x xs)
  obtain s1 rows1 fin1 where one: "finalize_one ended locked x (s, rows, fin) = (s1, rows1, fin1)"
    by (metis surj_pair)
  have w: "watched s" using Cons.prems(1) by (simp add: sessions_inv_def)
  note first = finalize_one_work [OF w Cons.prems(2) one]
  have "fold (finalize_one ended locked) xs (s1, rows1, fin1) = (s', rows', fin')"
    using Cons.prems(3) one by simp
  from Cons.IH [OF finalize_one_inv [OF Cons.prems(1) one] _ this] first Cons.prems(2)
  show ?case by (auto intro: le_trans)
qed simp

lemma finalize_sessions_work:
  assumes "worker_ok w"
  shows "worker_ok (finalize_sessions cy w) \<and> work (finalize_sessions cy w) \<le> work w"
proof -
  obtain ss rows fin where f: "finalize_idle_sessions (cy_mono cy)
      (if wk_finalize w then 0 else auto_session_idle) (cy_ended cy) (cy_locked cy)
      (wk_sessions w) (st_tasks (wk_store w)) = (ss, rows, fin)" by (metis surj_pair)
  from finalize_work [OF _ _ f [unfolded finalize_idle_sessions_def]] assms
  have "task_ids rows = task_ids (st_tasks (wk_store w)) \<and> sessions_inv ss \<and>
      fst (queue_counts rows) + length (ss_activity ss) \<le>
        fst (queue_counts (st_tasks (wk_store w))) + length (ss_activity (wk_sessions w))"
    by (simp add: worker_ok_def)
  with f assms show ?thesis
    by (simp add: finalize_sessions_def worker_ok_def work_def store_pending_def)
qed

lemma set_events_simps [simp]:
  "wk_store (set_events rows w) = (wk_store w)\<lparr>st_events := rows\<rparr>"
  "wk_sessions (set_events rows w) = wk_sessions w" "wk_recovered (set_events rows w) = wk_recovered w"
  by (simp_all add: set_events_def)

lemma worker_ok_fields:
  "worker_ok (w\<lparr>wk_recovered := a, wk_recovering := b\<rparr>) = worker_ok w"
  "worker_ok (w\<lparr>wk_last_purge := n\<rparr>) = worker_ok w"
  by (simp_all add: worker_ok_def)

lemma requeue_counts:
  "fst (queue_counts (snd (requeue_quarantined_events rows))) =
     fst (queue_counts rows) + snd (queue_counts rows)"
  unfolding requeue_quarantined_events_def update_where_def queue_counts_def by (induction rows) auto

lemma recover_work:
  assumes "worker_ok w"
  shows "worker_ok (recover_quarantined_events w) \<and> work (recover_quarantined_events w) \<le> work w"
proof -
  let ?rows = "snd (requeue_quarantined_events (st_events (wk_store w)))"
  have "event_ids ?rows = event_ids (st_events (wk_store w))"
    by (simp add: requeue_quarantined_events_def update_where_def event_ids_def)
  then show ?thesis
    using assms requeue_counts [of "st_events (wk_store w)"]
    by (simp add: recover_quarantined_events_def worker_ok_def work_def store_pending_def split_beta)
qed

lemma filter_counts:
  "fst (queue_counts (filter P rows)) \<le> fst (queue_counts rows)"
  "snd (queue_counts (filter P rows)) \<le> snd (queue_counts rows)"
  by (induction rows) (auto simp: queue_counts_def)

lemma purge_work:
  assumes "worker_ok w"
  shows "worker_ok (purge_if_due cy w) \<and> work (purge_if_due cy w) \<le> work w"
proof -
  let ?rows = "snd (purge_synced (cy_cutoff cy) (st_events (wk_store w)))"
  obtain P where P: "?rows = filter P (st_events (wk_store w))" by (simp add: purge_synced_def Let_def)
  have "distinct (event_ids ?rows)" "\<forall>u \<in> set (event_ids ?rows). py_lower u = u"
    using assms by (auto simp: P worker_ok_def event_ids_def distinct_map_filter)
  with filter_counts [of P "st_events (wk_store w)"] assms show ?thesis
    unfolding P [symmetric]
    by (simp add: purge_if_due_def worker_ok_def work_def store_pending_def)
qed

lemma begin_cycle_work:
  assumes "worker_ok w"
  shows "worker_ok (begin_cycle cy w) \<and> work (begin_cycle cy w) \<le> work w \<and> wk_recovered (begin_cycle cy w)"
proof -
  note f = finalize_sessions_work [OF assms, of cy]
  note r = recover_work [OF f [THEN conjunct1]]
  note p = purge_work [OF r [THEN conjunct1], of cy]
  have "wk_recovered (begin_cycle cy w)"
    by (simp add: begin_cycle_def purge_if_due_def recover_quarantined_events_def split_beta)
  with f r p show ?thesis by (auto simp: begin_cycle_def)
qed

section \<open>The scan\<close>

lemma scan_worker_ok:
  assumes "distinct (event_ids rows)" "scan_events convert (\<lambda>k r. r) batch rows = (sc, rows')"
  shows "scan_ok convert rows sc rows'"
proof -
  have "scan_ok convert rows empty_scan rows" by (simp add: scan_ok_def empty_scan_def map_idI)
  from scan_loop_ok [OF this] assms show ?thesis by (simp add: scan_events_def event_ids_def)
qed

lemma scan_ok_rows:
  assumes "scan_ok convert rows sc rows'"
  shows "event_ids rows' = event_ids rows" "fst (queue_counts rows') \<le> fst (queue_counts rows)"
proof -
  have eq: "rows' = map (\<lambda>r. if status r = Pending \<and> ev_id (body r) \<in> set (sc_failed sc)
      then r\<lparr>status := Quarantined\<rparr> else r) rows" using assms by (simp add: scan_ok_def)
  show "event_ids rows' = event_ids rows" by (simp add: eq event_ids_def)
  show "fst (queue_counts rows') \<le> fst (queue_counts rows)"
    unfolding eq by (induction rows) (auto simp: queue_counts_def)
qed

text \<open>A converted snapshot is a row that is still pending, under the version that was noted.\<close>

lemma taken_row:
  assumes ok: "scan_ok convert rows sc rows'" and d: "distinct (event_ids rows)"
    and t: "(e, v) \<in> set (sc_taken sc)" and conv: "convert e \<noteq> Inr None"
  shows "\<exists>r \<in> set rows'. status r = Pending \<and> body r = e \<and> version r = v \<and> sc_versions sc (ev_id e) = Some v"
proof -
  note same = versions_of_rows [OF d [unfolded event_ids_def]]
  from scan_okD(1,2) [OF ok t] obtain w r where w: "sc_versions sc (ev_id e) = Some w"
      and r: "r \<in> set rows" "status r = Pending" "body r = e" "version r = v" by blast
  from scan_okD(3) [OF ok w] obtain q where "q \<in> set rows" "ev_id (body q) = ev_id e" "version q = w" by blast
  with same [OF _ r(1)] r w have "sc_versions sc (ev_id e) = Some v" by auto
  moreover have "ev_id e \<notin> set (sc_failed sc)"
  proof
    assume "ev_id e \<in> set (sc_failed sc)"
    from scan_okD(4) [OF ok this] obtain q where "q \<in> set rows" "ev_id (body q) = ev_id e"
        "convert (body q) = Inr None" by blast
    with same [OF _ r(1)] r conv show False by auto
  qed
  moreover have "rows' = map (\<lambda>r. if status r = Pending \<and> ev_id (body r) \<in> set (sc_failed sc)
      then r\<lparr>status := Quarantined\<rparr> else r) rows" using ok by (simp add: scan_ok_def)
  ultimately show ?thesis using r by (auto intro!: bexI [of _ r])
qed

section \<open>The wire forms name their records\<close>

lemma text_item_get: "dict_get d k = JStr s \<Longrightarrow> text_item k d = Inr s"
  by (auto simp: dict_get_def text_item_def dict_item_def split: option.splits)

lemma converted_event_id:
  assumes "convert_event cy e = Inr (Some d)"
  shows "text_item ''event_id'' d = Inr (py_lower (ev_id e))"
proof (rule text_item_get)
  have "draft_v3 (cy_digest cy) (cy_environment cy) (sanitized (pv_redact (cy_privacy cy)) e) = Inr (Some d)"
    using assms by (auto simp: convert_event_def prepare_event_dict_def to_observation_v3_def
        split: sum.splits option.splits if_splits)
  then show "dict_get d ''event_id'' = JStr (py_lower (ev_id e))"
    by (auto simp: draft_v3_def sanitized_def assemble_gets(1) split: option.splits sum.splits if_splits)
qed

lemma prepared_task_id: "text_item ''task_id'' (prepare_task_dict h pv t) = Inr (tk_id t)"
proof (rule text_item_get)
  have "dict_get (to_task_ingest t) ''task_id'' = JStr (tk_id t)" by (simp add: to_task_ingest_def dict_get_def)
  then show "dict_get (prepare_task_dict h pv t) ''task_id'' = JStr (tk_id t)"
    unfolding prepare_task_dict_def limit_metadata_get hash_pii_get hash_keys_get redact_metadata_get
    by (simp add: pii_keys_def split: json.split)
qed

lemma redact_identity_id: "dict_get (redact_identity names d) ''task_id'' = dict_get d ''task_id''"
  by (simp add: redact_identity_def Let_def pop_in_def dict_get_pop dict_get_set split: json.split)

lemma prepared_identity_id:
  assumes "prepare_business_identity h pv t = Inr (Some d)"
  shows "text_item ''task_id'' d = Inr (tk_id t)"
proof (rule text_item_get)
  from assms obtain d0 where d0: "business_identity t = Inr (Some d0)"
    by (auto simp: prepare_business_identity_def split: if_splits sum.splits option.splits)
  then have "dict_get d0 ''task_id'' = JStr (tk_id t)"
    by (auto simp: business_identity_def dict_get_def split: option.splits)
  with assms d0 show "dict_get d ''task_id'' = JStr (tk_id t)"
    by (auto simp: prepare_business_identity_def Let_def dict_get_set redact_identity_id split: if_splits)
qed

lemma outcome_wire_key: "ledger_key ''outcome_id'' (obj_of (outcome_to_dict x)) = Inr (out_id x, out_revision x)"
  by (simp add: obj_of_def outcome_to_dict_def ledger_key_def text_item_def dict_item_def)

lemma revenue_wire_key: "ledger_key ''revenue_id'' (revenue_to_dict x) = Inr (rev_id x, rev_revision x)"
  by (simp add: revenue_to_dict_def ledger_key_def text_item_def dict_item_def)

lemma job_wire_key:
  assumes "to_attribution_observation schema sha environment j = Inr v"
    and "(job_event_id j, job_revision j) \<in> set jobs"
  shows "event_key jobs (obj_of v) = Inr (JobRevision (job_event_id j) (job_revision j))"
proof -
  from assms(1) have "v = JObj (observation sha environment j)"
    by (auto simp: to_attribution_observation_def Let_def split: option.splits)
  with assms(2) show ?thesis
    by (simp add: obj_of_def observation_def event_key_def event_revision_def text_item_def dict_item_def
        dict_get_def)
qed

lemma collect_mem: "collect f xs = Inr ys \<Longrightarrow> y \<in> set ys \<Longrightarrow> \<exists>x \<in> set xs. f x = Inr y"
  unfolding collect_map by (metis (no_types, opaque_lifting) image_iff list.set_map)

lemma query_tasks_rows:
  "(t, v) \<in> set (query_task_deliveries_for_sync rows n) \<Longrightarrow>
     \<exists>r \<in> set rows. status r = Pending \<and> body r = t \<and> version r = v"
  using set_sql_limit by (fastforce simp: query_task_deliveries_for_sync_def)

lemma query_ledger_rows:
  "x \<in> set (query_outcomes_for_sync rows1 n) \<Longrightarrow> \<exists>r \<in> set rows1. status r = Pending \<and> body r = x"
  "y \<in> set (query_revenues_for_sync rows2 n) \<Longrightarrow> \<exists>r \<in> set rows2. status r = Pending \<and> body r = y"
  "z \<in> set (query_provider_jobs_for_sync rows3 n) \<Longrightarrow> \<exists>r \<in> set rows3. status r = Pending \<and> body r = z"
  using set_sql_limit
  by (fastforce simp: query_outcomes_for_sync_def query_revenues_for_sync_def query_provider_jobs_for_sync_def)+

lemma batch_parts:
  assumes "batch_payload cy sc st = Inr (p, bk)"
  obtains ids obs where
    "collect (prepare_business_identity (cy_sha256 cy) (cy_privacy cy))
       (map fst (query_task_deliveries_for_sync (st_tasks st) task_scan_limit)) = Inr ids"
    "collect (to_attribution_observation (cy_schema cy) (cy_digest cy) (cy_environment cy))
       (jobs_for_batch (batch_size cy) sc st) = Inr obs"
    "pl_events p = sc_dicts sc @ map obj_of obs"
    "pl_tasks p = map (prepare_task_dict (cy_sha256 cy) (cy_privacy cy) \<circ> fst)
       (query_task_deliveries_for_sync (st_tasks st) task_scan_limit)"
    "pl_identities p = List.map_filter id ids"
    "pl_outcomes p = map (obj_of \<circ> outcome_to_dict) (query_outcomes_for_sync (st_outcomes st) (batch_size cy))"
    "pl_revenues p = map revenue_to_dict (query_revenues_for_sync (st_revenues st) (batch_size cy))"
    "bk_events bk = Some (sc_versions sc)"
    "bk_tasks bk = Some (map_of (rev (map (\<lambda>(t, v). (tk_id t, v))
       (query_task_deliveries_for_sync (st_tasks st) task_scan_limit))))"
    "bk_jobs bk = map (\<lambda>j. (job_event_id j, job_revision j)) (jobs_for_batch (batch_size cy) sc st)"
  using assms by (auto simp: batch_payload_def Let_def split: sum.splits)

lemma batch_identities_ok:
  assumes "batch_payload cy sc st = Inr (p, bk)"
  shows "identities_ok p"
  using assms
proof (rule batch_parts)
  fix ids
  let ?ts = "query_task_deliveries_for_sync (st_tasks st) task_scan_limit"
  assume ids: "collect (prepare_business_identity (cy_sha256 cy) (cy_privacy cy)) (map fst ?ts) = Inr ids"
    and tasks: "pl_tasks p = map (prepare_task_dict (cy_sha256 cy) (cy_privacy cy) \<circ> fst) ?ts"
    and identities: "pl_identities p = List.map_filter id ids"
  have "text_item ''task_id'' d \<in> text_item ''task_id'' ` set (pl_tasks p)" if d: "d \<in> set (pl_identities p)" for d
  proof -
    from d identities have "Some d \<in> set ids" by (auto simp: List.map_filter_def)
    from collect_mem [OF ids this] obtain t where t: "t \<in> set (map fst ?ts)"
        "prepare_business_identity (cy_sha256 cy) (cy_privacy cy) t = Inr (Some d)" by blast
    from t(1) show ?thesis
      unfolding prepared_identity_id [OF t(2)] tasks by (auto simp: prepared_task_id image_iff)
  qed
  then show ?thesis by (auto simp: identities_ok_def tasks prepared_task_id)
qed

text \<open>A batch that is not empty has a record whose row is pending.\<close>

lemma event_record:
  assumes ok: "scan_ok (convert_event cy) rows sc (st_events st)" and d: "distinct (event_ids rows)"
    and low: "\<forall>u \<in> set (event_ids rows). py_lower u = u" and g: "g \<in> set (sc_dicts sc)" "g \<in> set (pl_events p)"
    and bk: "bk_events bk = Some (sc_versions sc)"
      "bk_jobs bk = map (\<lambda>j. (job_event_id j, job_revision j)) jobs"
    and jobs: "\<And>j. j \<in> set jobs \<Longrightarrow> \<exists>r \<in> set (st_jobs st). status r = Pending \<and> body r = j"
  shows "(\<exists>r \<in> set (st_events st). status r = Pending \<and> event_row_key r \<in> event_idents bk p) \<or>
    (\<exists>r \<in> set (st_jobs st). status r = Pending \<and> job_row_key r \<in> job_idents bk p)"
proof -
  let ?conv = "convert_event cy"
  have "map (Inr \<circ> Some) (sc_dicts sc) = map (?conv \<circ> fst) (sc_taken sc)" using ok by (simp add: scan_ok_def)
  then have "(Inr \<circ> Some) ` set (sc_dicts sc) = (?conv \<circ> fst) ` set (sc_taken sc)" by (metis list.set_map)
  with g(1) have "Inr (Some g) \<in> (?conv \<circ> fst) ` set (sc_taken sc)" by (metis comp_apply image_eqI)
  then obtain e v where t: "(e, v) \<in> set (sc_taken sc)" and c: "?conv e = Inr (Some g)"
    unfolding image_iff comp_def by (metis prod.collapse)
  from taken_row [OF ok d t] c obtain r where r: "r \<in> set (st_events st)" "status r = Pending" "body r = e"
      "version r = v" "sc_versions sc (ev_id e) = Some v" by auto
  have "ev_id e \<in> set (event_ids rows)" using scan_okD(2) [OF ok t] by (auto simp: event_ids_def)
  with low converted_event_id [OF c] have "text_item ''event_id'' g = Inr (ev_id e)" by simp
  then consider "event_key (bk_jobs bk) g = Inr (PlainEvent (ev_id e))"
    | n where "event_key (bk_jobs bk) g = Inr (JobRevision (ev_id e) n)" "(ev_id e, n) \<in> set (bk_jobs bk)"
    by (fastforce simp: event_key_def split: option.splits if_splits)
  then show ?thesis
  proof cases
    case 1
    then have "event_row_key r \<in> event_idents bk p"
      using g(2) r bk by (force simp: event_idents_def version_fits_def image_iff)
    with r show ?thesis by blast
  next
    case 2
    then obtain j where "j \<in> set jobs" "job_event_id j = ev_id e" "job_revision j = n" using bk by auto
    with jobs obtain q where q: "q \<in> set (st_jobs st)" "status q = Pending" "body q = j" by blast
    have "job_row_key q \<in> job_idents bk p"
      using 2(1) g(2) \<open>job_event_id j = ev_id e\<close> \<open>job_revision j = n\<close>
      by (force simp: job_idents_def image_iff q(3))
    with q show ?thesis by blast
  qed
qed

lemma job_record:
  assumes g: "g \<in> set obs" "obj_of g \<in> set (pl_events p)"
    and obs: "collect (to_attribution_observation schema sha environment) jobs = Inr obs"
    and bk: "bk_jobs bk = map (\<lambda>j. (job_event_id j, job_revision j)) jobs"
    and jobs: "\<And>j. j \<in> set jobs \<Longrightarrow> \<exists>r \<in> set (st_jobs st). status r = Pending \<and> body r = j"
  shows "\<exists>r \<in> set (st_jobs st). status r = Pending \<and> job_row_key r \<in> job_idents bk p"
proof -
  from collect_mem [OF obs g(1)] obtain j where j: "j \<in> set jobs"
      "to_attribution_observation schema sha environment j = Inr g" by blast
  have "(job_event_id j, job_revision j) \<in> set (bk_jobs bk)" using j(1) bk by auto
  from job_wire_key [OF j(2) this] g(2)
  have "(job_event_id j, job_revision j) \<in> job_idents bk p" by (force simp: job_idents_def image_iff)
  with jobs [OF j(1)] show ?thesis by fastforce
qed

lemma task_record:
  assumes d: "distinct (task_ids rows)" and ts: "ts = query_task_deliveries_for_sync rows n" "ts \<noteq> []"
    and p: "pl_tasks p = map (prepare_task_dict h pv \<circ> fst) ts"
    and bk: "bk_tasks bk = Some (map_of (rev (map (\<lambda>(t, v). (tk_id t, v)) ts)))"
  shows "\<exists>r \<in> set rows. status r = Pending \<and> task_row_key r \<in> task_idents bk p"
proof -
  from ts(2) obtain t v where tv: "(t, v) \<in> set ts" by (cases ts) auto
  with query_tasks_rows obtain r where r: "r \<in> set rows" "status r = Pending" "body r = t" "version r = v"
    unfolding ts(1) by blast
  let ?vs = "rev (map (\<lambda>(t, v). (tk_id t, v)) ts)"
  have "tk_id t \<in> fst ` set ?vs" using tv by force
  then obtain w where w: "map_of ?vs (tk_id t) = Some w" by (metis domD dom_map_of_conv_image_fst)
  then obtain t' where "(t', w) \<in> set ts" "tk_id t' = tk_id t" by (auto dest!: map_of_SomeD)
  with query_tasks_rows obtain q where "q \<in> set rows" "body q = t'" "version q = w" unfolding ts(1) by blast
  with d r \<open>tk_id t' = tk_id t\<close> have "w = v" by (fastforce simp: task_ids_def distinct_map inj_on_def)
  with w have "(tk_id t, v) \<in> task_idents bk p"
    using tv by (force simp: task_idents_def version_fits_def bk p prepared_task_id image_iff)
  with r show ?thesis by blast
qed

lemma batch_record:
  assumes b: "batch_payload cy sc st = Inr (p, bk)" and pos: "durable_count p \<noteq> 0"
    and ok: "scan_ok (convert_event cy) rows sc (st_events st)" and low: "\<forall>u \<in> set (event_ids rows). py_lower u = u"
    and d: "distinct (event_ids rows)" "distinct (task_ids (st_tasks st))"
  shows "(\<exists>r \<in> set (st_events st). status r = Pending \<and> event_row_key r \<in> event_idents bk p) \<or>
    (\<exists>r \<in> set (st_jobs st). status r = Pending \<and> job_row_key r \<in> job_idents bk p) \<or>
    (\<exists>r \<in> set (st_tasks st). status r = Pending \<and> task_row_key r \<in> task_idents bk p) \<or>
    (\<exists>r \<in> set (st_outcomes st). status r = Pending \<and> outcome_row_key r \<in> outcome_idents p) \<or>
    (\<exists>r \<in> set (st_revenues st). status r = Pending \<and> revenue_row_key r \<in> revenue_idents p)"
  using b
proof (rule batch_parts)
  fix ids obs
  let ?jobs = "jobs_for_batch (batch_size cy) sc st"
  let ?ts = "query_task_deliveries_for_sync (st_tasks st) task_scan_limit"
  assume obs: "collect (to_attribution_observation (cy_schema cy) (cy_digest cy) (cy_environment cy)) ?jobs = Inr obs"
    and events: "pl_events p = sc_dicts sc @ map obj_of obs"
    and tasks: "pl_tasks p = map (prepare_task_dict (cy_sha256 cy) (cy_privacy cy) \<circ> fst) ?ts"
    and outs: "pl_outcomes p = map (obj_of \<circ> outcome_to_dict) (query_outcomes_for_sync (st_outcomes st) (batch_size cy))"
    and revs: "pl_revenues p = map revenue_to_dict (query_revenues_for_sync (st_revenues st) (batch_size cy))"
    and bk: "bk_events bk = Some (sc_versions sc)"
      "bk_tasks bk = Some (map_of (rev (map (\<lambda>(t, v). (tk_id t, v)) ?ts)))"
      "bk_jobs bk = map (\<lambda>j. (job_event_id j, job_revision j)) ?jobs"
  have jobs: "\<exists>r \<in> set (st_jobs st). status r = Pending \<and> body r = j" if "j \<in> set ?jobs" for j
    using that query_ledger_rows(3) by (auto simp: jobs_for_batch_def split: if_splits)
  from pos consider g where "g \<in> set (sc_dicts sc)" | g where "g \<in> set obs" | "?ts \<noteq> []"
    | x where "x \<in> set (query_outcomes_for_sync (st_outcomes st) (batch_size cy))"
    | x where "x \<in> set (query_revenues_for_sync (st_revenues st) (batch_size cy))"
    unfolding durable_count_def events tasks outs revs by (fastforce simp: neq_Nil_conv)
  then show ?thesis
  proof cases
    case 1
    from event_record [OF ok d(1) low 1 _ bk(1,3) jobs, of p] 1 events show ?thesis by auto
  next
    case 2
    from job_record [OF 2 _ obs bk(3) jobs, of p] 2 events show ?thesis by auto
  next
    case 3
    from task_record [OF d(2) refl 3 tasks bk(2)] show ?thesis by blast
  next
    case 4
    from query_ledger_rows(1) [OF 4] obtain r where r: "r \<in> set (st_outcomes st)" "status r = Pending" "body r = x"
      by blast
    have "outcome_row_key r \<in> outcome_idents p"
      using 4 by (force simp: outcome_idents_def outs r(3) outcome_wire_key image_iff)
    with r show ?thesis by blast
  next
    case 5
    from query_ledger_rows(2) [OF 5] obtain r where r: "r \<in> set (st_revenues st)" "status r = Pending" "body r = x"
      by blast
    have "revenue_row_key r \<in> revenue_idents p"
      using 5 by (force simp: revenue_idents_def revs r(3) revenue_wire_key image_iff)
    with r show ?thesis by blast
  qed
qed

section \<open>A cycle uses up work\<close>

lemma post_moves:
  assumes "post_with_split limit env net bk p s = (r, s')"
  shows "\<exists>A B. store_moved bk A B (ps_store s) (ps_store s')"
    and "r = Inr True \<Longrightarrow> identities_ok p \<Longrightarrow> store_done bk p (ps_store s')"
proof -
  have eff: "step_effect limit bk (leaves (plan limit p)) r s s'"
    using assms run_plan_effect [OF plan_steps_ok] by (simp add: post_with_split_plan_aux)
  then show "\<exists>A B. store_moved bk A B (ps_store s) (ps_store s')"
    unfolding step_effect_def by blast
  assume r: "r = Inr True" and ok: "identities_ok p"
  with plan_covers [of p limit] obtain qs where qs: "plan limit p = map Leaf qs" "covers p qs" by blast
  have "leaves (plan limit p) = qs" unfolding qs(1) by (induction qs) simp_all
  with eff r have "\<forall>q \<in> set qs. store_done bk q (ps_store s')" by (auto simp: step_effect_def)
  with qs(2) show "store_done bk p (ps_store s')" by (rule covers_done)
qed

lemma on_health_simps [simp]:
  "wk_store (on_health f w) = wk_store w" "wk_sessions (on_health f w) = wk_sessions w"
  "wk_recovered (on_health f w) = wk_recovered w" "wk_backoff (on_health f w) = wk_backoff w"
  "wk_finalize (on_health f w) = wk_finalize w" "wk_flush (on_health f w) = wk_flush w"
  "ps_stopped (wk_post (on_health f w)) = ps_stopped (wk_post w)"
  by (simp_all add: on_health_def)

lemma finish_recovery_simps [simp]:
  "wk_store (finish_quarantine_recovery w) = wk_store w"
  "wk_sessions (finish_quarantine_recovery w) = wk_sessions w"
  "wk_recovered (finish_quarantine_recovery w) = wk_recovered w"
  "wk_backoff (finish_quarantine_recovery w) = wk_backoff w"
  "wk_finalize (finish_quarantine_recovery w) = wk_finalize w"
  by (simp_all add: finish_quarantine_recovery_def)

text \<open>Two workers with the same store (up to moved rows), sessions and recovery state.\<close>

lemma work_moved:
  assumes "worker_ok w" "wk_recovered w" "store_pending (wk_store w') \<le> store_pending (wk_store w)"
    and "event_ids (st_events (wk_store w')) = event_ids (st_events (wk_store w))"
    and "task_ids (st_tasks (wk_store w')) = task_ids (st_tasks (wk_store w))"
    and "wk_sessions w' = wk_sessions w" "wk_recovered w' = wk_recovered w"
  shows "worker_ok w' \<and> work w' + store_pending (wk_store w) = work w + store_pending (wk_store w')"
  using assms by (simp add: worker_ok_def work_def)

lemma deliver_work:
  assumes ok: "worker_ok w" "wk_recovered w" and run: "deliver cy sc p bk w = (r, w')"
    and ids: "identities_ok p"
    and one: "\<And>A B s'. \<lbrakk>store_moved bk A B (wk_store w) s'; store_done bk p s'\<rbrakk>
      \<Longrightarrow> store_pending s' < store_pending (wk_store w)"
  shows "worker_ok w' \<and> wk_recovered w' \<and> work w' \<le> work w \<and> (r = Inr True \<longrightarrow> work w' < work w)"
proof -
  define start where "start = (wk_post (on_health (record_attempt (env_now (cy_env cy))) w))
    \<lparr>ps_delivered := 0, ps_quarantined := 0\<rparr>"
  obtain res s where post: "post_with_split (cy_limit cy) (cy_env cy) (cy_net cy) bk p start = (res, s)" by force
  have st: "ps_store start = wk_store w" by (simp add: start_def on_health_def)
  from post_moves(1) [OF post] obtain A B where m: "store_moved bk A B (wk_store w) (ps_store s)"
    unfolding st by blast
  note le = store_moved_pending [OF m]
  have res: "wk_store w' = ps_store s \<and> wk_sessions w' = wk_sessions w \<and> wk_recovered w' = wk_recovered w \<and>
      (r = Inr True \<longrightarrow> res = Inr True)"
    using run post unfolding start_def [symmetric] deliver_def
    by (auto simp: Let_def start_def [symmetric] conclude_def split: sum.splits bool.splits if_splits)
  have strict: "store_pending (ps_store s) < store_pending (wk_store w)" if "r = Inr True"
    using one [OF m] post_moves(2) [OF post _ ids] res that by simp
  from work_moved [OF ok, of w'] res le store_moved_ids [OF m]
  have "worker_ok w' \<and> work w' + store_pending (wk_store w) = work w + store_pending (ps_store s)" by simp
  with le strict res ok(2) show ?thesis by auto
qed

lemma sync_batch_work:
  assumes ok: "worker_ok w0" and alone: "cy_app cy = (\<lambda>k rows. rows)"
    and run: "sync_batch cy w0 = (r, w')"
  shows "worker_ok w' \<and> work w' \<le> work w0 \<and> (r = Inr True \<longrightarrow> work w' < work w0)"
proof -
  define w1 where "w1 = begin_cycle cy w0"
  obtain sc rows where sc: "scan_events (convert_event cy) (\<lambda>k rows. rows) (batch_size cy)
      (st_events (wk_store w1)) = (sc, rows)" by force
  define w where "w = set_events rows w1"
  from begin_cycle_work [OF ok, of cy]
  have ok1: "worker_ok w1" "work w1 \<le> work w0" "wk_recovered w1" by (simp_all add: w1_def)
  have d1: "distinct (event_ids (st_events (wk_store w1)))"
      "\<forall>u \<in> set (event_ids (st_events (wk_store w1))). py_lower u = u"
    using ok1(1) by (simp_all add: worker_ok_def)
  note scan = scan_worker_ok [OF d1(1) sc]
  note rows = scan_ok_rows [OF scan]
  have w: "worker_ok w" "work w \<le> work w1" "wk_recovered w"
    using ok1 rows by (simp_all add: w_def worker_ok_def work_def store_pending_def)
  have concluded: ?thesis if "(r, w') = conclude sc False w"
    using that w ok1(2) by (auto simp: conclude_def worker_ok_def work_def)
  consider e where "sc_error sc = Some e" | e where "sc_error sc = None" "batch_payload cy sc (wk_store w) = Inl e"
    | pb where "sc_error sc = None" "batch_payload cy sc (wk_store w) = Inr pb"
    by (metis old.sum.exhaust option.exhaust)
  then show ?thesis
  proof cases
    case 1
    with run sc w ok1(2) show ?thesis by (auto simp: sync_batch_def Let_def w1_def [symmetric] w_def alone)
  next
    case 2
    with run sc w ok1(2) show ?thesis by (auto simp: sync_batch_def Let_def w1_def [symmetric] w_def alone)
  next
    case (3 pb)
    obtain p bk where pb: "pb = (p, bk)" by force
    note b = 3(2) [unfolded pb]
    have run': "(r, w') = (if durable_count p = 0 then conclude sc False w else deliver cy sc p bk w)"
      using run sc b 3(1) by (auto simp: sync_batch_def Let_def w1_def [symmetric] w_def alone)
    show ?thesis
    proof (cases "durable_count p = 0")
      case True
      with run' concluded show ?thesis by simp
    next
      case False
      have "scan_ok (convert_event cy) (st_events (wk_store w1)) sc (st_events (wk_store w))"
        using scan by (simp add: w_def)
      from batch_record [OF b False this d1(2,1)] w(1) worker_ok_def [of w]
      have pending: "store_pending s' < store_pending (wk_store w)"
        if "store_moved bk A B (wk_store w) s'" "store_done bk p s'" for A B s'
        using store_moved_strict [OF that] by blast
      have "deliver cy sc p bk w = (r, w')" using run' False by simp
      then have "worker_ok w' \<and> wk_recovered w' \<and> work w' \<le> work w \<and> (r = Inr True \<longrightarrow> work w' < work w)"
        by (rule deliver_work [OF w(1,3) _ batch_identities_ok [OF b] pending])
      with w(2) ok1(2) show ?thesis by auto
    qed
  qed
qed

section \<open>Turns\<close>

lemma note_error_simps [simp]:
  "wk_store (note_error cy e operation retryable ws w) = wk_store w"
  "wk_sessions (note_error cy e operation retryable ws w) = wk_sessions w"
  "wk_recovered (note_error cy e operation retryable ws w) = wk_recovered w"
  "wk_backoff (note_error cy e operation retryable ws w) = wk_backoff w"
  by (simp_all add: note_error_def Let_def split_beta)

lemma acknowledge_flush_simps [simp]:
  "wk_post (acknowledge_flush w) = wk_post w" "wk_sessions (acknowledge_flush w) = wk_sessions w"
  "wk_recovered (acknowledge_flush w) = wk_recovered w" "wk_backoff (acknowledge_flush w) = wk_backoff w"
  by (simp_all add: acknowledge_flush_def)

lemma after_cycle_frame:
  assumes "after_cycle cy r w = (next, w')"
  shows "worker_ok w' = worker_ok w \<and> work w' = work w"
  using assms
  by (auto simp: after_cycle_def pause_def worker_ok_def work_def Let_def
      split: sum.splits bool.splits cycle_error.splits if_splits)

lemma after_cycle_again:
  "after_cycle cy r w = (Again, w') \<Longrightarrow> r = Inr True \<or> wk_finalize w"
  by (auto simp: after_cycle_def pause_def Let_def split: sum.splits bool.splits cycle_error.splits if_splits)

lemma sync_batch_finalize: "wk_finalize (snd (sync_batch cy w)) = False"
proof -
  have b: "wk_finalize (begin_cycle cy w) = False"
    by (simp add: begin_cycle_def purge_if_due_def recover_quarantined_events_def finalize_sessions_def
        set_events_def Let_def split_beta)
  then show ?thesis
    by (auto simp: sync_batch_def deliver_def conclude_def on_health_def set_events_def
        finish_quarantine_recovery_def Let_def split_beta split: sum.split bool.split option.split)
qed

lemma request_flush_frame: "worker_ok (request_flush w) = worker_ok w" "work (request_flush w) = work w"
  by (simp_all add: request_flush_def worker_ok_def work_def)

lemma run_turn_parts:
  assumes "run_turn cy w = ((r, next), w')"
  obtains w1 where "sync_batch cy w = (r, w1)"
    "after_cycle cy r (if cy_flushed cy then request_flush w1 else w1) = (next, w')"
proof -
  obtain r1 w1 where s1: "sync_batch cy w = (r1, w1)" by force
  obtain n1 w2 where a1: "after_cycle cy r1 (if cy_flushed cy then request_flush w1 else w1) = (n1, w2)" by force
  from assms s1 a1 show thesis by (intro that [of w1]) (simp_all add: run_turn_def)
qed

lemma run_turn_work:
  assumes "worker_ok w0" "cy_app cy = (\<lambda>k rows. rows)"
    and "run_turn cy w0 = ((r, next), w)"
  shows "worker_ok w \<and> work w + of_bool (next = Again) \<le> work w0 + of_bool (cy_flushed cy)"
proof -
  obtain w1 where s: "sync_batch cy w0 = (r, w1)"
      and a: "after_cycle cy r (if cy_flushed cy then request_flush w1 else w1) = (next, w)"
    using run_turn_parts [OF assms(3)] .
  note w1 = sync_batch_work [OF assms(1,2) s]
  have fl: "\<not> wk_finalize w1" using sync_batch_finalize [of cy w0] s by simp
  note frame = after_cycle_frame [OF a]
  show ?thesis
  proof (cases "next = Again")
    case False
    with w1 frame show ?thesis by (auto simp: request_flush_frame)
  next
    case True
    from after_cycle_again [OF a [unfolded True]] fl have "r = Inr True \<or> cy_flushed cy" by (auto split: if_splits)
    with w1 frame True show ?thesis by (auto simp: request_flush_frame)
  qed
qed

definition transport_failure :: "cycle_error + bool \<Rightarrow> bool" where
  "transport_failure r = (case r of Inl (ConversionError ids) \<Rightarrow> False | Inl e \<Rightarrow> True | Inr b \<Rightarrow> False)"

lemma sync_batch_backoff: "wk_backoff (snd (sync_batch cy w)) = wk_backoff w"
proof -
  have b: "wk_backoff (begin_cycle cy w) = wk_backoff w"
    by (simp add: begin_cycle_def purge_if_due_def recover_quarantined_events_def finalize_sessions_def
        set_events_def Let_def split_beta)
  then show ?thesis
    by (auto simp: sync_batch_def deliver_def conclude_def on_health_def set_events_def
        finish_quarantine_recovery_def Let_def split_beta split: sum.split bool.split option.split)
qed

lemma run_turn_backoff:
  assumes "run_turn cy w = ((r, next), w')"
  shows "transport_failure r \<Longrightarrow> wk_backoff w' = min (wk_backoff w * 2) max_backoff \<and>
      next \<in> {Leave, Wait (min (wk_backoff w * 2) max_backoff)}"
    and "r = Inr True \<Longrightarrow> wk_backoff w' = initial_backoff"
proof -
  obtain w1 where s: "sync_batch cy w = (r, w1)"
      and a: "after_cycle cy r (if cy_flushed cy then request_flush w1 else w1) = (next, w')"
    using run_turn_parts [OF assms] .
  have b: "wk_backoff (if cy_flushed cy then request_flush w1 else w1) = wk_backoff w"
    using sync_batch_backoff [of cy w] s by (simp add: request_flush_def)
  show "transport_failure r \<Longrightarrow> wk_backoff w' = min (wk_backoff w * 2) max_backoff \<and>
      next \<in> {Leave, Wait (min (wk_backoff w * 2) max_backoff)}"
    using a b
    by (auto simp: after_cycle_def pause_def transport_failure_def Let_def
        split: sum.splits cycle_error.splits if_splits)
  show "r = Inr True \<Longrightarrow> wk_backoff w' = initial_backoff"
    using a by (auto simp: after_cycle_def)
qed

lemma failures_back_off_from:
  assumes "wk_backoff w = min (2 ^ k) 300" "run_turns cys w = (hist, w')" "\<forall>(r, n) \<in> set hist. transport_failure r"
  shows "wk_backoff w' = min (2 ^ (k + length hist)) 300 \<and>
    (\<forall>i < length hist. snd (hist ! i) \<in> {Leave, Wait (min (2 ^ (k + i + 1)) 300)})"
  using assms
proof (induction cys arbitrary: w k hist)
  case (Cons cy cys)
  show ?case
  proof (cases "ps_stopped (wk_post w)")
    case False
    obtain r n w1 where t: "run_turn cy w = ((r, n), w1)" by (metis surj_pair)
    obtain hist1 where rest: "run_turns cys w1 = (hist1, w')" and hist: "hist = (r, n) # hist1"
      using Cons.prems(2) False t by (auto simp: split_beta) (metis prod.collapse)
    have "transport_failure r" using Cons.prems(3) hist by simp
    note turn = run_turn_backoff(1) [OF t this]
    have twice: "min (min (2 ^ k) 300 * 2) 300 = (min (2 ^ (k + 1)) 300 :: nat)" by (simp add: min_def)
    have b: "wk_backoff w1 = min (2 ^ (k + 1)) 300" "n \<in> {Leave, Wait (min (2 ^ (k + 1)) 300)}"
      using turn twice by (simp_all add: Cons.prems(1) max_backoff_def)
    from Cons.IH [OF b(1) rest] Cons.prems(3) hist
    have IH: "wk_backoff w' = min (2 ^ (k + 1 + length hist1)) 300"
      "\<forall>i < length hist1. snd (hist1 ! i) \<in> {Leave, Wait (min (2 ^ (k + 1 + i + 1)) 300)}" by auto
    have "snd (hist ! i) \<in> {Leave, Wait (min (2 ^ (k + i + 1)) 300)}" if "i < length hist" for i
      using that b(2) IH(2) hist by (cases i) simp_all
    with IH(1) hist show ?thesis by simp
  qed (use Cons.prems in simp)
qed simp

section \<open>A task that cannot be uploaded\<close>

lemma collect_fails: "x \<in> set xs \<Longrightarrow> f x = Inl e \<Longrightarrow> \<exists>e'. collect f xs = Inl e'"
  by (induction xs) (auto split: sum.split)

lemma batch_fails:
  assumes "(t, v) \<in> set (query_task_deliveries_for_sync (st_tasks st) task_scan_limit)"
    and "prepare_business_identity (cy_sha256 cy) (cy_privacy cy) t = Inl e"
  shows "\<exists>e'. batch_payload cy sc st = Inl e'"
proof -
  have "t \<in> set (map fst (query_task_deliveries_for_sync (st_tasks st) task_scan_limit))"
    using assms(1) by force
  from collect_fails [of t _ "prepare_business_identity (cy_sha256 cy) (cy_privacy cy)", OF this assms(2)]
  show ?thesis by (auto simp: batch_payload_def Let_def)
qed

lemma cycle_fails:
  assumes "(t, v) \<in> set (query_task_deliveries_for_sync (st_tasks (wk_store (begin_cycle cy w))) task_scan_limit)"
    and "prepare_business_identity (cy_sha256 cy) (cy_privacy cy) t = Inl e"
  shows "\<exists>e' rows. sync_batch cy w = (Inl (CycleFailed (Raised e')), set_events rows (begin_cycle cy w))"
proof -
  obtain sc rows where sc: "scan_events (convert_event cy) (cy_app cy) (batch_size cy)
      (st_events (wk_store (begin_cycle cy w))) = (sc, rows)" by force
  have "(t, v) \<in> set (query_task_deliveries_for_sync
      (st_tasks (wk_store (set_events rows (begin_cycle cy w)))) task_scan_limit)" using assms(1) by simp
  from batch_fails [OF this assms(2)] obtain e' where
    "batch_payload cy sc (wk_store (set_events rows (begin_cycle cy w))) = Inl e'" by blast
  with sc show ?thesis by (cases "sc_error sc") (auto simp: sync_batch_def Let_def)
qed

lemma own_root_child_raises:
  assumes "tk_root_id t = Some (tk_id t)" "tk_parent_id t = Some p" "tk_ended_at t \<noteq> None"
  shows "\<exists>e. prepare_business_identity h pv t = Inl e"
proof -
  have "first_error (business_rules t (tk_id t)) \<noteq> None"
    using assms(2) unfolding first_error_None by (simp add: business_rules_def)
  with assms show ?thesis by (auto simp: prepare_business_identity_def business_identity_def)
qed

lemma after_flush:
  assumes "after_cycle cy r (request_flush w) = (next, w')"
  shows "wk_finalize w' \<and> (wk_flush_done w' \<longleftrightarrow> isl r)"
  using assms
  by (auto simp: after_cycle_def pause_def request_flush_def acknowledge_flush_def note_error_def on_health_def
      Let_def split_beta split: sum.splits bool.splits cycle_error.splits if_splits)

section \<open>Properties of the worker\<close>

text \<open>C7. The worker never spins: while no other thread writes events, the turns that go on without
  waiting, whatever the network answers, are at most as many as there are pending records,
  watched sessions, quarantined events (if not yet requeued) and flush requests that arrive
  during a turn. So it comes to rest after all work is done.\<close>

theorem turns_without_wait_bounded:
  assumes "worker_ok w" and "\<forall>cy \<in> set cys. cy_app cy = (\<lambda>k rows. rows)"
  shows "length (filter (\<lambda>(r, next). next = Again) (fst (run_turns cys w)))
    \<le> work w + length (filter cy_flushed cys)"
  using assms
proof (induction cys arbitrary: w)
  case (Cons cy cys)
  show ?case
  proof (cases "ps_stopped (wk_post w)")
    case False
    obtain r n w1 where t: "run_turn cy w = ((r, n), w1)" by (metis surj_pair)
    from run_turn_work [OF Cons.prems(1) _ t] Cons.prems(2)
    have "worker_ok w1" "work w1 + of_bool (n = Again) \<le> work w + of_bool (cy_flushed cy)" by auto
    with Cons.IH [of w1] Cons.prems(2) False t show ?thesis by (auto simp: split_beta)
  qed simp
qed simp

definition sample_cycle :: "nat cycle" where
  "sample_cycle =
     \<lparr>cy_batch_size = 100, cy_interval = 5, cy_limit = max_payload_bytes,
      cy_privacy = \<lparr>pv_redact = [], pv_hash_ids = False\<rparr>, cy_environment = None, cy_sha256 = sample_hex,
      cy_digest = (\<lambda>s. []), cy_schema = (\<lambda>v. []),
      cy_env = \<lparr>env_api_key = None, env_now = sample_time 0\<rparr>, cy_net = accept_all,
      cy_app = (\<lambda>k rows. rows), cy_mono = 0, cy_ended = (\<lambda>x. sample_time 9), cy_locked = (\<lambda>u. False),
      cy_cutoff = sample_time 0, cy_flushed = False\<rparr>"

definition sample_worker :: "task list \<Rightarrow> nat worker" where
  "sample_worker ts =
     \<lparr>wk_post = sample_post_state\<lparr>ps_store := (ps_store sample_post_state)\<lparr>st_tasks := map new_vrow ts\<rparr>\<rparr>,
      wk_sessions = no_sessions, wk_finalize = False, wk_flush = False, wk_flush_done = False,
      wk_backoff = initial_backoff, wk_recovered = False, wk_recovering = False, wk_last_purge = 0\<rparr>"

theorem turns_without_wait_bounded_witness:
  "length (filter (\<lambda>(r, next). next = Again)
     (fst (run_turns (replicate 9 sample_cycle) (sample_worker [new_task (uuid_text 1) (sample_time 0)])))) \<le> 1"
proof -
  have "worker_ok (sample_worker [new_task (uuid_text 1) (sample_time 0)])"
    by (simp add: worker_ok_def sample_worker_def sample_post_state_def event_ids_def task_ids_def sessions_inv_start)
  moreover have "work (sample_worker [new_task (uuid_text 1) (sample_time 0)]) = 1"
    by (simp add: work_def store_pending_def sample_worker_def sample_post_state_def queue_counts_def
        no_sessions_def new_vrow_def)
  ultimately show ?thesis
    using turns_without_wait_bounded [of "sample_worker [new_task (uuid_text 1) (sample_time 0)]"
        "replicate 9 sample_cycle"]
    by (simp add: sample_cycle_def)
qed

text \<open>C35. A task that names itself as its root and is then entered under an active task, which makes
  that task its parent (\<open>task_context\<close>), stops all delivery once it has ended: as long as it is
  pending among the first tasks, every cycle fails before its first request, whatever else is
  pending, nothing is acknowledged, and the task itself is not set aside.\<close>

theorem adopted_root_blocks_delivery:
  assumes "ss_current s x = Some l" "tk_parent_id t0 = None" "tk_root_id t0 = Some (tk_id t0)"
    and "ss_heap (enter_task x m t0 s) m = Some t"
    and "(t\<lparr>tk_status := st, tk_ended_at := Some d\<rparr>, v) \<in>
      set (query_task_deliveries_for_sync (st_tasks (wk_store (begin_cycle cy w))) task_scan_limit)"
  shows "\<exists>e. fst (sync_batch cy w) = Inl (CycleFailed (Raised e)) \<and>
    ps_log (wk_post (snd (sync_batch cy w))) = ps_log (wk_post w) \<and>
    (wk_store (snd (sync_batch cy w)))\<lparr>st_events := []\<rparr> = (wk_store (begin_cycle cy w))\<lparr>st_events := []\<rparr>"
proof -
  have t: "tk_id t = tk_id t0" "tk_root_id t = tk_root_id t0" "tk_parent_id t = Some (tk_id (task_at s l))"
    using assms(1,2,4) by (auto simp: enter_task_def set_current_task_def Let_def)
  obtain e where e: "prepare_business_identity (cy_sha256 cy) (cy_privacy cy)
      (t\<lparr>tk_status := st, tk_ended_at := Some d\<rparr>) = Inl e"
    using own_root_child_raises [of "t\<lparr>tk_status := st, tk_ended_at := Some d\<rparr>" _ "cy_sha256 cy" "cy_privacy cy"]
      t assms(3) by auto
  from cycle_fails [OF assms(5) e] obtain e' rows where
    "sync_batch cy w = (Inl (CycleFailed (Raised e')), set_events rows (begin_cycle cy w))" by blast
  moreover have "ps_log (wk_post (begin_cycle cy w)) = ps_log (wk_post w)"
    by (simp add: begin_cycle_def purge_if_due_def recover_quarantined_events_def finalize_sessions_def
        set_events_def Let_def split_beta)
  ultimately show ?thesis by (simp add: set_events_def)
qed

definition adopted_task :: task where
  "adopted_task = (new_task (uuid_text 1) (sample_time 0))\<lparr>tk_root_id := Some (uuid_text 1),
     tk_parent_id := Some (uuid_text 2), tk_status := ''success'', tk_ended_at := Some (sample_time 9)\<rparr>"

definition outer_session :: "nat sessions" where
  "outer_session = no_sessions\<lparr>ss_heap := [3 \<mapsto> new_task (uuid_text 2) (sample_time 0)], ss_current := [0 \<mapsto> 3]\<rparr>"

lemma adopted_task_pending:
  "(adopted_task, 1) \<in> set (query_task_deliveries_for_sync
     (st_tasks (wk_store (begin_cycle sample_cycle (sample_worker [adopted_task])))) task_scan_limit)"
  by (simp add: begin_cycle_def purge_if_due_def recover_quarantined_events_def finalize_sessions_def
      set_events_def Let_def split_beta sample_worker_def sample_cycle_def finalize_idle_sessions_def
      idle_executions_def no_sessions_def new_vrow_def query_task_deliveries_for_sync_def sql_limit_def
      task_scan_limit_def)

lemma adopted_task_blocks:
  "\<exists>e. fst (sync_batch sample_cycle (sample_worker [adopted_task])) = Inl (CycleFailed (Raised e))"
proof -
  obtain e where e: "prepare_business_identity (cy_sha256 sample_cycle) (cy_privacy sample_cycle) adopted_task = Inl e"
    using own_root_child_raises [of adopted_task "uuid_text 2" "cy_sha256 sample_cycle" "cy_privacy sample_cycle"]
    by (simp add: adopted_task_def new_task_def) blast
  from cycle_fails [OF adopted_task_pending e] show ?thesis by auto
qed

theorem adopted_root_blocks_delivery_witness:
  "ps_log (wk_post (snd (sync_batch sample_cycle (sample_worker [adopted_task])))) = []"
proof -
  let ?start = "(new_task (uuid_text 1) (sample_time 0))\<lparr>tk_root_id := Some (uuid_text 1)\<rparr>"
  let ?adopted = "?start\<lparr>tk_parent_id := Some (uuid_text 2)\<rparr>"
  have heap: "ss_heap (enter_task 0 7 ?start outer_session) 7 = Some ?adopted"
    by (simp add: enter_task_def outer_session_def set_current_task_def Let_def new_task_def)
  have "?adopted\<lparr>tk_status := ''success'', tk_ended_at := Some (sample_time 9)\<rparr> = adopted_task"
    by (simp add: adopted_task_def new_task_def)
  then have pending: "(?adopted\<lparr>tk_status := ''success'', tk_ended_at := Some (sample_time 9)\<rparr>, 1) \<in>
      set (query_task_deliveries_for_sync
        (st_tasks (wk_store (begin_cycle sample_cycle (sample_worker [adopted_task])))) task_scan_limit)"
    using adopted_task_pending by (simp only:)
  have cur: "ss_current outer_session 0 = Some 3" by (simp add: outer_session_def)
  have t0: "tk_parent_id ?start = None" by (simp add: new_task_def)
  have t1: "tk_root_id ?start = Some (tk_id ?start)" by (simp add: new_task_def)
  have "ps_log (wk_post (sample_worker [adopted_task])) = []"
    by (simp add: sample_worker_def sample_post_state_def)
  with adopted_root_blocks_delivery [OF cur t0 t1 heap pending] show ?thesis by (elim exE conjE) (simp only:)
qed

text \<open>C26. The n-th failure in a row, counted from a backoff of one second, makes the worker wait
  min (2 ^ n) 300 seconds: the first wait is two seconds, and none is longer than five minutes.
  A delivery resets the backoff.\<close>

theorem failures_back_off:
  assumes "wk_backoff w = initial_backoff" "run_turns cys w = (hist, w')"
    and "\<forall>(r, n) \<in> set hist. transport_failure r"
  shows "wk_backoff w' = min (2 ^ length hist) 300 \<and>
    (\<forall>i < length hist. snd (hist ! i) \<in> {Leave, Wait (min (2 ^ (i + 1)) 300)}) \<and>
    (\<forall>cy n w''. run_turn cy w' = ((Inr True, n), w'') \<longrightarrow> wk_backoff w'' = initial_backoff)"
  using failures_back_off_from [of w 0 cys hist w'] assms run_turn_backoff(2) [where w = w']
  by (simp add: initial_backoff_def)

theorem failures_back_off_witness:
  "\<exists>r n w'. run_turns [sample_cycle] (sample_worker [adopted_task]) = ([(r, n)], w') \<and>
     n \<in> {Leave, Wait 2} \<and> wk_backoff w' = 2"
proof -
  obtain e where e: "fst (sync_batch sample_cycle (sample_worker [adopted_task])) = Inl (CycleFailed (Raised e))"
    using adopted_task_blocks by blast
  obtain n w' where t: "run_turn sample_cycle (sample_worker [adopted_task]) = ((Inl (CycleFailed (Raised e)), n), w')"
    using e by (cases "run_turn sample_cycle (sample_worker [adopted_task])") (auto simp: run_turn_def split_beta)
  have run: "run_turns [sample_cycle] (sample_worker [adopted_task]) = ([(Inl (CycleFailed (Raised e)), n)], w')"
    using t by (simp add: sample_worker_def sample_post_state_def)
  have "wk_backoff (sample_worker [adopted_task]) = initial_backoff" by (simp add: sample_worker_def)
  from failures_back_off [OF this run] have "n \<in> {Leave, Wait 2}" "wk_backoff w' = 2"
    by (simp_all add: transport_failure_def)
  with run show ?thesis by blast
qed

text \<open>A flush that arrives while a turn runs asks for sessions to be finalized by a later cycle.
  It is not acknowledged by that turn, unless the turn fails, be it only because an event could
  not be converted: then it is acknowledged while its finalization is still outstanding.\<close>

lemma flush_acknowledged_early:
  assumes "cy_flushed cy" "run_turn cy w = ((r, next), w')"
  shows "wk_finalize w' \<and> (wk_flush_done w' \<longleftrightarrow> isl r)"
  using run_turn_parts [OF assms(2)] after_flush assms(1) by metis

lemma flush_acknowledged_early_witness:
  "wk_finalize (snd (run_turn (sample_cycle\<lparr>cy_flushed := True\<rparr>) (sample_worker [adopted_task])))"
proof -
  have "cy_flushed (sample_cycle\<lparr>cy_flushed := True\<rparr>)" by simp
  from flush_acknowledged_early [OF this] show ?thesis by (metis prod.collapse)
qed

end
