(* ===== verification/Attribution_Wire.thy ===== *)
theory Attribution_Wire
  imports Attribution_Facts
begin

text \<open>
  The properties of the conversion of events: when an observation is accepted, when the
  conversion raises, what identifiers and quantities are on the wire, and what redaction keeps
  from it.
\<close>

section \<open>Rounding\<close>

lemma half_up_error:
  "2 * \<bar>half_up k c * 10 ^ k - c\<bar> \<le> 10 ^ k"
proof -
  define n q r where "n = nat \<bar>c\<bar>" and "q = n div 10 ^ k" and "r = n mod 10 ^ k"
  have "n = q * 10 ^ k + r" unfolding q_def r_def by (rule div_mult_mod_eq [symmetric])
  then have "int n = int (q * 10 ^ k + r)" by (rule arg_cong)
  then have n: "int n = int q * 10 ^ k + int r" by simp
  have "r < 10 ^ k" by (simp add: r_def)
  then have "int r < int (10 ^ k)" by (simp only: of_nat_less_iff)
  then have r: "int r < 10 ^ k" by simp
  have c: "c = sgn c * int n" unfolding n_def by (simp add: sgn_mult_abs)
  have hu: "half_up k c = sgn c * int (if 10 ^ k \<le> 2 * r then q + 1 else q)"
    by (simp add: half_up_def n_def q_def r_def Let_def)
  have "10 ^ k \<le> 2 * r \<longleftrightarrow> int (10 ^ k) \<le> int (2 * r)" by (simp only: of_nat_le_iff)
  then have up: "10 ^ k \<le> 2 * r \<longleftrightarrow> (10::int) ^ k \<le> 2 * int r" by simp
  define m where "m = int (if 10 ^ k \<le> 2 * r then q + 1 else q)"
  have m: "2 * \<bar>m * 10 ^ k - int n\<bar> \<le> 10 ^ k"
  proof (cases "10 ^ k \<le> 2 * r")
    case True
    then have eq: "m * 10 ^ k - int n = 10 ^ k - int r" by (simp add: m_def n distrib_right)
    have "(10::int) ^ k \<le> 2 * int r" using True up by blast
    with r show ?thesis unfolding eq by arith
  next
    case False
    then have eq: "m * 10 ^ k - int n = - int r" by (simp add: m_def n)
    have "2 * int r \<le> (10::int) ^ k" using False up by linarith
    then show ?thesis unfolding eq by simp
  qed
  have "half_up k c * 10 ^ k - c = sgn c * (m * 10 ^ k) - sgn c * int n"
    using c hu by (simp add: m_def)
  then have "half_up k c * 10 ^ k - c = sgn c * (m * 10 ^ k - int n)"
    by (simp only: right_diff_distrib)
  then have "\<bar>half_up k c * 10 ^ k - c\<bar> = \<bar>sgn c\<bar> * \<bar>m * 10 ^ k - int n\<bar>" by (simp add: abs_mult)
  also have "\<dots> \<le> \<bar>m * 10 ^ k - int n\<bar>" by (cases "c = 0") (auto simp: sgn_if)
  finally have "\<bar>half_up k c * 10 ^ k - c\<bar> \<le> \<bar>m * 10 ^ k - int n\<bar>" .
  from order_trans [OF mult_left_mono [OF this, of 2] m] show ?thesis by simp
qed

lemma quantize_error:
  assumes "quantize_12 d = Some q" "expo d < - 12"
  shows "expo q = - 12 \<and> 2 * \<bar>dec_val q - dec_val d\<bar> \<le> 10 powi - 12"
proof -
  let ?k = "nat (- expo d - 12)"
  define h where "h = half_up ?k (coeff d)"
  have q: "q = Dec h (- 12)"
    using assms(1) by (simp add: quantize_12_def h_def Let_def split: if_splits)
  have e: "dec_val d = of_int (coeff d) * 10 powi expo d" by (simp add: dec_val_def)
  have p: "(10::rat) powi - 12 = 10 ^ ?k * 10 powi expo d"
  proof -
    have "nat (- 12 - expo d) = ?k" by (rule arg_cong [of _ _ nat]) simp
    with powi_shift [of "expo d" "- 12"] assms(2) show ?thesis by (simp only: less_imp_le)
  qed
  have "dec_val q - dec_val d = (of_int h * 10 ^ ?k - of_int (coeff d)) * 10 powi expo d"
    unfolding q dec_val_Dec p e by (simp add: algebra_simps)
  also have "\<dots> = of_int (h * 10 ^ ?k - coeff d) * 10 powi expo d" by simp
  finally have v: "dec_val q - dec_val d = of_int (h * 10 ^ ?k - coeff d) * 10 powi expo d" .
  have "of_int (2 * \<bar>h * 10 ^ ?k - coeff d\<bar>) \<le> (of_int (10 ^ ?k) :: rat)"
    unfolding of_int_le_iff h_def by (rule half_up_error)
  then have "of_int (2 * \<bar>h * 10 ^ ?k - coeff d\<bar>) * 10 powi expo d \<le> (10 ^ ?k :: rat) * 10 powi expo d"
    by (intro mult_right_mono) simp_all
  moreover have "2 * \<bar>dec_val q - dec_val d\<bar> = of_int (2 * \<bar>h * 10 ^ ?k - coeff d\<bar>) * 10 powi expo d"
    unfolding v abs_mult by simp
  ultimately have "2 * \<bar>dec_val q - dec_val d\<bar> \<le> 10 powi - 12" by (simp only: p)
  with q show ?thesis by simp
qed

section \<open>Redacted details\<close>

lemma redact_dict_set:
  "k \<in> set names \<Longrightarrow> redact_dict (dict_set d k v) names = redact_dict d names"
  "k \<notin> set names \<Longrightarrow> redact_dict (dict_set d k v) names = dict_set (redact_dict d names) k (redact_value names v)"
  by (induction d k v rule: dict_set.induct) (auto simp: redact_dict_def)

lemma dict_set_set: "dict_set (dict_set d k v) k w = dict_set d k w"
  by (induction d k v rule: dict_set.induct) auto

lemma redact_dimensions_skip:
  assumes "dict_get kvs ''key'' = JStr k" "k \<in> set names"
  shows "redact_dimensions names (dict_set d ''attribution_dimensions'' (JArr (xs @ JObj kvs # ys))) =
    redact_dimensions names (dict_set d ''attribution_dimensions'' (JArr (xs @ ys)))"
proof -
  have "list_ex (\<lambda>n. dict_get kvs ''key'' = JStr n) names" using assms by (auto simp: list_ex_iff)
  then show ?thesis by (simp add: redact_dimensions_def dict_get_set dict_set_set)
qed

section \<open>Properties\<close>

text \<open>C13. Which events become observations: when an event has usage, valid dimensions, component and
  retry lineage, and its period starts in a year of four digits, then (as far as the JSON schema
  agrees) the draft is sent exactly when its operation is not in progress, a succeeded operation
  has usage, a first attempt names no predecessor and a later one another attempt, registered
  metrics carry their unit, no dimension is repeated, and the line identities are distinct. No
  other check of the validator can fail, neither on timestamps nor on the cost evidence.\<close>

theorem observation_accepted_iff:
  assumes "valid_dt (ev_occurred_at e)" "v3_usage e = Some (c, ms, seconds)" "plain_period e seconds"
    and "v3_dimensions e = Some ds" "draft_v3 sha env e = Inr (Some d)" "schema_issues (JObj d) = []"
  shows "to_observation_v3 schema_issues sha env e = Inr (if consistent sha e ms ds then Some d else None)"
proof -
  from assms(2,4,5) obtain c' op period where parts: "operation_for e = Some op"
      "usage_period e ms seconds = Inr period" "d = assemble sha env e c' ms ds op period"
    by (auto simp: draft_v3_def split: option.splits sum.splits)
  from draft_issues [OF assms(1,3) parts(2,1)] obtain xs where
    "semantic_issues (JObj d) = Inr xs" "xs = [] \<longleftrightarrow> consistent sha e ms ds" unfolding parts(3) by blast
  with assms(5,6) show ?thesis by (auto simp: to_observation_v3_def validate_v3_def unique_def Let_def)
qed

definition metered_event :: event where
  "metered_event = (sample_event (uuid_text 7) (sample_time 0))\<lparr>ev_output_tokens := None\<rparr>"

lemmas decimal_eval = positive_quantity_def quantize_12_def half_up_def dec_prec_def canonical_decimal_def
  format_f_def show_nat.simps digit_char_def rstrip_def ndigits.simps dec_half_up_def dec_mul_def dec_fix_def

lemmas detail_eval = item_simps is_gpu_signal_def text_of_def decimal_detail.simps string_detail.simps
  or_dec_def or_zero_def or_text_def

lemmas plain_eval = v3_dimensions_def explicit_dimensions_def selected_component_def lineage_ok_def
  event_status_def attempt_ok_def attempt_number_def

lemmas usage_eval = v3_usage_def component_and_usage_def llm_usage_def token_meters_def compact_usage_def
  map_filter_simps usage_line_for_def unknown_explicit_usage_def

lemma metered_event_usage:
  "v3_usage metered_event = Some (''llm'', [\<lparr>mt_metric = ''input_tokens'', mt_quantity = ''10'', mt_unit = ''Tokens''\<rparr>], None)"
  "v3_dimensions metered_event = Some []" "selected_component metered_event ''llm'' = Some ''llm''"
  "lineage_ok metered_event" "event_status metered_event = ''succeeded''" "attempt_ok metered_event"
  "ev_occurred_at metered_event = sample_time 0"
proof -
  have reg: "map_of unit_by_metric ''input_tokens'' = Some ''Tokens''" by code_simp
  have q: "positive_quantity (Dec 10 0) = Some ''10''" "\<And>n. positive_quantity (Dec 0 n) = None"
    by (simp_all add: decimal_eval Let_def)
  have sub: "dec_sub (Dec 10 0) dec0 = Dec 10 0" "dec_add dec0 dec0 = dec0"
    by (simp_all add: dec_sub_def dec_add_def dec_neg_def dec_fix_exact)
  have lt: "\<not> dec_lt (Dec 10 0) dec0" by (simp add: dec_lt_def)
  have raw: "py_lower ''openai'' = ''openai''" by code_simp
  have no: "\<not> sublist ''anthropic'' ''openai''" "\<not> sublist ''bedrock'' ''openai''"
    by (simp_all add: sublist_Cons_right)
  show "v3_usage metered_event = Some (''llm'', [\<lparr>mt_metric = ''input_tokens'', mt_quantity = ''10'', mt_unit = ''Tokens''\<rparr>], None)"
    using reg q sub lt raw no
    by (simp add: usage_eval detail_eval metered_event_def sample_event_def has_key_def Let_def)
qed (simp_all add: plain_eval detail_eval metered_event_def sample_event_def)

lemma plain_period_None: "valid_dt (ev_occurred_at e) \<Longrightarrow> plain_period e None"
  using minus_zero [of "ev_occurred_at e"]
  by (auto simp: plain_period_def offset_microseconds_def valid_dt_def split: sum.split)

theorem observation_accepted_iff_witness:
  "\<exists>d. to_observation_v3 (\<lambda>v. []) sample_digest None metered_event = Inr (Some d)"
proof -
  let ?ms = "[\<lparr>mt_metric = ''input_tokens'', mt_quantity = ''10'', mt_unit = ''Tokens''\<rparr>]"
  have v: "valid_dt (ev_occurred_at metered_event)" by (simp add: metered_event_usage(7) sample_time_ok)
  moreover have "plain_period metered_event None" by (rule plain_period_None [OF v])
  moreover have "\<not> has_period ?ms None" by code_simp
  then obtain d where "draft_v3 sample_digest None metered_event = Inr (Some d)"
    using metered_event_usage(1-4) by (simp add: draft_v3_def operation_for_def usage_period_def)
  moreover have "registered_unit \<lparr>mt_metric = ''input_tokens'', mt_quantity = ''10'', mt_unit = ''Tokens''\<rparr>"
    by code_simp
  then have "consistent sample_digest metered_event ?ms []"
    using metered_event_usage(5,6) by (simp add: consistent_def)
  ultimately show ?thesis
    using observation_accepted_iff [OF _ metered_event_usage(1) _ metered_event_usage(2),
        where schema_issues = "\<lambda>v. []" and sha = sample_digest and env = None] by auto
qed


definition endless_event :: event where
  "endless_event = (sample_event (uuid_text 8) (sample_time 0))\<lparr>ev_type := ''external_cost'',
     ev_details := [(''attribution_usage_duration_seconds'', JStr ''1e12'')]\<rparr>"

lemma endless_event_usage:
  "v3_usage endless_event = Some (''external'',
     [\<lparr>mt_metric = ''request_count'', mt_quantity = ''1'', mt_unit = ''Requests''\<rparr>], Some (Dec 1 12))"
  "v3_dimensions endless_event = Some []" "selected_component endless_event ''external'' = Some ''external''"
  "lineage_ok endless_event" "ev_occurred_at endless_event = sample_time 0"
  "offset_microseconds (Some (Dec 1 12)) = 1000000000000000000"
proof -
  have reg: "map_of unit_by_metric ''request_count'' = Some ''Requests''" by code_simp
  have num: "decimal_of_text (py_strip ''1e12'') = DecFinite (Dec 1 12)" by code_simp
  have name: "to_canonical_name None ''request'' = ''request''" by code_simp
  have metric: "inferred_metric ''request'' = ''request_count''"
    by (simp add: inferred_metric_def sublist_Cons_right)
  have q: "positive_quantity (Dec 1 0) = Some ''1''" by (simp add: decimal_eval Let_def)
  show "v3_usage endless_event = Some (''external'',
     [\<lparr>mt_metric = ''request_count'', mt_quantity = ''1'', mt_unit = ''Requests''\<rparr>], Some (Dec 1 12))"
    using reg num name metric q
    by (simp add: usage_eval external_usage_def detail_eval endless_event_def sample_event_def has_key_def Let_def)
  show "offset_microseconds (Some (Dec 1 12)) = 1000000000000000000"
    by (simp add: offset_microseconds_def dec_mul_def dec_fix_exact dec_half_up_def)
qed (simp_all add: plain_eval detail_eval endless_event_def sample_event_def)

lemma endless_event_start: "instant (sample_time 0) - 1000000000000000000 < first_day"
  using instant_range(2) [of "sample_time 0"] sample_time_ok [of 0]
  by (simp add: valid_dt_def last_instant_def first_day_def)


text \<open>C15. Whatever texts an event carries, the names on the wire are canonical identifiers (provider,
  service, region, operation), the component is one of the contract, and the meters are distinct
  pairs of a canonical metric and a valid unit, each with the canonical text of a positive
  amount of at most twelve decimal places.\<close>

theorem wire_names_canonical:
  assumes "v3_usage e = Some (c, ms, seconds)" "selected_component e c = Some c'"
  shows "c' \<in> set attribution_components \<and> canonical_name (operation_name e) \<and>
    (\<exists>name service. dict_get (provider_for e) ''name'' = JStr name \<and> canonical_name name \<and>
       dict_get (provider_for e) ''service'' = JStr service \<and> canonical_name service) \<and>
    (dict_get (provider_for e) ''region'' \<noteq> JNull \<longrightarrow>
       (\<exists>r. dict_get (provider_for e) ''region'' = JStr r \<and> canonical_name r)) \<and>
    distinct (map meter_key ms) \<and>
    (\<forall>m \<in> set ms. canonical_name (mt_metric m) \<and> unit_name (mt_unit m) \<and>
       (\<exists>q. mt_quantity m = canonical_decimal q \<and> 0 < coeff q \<and> - 12 \<le> expo q))"
proof -
  obtain name service where ns: "provider_pair e = (name, service)" by force
  have unknown: "canonical_name ''unknown''" by code_simp
  have pp: "canonical_name name" "canonical_name service" using provider_pair_ok [of e] ns by simp_all
  have "c' \<in> set attribution_components"
    using assms(2) v3_usage_ok [OF assms(1)] by (auto simp: selected_component_def split: option.splits if_splits)
  then show ?thesis
    using v3_usage_ok [OF assms(1)] pp unknown operation_name_ok [of e]
    by (auto simp: provider_for_def ns item_simps good_meters_def well_formed_meter_def to_canonical_name_ok
        split: option.split)
qed

theorem wire_names_canonical_witness:
  "canonical_name (operation_name metered_event)"
  using wire_names_canonical [OF metered_event_usage(1,3)] by blast

text \<open>C16. A quantity on the wire is the amount itself when that has at most twelve decimal places, and
  otherwise differs from it by at most half a unit of the twelfth place.\<close>

theorem quantity_rounded:
  assumes "positive_quantity d = Some s"
  shows "\<exists>q. s = canonical_decimal q \<and> 0 < dec_val q \<and> 2 * \<bar>dec_val q - dec_val d\<bar> \<le> 10 powi - 12 \<and>
    (- 12 \<le> expo d \<longrightarrow> dec_val q = dec_val d)"
proof -
  obtain q where q: "s = canonical_decimal q" "0 < coeff q" "q = d \<or> expo d < - 12 \<and> quantize_12 d = Some q"
    by (rule positive_quantity_value [OF assms])
  have "0 < dec_val q" using q(2) by (simp add: dec_val_def)
  with q quantize_error [of d q] show ?thesis by (intro exI [of _ q]) auto
qed

theorem quantity_rounded_witness:
  "\<exists>s q. positive_quantity (Dec 15 (- 13)) = Some s \<and> s = canonical_decimal q \<and>
     2 * \<bar>dec_val q - dec_val (Dec 15 (- 13))\<bar> \<le> 10 powi - 12"
proof -
  obtain s where "positive_quantity (Dec 15 (- 13)) = Some s"
    by (simp add: positive_quantity_def quantize_12_def half_up_def dec_prec_def ndigits.simps Let_def)
  with quantity_rounded [OF this] show ?thesis by blast
qed

text \<open>C17. A redacted detail has no influence on what is sent: changing its value, or adding it, or adding
  a billing dimension with its key, gives the same observation or the same refusal.\<close>

theorem redacted_details_unseen:
  assumes "k \<in> set (pv_redact pv)" "dict_get kvs ''key'' = JStr k"
  shows "prepare_event_dict schema_issues sha env pv (e\<lparr>ev_details := dict_set d k v\<rparr>) =
      prepare_event_dict schema_issues sha env pv (e\<lparr>ev_details := d\<rparr>) \<and>
    prepare_event_dict schema_issues sha env pv
        (e\<lparr>ev_details := dict_set d ''attribution_dimensions'' (JArr (xs @ JObj kvs # ys))\<rparr>) =
      prepare_event_dict schema_issues sha env pv
        (e\<lparr>ev_details := dict_set d ''attribution_dimensions'' (JArr (xs @ ys))\<rparr>)"
proof -
  let ?names = "pv_redact pv"
  have "redact_dimensions ?names (redact_dict (dict_set d ''attribution_dimensions'' (JArr (xs @ JObj kvs # ys))) ?names) =
      redact_dimensions ?names (redact_dict (dict_set d ''attribution_dimensions'' (JArr (xs @ ys))) ?names)"
    using redact_dimensions_skip [OF assms(2,1)]
    by (cases "''attribution_dimensions'' \<in> set ?names") (simp_all add: redact_dict_set)
  with assms(1) show ?thesis
    by (auto simp: prepare_event_dict_def sanitized_def redact_dict_set(1))
qed

theorem redacted_details_unseen_witness:
  "prepare_event_dict (\<lambda>v. []) sample_digest None \<lparr>pv_redact = [''request_id''], pv_hash_ids = False\<rparr>
      (metered_event\<lparr>ev_details := dict_set [] ''request_id'' (JStr ''r-9'')\<rparr>) =
   prepare_event_dict (\<lambda>v. []) sample_digest None \<lparr>pv_redact = [''request_id''], pv_hash_ids = False\<rparr>
      (metered_event\<lparr>ev_details := []\<rparr>)"
  by (rule redacted_details_unseen [where kvs = "[(''key'', JStr ''request_id'')]", THEN conjunct1])
    (simp_all add: dict_get_def)

end
