(* ===== verification/Sync_Blocked.thy ===== *)
theory Sync_Blocked
  imports Sync_Cycle Attribution_Wire
begin

text \<open>
  Records that stop all delivery: what happens to a cycle when a conversion raises, for an event
  of the first page of the scan, or for a provider job of the batch.
\<close>

section \<open>Before the batch\<close>

lemma begin_cycle_log: "ps_log (wk_post (begin_cycle cy w)) = ps_log (wk_post w)"
  by (simp add: begin_cycle_def purge_if_due_def recover_quarantined_events_def finalize_sessions_def
      set_events_def Let_def split_beta)

lemma set_same_events: "set_events (st_events (wk_store w)) w = w"
  by (simp add: set_events_def)

section \<open>An event whose conversion raises\<close>

lemma scan_page_raises:
  assumes "(e, v) \<in> set ds" "distinct (map (ev_id \<circ> fst) ds)" "ev_id e \<notin> set (sc_seen sc)" "convert e = Inl err"
  shows "sc_error (fst (scan_page convert ds (sc, bad, new))) \<noteq> None"
  using assms
proof (induction ds arbitrary: sc bad new)
  case (Cons ev ds)
  obtain f w where ev: "ev = (f, w)" by force
  from Cons.prems(1,2) ev consider "f = e" | "ev_id f \<noteq> ev_id e" "(e, v) \<in> set ds" by force
  then show ?case
  proof cases
    case 1
    with Cons.prems(3,4) show ?thesis by (simp add: ev)
  next
    case 2
    then show ?thesis
      using Cons.IH [OF 2(2) _ _ Cons.prems(4)] Cons.prems(2,3)
      by (auto simp: ev Let_def split: sum.split option.split)
  qed
qed simp

lemma query_distinct:
  "distinct (event_ids rows) \<Longrightarrow> distinct (map (ev_id \<circ> fst) (query_event_deliveries_for_sync rows n))"
  by (auto simp: query_event_deliveries_for_sync_def sql_limit_def event_ids_def comp_def distinct_map inj_on_def
      distinct_take dest!: in_set_takeD)

lemma scan_raises:
  assumes "distinct (event_ids rows)" "0 < batch"
    and "(e, v) \<in> set (query_event_deliveries_for_sync rows batch)" "convert e = Inl err"
  shows "\<exists>sc err'. scan_events convert (\<lambda>k r. r) batch rows = (sc, rows) \<and> sc_error sc = Some err'"
proof -
  let ?ds = "query_event_deliveries_for_sync rows batch"
  obtain sc2 bad new where page: "scan_page convert ?ds (note_versions ?ds empty_scan, [], 0) = (sc2, bad, new)"
    by (metis surj_pair)
  have err: "sc_error sc2 \<noteq> None"
    using scan_page_raises [where convert = convert and sc = "note_versions ?ds empty_scan" and bad = "[]" and new = 0,
        OF assms(3) query_distinct [OF assms(1), of batch] _ assms(4)] page
    by (simp add: empty_scan_def)
  have lim: "0 < scan_limit batch" "batch \<le> scan_limit batch" using assms(2) by (simp_all add: scan_limit_def)
  have start: "int (length (sc_dicts empty_scan)) < batch \<and> sc_scanned empty_scan < scan_limit batch"
      "batch = min (batch - int (length (sc_dicts empty_scan))) (scan_limit batch - sc_scanned empty_scan)"
    using lim assms(2) by (simp_all add: empty_scan_def)
  have "?ds \<noteq> []" using assms(3) by auto
  with err have "scan_loop convert (\<lambda>k r. r) batch (scan_limit batch) 0 rows empty_scan = (sc2, rows)"
    by (simp add: scan_loop_next [where app = "\<lambda>k r. r" and ?rows0.0 = rows and k = 0, OF start refl page refl refl])
  with err show ?thesis by (auto simp: scan_events_def)
qed

text \<open>C36. An event with an overlong duration in its details stops all delivery: as long as it is
  pending on the first page of a scan, its conversion raises, no later event is looked at, the
  cycle fails before its first request, nothing is acknowledged, and the event itself is neither
  skipped nor set aside.\<close>

theorem overlong_event_blocks_delivery:
  assumes "worker_ok w" "cy_app cy = (\<lambda>k rows. rows)"
    and "(e, v) \<in> set (query_event_deliveries_for_sync (st_events (wk_store (begin_cycle cy w))) (batch_size cy))"
    and "s = sanitized (pv_redact (cy_privacy cy)) e" "v3_usage s = Some (c, ms, seconds)" "has_period ms seconds"
    and "instant (ev_occurred_at e) - offset_microseconds seconds < first_day"
    and "v3_dimensions s = Some ds" "selected_component s c = Some c'" "lineage_ok s"
  shows "\<exists>err. fst (sync_batch cy w) = Inl (CycleFailed (Raised err)) \<and>
    ps_log (wk_post (snd (sync_batch cy w))) = ps_log (wk_post w) \<and>
    wk_store (snd (sync_batch cy w)) = wk_store (begin_cycle cy w)"
proof -
  have occurred: "ev_occurred_at s = ev_occurred_at e" by (simp add: assms(4) sanitized_def)
  have "usage_period s ms seconds = Inl (OverflowError ''date value out of range'')"
    using assms(6,7) by (simp add: usage_period_def minus_microseconds_def occurred)
  moreover obtain operation where "operation_for s = Some operation" using assms(10) by (simp add: operation_for_def)
  ultimately have "convert_event cy e = Inl (OverflowError ''date value out of range'')"
    using assms(5,8,9) by (simp add: convert_event_def prepare_event_dict_def assms(4) [symmetric]
        to_observation_v3_def draft_v3_def)
  moreover have "distinct (event_ids (st_events (wk_store (begin_cycle cy w))))"
    using begin_cycle_work [OF assms(1), of cy] by (simp add: worker_ok_def)
  moreover have "0 < batch_size cy" by (simp add: batch_size_def)
  ultimately obtain sc err where "scan_events (convert_event cy) (cy_app cy) (batch_size cy)
      (st_events (wk_store (begin_cycle cy w))) = (sc, st_events (wk_store (begin_cycle cy w)))"
      "sc_error sc = Some err"
    using scan_raises [OF _ _ assms(3)] assms(2) by metis
  then have "sync_batch cy w = (Inl (CycleFailed (Raised err)), begin_cycle cy w)"
    by (simp add: sync_batch_def set_same_events)
  then show ?thesis by (simp add: begin_cycle_log)
qed

definition worker_with :: "event list \<Rightarrow> provider_job list \<Rightarrow> nat worker" where
  "worker_with es js =
     (sample_worker [])\<lparr>wk_post := (wk_post (sample_worker []))\<lparr>ps_store :=
        (wk_store (sample_worker []))\<lparr>st_events := map new_vrow es, st_jobs := map new_row js\<rparr>\<rparr>\<rparr>"

lemma worker_with_begins:
  "wk_store (begin_cycle sample_cycle (worker_with es js)) = wk_store (worker_with es js)"
proof -
  have "requeue_quarantined_events (map new_vrow es) = (0, map new_vrow es)"
    by (simp add: requeue_quarantined_events_def new_vrow_def update_where_def comp_def)
  then show ?thesis
    by (simp add: begin_cycle_def purge_if_due_def recover_quarantined_events_def finalize_sessions_def
        set_events_def Let_def split_beta worker_with_def sample_worker_def sample_cycle_def
        finalize_idle_sessions_def idle_executions_def no_sessions_def sample_post_state_def purge_interval_def)
qed

theorem overlong_event_blocks_delivery_witness:
  "\<exists>err. fst (sync_batch sample_cycle (worker_with [endless_event] [])) = Inl (CycleFailed (Raised err))"
proof -
  have "py_lower (ev_id endless_event) = ev_id endless_event"
    unfolding endless_event_def sample_event_def by code_simp
  then have ok: "worker_ok (worker_with [endless_event] [])"
    by (simp add: worker_ok_def worker_with_def sample_worker_def sample_post_state_def event_ids_def task_ids_def
        sessions_inv_start new_vrow_def)
  have "(endless_event, 1) \<in> set (query_event_deliveries_for_sync (st_events (wk_store (worker_with [endless_event] []))) 100)"
    by (simp add: worker_with_def query_event_deliveries_for_sync_def sql_limit_def new_vrow_def)
  then have page: "(endless_event, 1) \<in> set (query_event_deliveries_for_sync
      (st_events (wk_store (begin_cycle sample_cycle (worker_with [endless_event] [])))) (batch_size sample_cycle))"
    unfolding worker_with_begins by (simp add: sample_cycle_def batch_size_def)
  have clean: "endless_event = sanitized (pv_redact (cy_privacy sample_cycle)) endless_event"
    by (simp add: sample_cycle_def sanitized_def)
  have "cy_app sample_cycle = (\<lambda>k rows. rows)" by (simp add: sample_cycle_def)
  from overlong_event_blocks_delivery [OF ok this page clean endless_event_usage(1) _ _ endless_event_usage(2-4)]
  show ?thesis using endless_event_start by (auto simp: has_period_def endless_event_usage(5,6))
qed

section \<open>A provider job that cannot be converted\<close>

lemma jobs_set_events: "jobs_for_batch b sc (wk_store (set_events rows w)) = jobs_for_batch b sc (wk_store w)"
  by (simp add: jobs_for_batch_def set_events_def)

lemma scan_nothing: "0 < b \<Longrightarrow> scan_events convert (\<lambda>k rows. rows) b [] = (empty_scan, [])"
  unfolding scan_events_def
  by (subst scan_loop.simps)
    (simp add: query_event_deliveries_for_sync_def sql_limit_def note_versions_def Let_def empty_scan_def scan_limit_def)

lemma job_fails:
  assumes "j \<in> set (jobs_for_batch (batch_size cy) sc st)"
    and "to_attribution_observation (cy_schema cy) (cy_digest cy) (cy_environment cy) j = Inl err"
  shows "\<exists>e. batch_payload cy sc st = Inl e"
  using collect_fails [of j _ "to_attribution_observation (cy_schema cy) (cy_digest cy) (cy_environment cy)", OF assms]
  by (auto simp: batch_payload_def Let_def split: sum.split)

lemma job_environment:
  assumes "cy_environment cy = Some env" "cy_schema cy (JObj (observation (cy_digest cy) (Some env) j)) \<noteq> []"
  shows "\<exists>err. to_attribution_observation (cy_schema cy) (cy_digest cy) (cy_environment cy) j = Inl err"
  using assms
  by (auto simp: to_attribution_observation_def assert_v3_def validate_v3_def unique_def Let_def split: sum.split)

text \<open>C37. The environment is put into lower case for events and sent as it is configured for provider
  jobs: with an environment like Production, which the schema refuses, a pending provider job of
  the batch makes every cycle fail before its first request, and nothing is acknowledged.\<close>

theorem environment_case_blocks_delivery:
  assumes "\<And>d s. dict_get d ''environment'' = JStr s \<Longrightarrow> normalized_environment (JStr s) \<noteq> Some s \<Longrightarrow>
      cy_schema cy (JObj d) \<noteq> []"
    and "cy_environment cy = Some env" "normalized_environment (JStr env) \<noteq> Some env"
    and "scan_events (convert_event cy) (cy_app cy) (batch_size cy) (st_events (wk_store (begin_cycle cy w))) = (sc, rows)"
    and "j \<in> set (jobs_for_batch (batch_size cy) sc (wk_store (begin_cycle cy w)))"
  shows "\<exists>err. fst (sync_batch cy w) = Inl (CycleFailed (Raised err)) \<and>
    ps_log (wk_post (snd (sync_batch cy w))) = ps_log (wk_post w) \<and>
    (wk_store (snd (sync_batch cy w)))\<lparr>st_events := []\<rparr> = (wk_store (begin_cycle cy w))\<lparr>st_events := []\<rparr>"
proof -
  have "dict_get (observation (cy_digest cy) (Some env) j) ''environment'' = JStr env"
    by (simp add: observation_def dict_get_def opt_item_def observation_cost_def map_add_def
        split: option.split)
  from job_environment [OF assms(2) assms(1) [OF this assms(3)]] obtain err where
    err: "to_attribution_observation (cy_schema cy) (cy_digest cy) (cy_environment cy) j = Inl err" by blast
  have "j \<in> set (jobs_for_batch (batch_size cy) sc (wk_store (set_events rows (begin_cycle cy w))))"
    using assms(5) by (simp only: jobs_set_events)
  from job_fails [OF this err] obtain err' where
    "batch_payload cy sc (wk_store (set_events rows (begin_cycle cy w))) = Inl err'" by blast
  then have "\<exists>err. sync_batch cy w = (Inl (CycleFailed (Raised err)), set_events rows (begin_cycle cy w))"
    using assms(4) by (cases "sc_error sc") (auto simp: sync_batch_def Let_def)
  then show ?thesis by (auto simp: begin_cycle_log set_events_def)
qed

definition strict_environment :: "json \<Rightarrow> issue list" where
  "strict_environment v =
     (case v of
        JObj d \<Rightarrow> (case dict_get d ''environment'' of
            JStr s \<Rightarrow> if normalized_environment (JStr s) = Some s then [] else [(''environment'', ''pattern'')]
          | _ \<Rightarrow> [])
      | _ \<Rightarrow> [])"

theorem environment_case_blocks_delivery_witness:
  "normalized_environment (JStr ''Production'') = Some ''production'' \<and>
   (\<exists>err. fst (sync_batch (sample_cycle\<lparr>cy_schema := strict_environment, cy_environment := Some ''Production''\<rparr>)
     (worker_with [] [sample_job JobRunning 1 1])) = Inl (CycleFailed (Raised err)))"
proof -
  let ?cy = "sample_cycle\<lparr>cy_schema := strict_environment, cy_environment := Some ''Production''\<rparr>"
  let ?w = "worker_with [] [sample_job JobRunning 1 1]"
  have env: "normalized_environment (JStr ''Production'') = Some ''production''" by code_simp
  have begins: "begin_cycle ?cy ?w = begin_cycle sample_cycle ?w"
    by (simp add: begin_cycle_def purge_if_due_def finalize_sessions_def)
  have size: "batch_size ?cy = 100" by (simp add: batch_size_def sample_cycle_def)
  have scan: "scan_events (convert_event ?cy) (cy_app ?cy) (batch_size ?cy) (st_events (wk_store (begin_cycle ?cy ?w))) =
      (empty_scan, [])"
    unfolding begins worker_with_begins size
    using scan_nothing [of 100] by (simp add: worker_with_def sample_cycle_def)
  have job: "sample_job JobRunning 1 1 \<in> set (jobs_for_batch (batch_size ?cy) empty_scan (wk_store (begin_cycle ?cy ?w)))"
    unfolding begins worker_with_begins size
    by (simp add: jobs_for_batch_def empty_scan_def worker_with_def query_provider_jobs_for_sync_def sql_limit_def
        new_row_def)
  have "\<exists>err. fst (sync_batch ?cy ?w) = Inl (CycleFailed (Raised err)) \<and>
      ps_log (wk_post (snd (sync_batch ?cy ?w))) = ps_log (wk_post ?w) \<and>
      (wk_store (snd (sync_batch ?cy ?w)))\<lparr>st_events := []\<rparr> = (wk_store (begin_cycle ?cy ?w))\<lparr>st_events := []\<rparr>"
    by (rule environment_case_blocks_delivery [OF _ _ _ scan job])
      (auto simp: strict_environment_def env split: option.split)
  with env show ?thesis by blast
qed

end
