(* ===== verification/Sync_Liveness.thy ===== *)
theory Sync_Liveness
  imports Sync_Cycle
begin

text \<open>
  Liveness of delivery: with a control plane that accepts what it is sent, and records whose
  conversion does not raise, the worker empties the queue, in as many turns as there is work.
\<close>

definition accepting :: "(nat \<Rightarrow> string \<Rightarrow> reply) \<Rightarrow> bool" where
  "accepting net \<longleftrightarrow> (\<forall>n req. \<exists>code body. net n req = Answered code body \<and> code < 300 \<and> \<not> reply_rejects body)"

definition bodies :: "('a, 'b) qrow_scheme list \<Rightarrow> 'a set" where
  "bodies rows = body ` set rows"

text \<open>No record of the store makes a cycle fail.\<close>

definition deliverable :: "'x cycle \<Rightarrow> store \<Rightarrow> bool" where
  "deliverable cy s \<longleftrightarrow>
     (\<forall>e \<in> bodies (st_events s). \<not> isl (convert_event cy e)) \<and>
     (\<forall>t \<in> bodies (st_tasks s). \<not> isl (prepare_business_identity (cy_sha256 cy) (cy_privacy cy) t)) \<and>
     (\<forall>j \<in> bodies (st_jobs s).
        \<not> isl (to_attribution_observation (cy_schema cy) (cy_digest cy) (cy_environment cy) j))"

section \<open>An upload that is accepted\<close>

definition keyed :: "batch_keys \<Rightarrow> payload \<Rightarrow> bool" where
  "keyed bk p \<longleftrightarrow>
     (\<forall>e \<in> set (pl_events p). \<exists>k. event_key (bk_jobs bk) e = Inr k) \<and>
     (\<forall>t \<in> set (pl_tasks p). \<exists>u. text_item ''task_id'' t = Inr u) \<and>
     (\<forall>d \<in> set (pl_outcomes p). \<exists>k. ledger_key ''outcome_id'' d = Inr k) \<and>
     (\<forall>d \<in> set (pl_revenues p). \<exists>k. ledger_key ''revenue_id'' d = Inr k)"

lemma keyed_parts:
  assumes "covers p qs" "keyed bk p" "q \<in> set qs"
  shows "keyed bk q"
proof -
  have "set (pl_events q) \<subseteq> set (concat (map pl_events qs))" "set (pl_tasks q) \<subseteq> set (concat (map pl_tasks qs))"
      "set (pl_outcomes q) \<subseteq> set (concat (map pl_outcomes qs))"
      "set (pl_revenues q) \<subseteq> set (concat (map pl_revenues qs))"
    using assms(3) by auto
  with assms(1) have "set (pl_events q) \<subseteq> set (pl_events p)" "set (pl_tasks q) \<subseteq> set (pl_tasks p)"
      "set (pl_outcomes q) \<subseteq> set (pl_outcomes p)" "set (pl_revenues q) \<subseteq> set (pl_revenues p)"
    by (simp_all add: covers_def)
  with assms(2) show ?thesis by (simp add: keyed_def subset_eq)
qed

lemma keyed_leaf_acks: "keyed bk p \<Longrightarrow> \<exists>la. leaf_acks_of (bk_jobs bk) p = Inr la"
  using collect_total [of "pl_events p" "event_key (bk_jobs bk)"] collect_total [of "pl_tasks p" "text_item ''task_id''"]
    collect_total [of "pl_outcomes p" "ledger_key ''outcome_id''"]
    collect_total [of "pl_revenues p" "ledger_key ''revenue_id''"]
  by (auto simp: keyed_def leaf_acks_of_def)

lemma accepted_leaf:
  assumes "accepting net" "keyed bk p" "post_leaf env net bk p s = (r, s')"
  shows "r = Inr True \<and> ps_stopped s' = ps_stopped s"
proof -
  obtain code reply where net: "net (length (ps_log s)) (payload_body p) = Answered code reply"
      "code < 300" "\<not> reply_rejects reply" using assms(1) unfolding accepting_def by metis
  moreover obtain la where "leaf_acks_of (bk_jobs bk) p = Inr la" using keyed_leaf_acks [OF assms(2)] by blast
  ultimately show ?thesis using assms(3) by (auto simp: post_leaf_def post_raw_def)
qed

lemma set_aside_succeeds:
  assumes "durable_count p \<le> 1" "keyed bk p" "set_aside bk p s = (r, s')"
  shows "r = Inr True \<and> ps_stopped s' = ps_stopped s"
  using assms(1)
proof (cases rule: single_record)
  case (event e)
  with assms(2,3) show ?thesis
    by (auto simp: set_aside_def keyed_def quarantine_in_def split: event_key.splits)
qed (use assms(2,3) in \<open>auto simp: set_aside_def keyed_def quarantine_in_def\<close>)

lemma accepted_leaves:
  assumes "accepting net" "\<forall>q \<in> set qs. keyed bk q \<and> step_ok limit (Leaf q)"
    and "run_plan limit env net bk (map Leaf qs) s = (r, s')"
  shows "r = Inr True \<and> ps_stopped s' = ps_stopped s"
  using assms(2,3)
proof (induction qs arbitrary: s)
  case (Cons q qs)
  obtain r1 s1 where one: "run_step limit env net bk (Leaf q) s = (r1, s1)" by force
  have "r1 = Inr True \<and> ps_stopped s1 = ps_stopped s"
  proof (cases "length (payload_body q) \<le> limit")
    case True
    with one Cons.prems(1) show ?thesis
      by (intro accepted_leaf [OF assms(1), of bk q env s]) (auto simp: run_step_def)
  next
    case False
    with one Cons.prems(1) show ?thesis
      by (intro set_aside_succeeds [of q bk s]) (auto simp: run_step_def step_ok_def)
  qed
  with one Cons show ?case by (auto simp: and_then_def)
qed simp

lemma accepted_upload:
  assumes "accepting net" "keyed bk p" "identities_ok p" "post_with_split limit env net bk p s = (r, s')"
  shows "r = Inr True \<and> ps_stopped s' = ps_stopped s"
proof -
  from plan_covers [of p limit] assms(3) obtain qs where qs: "plan limit p = map Leaf qs" "covers p qs" by blast
  have "\<forall>q \<in> set qs. keyed bk q \<and> step_ok limit (Leaf q)"
    using plan_steps_ok [of limit p] keyed_parts [OF qs(2) assms(2)] by (simp add: qs(1) list_all_iff)
  with assms(1,4) show ?thesis by (intro accepted_leaves [of net qs bk limit env s r s'])
    (simp_all add: post_with_split_plan_aux qs(1))
qed

section \<open>Rows keep their contents\<close>

definition keeps :: "store \<Rightarrow> store \<Rightarrow> bool" where
  "keeps s s' \<longleftrightarrow> bodies (st_events s') \<subseteq> bodies (st_events s) \<and>
     bodies (st_tasks s') \<subseteq> bodies (st_tasks s) \<and> bodies (st_jobs s') \<subseteq> bodies (st_jobs s)"

lemma keeps_refl: "keeps s s" by (simp add: keeps_def)

lemma keeps_trans: "keeps s s' \<Longrightarrow> keeps s' s'' \<Longrightarrow> keeps s s''"
  unfolding keeps_def by (elim conjE, intro conjI; erule (1) subset_trans)

lemma deliverable_keeps: "keeps s s' \<Longrightarrow> deliverable cy s \<Longrightarrow> deliverable cy s'"
  unfolding keeps_def deliverable_def by (elim conjE, intro conjI ballI; drule (1) subsetD; erule (1) bspec)

lemma mark_where_bodies:
  "bodies (mark_where status (\<lambda>s r. r\<lparr>status := s\<rparr>) ident st ids rows) = bodies rows"
  unfolding bodies_def mark_where_def set_map image_image by (rule image_cong) simp_all

lemma marks_keep_bodies:
  "bodies (mark_event_snapshots_synced vs ids rows) = bodies rows"
  "bodies (mark_event_snapshots_quarantined vs ids rows) = bodies rows"
  "bodies (mark_task_snapshots_synced vs ids rows') = bodies rows'"
  "bodies (mark_task_snapshots_quarantined vs ids rows') = bodies rows'"
  "bodies (mark_provider_jobs_synced ks jobs) = bodies jobs"
  "bodies (mark_provider_jobs_quarantined ks jobs) = bodies jobs"
  by (simp_all add: mark_event_snapshots_synced_def mark_event_snapshots_quarantined_def
      mark_task_snapshots_synced_def mark_task_snapshots_quarantined_def mark_where_bodies
      eventq.ack_spec eventq.quarantine_spec eventq_by_id.ack_spec eventq_by_id.quarantine_spec
      taskq.ack_spec taskq.quarantine_spec taskq_by_id.ack_spec taskq_by_id.quarantine_spec
      jobq.ack_spec jobq.quarantine_spec split: option.split)

lemma leaf_keeps: "post_leaf env net bk p s = (r, s') \<Longrightarrow> keeps (ps_store s) (ps_store s')"
proof -
  assume leaf: "post_leaf env net bk p s = (r, s')"
  obtain r1 s1 where raw: "post_raw env (net (length (ps_log s)) (payload_body p)) s = (r1, s1)" by force
  note frame = post_raw_frame [OF raw]
  have "ps_store s' = ps_store s \<or> (\<exists>la. ps_store s' = mark_leaf_synced bk la (ps_store s))"
    using leaf raw frame by (cases "leaf_acks_of (bk_jobs bk) p") (auto simp: post_leaf_def Let_def split: if_splits)
  then show ?thesis by (elim disjE exE) (simp_all add: keeps_def mark_leaf_synced_simps marks_keep_bodies)
qed

lemma set_aside_keeps:
  assumes "durable_count p \<le> 1" "set_aside bk p s = (r, s')"
  shows "keeps (ps_store s) (ps_store s')"
  using assms(1)
proof (cases rule: single_record)
  case (event e)
  with assms(2) show ?thesis
    by (auto simp: set_aside_def quarantine_in_def keeps_def marks_keep_bodies split: sum.splits event_key.splits)
qed (use assms(2) in \<open>auto simp: set_aside_def quarantine_in_def keeps_def marks_keep_bodies split: sum.splits\<close>)

lemma upload_keeps: "post_with_split limit env net bk p s = (r, s') \<Longrightarrow> keeps (ps_store s) (ps_store s')"
proof (induction limit env net bk p s arbitrary: r s' rule: post_with_split.induct)
  case (1 limit env net bk p s)
  show ?case
  proof (cases "length (payload_body p) \<le> limit")
    case True
    with "1.prems" show ?thesis by (auto simp: post_with_split.simps [where p = p] intro: leaf_keeps)
  next
    case False
    consider e where "split_payload p = Inl e" | "split_payload p = Inr None"
      | a b where "split_payload p = Inr (Some (a, b))"
      by (metis old.sum.exhaust option.exhaust prod.exhaust)
    then show ?thesis
    proof cases
      case 2
      from split_none [OF this] "1.prems" False 2 show ?thesis
        by (auto simp: post_with_split.simps [where p = p] intro: set_aside_keeps)
    next
      case (3 a b)
      obtain r1 s1 where one: "post_with_split limit env net bk a s = (r1, s1)" by force
      from "1.IH"(1) [OF False 3 refl refl one] have k: "keeps (ps_store s) (ps_store s1)" .
      with "1.IH"(2) [OF False 3 refl refl] "1.prems" False 3 one show ?thesis
        by (auto simp: post_with_split.simps [where p = p] and_then_def intro: keeps_trans split: if_splits)
    qed (use "1.prems" False in \<open>auto simp: post_with_split.simps [where p = p] keeps_refl\<close>)
  qed
qed

section \<open>What begins a cycle\<close>

lemma begin_cycle_keeps:
  assumes "ss_activity (wk_sessions w) = []"
  shows "keeps (wk_store w) (wk_store (begin_cycle cy w)) \<and> ss_activity (wk_sessions (begin_cycle cy w)) = [] \<and>
    ps_stopped (wk_post (begin_cycle cy w)) = ps_stopped (wk_post w)"
proof -
  have f: "wk_store (finalize_sessions cy w) = wk_store w \<and> ss_activity (wk_sessions (finalize_sessions cy w)) = [] \<and>
      ps_stopped (wk_post (finalize_sessions cy w)) = ps_stopped (wk_post w)"
    using assms by (simp add: finalize_sessions_def finalize_idle_sessions_def idle_executions_def)
  have r: "keeps (wk_store v) (wk_store (recover_quarantined_events v)) \<and>
      wk_sessions (recover_quarantined_events v) = wk_sessions v \<and>
      ps_stopped (wk_post (recover_quarantined_events v)) = ps_stopped (wk_post v)" for v :: "'a worker"
    by (auto simp: recover_quarantined_events_def requeue_quarantined_events_def update_where_def keeps_def
        bodies_def set_events_def image_image)
  have p: "keeps (wk_store v) (wk_store (purge_if_due cy v)) \<and> wk_sessions (purge_if_due cy v) = wk_sessions v \<and>
      ps_stopped (wk_post (purge_if_due cy v)) = ps_stopped (wk_post v)" for v :: "'a worker"
    by (auto simp: purge_if_due_def purge_synced_def keeps_def bodies_def set_events_def Let_def)
  from f r [of "finalize_sessions cy w"] p [of "recover_quarantined_events (finalize_sessions cy w)"]
  show ?thesis unfolding begin_cycle_def by (metis keeps_trans)
qed

section \<open>A scan without exceptions\<close>

lemma scan_page_no_error:
  assumes "\<forall>(e, v) \<in> set ds. \<not> isl (convert e)" "scan_page convert ds (sc, bad, new) = (sc2, bad2, new2)"
  shows "sc_error sc2 = sc_error sc"
  using assms
proof (induction ds arbitrary: sc bad new)
  case (Cons ev ds)
  obtain e v where ev: "ev = (e, v)" by force
  with Cons.prems(1) obtain x where x: "convert e = Inr x" by (cases "convert e") auto
  with Cons.prems ev show ?case
    by (cases "ev_id e \<in> set (sc_seen sc)"; cases x) (auto simp: Let_def dest!: Cons.IH [rotated])
qed simp

lemma quarantined_bodies:
  "bodies (if bad = [] then rows else mark_event_snapshots_quarantined vs bad rows) = bodies rows"
  by (simp add: marks_keep_bodies)

lemma scan_no_error:
  assumes "\<forall>e \<in> bodies rows. \<not> isl (convert e)" "scan_events convert (\<lambda>k r. r) batch rows = (sc, rows')"
  shows "sc_error sc = None"
proof -
  have "sc_error sc = None \<and> (\<forall>e \<in> bodies rows'. \<not> isl (convert e))"
  proof (rule scan_loop_rule [where I = "\<lambda>rows sc. sc_error sc = None \<and> (\<forall>e \<in> bodies rows. \<not> isl (convert e))",
        OF _ assms(2) [unfolded scan_events_def]])
    fix rows sc n ds sc2 bad new
    assume I: "sc_error sc = None \<and> (\<forall>e \<in> bodies rows. \<not> isl (convert e))"
      and ds: "ds = query_event_deliveries_for_sync rows n"
      and page: "scan_page convert ds (note_versions ds sc, [], 0) = (sc2, bad, new)"
    have "\<forall>(e, v) \<in> set ds. \<not> isl (convert e)"
      using I query_rows [of _ _ rows n] unfolding ds bodies_def by fast
    from scan_page_no_error [OF this page] I
    show "(sc_error sc2 = None \<and> (\<forall>e \<in> bodies rows. \<not> isl (convert e))) \<and>
        sc_error (sc2\<lparr>sc_failed := sc_failed sc2 @ bad\<rparr>) = None \<and>
        (\<forall>e \<in> bodies (if bad = [] then rows else mark_event_snapshots_quarantined (Some (sc_versions sc2)) bad rows).
           \<not> isl (convert e))"
      unfolding quarantined_bodies by simp
  qed (use assms(1) in \<open>simp_all add: empty_scan_def\<close>)
  then show ?thesis ..
qed

text \<open>A scan finds something when there is anything.\<close>

lemma scan_page_finds:
  assumes "ds \<noteq> []" "sc_seen sc = []" "\<forall>(e, v) \<in> set ds. \<not> isl (convert e)"
    and "scan_page convert ds (sc, [], 0) = (sc2, bad, new)"
  shows "sc_dicts sc2 \<noteq> [] \<or> bad \<noteq> []"
proof -
  obtain e v ds' where ds: "ds = (e, v) # ds'" using assms(1) by (cases ds) auto
  obtain x where x: "convert e = Inr x" using assms(3) ds by (cases "convert e") auto
  show ?thesis
  proof (cases x)
    case None
    let ?s = "sc\<lparr>sc_seen := [ev_id e], sc_scanned := sc_scanned sc + 1\<rparr>"
    have "scan_page convert ds' (?s, [ev_id e], 1) = (sc2, bad, new)"
      using assms(2,4) by (simp add: ds x None Let_def)
    with scan_page_spec [of ds' convert ?s "[ev_id e]" 1] show ?thesis by auto
  next
    case (Some d)
    let ?s = "sc\<lparr>sc_seen := [ev_id e], sc_scanned := sc_scanned sc + 1, sc_dicts := sc_dicts sc @ [d],
      sc_taken := sc_taken sc @ [(e, v)]\<rparr>"
    have "scan_page convert ds' (?s, [], 1) = (sc2, bad, new)"
      using assms(2,4) by (simp add: ds x Some Let_def)
    with scan_page_spec [of ds' convert ?s "[]" 1] show ?thesis by auto
  qed
qed

lemma sql_limit_empty: "0 < n \<Longrightarrow> sql_limit n xs = [] \<longleftrightarrow> xs = []"
  by (auto simp: sql_limit_def)

lemma sort_key_empty: "sort_key k xs = [] \<longleftrightarrow> xs = []"
  by (metis length_0_conv length_sort)

lemma query_empty:
  assumes "0 < n"
  shows "query_event_deliveries_for_sync rows n = [] \<longleftrightarrow> fst (queue_counts rows) = 0"
    "query_task_deliveries_for_sync rows1 n = [] \<longleftrightarrow> fst (queue_counts rows1) = 0"
    "query_outcomes_for_sync rows2 n = [] \<longleftrightarrow> fst (queue_counts rows2) = 0"
    "query_revenues_for_sync rows3 n = [] \<longleftrightarrow> fst (queue_counts rows3) = 0"
    "query_provider_jobs_for_sync rows4 n = [] \<longleftrightarrow> fst (queue_counts rows4) = 0"
  using assms
  by (simp_all add: query_event_deliveries_for_sync_def query_task_deliveries_for_sync_def
      query_outcomes_for_sync_def query_revenues_for_sync_def query_provider_jobs_for_sync_def
      sql_limit_empty sort_key_empty queue_counts_def)

lemma scan_finds:
  assumes "\<forall>e \<in> bodies rows. \<not> isl (convert e)" "0 < batch" "fst (queue_counts rows) \<noteq> 0"
    and "scan_events convert (\<lambda>k r. r) batch rows = (sc, rows')"
  shows "sc_dicts sc \<noteq> [] \<or> sc_failed sc \<noteq> []"
proof -
  let ?ds = "query_event_deliveries_for_sync rows batch"
  obtain sc2 bad new where page: "scan_page convert ?ds (note_versions ?ds empty_scan, [], 0) = (sc2, bad, new)"
    by (metis surj_pair)
  have ds: "?ds \<noteq> []" using query_empty(1) [OF assms(2), of rows] assms(3) by simp
  have total: "\<forall>(e, v) \<in> set ?ds. \<not> isl (convert e)"
    using assms(1) query_rows [of _ _ rows batch] unfolding bodies_def by fast
  have found: "sc_dicts sc2 \<noteq> [] \<or> bad \<noteq> []"
    by (rule scan_page_finds [OF ds _ total page]) (simp add: empty_scan_def)
  have err: "sc_error sc2 = None" using scan_page_no_error [OF total page] by (simp add: empty_scan_def)
  have start: "int (length (sc_dicts empty_scan)) < batch \<and> sc_scanned empty_scan < scan_limit batch"
      "batch = min (batch - int (length (sc_dicts empty_scan))) (scan_limit batch - sc_scanned empty_scan)"
    using assms(2) by (simp_all add: empty_scan_def scan_limit_def)
  define rows2 where "rows2 = (if bad = [] then rows
    else mark_event_snapshots_quarantined (Some (sc_versions sc2)) bad rows)"
  define sc3 where "sc3 = sc2\<lparr>sc_failed := sc_failed sc2 @ bad\<rparr>"
  have found3: "sc_dicts sc3 \<noteq> [] \<or> sc_failed sc3 \<noteq> []" using found by (auto simp: sc3_def)
  have run: "(if new = 0 \<or> int (length ?ds) < batch then (sc3, rows2)
      else scan_loop convert (\<lambda>k r. r) batch (scan_limit batch) (0 + 1) rows2 sc3) = (sc, rows')"
    using assms(4) ds err scan_loop_next [where app = "\<lambda>k r. r" and ?rows0.0 = rows and k = 0,
        OF start refl page rows2_def sc3_def]
    by (simp only: scan_events_def if_False) simp
  show ?thesis
  proof (cases "new = 0 \<or> int (length ?ds) < batch")
    case False
    with run have "scan_loop convert (\<lambda>k r. r) batch (scan_limit batch) (0 + 1) rows2 sc3 = (sc, rows')"
      by (simp only: if_False)
    then show ?thesis
    proof (rule scan_loop_rule [where I = "\<lambda>rows sc. sc_dicts sc \<noteq> [] \<or> sc_failed sc \<noteq> []", OF found3])
      fix rows sc n ds sc2 bad new
      assume "sc_dicts sc \<noteq> [] \<or> sc_failed sc \<noteq> []"
        "scan_page convert ds (note_versions ds sc, [], 0) = (sc2, bad, new)"
      with scan_page_spec [of ds convert "note_versions ds sc" "[]" 0]
      show "(sc_dicts sc2 \<noteq> [] \<or> sc_failed sc2 \<noteq> []) \<and>
          (sc_dicts (sc2\<lparr>sc_failed := sc_failed sc2 @ bad\<rparr>) \<noteq> [] \<or>
           sc_failed (sc2\<lparr>sc_failed := sc_failed sc2 @ bad\<rparr>) \<noteq> [])" by auto
    qed
  qed (use found3 run in auto)
qed

lemma quarantine_counts:
  assumes "\<exists>r \<in> set rows. status r = Pending \<and> P r"
  shows "fst (queue_counts (map (\<lambda>r. if status r = Pending \<and> P r then r\<lparr>status := Quarantined\<rparr> else r) rows)) <
    fst (queue_counts rows)"
proof -
  let ?f = "\<lambda>r. if status r = Pending \<and> P r then r\<lparr>status := Quarantined\<rparr> else r"
  have le: "fst (queue_counts (map ?f rows)) \<le> fst (queue_counts rows)" for rows :: "('a, 'b) qrow_scheme list"
    by (induction rows) (auto simp: queue_counts_def)
  show ?thesis
    using assms
  proof (induction rows)
    case (Cons r rows)
    show ?case
    proof (cases "status r = Pending \<and> P r")
      case True
      with le [of rows] show ?thesis by (simp add: queue_counts_def)
    next
      case False
      with Cons have "fst (queue_counts (map ?f rows)) < fst (queue_counts rows)" by auto
      with False show ?thesis by (auto simp: queue_counts_def)
    qed
  qed simp
qed

lemma failed_scan_pending:
  assumes "scan_ok convert rows sc rows'" "sc_failed sc \<noteq> []"
  shows "fst (queue_counts rows') < fst (queue_counts rows)"
proof -
  have "\<exists>r \<in> set rows. status r = Pending \<and> ev_id (body r) \<in> set (sc_failed sc)"
    using scan_okD(4) [OF assms(1), of "hd (sc_failed sc)"] assms(2) by fastforce
  from quarantine_counts [OF this] assms(1) show ?thesis unfolding scan_ok_def by (elim conjE) (simp only:)
qed

section \<open>A cycle that is accepted\<close>

lemma batch_built:
  assumes "deliverable cy st"
  shows "\<exists>p bk. batch_payload cy sc st = Inr (p, bk)"
proof -
  have "\<exists>y. prepare_business_identity (cy_sha256 cy) (cy_privacy cy) t = Inr y"
    if t: "t \<in> set (map fst (query_task_deliveries_for_sync (st_tasks st) task_scan_limit))" for t
  proof -
    from t obtain v where "(t, v) \<in> set (query_task_deliveries_for_sync (st_tasks st) task_scan_limit)" by auto
    from query_tasks_rows [OF this] have "t \<in> bodies (st_tasks st)" by (auto simp: bodies_def)
    with assms have "\<not> isl (prepare_business_identity (cy_sha256 cy) (cy_privacy cy) t)"
      unfolding deliverable_def by blast
    then show ?thesis by (metis isl_def sum.exhaust)
  qed
  then have "\<forall>t \<in> set (map fst (query_task_deliveries_for_sync (st_tasks st) task_scan_limit)).
      \<exists>y. prepare_business_identity (cy_sha256 cy) (cy_privacy cy) t = Inr y" by blast
  from collect_total [OF this] obtain ids where ids: "collect (prepare_business_identity (cy_sha256 cy) (cy_privacy cy))
      (map fst (query_task_deliveries_for_sync (st_tasks st) task_scan_limit)) = Inr ids" by blast
  have "\<exists>y. to_attribution_observation (cy_schema cy) (cy_digest cy) (cy_environment cy) j = Inr y"
    if j: "j \<in> set (jobs_for_batch (batch_size cy) sc st)" for j
  proof -
    from j obtain n where "j \<in> set (query_provider_jobs_for_sync (st_jobs st) n)"
      unfolding jobs_for_batch_def by (metis empty_iff list.set(1))
    from query_ledger_rows(3) [OF this] have "j \<in> bodies (st_jobs st)" by (auto simp: bodies_def)
    with assms have "\<not> isl (to_attribution_observation (cy_schema cy) (cy_digest cy) (cy_environment cy) j)"
      unfolding deliverable_def by blast
    then show ?thesis by (metis isl_def sum.exhaust)
  qed
  then have "\<forall>j \<in> set (jobs_for_batch (batch_size cy) sc st).
      \<exists>y. to_attribution_observation (cy_schema cy) (cy_digest cy) (cy_environment cy) j = Inr y" by blast
  from collect_total [OF this] obtain obs where "collect (to_attribution_observation (cy_schema cy) (cy_digest cy)
      (cy_environment cy)) (jobs_for_batch (batch_size cy) sc st) = Inr obs" by blast
  with ids show ?thesis by (simp add: batch_payload_def Let_def)
qed

lemma batch_keyed:
  assumes "batch_payload cy sc st = Inr (p, bk)" "scan_ok (convert_event cy) rows sc rows'"
  shows "keyed bk p"
  using assms(1)
proof (rule batch_parts)
  fix ids obs
  assume obs: "collect (to_attribution_observation (cy_schema cy) (cy_digest cy) (cy_environment cy))
      (jobs_for_batch (batch_size cy) sc st) = Inr obs"
    and events: "pl_events p = sc_dicts sc @ map obj_of obs"
    and tasks: "pl_tasks p = map (prepare_task_dict (cy_sha256 cy) (cy_privacy cy) \<circ> fst)
       (query_task_deliveries_for_sync (st_tasks st) task_scan_limit)"
    and outs: "pl_outcomes p = map (obj_of \<circ> outcome_to_dict) (query_outcomes_for_sync (st_outcomes st) (batch_size cy))"
    and revs: "pl_revenues p = map revenue_to_dict (query_revenues_for_sync (st_revenues st) (batch_size cy))"
    and bk: "bk_jobs bk = map (\<lambda>j. (job_event_id j, job_revision j)) (jobs_for_batch (batch_size cy) sc st)"
  have plain: "\<exists>k. event_key (bk_jobs bk) d = Inr k" if d: "d \<in> set (sc_dicts sc)" for d
  proof -
    have "map (Inr \<circ> Some) (sc_dicts sc) = map (convert_event cy \<circ> fst) (sc_taken sc)"
      using assms(2) unfolding scan_ok_def by (elim conjE)
    moreover have "(Inr (Some d) :: py_error + obj option) \<in> set (map (Inr \<circ> Some) (sc_dicts sc))"
      using imageI [OF d, of "Inr \<circ> Some"] by (simp only: set_map comp_apply)
    ultimately have "Inr (Some d) \<in> set (map (convert_event cy \<circ> fst) (sc_taken sc))" by (simp only:)
    then obtain e where "convert_event cy e = Inr (Some d)" by (metis comp_apply image_iff set_map)
    from converted_event_id [OF this] show ?thesis by (simp add: event_key_def)
  qed
  have job: "\<exists>k. event_key (bk_jobs bk) (obj_of v) = Inr k" if v: "v \<in> set obs" for v
  proof -
    from collect_mem [OF obs v] obtain j where "j \<in> set (jobs_for_batch (batch_size cy) sc st)"
        "to_attribution_observation (cy_schema cy) (cy_digest cy) (cy_environment cy) j = Inr v" by blast
    with job_wire_key [of "cy_schema cy" "cy_digest cy" "cy_environment cy" j v "bk_jobs bk"] show ?thesis
      by (auto simp: bk)
  qed
  show "keyed bk p"
    unfolding keyed_def events tasks outs revs
    using plain job by (auto simp: prepared_task_id outcome_wire_key revenue_wire_key)
qed

lemma nothing_left:
  assumes "batch_payload cy sc st = Inr (p, bk)" "durable_count p = 0" "fst (queue_counts (st_events st)) = 0"
  shows "store_pending st = 0"
  using assms(1)
proof (rule batch_parts)
  fix ids obs
  assume obs: "collect (to_attribution_observation (cy_schema cy) (cy_digest cy) (cy_environment cy))
      (jobs_for_batch (batch_size cy) sc st) = Inr obs"
    and events: "pl_events p = sc_dicts sc @ map obj_of obs"
    and tasks: "pl_tasks p = map (prepare_task_dict (cy_sha256 cy) (cy_privacy cy) \<circ> fst)
       (query_task_deliveries_for_sync (st_tasks st) task_scan_limit)"
    and outs: "pl_outcomes p = map (obj_of \<circ> outcome_to_dict) (query_outcomes_for_sync (st_outcomes st) (batch_size cy))"
    and revs: "pl_revenues p = map revenue_to_dict (query_revenues_for_sync (st_revenues st) (batch_size cy))"
  have none: "sc_dicts sc = []" "obs = []" "query_task_deliveries_for_sync (st_tasks st) task_scan_limit = []"
      "query_outcomes_for_sync (st_outcomes st) (batch_size cy) = []"
      "query_revenues_for_sync (st_revenues st) (batch_size cy) = []"
    using assms(2) unfolding durable_count_def events tasks outs revs by simp_all
  have size: "0 < batch_size cy" "0 < task_scan_limit" by (simp_all add: batch_size_def task_scan_limit_def)
  have "jobs_for_batch (batch_size cy) sc st = []"
    using obs none(2) by (simp add: collect_map)
  then have "query_provider_jobs_for_sync (st_jobs st) (batch_size cy) = []"
    using none(1) size(1) by (simp add: jobs_for_batch_def max_def split: if_splits)
  with none(3-5) size assms(3) show "store_pending st = 0" by (simp add: store_pending_def query_empty)
qed

lemma conclude_frame:
  "wk_store (snd (conclude sc sent w)) = wk_store w" "wk_sessions (snd (conclude sc sent w)) = wk_sessions w"
  "wk_recovered (snd (conclude sc sent w)) = wk_recovered w"
  "ps_stopped (wk_post (snd (conclude sc sent w))) = ps_stopped (wk_post w)"
  by (simp_all add: conclude_def finish_quarantine_recovery_def)

lemma deliver_accepted:
  assumes "accepting (cy_net cy)" "keyed bk p" "identities_ok p" "deliver cy sc p bk w = (r, w')"
  shows "(\<exists>A B. store_moved bk A B (wk_store w) (wk_store w')) \<and> store_done bk p (wk_store w') \<and>
    keeps (wk_store w) (wk_store w') \<and> wk_sessions w' = wk_sessions w \<and> wk_recovered w' = wk_recovered w \<and>
    ps_stopped (wk_post w') = ps_stopped (wk_post w)"
proof -
  define start where "start = (wk_post (on_health (record_attempt (env_now (cy_env cy))) w))
    \<lparr>ps_delivered := 0, ps_quarantined := 0\<rparr>"
  obtain res s where post: "post_with_split (cy_limit cy) (cy_env cy) (cy_net cy) bk p start = (res, s)" by force
  have st: "ps_store start = wk_store w" "ps_stopped start = ps_stopped (wk_post w)"
    by (simp_all add: start_def on_health_def)
  from accepted_upload [OF assms(1-3) post] have res: "res = Inr True" "ps_stopped s = ps_stopped (wk_post w)"
    by (simp_all add: st)
  have "wk_store w' = ps_store s \<and> wk_sessions w' = wk_sessions w \<and> wk_recovered w' = wk_recovered w \<and>
      ps_stopped (wk_post w') = ps_stopped s"
  proof -
    have "(r, w') = conclude sc True (on_health (record_success (env_now (cy_env cy)) (ps_delivered s)) (w\<lparr>wk_post := s\<rparr>))"
      using assms(4) post unfolding deliver_def Let_def start_def [symmetric] by (simp add: res(1))
    from arg_cong [OF this, of snd] show ?thesis by (simp add: conclude_frame)
  qed
  moreover from post_moves [OF post] res(1) assms(3) upload_keeps [OF post]
  have "(\<exists>A B. store_moved bk A B (wk_store w) (ps_store s)) \<and> store_done bk p (ps_store s) \<and>
      keeps (wk_store w) (ps_store s)" by (simp add: st)
  ultimately show ?thesis by (simp add: res(2))
qed

lemma scanned_keeps:
  assumes "scan_ok convert (st_events (wk_store w)) sc rows"
  shows "keeps (wk_store w) (wk_store (set_events rows w))"
proof -
  have "rows = map (\<lambda>r. if status r = Pending \<and> ev_id (body r) \<in> set (sc_failed sc)
      then r\<lparr>status := Quarantined\<rparr> else r) (st_events (wk_store w))"
    using assms unfolding scan_ok_def by (elim conjE)
  then have "bodies rows = bodies (st_events (wk_store w))"
    unfolding bodies_def by (simp only: set_map image_image) (rule image_cong, simp_all)
  then show ?thesis by (simp add: keeps_def)
qed

lemma set_events_stopped [simp]: "ps_stopped (wk_post (set_events rows w)) = ps_stopped (wk_post w)"
  by (simp add: set_events_def)

text \<open>A batch without records: nothing is pending, or the scan quarantined what it found.\<close>

lemma empty_batch_work:
  assumes "distinct (event_ids (st_events s))" "\<forall>e \<in> bodies (st_events s). \<not> isl (convert_event cy e)"
    and sc: "scan_events (convert_event cy) (\<lambda>k rows. rows) (batch_size cy) (st_events s) = (sc, rows)"
    and pb: "batch_payload cy sc (s\<lparr>st_events := rows\<rparr>) = Inr (p, bk)" "durable_count p = 0"
  shows "store_pending (s\<lparr>st_events := rows\<rparr>) = 0 \<or> store_pending (s\<lparr>st_events := rows\<rparr>) < store_pending s"
proof (cases "fst (queue_counts rows) = 0")
  case True
  then show ?thesis using nothing_left [OF pb] by simp
next
  case False
  note scan = scan_worker_ok [OF assms(1) sc]
  have "fst (queue_counts (st_events s)) \<noteq> 0" using False scan_ok_rows(2) [OF scan] by simp
  moreover have "0 < batch_size cy" by (simp add: batch_size_def)
  moreover have "sc_dicts sc = []" by (rule batch_parts [OF pb(1)]) (use pb(2) in \<open>simp add: durable_count_def\<close>)
  ultimately have "sc_failed sc \<noteq> []" using scan_finds [OF assms(2) _ _ sc] by simp
  from failed_scan_pending [OF scan this] show ?thesis by (simp add: store_pending_def)
qed

text \<open>A batch with records: one of them at least is settled.\<close>

lemma full_batch_work:
  assumes "worker_ok w" "ss_activity (wk_sessions w) = []" "wk_recovered w" "accepting (cy_net cy)"
    and scan: "scan_ok (convert_event cy) rows sc (st_events (wk_store w))"
    and low: "\<forall>u \<in> set (event_ids rows). py_lower u = u" "distinct (event_ids rows)"
    and pb: "batch_payload cy sc (wk_store w) = Inr (p, bk)" "durable_count p \<noteq> 0"
    and dl: "deliver cy sc p bk w = (r, w')"
  shows "worker_ok w' \<and> ss_activity (wk_sessions w') = [] \<and> ps_stopped (wk_post w') = ps_stopped (wk_post w) \<and>
    keeps (wk_store w) (wk_store w') \<and> work w' < work w"
proof -
  from deliver_accepted [OF assms(4) batch_keyed [OF pb(1) scan] batch_identities_ok [OF pb(1)] dl]
  obtain A B where m: "store_moved bk A B (wk_store w) (wk_store w')" "store_done bk p (wk_store w')"
      "keeps (wk_store w) (wk_store w')" "wk_sessions w' = wk_sessions w" "wk_recovered w' = wk_recovered w"
      "ps_stopped (wk_post w') = ps_stopped (wk_post w)" by auto
  from batch_record [OF pb scan low] assms(1) store_moved_strict [OF m(1,2)]
  have "store_pending (wk_store w') < store_pending (wk_store w)" by (simp add: worker_ok_def)
  moreover have "worker_ok w'" using assms(1) store_moved_ids [OF m(1)] m(4) by (simp add: worker_ok_def)
  ultimately show ?thesis using m(3-6) assms(2,3) by (simp add: work_def)
qed

lemma accepted_cycle:
  assumes ok: "worker_ok w0" and quiet: "ss_activity (wk_sessions w0) = []"
    and env: "cy_app cy = (\<lambda>k rows. rows)" "accepting (cy_net cy)" "deliverable cy (wk_store w0)"
    and run: "sync_batch cy w0 = (r, w')"
  shows "worker_ok w' \<and> ss_activity (wk_sessions w') = [] \<and>
    ps_stopped (wk_post w') = ps_stopped (wk_post w0) \<and> keeps (wk_store w0) (wk_store w') \<and>
    (work w' = 0 \<or> work w' < work w0)"
proof -
  define w1 where "w1 = begin_cycle cy w0"
  obtain sc rows where sc: "scan_events (convert_event cy) (\<lambda>k rows. rows) (batch_size cy)
      (st_events (wk_store w1)) = (sc, rows)" by force
  define w where "w = set_events rows w1"
  have w1: "worker_ok w1" "work w1 \<le> work w0" "wk_recovered w1"
    using begin_cycle_work [OF ok, of cy] by (simp_all add: w1_def)
  have b: "keeps (wk_store w0) (wk_store w1)" "ss_activity (wk_sessions w1) = []"
      "ps_stopped (wk_post w1) = ps_stopped (wk_post w0)"
    using begin_cycle_keeps [OF quiet, of cy] by (simp_all add: w1_def)
  have d1: "distinct (event_ids (st_events (wk_store w1)))"
      "\<forall>u \<in> set (event_ids (st_events (wk_store w1))). py_lower u = u"
    using w1(1) by (simp_all add: worker_ok_def)
  note scan = scan_worker_ok [OF d1(1) sc]
  have total: "\<forall>e \<in> bodies (st_events (wk_store w1)). \<not> isl (convert_event cy e)"
    using deliverable_keeps [OF b(1) env(3)] unfolding deliverable_def by (elim conjE)
  have kw: "keeps (wk_store w0) (wk_store w)" using keeps_trans [OF b(1) scanned_keeps [OF scan]] by (simp add: w_def)
  have w: "worker_ok w" "wk_recovered w" "ss_activity (wk_sessions w) = []"
      "ps_stopped (wk_post w) = ps_stopped (wk_post w0)" "work w \<le> work w0"
    using w1 b scan_ok_rows [OF scan] by (simp_all add: w_def worker_ok_def work_def store_pending_def)
  from batch_built [OF deliverable_keeps [OF kw env(3)]] obtain p bk where
    pb: "batch_payload cy sc (wk_store w) = Inr (p, bk)" by blast
  have run': "(if durable_count p = 0 then conclude sc False w else deliver cy sc p bk w) = (r, w')"
    using run sc pb scan_no_error [OF total sc]
    by (auto simp: sync_batch_def Let_def w1_def [symmetric] w_def env(1) split: if_splits)
  show ?thesis
  proof (cases "durable_count p = 0")
    case True
    have "wk_store w' = wk_store w" "wk_sessions w' = wk_sessions w" "wk_recovered w' = wk_recovered w"
        "ps_stopped (wk_post w') = ps_stopped (wk_post w)"
      using run' True conclude_frame [of sc False w] by simp_all
    with empty_batch_work [OF d1(1) total sc, of p bk] pb True w w1(2,3) b(2) kw show ?thesis
      by (auto simp: w_def worker_ok_def work_def)
  next
    case False
    have "scan_ok (convert_event cy) (st_events (wk_store w1)) sc (st_events (wk_store w))"
      using scan by (simp add: w_def)
    from full_batch_work [OF w(1,3,2) env(2) this d1(2,1) pb False, of r w'] run' False keeps_trans [OF kw] w
    show ?thesis by auto
  qed
qed

section \<open>Liveness\<close>

lemma after_cycle_stopped: "after_cycle cy r w = (next, w') \<Longrightarrow>
    wk_store w' = wk_store w \<and> wk_sessions w' = wk_sessions w \<and> ps_stopped (wk_post w') = ps_stopped (wk_post w)"
  by (auto simp: after_cycle_def pause_def note_error_def on_health_def acknowledge_flush_def Let_def split_beta
      split: sum.splits bool.splits cycle_error.splits if_splits)

lemma accepted_turn:
  assumes "worker_ok w0" "ss_activity (wk_sessions w0) = []" "cy_app cy = (\<lambda>k rows. rows)"
    and "accepting (cy_net cy)" "deliverable cy (wk_store w0)" "run_turn cy w0 = ((r, next), w)"
  shows "worker_ok w \<and> ss_activity (wk_sessions w) = [] \<and> ps_stopped (wk_post w) = ps_stopped (wk_post w0) \<and>
    keeps (wk_store w0) (wk_store w) \<and> (work w = 0 \<or> work w < work w0)"
proof -
  obtain w1 where s: "sync_batch cy w0 = (r, w1)"
      and a: "after_cycle cy r (if cy_flushed cy then request_flush w1 else w1) = (next, w)"
    using run_turn_parts [OF assms(6)] .
  note c = accepted_cycle [OF assms(1-5) s]
  define v where "v = (if cy_flushed cy then request_flush w1 else w1)"
  have "worker_ok v = worker_ok w1" "work v = work w1" by (simp_all add: v_def request_flush_frame)
  moreover have "wk_post v = wk_post w1" "wk_sessions v = wk_sessions w1" by (simp_all add: v_def request_flush_def)
  ultimately show ?thesis
    using after_cycle_frame [OF a [folded v_def]] after_cycle_stopped [OF a [folded v_def]] c by simp
qed

text \<open>C11. The queue empties: as long as the control plane accepts what it is sent, no other thread
  writes events, no session is watched and no record makes its conversion raise, the worker
  never stops, and after as many turns as there are pending records (and quarantined events to
  requeue) nothing is pending: every record was delivered or set aside.\<close>

theorem backlog_drains:
  assumes "worker_ok w" "ss_activity (wk_sessions w) = []" "\<not> ps_stopped (wk_post w)"
    and "\<forall>cy \<in> set cys. cy_app cy = (\<lambda>k rows. rows) \<and> accepting (cy_net cy) \<and> deliverable cy (wk_store w)"
    and "work w \<le> length cys"
  shows "store_pending (wk_store (snd (run_turns cys w))) = 0 \<and> length (fst (run_turns cys w)) = length cys"
  using assms
proof (induction cys arbitrary: w)
  case Nil
  then show ?case by (simp add: work_def)
next
  case (Cons cy cys)
  obtain r n w1 where t: "run_turn cy w = ((r, n), w1)" by (metis surj_pair)
  from accepted_turn [OF Cons.prems(1,2) _ _ _ t] Cons.prems(4)
  have one: "worker_ok w1" "ss_activity (wk_sessions w1) = []" "ps_stopped (wk_post w1) = ps_stopped (wk_post w)"
      "keeps (wk_store w) (wk_store w1)" "work w1 = 0 \<or> work w1 < work w" by simp_all
  have "work w1 \<le> length cys" using one(5) Cons.prems(5) by auto
  moreover have "\<forall>cy \<in> set cys. cy_app cy = (\<lambda>k rows. rows) \<and> accepting (cy_net cy) \<and> deliverable cy (wk_store w1)"
    using Cons.prems(4) deliverable_keeps [OF one(4)] by auto
  ultimately show ?case using Cons.IH [OF one(1,2)] one(3) Cons.prems(3) t by (simp add: split_beta)
qed

theorem backlog_drains_witness:
  "store_pending (wk_store (snd (run_turns [sample_cycle] (sample_worker [new_task (uuid_text 1) (sample_time 0)])))) = 0"
proof -
  let ?w = "sample_worker [new_task (uuid_text 1) (sample_time 0)]"
  have "worker_ok ?w"
    by (simp add: worker_ok_def sample_worker_def sample_post_state_def event_ids_def task_ids_def sessions_inv_start)
  moreover have "ss_activity (wk_sessions ?w) = []" "\<not> ps_stopped (wk_post ?w)"
    by (simp_all add: sample_worker_def no_sessions_def sample_post_state_def)
  moreover have "work ?w \<le> length [sample_cycle]"
    by (simp add: work_def store_pending_def sample_worker_def sample_post_state_def queue_counts_def
        no_sessions_def new_vrow_def)
  moreover have "accepting (cy_net sample_cycle)" by (simp add: accepting_def sample_cycle_def reply_rejects_def)
  moreover have "deliverable sample_cycle (wk_store ?w)"
    by (simp add: deliverable_def bodies_def sample_worker_def sample_post_state_def new_vrow_def
        prepare_business_identity_def business_identity_def new_task_def)
  moreover have "cy_app sample_cycle = (\<lambda>k rows. rows)" by (simp add: sample_cycle_def)
  ultimately show ?thesis using backlog_drains [of ?w "[sample_cycle]"] by simp
qed

end
