(* ===== verification/Pricing_Catalog.thy ===== *)
theory Pricing_Catalog
  imports Attribution_Parts Delivery_Health
begin

text \<open>
  What the pricing engines share: reading a price catalogue, a JSON object whose shape nobody has
  checked, with the exceptions of \<open>v.get(k)\<close>, \<open>v[k]\<close>, \<open>k in v\<close> and \<open>Decimal(str(v))\<close>,
  and the rates they quote.

  A number of the catalogue is the text \<open>str\<close> gives for it. Non-finite amounts are not modelled:
  they count as unreadable. Regions and SKUs that are not texts count as absent.
\<close>

section \<open>Computations that can raise\<close>

definition bind_ok :: "py_error + 'a \<Rightarrow> ('a \<Rightarrow> py_error + 'b) \<Rightarrow> py_error + 'b" where
  "bind_ok x f = (case x of Inl e \<Rightarrow> Inl e | Inr y \<Rightarrow> f y)"

definition handle :: "(py_error \<Rightarrow> bool) \<Rightarrow> py_error + 'a \<Rightarrow> py_error + 'a \<Rightarrow> py_error + 'a" where
  "handle p x alternative = (case x of Inl e \<Rightarrow> if p e then alternative else Inl e | Inr y \<Rightarrow> Inr y)"

lemma bind_ok_simps [simp]:
  "bind_ok (Inr y) f = f y" "bind_ok (Inl e) f = Inl e"
  by (simp_all add: bind_ok_def)

lemma handle_simps [simp]:
  "handle p (Inr y) z = Inr y" "handle p (Inl e) z = (if p e then z else Inl e)"
  by (simp_all add: handle_def)

lemma bind_ok_Inr: "bind_ok x f = Inr z \<longleftrightarrow> (\<exists>y. x = Inr y \<and> f y = Inr z)"
  by (cases x) auto

lemma handle_Inr: "handle p x y = Inr z \<longleftrightarrow> x = Inr z \<or> (\<exists>e. x = Inl e \<and> p e \<and> y = Inr z)"
  by (cases x) auto

section \<open>Untrusted JSON\<close>

text \<open>\<open>v.get(k, default)\<close>, \<open>v[k]\<close>, \<open>k in v\<close>.\<close>

definition json_get :: "json \<Rightarrow> string \<Rightarrow> json \<Rightarrow> py_error + json" where
  "json_get v k d =
     (case v of
        JObj kvs \<Rightarrow> Inr (case map_of kvs k of None \<Rightarrow> d | Some x \<Rightarrow> x)
      | _ \<Rightarrow> Inl (AttributeError ''object has no attribute get''))"

definition json_item :: "json \<Rightarrow> string \<Rightarrow> py_error + json" where
  "json_item v k =
     (case v of
        JObj kvs \<Rightarrow> (case map_of kvs k of None \<Rightarrow> Inl (LookupError k) | Some x \<Rightarrow> Inr x)
      | _ \<Rightarrow> Inl (TypeError ''object is not subscriptable''))"

definition json_has :: "json \<Rightarrow> string \<Rightarrow> py_error + bool" where
  "json_has v k =
     (case v of
        JObj kvs \<Rightarrow> Inr (map_of kvs k \<noteq> None)
      | JArr xs \<Rightarrow> Inr (JStr k \<in> set xs)
      | JStr s \<Rightarrow> Inr (sublist k s)
      | _ \<Rightarrow> Inl (TypeError ''argument is not iterable''))"

text \<open>\<open>Decimal(str(v))\<close>.\<close>

definition bad_number :: py_error where
  "bad_number = InvalidOperation ''[<class 'decimal.ConversionSyntax'>]''"

definition number_of :: "json \<Rightarrow> py_error + dec" where
  "number_of v = (case decimal_of_text (py_str v) of DecFinite d \<Rightarrow> Inr d | _ \<Rightarrow> Inl bad_number)"

definition number_at :: "json \<Rightarrow> string \<Rightarrow> py_error + dec" where
  "number_at v k = bind_ok (json_item v k) number_of"

text \<open>\<open>a / b\<close>.\<close>

definition divided :: "dec \<Rightarrow> dec \<Rightarrow> py_error + dec" where
  "divided a b =
     (case dec_div a b of
        None \<Rightarrow> Inl (InvalidOperation ''[<class 'decimal.DivisionByZero'>]'')
      | Some q \<Rightarrow> Inr q)"

definition key_or_number :: "py_error \<Rightarrow> bool" where
  "key_or_number e = (case e of LookupError m \<Rightarrow> True | InvalidOperation m \<Rightarrow> True | _ \<Rightarrow> False)"

definition text_at :: "obj \<Rightarrow> string \<Rightarrow> string option" where
  "text_at d k = (case dict_get d k of JStr s \<Rightarrow> if s = [] then None else Some s | _ \<Rightarrow> None)"

section \<open>Loading\<close>

text \<open>
  The constructors: None is a file that is missing, unreadable or not JSON, which leaves the
  empty catalogue. A root, or a \<open>_meta\<close> entry, that is not an object raises.
\<close>

definition load_catalog :: "json option \<Rightarrow> string option \<Rightarrow> py_error + (obj \<times> string)" where
  "load_catalog file version_override =
     (case file of
        None \<Rightarrow> Inr ([], ''unknown'')
      | Some doc \<Rightarrow>
          bind_ok (json_get doc ''_meta'' (JObj []))
            (\<lambda>meta. bind_ok (json_get meta ''version'' (JStr ''unknown''))
              (\<lambda>v. Inr (case doc of JObj kvs \<Rightarrow> kvs | _ \<Rightarrow> [],
                        case version_override of
                          None \<Rightarrow> py_str v
                        | Some w \<Rightarrow> if w = [] then py_str v else w))))"

section \<open>Quotes\<close>

record 'a quote =
  qt_rate :: 'a
  qt_source :: string
  qt_confidence :: string

abbreviation quoted :: "'a \<Rightarrow> string \<Rightarrow> string \<Rightarrow> 'a quote" where
  "quoted r s c \<equiv> \<lparr>qt_rate = r, qt_source = s, qt_confidence = c\<rparr>"

end
