(* ===== verification/Egress_Pricing.thy ===== *)
theory Egress_Pricing
  imports Pricing_Catalog
begin

text \<open>
  The price of a gigabyte that leaves the cloud (\<open>egress_pricing.py\<close>): workspace overrides, then
  the region, the provider default, the catalogue default and a hardcoded rate. Warnings are not
  modelled.
\<close>

record egress_rate =
  eg_rate :: dec
  eg_unit :: string
  eg_source :: string
  eg_confidence :: string

record egress_engine =
  ee_catalog :: obj
  ee_overrides :: "(string \<times> dec \<times> string) list"

definition hardcoded_egress :: dec where "hardcoded_egress = Dec 9 (- 2)"

definition catalog_rate :: "dec \<Rightarrow> string \<Rightarrow> string \<Rightarrow> egress_rate" where
  "catalog_rate rate source confidence =
     \<lparr>eg_rate = rate, eg_unit = ''gb_egress'', eg_source = ''egress_catalog:'' @ source, eg_confidence = confidence\<rparr>"

definition overlay_rate :: "string \<Rightarrow> dec \<Rightarrow> string \<Rightarrow> egress_rate" where
  "overlay_rate k amount unit =
     \<lparr>eg_rate = amount, eg_unit = unit, eg_source = ''workspace_overlay:egress:'' @ k @ '':'' @ unit,
      eg_confidence = ''computed''\<rparr>"

definition rate_for_internal :: egress_rate where
  "rate_for_internal = catalog_rate dec0 ''internal'' ''exact''"

fun find_override :: "(string \<times> dec \<times> string) list \<Rightarrow> string list \<Rightarrow> egress_rate option" where
  "find_override overrides [] = None"
| "find_override overrides (k # ks) =
     (case map_of overrides k of
        Some (amount, unit) \<Rightarrow>
          Some (overlay_rate k amount unit)
      | None \<Rightarrow> find_override overrides ks)"

text \<open>A malformed region rate falls through; a number that is not one, where the key is missing, is None.\<close>

definition region_rate :: "string \<Rightarrow> string option \<Rightarrow> json \<Rightarrow> py_error + egress_rate option" where
  "region_rate provider region block =
     bind_ok (json_get block ''regions'' (JObj []))
       (\<lambda>regions.
          case region of
            None \<Rightarrow> Inr None
          | Some g \<Rightarrow>
              bind_ok (json_has regions g) (\<lambda>present.
                if \<not> present then Inr None
                else bind_ok (json_item regions g) (\<lambda>v.
                  case number_of v of
                    Inl e \<Rightarrow> Inr None
                  | Inr rate \<Rightarrow> Inr (Some (catalog_rate rate (provider @ '':'' @ g) ''computed'')))))"

definition default_rate :: "json \<Rightarrow> string \<Rightarrow> string \<Rightarrow> egress_rate option" where
  "default_rate block k source =
     (case json_get block k (JStr []) of
        Inl e \<Rightarrow> None
      | Inr v \<Rightarrow> (case number_of v of
                    Inl e \<Rightarrow> None
                  | Inr rate \<Rightarrow> Some (catalog_rate rate source ''estimated'')))"

definition is_object :: "json \<Rightarrow> bool" where
  "is_object v = (case v of JObj kvs \<Rightarrow> True | _ \<Rightarrow> False)"

text \<open>The rate of the catalogue when neither the workspace nor the provider has one.\<close>

definition meta_rate :: "obj \<Rightarrow> egress_rate" where
  "meta_rate catalog =
     (case (if is_object (dict_get catalog ''_meta'')
            then default_rate (dict_get catalog ''_meta'') ''default_rate_usd_per_gb'' ''default'' else None) of
        Some r \<Rightarrow> r
      | None \<Rightarrow> catalog_rate hardcoded_egress ''default'' ''estimated'')"

definition provider_rate :: "obj \<Rightarrow> string \<Rightarrow> string option \<Rightarrow> py_error + egress_rate option" where
  "provider_rate catalog provider region =
     (let block = dict_get catalog provider
      in if \<not> is_object block then Inr None
         else bind_ok (region_rate provider region block) (\<lambda>r.
           case r of
             Some x \<Rightarrow> Inr (Some x)
           | None \<Rightarrow> Inr (default_rate block ''default_usd_per_gb'' (provider @ '':default''))))"

definition nonempty :: "string option \<Rightarrow> string option" where
  "nonempty x = (case x of Some s \<Rightarrow> if s = [] then None else Some s | None \<Rightarrow> None)"

text \<open>\<open>resolve_rate\<close>; an empty provider or region is absent.\<close>

definition resolve_rate :: "egress_engine \<Rightarrow> string option \<Rightarrow> string option \<Rightarrow> py_error + egress_rate" where
  "resolve_rate engine provider0 region0 =
     (let provider = nonempty provider0; region = nonempty region0
      in case provider of
           None \<Rightarrow> Inr (meta_rate (ee_catalog engine))
         | Some p \<Rightarrow>
             (case find_override (ee_overrides engine)
                     (case region of Some g \<Rightarrow> [p @ '':'' @ g, p] | None \<Rightarrow> [p]) of
                Some r \<Rightarrow> Inr r
              | None \<Rightarrow>
                  bind_ok (provider_rate (ee_catalog engine) p region) (\<lambda>r.
                    Inr (case r of Some x \<Rightarrow> x | None \<Rightarrow> meta_rate (ee_catalog engine)))))"

section \<open>Properties\<close>

text \<open>Where an entry of the catalogue is: the number at \<open>catalog[provider]["regions"][region]\<close>, and
  the number at \<open>catalog[block][k]\<close>.\<close>

definition region_entry :: "obj \<Rightarrow> string \<Rightarrow> string \<Rightarrow> dec option" where
  "region_entry catalog p g =
     (case dict_get catalog p of
        JObj block \<Rightarrow> (case dict_get block ''regions'' of
                          JObj rs \<Rightarrow> (case map_of rs g of
                                         Some v \<Rightarrow> (case number_of v of Inr d \<Rightarrow> Some d | _ \<Rightarrow> None)
                                       | None \<Rightarrow> None)
                        | _ \<Rightarrow> None)
      | _ \<Rightarrow> None)"

definition block_entry :: "obj \<Rightarrow> string \<Rightarrow> string \<Rightarrow> dec option" where
  "block_entry catalog p k =
     (case dict_get catalog p of
        JObj block \<Rightarrow> (case map_of block k of
                          Some v \<Rightarrow> (case number_of v of Inr d \<Rightarrow> Some d | _ \<Rightarrow> None)
                        | None \<Rightarrow> None)
      | _ \<Rightarrow> None)"

text \<open>The price list: an override of the workspace, for the region before the provider; else the
  catalogue's number for exactly this provider and region; else, then only an estimate, the
  default of the provider, of the catalogue, or the hardcoded rate.\<close>

definition override_keys :: "string \<Rightarrow> string option \<Rightarrow> string list" where
  "override_keys p region = (case nonempty region of Some g \<Rightarrow> [p @ '':'' @ g, p] | None \<Rightarrow> [p])"

definition has_override :: "(string \<times> dec \<times> string) list \<Rightarrow> string \<Rightarrow> bool" where
  "has_override os k \<longleftrightarrow> map_of os k \<noteq> None"

definition overridden :: "egress_engine \<Rightarrow> string \<Rightarrow> string option \<Rightarrow> string option" where
  "overridden engine p region = find (has_override (ee_overrides engine)) (override_keys p region)"

definition in_region :: "egress_engine \<Rightarrow> string \<Rightarrow> string option \<Rightarrow> dec option" where
  "in_region engine p region =
     (case nonempty region of Some g \<Rightarrow> region_entry (ee_catalog engine) p g | None \<Rightarrow> None)"

inductive quotable :: "egress_engine \<Rightarrow> string option \<Rightarrow> string option \<Rightarrow> egress_rate \<Rightarrow> bool"
  for engine where
  override: "p \<noteq> [] \<Longrightarrow> overridden engine p region = Some k \<Longrightarrow> map_of (ee_overrides engine) k = Some (amount, unit) \<Longrightarrow>
    quotable engine (Some p) region (overlay_rate k amount unit)"
| region: "p \<noteq> [] \<Longrightarrow> overridden engine p (Some g) = None \<Longrightarrow> in_region engine p (Some g) = Some amount \<Longrightarrow>
    quotable engine (Some p) (Some g) (catalog_rate amount (p @ '':'' @ g) ''computed'')"
| provider: "p \<noteq> [] \<Longrightarrow> overridden engine p region = None \<Longrightarrow> in_region engine p region = None \<Longrightarrow>
    block_entry (ee_catalog engine) p ''default_usd_per_gb'' = Some amount \<Longrightarrow>
    quotable engine (Some p) region (catalog_rate amount (p @ '':default'') ''estimated'')"
| default: "(\<And>p. provider = Some p \<Longrightarrow> p \<noteq> [] \<Longrightarrow> overridden engine p region = None \<and> in_region engine p region = None \<and>
      block_entry (ee_catalog engine) p ''default_usd_per_gb'' = None) \<Longrightarrow>
    amount = (case block_entry (ee_catalog engine) ''_meta'' ''default_rate_usd_per_gb'' of
                Some d \<Rightarrow> d | None \<Rightarrow> hardcoded_egress) \<Longrightarrow>
    quotable engine provider region (catalog_rate amount ''default'' ''estimated'')"

lemma find_override_eq:
  "find_override os ks =
     (case find (has_override os) ks of
        None \<Rightarrow> None
      | Some k \<Rightarrow> (case map_of os k of
                     Some (amount, unit) \<Rightarrow>
                       Some (overlay_rate k amount unit)
                   | None \<Rightarrow> None))"
  by (induction ks) (auto simp: has_override_def split: option.split)

lemma number_of_empty [simp]: "number_of (JStr []) = Inl bad_number"
  by (simp add: number_of_def py_str_def decimal_of_text_def py_strip_def non_finite_name_def strip_sign_def dec_parse_def)

lemma default_rate_eq:
  "is_object (dict_get catalog p) \<Longrightarrow>
   default_rate (dict_get catalog p) k source = map_option (\<lambda>d. catalog_rate d source ''estimated'') (block_entry catalog p k)"
  by (auto simp: is_object_def default_rate_def block_entry_def json_get_def split: json.split option.split sum.split)

lemma block_entry_None: "\<not> is_object (dict_get catalog p) \<Longrightarrow> block_entry catalog p k = None"
  by (auto simp: is_object_def block_entry_def split: json.split)

lemma region_rate_eq:
  assumes "region_rate p region (dict_get catalog p) = Inr r" "is_object (dict_get catalog p)"
  shows "r = (case region of None \<Rightarrow> None
              | Some g \<Rightarrow> map_option (\<lambda>d. catalog_rate d (p @ '':'' @ g) ''computed'') (region_entry catalog p g))"
  using assms
  by (auto simp: is_object_def region_rate_def region_entry_def json_get_def json_has_def json_item_def bind_ok_Inr
      dict_get_def split: json.splits option.splits if_splits sum.splits)

lemma region_entry_None: "\<not> is_object (dict_get catalog p) \<Longrightarrow> region_entry catalog p g = None"
  by (auto simp: is_object_def region_entry_def split: json.split)

lemma meta_rate_eq:
  "meta_rate catalog = catalog_rate (case block_entry catalog ''_meta'' ''default_rate_usd_per_gb'' of
      Some d \<Rightarrow> d | None \<Rightarrow> hardcoded_egress) ''default'' ''estimated''"
  by (cases "is_object (dict_get catalog ''_meta'')")
    (simp_all add: meta_rate_def default_rate_eq block_entry_None split: option.split)

lemma provider_rate_eq:
  assumes "provider_rate catalog p region = Inr r"
  shows "r = (case (case region of Some g \<Rightarrow> region_entry catalog p g | None \<Rightarrow> None) of
      Some d \<Rightarrow> Some (catalog_rate d (p @ '':'' @ the region) ''computed'')
    | None \<Rightarrow> map_option (\<lambda>d. catalog_rate d (p @ '':default'') ''estimated'') (block_entry catalog p ''default_usd_per_gb''))"
proof (cases "is_object (dict_get catalog p)")
  case True
  with assms obtain x where x: "region_rate p region (dict_get catalog p) = Inr x"
      "r = (case x of Some y \<Rightarrow> Some y | None \<Rightarrow> default_rate (dict_get catalog p) ''default_usd_per_gb'' (p @ '':default''))"
    by (auto simp: provider_rate_def Let_def bind_ok_Inr split: option.splits)
  from region_rate_eq [OF x(1) True] show ?thesis
    by (cases region; cases "region_entry catalog p (the region)") (simp_all add: x(2) default_rate_eq [OF True])
next
  case False
  with assms show ?thesis
    by (simp add: provider_rate_def Let_def block_entry_None region_entry_None split: option.split)
qed

lemma resolve_rate_eq:
  assumes "p \<noteq> []" "resolve_rate engine (Some p) region = Inr r"
  shows "(case overridden engine p region of
      Some k \<Rightarrow> (case map_of (ee_overrides engine) k of
                   Some (amount, unit) \<Rightarrow> r = overlay_rate k amount unit
                 | None \<Rightarrow> False)
    | None \<Rightarrow> (case in_region engine p region of
                 Some d \<Rightarrow> r = catalog_rate d (p @ '':'' @ the region) ''computed''
               | None \<Rightarrow> (case block_entry (ee_catalog engine) p ''default_usd_per_gb'' of
                            Some d \<Rightarrow> r = catalog_rate d (p @ '':default'') ''estimated''
                          | None \<Rightarrow> r = meta_rate (ee_catalog engine))))"
proof (cases "overridden engine p region")
  case (Some k)
  then obtain a u where "map_of (ee_overrides engine) k = Some (a, u)"
    by (auto simp: overridden_def find_Some_iff has_override_def)
  with assms Some show ?thesis
    by (simp add: resolve_rate_def nonempty_def [of "Some p"] override_keys_def [symmetric] find_override_eq
        overridden_def [symmetric])
next
  case None
  with assms obtain x where x: "provider_rate (ee_catalog engine) p (nonempty region) = Inr x"
      "r = (case x of Some y \<Rightarrow> y | None \<Rightarrow> meta_rate (ee_catalog engine))"
    by (auto simp: resolve_rate_def nonempty_def [of "Some p"] override_keys_def [symmetric] find_override_eq
        overridden_def [symmetric] bind_ok_Inr)
  have "in_region engine p region = Some d \<Longrightarrow> nonempty region = region" for d
    by (auto simp: in_region_def nonempty_def split: option.splits if_splits)
  with provider_rate_eq [OF x(1), folded in_region_def] x(2) None show ?thesis
    by (cases "in_region engine p region"; cases "block_entry (ee_catalog engine) p ''default_usd_per_gb''") simp_all
qed

text \<open>C23. A quoted egress rate is the one of the price list: an override of the workspace, for the
  region before the provider; else the catalogue's number for exactly this provider and region;
  else, then only called an estimate, the default of the provider, of the catalogue, or the
  hardcoded rate.\<close>

theorem egress_rate_listed:
  assumes "resolve_rate engine provider region = Inr r"
  shows "quotable engine provider region r"
proof (cases "provider = None \<or> provider = Some []")
  case True
  then have "r = meta_rate (ee_catalog engine)" using assms by (auto simp: resolve_rate_def nonempty_def)
  then show ?thesis unfolding meta_rate_eq by (rule ssubst) (use True in \<open>auto intro!: quotable.default\<close>)
next
  case False
  then obtain p where p: "provider = Some p" "p \<noteq> []" by (cases provider) auto
  have eq: "resolve_rate engine (Some p) region = Inr r" using assms p(1) by simp
  note listed = resolve_rate_eq [OF p(2) eq]
  show ?thesis
  proof (cases "overridden engine p region")
    case (Some k)
    with listed p show ?thesis by (auto split: option.splits intro: quotable.override)
  next
    case None
    show ?thesis
    proof (cases "in_region engine p region")
      case (Some d)
      then have "region = Some (the region)" by (auto simp: in_region_def nonempty_def split: option.splits)
      with listed None Some p show ?thesis using quotable.region [of p engine "the region" d] by simp
    next
      case nowhere: None
      show ?thesis
        using listed nowhere None p
        by (cases "block_entry (ee_catalog engine) p ''default_usd_per_gb''")
          (auto simp: meta_rate_eq intro: quotable.provider intro!: quotable.default)
    qed
  qed
qed

definition sample_engine :: egress_engine where
  "sample_engine = \<lparr>ee_catalog =
     [(''aws'', JObj [(''regions'', JObj [(''us-east-1'', JStr ''0.09'')]), (''default_usd_per_gb'', JStr ''0.1'')])],
     ee_overrides = []\<rparr>"

theorem egress_rate_listed_witness:
  "quotable sample_engine (Some ''aws'') (Some ''us-east-1'') (catalog_rate (Dec 9 (- 2)) ''aws:us-east-1'' ''computed'')"
proof (rule egress_rate_listed)
  have "decimal_of_text ''0.09'' = DecFinite (Dec 9 (- 2))"
    by (rule decimal_of_plain) (simp add: dec_parse_def digit_value.simps Let_def)
  then have "number_of (JStr ''0.09'') = Inr (Dec 9 (- 2))" by (simp add: number_of_def)
  then show "resolve_rate sample_engine (Some ''aws'') (Some ''us-east-1'') =
      Inr (catalog_rate (Dec 9 (- 2)) ''aws:us-east-1'' ''computed'')"
    by (simp add: resolve_rate_def nonempty_def sample_engine_def provider_rate_def dict_get_def is_object_def
        region_rate_def json_get_def json_has_def json_item_def Let_def)
qed

text \<open>The ladder does not catch everything: a \<open>regions\<close> entry that is not an object can raise.\<close>

lemma egress_raises_iff:
  "(\<exists>e. resolve_rate engine provider region = Inl e) \<longleftrightarrow>
   (\<exists>p g block v. nonempty provider = Some p \<and> nonempty region = Some g \<and> overridden engine p region = None \<and>
      dict_get (ee_catalog engine) p = JObj block \<and> map_of block ''regions'' = Some v \<and> \<not> is_object v \<and>
      json_has v g \<noteq> Inr False)"
  (is "?raises \<longleftrightarrow> ?shape")
proof (cases "nonempty provider")
  case None
  then show ?thesis by (simp add: resolve_rate_def)
next
  case (Some p)
  have "?raises \<longleftrightarrow> overridden engine p region = None \<and>
      (\<exists>e. provider_rate (ee_catalog engine) p (nonempty region) = Inl e)"
    by (cases "overridden engine p region"; cases "provider_rate (ee_catalog engine) p (nonempty region)")
      (auto simp: resolve_rate_def Some override_keys_def [symmetric] find_override_eq overridden_def find_Some_iff
        has_override_def split: option.split)
  also have "(\<exists>e. provider_rate (ee_catalog engine) p (nonempty region) = Inl e) \<longleftrightarrow>
      (\<exists>g block v. nonempty region = Some g \<and> dict_get (ee_catalog engine) p = JObj block \<and>
        map_of block ''regions'' = Some v \<and> \<not> is_object v \<and> json_has v g \<noteq> Inr False)"
    by (auto simp: provider_rate_def Let_def is_object_def region_rate_def json_get_def json_has_def json_item_def
        bind_ok_def split: json.splits option.splits sum.splits if_splits, (metis json.exhaust)+)
  finally show ?thesis using Some by auto
qed

end
