(* ===== verification/Compute_Pricing.thy ===== *)
theory Compute_Pricing
  imports Egress_Pricing
begin

text \<open>
  The cost of compute time (\<open>compute_pricing.py\<close>): the rates of each billing model from the
  catalogue, the workspace overrides, and the formula of the model. Amounts that a catalogue
  cannot give come from its \<open>_meta\<close> defaults, then from a hardcoded table; every exception ends
  as a zero cost of unknown confidence.
\<close>

record compute_engine =
  ce_catalog :: obj
  ce_overrides :: "((string \<times> string) \<times> dec) list"

record compute_cost =
  cc_cost :: dec
  cc_source :: string
  cc_confidence :: string

type_synonym rate_block = "(string \<times> dec) list"

definition gb_decimal :: dec where "gb_decimal = Dec 1000000000 0"
definition hour_s :: dec where "hour_s = Dec 3600 0"
definition lambda_gb :: dec where "lambda_gb = Dec 1024000000 0"

definition hardcoded :: "string \<Rightarrow> rate_block" where
  "hardcoded model = the (map_of
     [(''lambda'', [(''request_usd'', Dec 2 (- 7)), (''gb_second_usd'', Dec 166667 (- 10))]),
      (''fargate'', [(''vcpu_second_usd'', Dec 112444 (- 10)), (''gib_second_usd'', Dec 12347 (- 10))]),
      (''cloud_run_request'', [(''request_usd'', Dec 4 (- 7)), (''vcpu_second_usd'', Dec 24 (- 6)),
                               (''gib_second_usd'', Dec 25 (- 7))]),
      (''cloud_run_instance'', [(''vcpu_second_usd'', Dec 24 (- 6)), (''gib_second_usd'', Dec 25 (- 7))]),
      (''cloud_functions'', [(''request_usd'', Dec 4 (- 7)), (''vcpu_second_usd'', Dec 24 (- 6)),
                             (''gib_second_usd'', Dec 25 (- 7))]),
      (''azure_functions'', [(''execution_usd'', Dec 2 (- 7)), (''gb_second_usd'', Dec 16 (- 6))]),
      (''vercel_fluid'', [(''active_cpu_hour_usd'', Dec 128 (- 3)), (''memory_gb_hour_usd'', Dec 106 (- 4)),
                          (''invocation_usd'', Dec 600 (- 9))]),
      (''ec2'', [(''vcpu_hour_usd'', Dec 464 (- 4))]), (''gce'', [(''vcpu_hour_usd'', Dec 475 (- 4))]),
      (''azure_vm'', [(''vcpu_hour_usd'', Dec 46 (- 3))]), (''k8s_pod'', [(''vcpu_hour_usd'', Dec 464 (- 4))])] model)"

definition source_text :: "string list \<Rightarrow> string" where
  "source_text parts = join '':'' (''compute_catalog'' # parts)"

section \<open>Rates\<close>

definition parse_rate_block :: "json \<Rightarrow> string list \<Rightarrow> py_error + rate_block" where
  "parse_rate_block block ks = collect (\<lambda>k. map_sum id (Pair k) (number_at block k)) ks"

text \<open>\<open>catalog.get(k, {})\<close>, and the block of a runtime.\<close>

definition catalog_entry :: "obj \<Rightarrow> string \<Rightarrow> json" where
  "catalog_entry c k = (case map_of c k of None \<Rightarrow> JObj [] | Some v \<Rightarrow> v)"

definition runtime_block :: "obj \<Rightarrow> string \<Rightarrow> string \<Rightarrow> py_error + json" where
  "runtime_block c provider runtime = json_get (catalog_entry c provider) runtime JNull"

text \<open>\<open>regions[region]\<close>, if the block has an entry for the region.\<close>

definition region_block :: "json \<Rightarrow> string option \<Rightarrow> py_error + json option" where
  "region_block block region =
     bind_ok (json_get block ''regions'' (JObj [])) (\<lambda>regions.
       case region of
         None \<Rightarrow> Inr None
       | Some g \<Rightarrow> bind_ok (json_has regions g) (\<lambda>present.
           if present then map_sum id Some (json_item regions g) else Inr None))"

text \<open>The \<open>_meta\<close> defaults; a missing or malformed one selects the hardcoded rates.\<close>

definition meta_rates ::
    "obj \<Rightarrow> (string \<times> string) list \<Rightarrow> rate_block \<Rightarrow> string \<Rightarrow> rate_block \<Rightarrow> py_error + rate_block quote" where
  "meta_rates c ks constant name table =
     handle key_or_number
       (map_sum id (\<lambda>r. quoted (r @ constant) (source_text [''default'', name]) ''estimated'')
         (collect (\<lambda>(field, k). map_sum id (Pair field) (number_at (catalog_entry c ''_meta'') k)) ks))
       (Inr (quoted table (source_text [''hardcoded'', name]) ''estimated''))"

definition or_else :: "py_error + 'a option \<Rightarrow> py_error + 'a \<Rightarrow> py_error + 'a" where
  "or_else x y = bind_ok x (\<lambda>q. case q of Some r \<Rightarrow> Inr r | None \<Rightarrow> y)"

definition block_quote :: "json \<Rightarrow> string list \<Rightarrow> string list \<Rightarrow> string \<Rightarrow> py_error + rate_block quote option" where
  "block_quote block ks parts confidence =
     map_sum id (\<lambda>r. Some (quoted r (source_text parts) confidence)) (parse_rate_block block ks)"

text \<open>A block by region and architecture (Lambda, Fargate), and one by region only.\<close>

definition arch_tiers ::
    "json \<Rightarrow> string list \<Rightarrow> string list \<Rightarrow> string option \<Rightarrow> string \<Rightarrow> py_error + rate_block quote option" where
  "arch_tiers block name ks region arch =
     (if \<not> is_object block then Inr None
      else bind_ok (region_block block region) (\<lambda>rb.
        bind_ok (case rb of None \<Rightarrow> Inr JNull | Some x \<Rightarrow> json_get x arch JNull) (\<lambda>ab.
          if truthy ab then block_quote ab ks (name @ [text_of region, arch]) ''computed''
          else bind_ok (json_get block ''default'' (JObj [])) (\<lambda>d.
            bind_ok (json_get d arch JNull) (\<lambda>da.
              if truthy da then block_quote da ks (name @ [''default'', arch]) ''estimated'' else Inr None)))))"

definition region_tiers :: "json \<Rightarrow> string list \<Rightarrow> string list \<Rightarrow> string option \<Rightarrow> py_error + rate_block quote option" where
  "region_tiers block name ks region =
     (if \<not> is_object block then Inr None
      else bind_ok (region_block block region) (\<lambda>rb.
        case rb of
          Some x \<Rightarrow> block_quote x ks (name @ [text_of region]) ''computed''
        | None \<Rightarrow> bind_ok (json_get block ''default'' JNull) (\<lambda>d.
            if truthy d then block_quote d ks (name @ [''default'']) ''estimated'' else Inr None)))"

definition resolve_lambda_rate :: "obj \<Rightarrow> string option \<Rightarrow> string \<Rightarrow> py_error + rate_block quote" where
  "resolve_lambda_rate c region arch =
     bind_ok (runtime_block c ''aws'' ''lambda'') (\<lambda>block.
       or_else (arch_tiers block [''aws'', ''lambda''] [''request_usd'', ''gb_second_usd''] region arch)
         (meta_rates c [(''request_usd'', ''default_lambda_request_usd''),
                        (''gb_second_usd'', ''default_lambda_gb_second_usd'')] [] ''lambda'' (hardcoded ''lambda'')))"

definition resolve_fargate_rate :: "obj \<Rightarrow> string option \<Rightarrow> string \<Rightarrow> py_error + rate_block quote" where
  "resolve_fargate_rate c region arch =
     bind_ok (runtime_block c ''aws'' ''fargate'') (\<lambda>block.
       or_else (arch_tiers block [''aws'', ''fargate''] [''vcpu_second_usd'', ''gib_second_usd''] region arch)
         (meta_rates c [(''vcpu_second_usd'', ''default_fargate_vcpu_second_usd''),
                        (''gib_second_usd'', ''default_fargate_gib_second_usd'')] [] ''fargate'' (hardcoded ''fargate'')))"

definition resolve_cloud_run_rate :: "obj \<Rightarrow> string option \<Rightarrow> py_error + rate_block quote" where
  "resolve_cloud_run_rate c region =
     bind_ok (runtime_block c ''gcp'' ''cloud_run'') (\<lambda>block.
       or_else (region_tiers block [''gcp'', ''cloud_run''] [''request_usd'', ''vcpu_second_usd'', ''gib_second_usd''] region)
         (meta_rates c [(''request_usd'', ''default_cloud_run_request_usd''),
                        (''vcpu_second_usd'', ''default_cloud_run_vcpu_second_usd''),
                        (''gib_second_usd'', ''default_cloud_run_gib_second_usd'')] [] ''cloud_run''
           (hardcoded ''cloud_run_request'')))"

definition resolve_azure_functions_rate :: "obj \<Rightarrow> string option \<Rightarrow> py_error + rate_block quote" where
  "resolve_azure_functions_rate c region =
     bind_ok (runtime_block c ''azure'' ''functions_consumption'') (\<lambda>block.
       or_else (region_tiers block [''azure'', ''functions_consumption''] [''execution_usd'', ''gb_second_usd''] region)
         (meta_rates c [(''execution_usd'', ''default_azure_functions_execution_usd''),
                        (''gb_second_usd'', ''default_azure_functions_gb_second_usd'')] [] ''azure_functions''
           (hardcoded ''azure_functions'')))"

definition vercel_fields :: "string list" where
  "vercel_fields = [''active_cpu_hour_usd'', ''memory_gb_hour_usd'', ''invocation_usd'']"

definition resolve_vercel_rate :: "obj \<Rightarrow> py_error + rate_block quote" where
  "resolve_vercel_rate c =
     bind_ok (runtime_block c ''vercel'' ''fluid'') (\<lambda>block.
       or_else (if \<not> is_object block then Inr None
                else bind_ok (json_get block ''default'' JNull) (\<lambda>d.
                  if truthy d then block_quote d vercel_fields [''vercel'', ''fluid''] ''computed'' else Inr None))
         (meta_rates c [(''active_cpu_hour_usd'', ''default_vercel_cpu_hour_usd''),
                        (''memory_gb_hour_usd'', ''default_vercel_memory_gb_hour_usd'')]
           [(''invocation_usd'', Dec 600 (- 9))] ''vercel'' (hardcoded ''vercel_fluid'')))"

section \<open>Overrides of the workspace\<close>

definition field_by_unit :: "(string \<times> string) list" where
  "field_by_unit =
     [(''request'', ''request_usd''), (''execution'', ''execution_usd''), (''gb_second'', ''gb_second_usd''),
      (''gib_second'', ''gib_second_usd''), (''vcpu_second'', ''vcpu_second_usd''),
      (''active_cpu_hour'', ''active_cpu_hour_usd''), (''memory_gb_hour'', ''memory_gb_hour_usd''),
      (''invocation'', ''invocation_usd'')]"

definition applied_overrides :: "compute_engine \<Rightarrow> string \<Rightarrow> rate_block \<Rightarrow> (string \<times> string \<times> dec) list" where
  "applied_overrides e model rate =
     List.map_filter (\<lambda>(unit, field).
         case map_of (ce_overrides e) (model, unit) of
           Some d \<Rightarrow> if field \<in> fst ` set rate then Some (unit, field, d) else None
         | None \<Rightarrow> None) field_by_unit"

definition override_field :: "(string \<times> string \<times> dec) list \<Rightarrow> string \<times> dec \<Rightarrow> string \<times> dec" where
  "override_field os fd = (fst fd, case map_of (map snd os) (fst fd) of Some x \<Rightarrow> x | None \<Rightarrow> snd fd)"

definition apply_component_overrides :: "compute_engine \<Rightarrow> string \<Rightarrow> rate_block quote \<Rightarrow> rate_block quote" where
  "apply_component_overrides e model q =
     (let os = applied_overrides e model (qt_rate q)
      in if os = [] then q
         else quoted (map (override_field os) (qt_rate q))
                (''workspace_overlay:compute:'' @ model @ '':'' @ join ''+'' (sort (map fst os))) ''computed'')"

section \<open>Costs\<close>

definition rate_of :: "rate_block quote \<Rightarrow> string \<Rightarrow> py_error + dec" where
  "rate_of q k = (case map_of (qt_rate q) k of None \<Rightarrow> Inl (LookupError k) | Some d \<Rightarrow> Inr d)"

definition scaled_at :: "obj \<Rightarrow> string \<Rightarrow> dec \<Rightarrow> py_error + dec" where
  "scaled_at d k divisor = bind_ok (number_at (JObj d) k) (\<lambda>x. divided x divisor)"

definition duration_s :: "obj \<Rightarrow> py_error + dec" where
  "duration_s d = scaled_at d ''duration_ms'' thousand"

definition window_of :: "obj \<Rightarrow> dec option \<Rightarrow> py_error + dec" where
  "window_of d window =
     (case window of Some w \<Rightarrow> if 0 < coeff w then Inr w else duration_s d | None \<Rightarrow> duration_s d)"

definition architecture_of :: "obj \<Rightarrow> string" where
  "architecture_of d = (case text_at d ''architecture'' of None \<Rightarrow> ''x86_64'' | Some a \<Rightarrow> a)"

definition cost_of :: "dec \<Rightarrow> 'a quote \<Rightarrow> compute_cost" where
  "cost_of cost q = \<lparr>cc_cost = cost, cc_source = qt_source q, cc_confidence = qt_confidence q\<rparr>"

definition lambda_cost :: "compute_engine \<Rightarrow> obj \<Rightarrow> py_error + compute_cost" where
  "lambda_cost e d =
     bind_ok (resolve_lambda_rate (ce_catalog e) (text_at d ''region'') (architecture_of d)) (\<lambda>q0.
       let q = apply_component_overrides e ''lambda'' q0 in
       bind_ok (duration_s d) (\<lambda>s. bind_ok (scaled_at d ''memory_bytes_limit'' lambda_gb) (\<lambda>gb.
       bind_ok (number_at (JObj d) ''invocation_count'') (\<lambda>n. bind_ok (rate_of q ''request_usd'') (\<lambda>request.
       bind_ok (rate_of q ''gb_second_usd'') (\<lambda>gb_second.
         Inr (cost_of (dec_add (dec_mul n request) (dec_mul (dec_mul gb s) gb_second)) q)))))))"

text \<open>Cores and memory held for a time (Fargate, Cloud Run instances).\<close>

definition held_cost :: "obj \<Rightarrow> dec \<Rightarrow> rate_block quote \<Rightarrow> rate_block quote \<Rightarrow> py_error + compute_cost" where
  "held_cost d window q shown =
     bind_ok (scaled_at d ''memory_bytes_limit'' gib) (\<lambda>memory. bind_ok (number_at (JObj d) ''vcpu_count'') (\<lambda>vcpu.
     bind_ok (rate_of q ''vcpu_second_usd'') (\<lambda>vcpu_second. bind_ok (rate_of q ''gib_second_usd'') (\<lambda>gib_second.
       Inr (cost_of (dec_add (dec_mul (dec_mul vcpu window) vcpu_second)
                             (dec_mul (dec_mul memory window) gib_second)) shown)))))"

definition fargate_cost :: "compute_engine \<Rightarrow> obj \<Rightarrow> dec option \<Rightarrow> py_error + compute_cost" where
  "fargate_cost e d window0 =
     bind_ok (window_of d window0) (\<lambda>window.
     bind_ok (resolve_fargate_rate (ce_catalog e) (text_at d ''region'') (architecture_of d)) (\<lambda>q0.
       let q = apply_component_overrides e ''fargate'' q0 in held_cost d window q q))"

text \<open>Requests, cores and memory for the duration (Cloud Run requests, Cloud Functions).\<close>

definition request_cost :: "obj \<Rightarrow> rate_block quote \<Rightarrow> rate_block quote \<Rightarrow> py_error + compute_cost" where
  "request_cost d q shown =
     bind_ok (duration_s d) (\<lambda>s. bind_ok (scaled_at d ''memory_bytes_limit'' gib) (\<lambda>memory.
     bind_ok (number_at (JObj d) ''vcpu_count'') (\<lambda>vcpu. bind_ok (number_at (JObj d) ''invocation_count'') (\<lambda>n.
     bind_ok (rate_of q ''request_usd'') (\<lambda>request. bind_ok (rate_of q ''vcpu_second_usd'') (\<lambda>vcpu_second.
     bind_ok (rate_of q ''gib_second_usd'') (\<lambda>gib_second.
       Inr (cost_of (dec_add (dec_add (dec_mul n request) (dec_mul (dec_mul vcpu s) vcpu_second))
                             (dec_mul (dec_mul memory s) gib_second)) shown))))))))"

definition from_overlay :: "'a quote \<Rightarrow> bool" where
  "from_overlay q \<longleftrightarrow> starts_with (qt_source q) ''workspace_overlay''"

definition cloud_run_request_cost :: "compute_engine \<Rightarrow> obj \<Rightarrow> py_error + compute_cost" where
  "cloud_run_request_cost e d =
     bind_ok (resolve_cloud_run_rate (ce_catalog e) (text_at d ''region'')) (\<lambda>q0.
       let q = apply_component_overrides e ''cloud_run_request'' q0
       in request_cost d q (if from_overlay q then q
            else quoted (qt_rate q) (source_text [''cloud_run'', ''request_based_default'']) ''estimated''))"

definition cloud_run_instance_cost :: "compute_engine \<Rightarrow> obj \<Rightarrow> dec option \<Rightarrow> py_error + compute_cost" where
  "cloud_run_instance_cost e d window0 =
     bind_ok (window_of d window0) (\<lambda>window.
     bind_ok (resolve_cloud_run_rate (ce_catalog e) (text_at d ''region'')) (\<lambda>q0.
       let q = apply_component_overrides e ''cloud_run_instance'' q0
       in held_cost d window q (if from_overlay q then q
            else quoted (qt_rate q) (source_text [''cloud_run'', ''instance_override'']) ''computed'')))"

definition cloud_functions_cost :: "compute_engine \<Rightarrow> obj \<Rightarrow> py_error + compute_cost" where
  "cloud_functions_cost e d =
     bind_ok (resolve_cloud_run_rate (ce_catalog e) (text_at d ''region'')) (\<lambda>q0.
       let q = apply_component_overrides e ''cloud_functions'' q0
       in request_cost d q (q\<lparr>qt_source := py_replace ''cloud_run'' ''cloud_functions'' (qt_source q)\<rparr>))"

definition azure_functions_cost :: "compute_engine \<Rightarrow> obj \<Rightarrow> py_error + compute_cost" where
  "azure_functions_cost e d =
     bind_ok (resolve_azure_functions_rate (ce_catalog e) (text_at d ''region'')) (\<lambda>q0.
       let q = apply_component_overrides e ''azure_functions'' q0 in
       bind_ok (duration_s d) (\<lambda>s. bind_ok (scaled_at d ''memory_bytes_limit'' gb_decimal) (\<lambda>gb.
       bind_ok (number_at (JObj d) ''invocation_count'') (\<lambda>n. bind_ok (rate_of q ''execution_usd'') (\<lambda>execution.
       bind_ok (rate_of q ''gb_second_usd'') (\<lambda>gb_second.
         Inr (cost_of (dec_add (dec_mul n execution) (dec_mul (dec_mul gb s) gb_second)) q)))))))"

definition vercel_cost :: "compute_engine \<Rightarrow> obj \<Rightarrow> py_error + compute_cost" where
  "vercel_cost e d =
     bind_ok (resolve_vercel_rate (ce_catalog e)) (\<lambda>q0.
       let q = apply_component_overrides e ''vercel_fluid'' q0 in
       bind_ok (duration_s d) (\<lambda>s. bind_ok (scaled_at d ''memory_bytes_limit'' gb_decimal) (\<lambda>gb.
       bind_ok (number_at (JObj d) ''invocation_count'') (\<lambda>n. bind_ok (divided s hour_s) (\<lambda>hours.
       bind_ok (rate_of q ''invocation_usd'') (\<lambda>invocation. bind_ok (rate_of q ''active_cpu_hour_usd'') (\<lambda>cpu_hour.
       bind_ok (rate_of q ''memory_gb_hour_usd'') (\<lambda>gb_hour.
         Inr (cost_of (dec_add (dec_add (dec_mul n invocation) (dec_mul hours cpu_hour))
                               (dec_mul (dec_mul gb hours) gb_hour)) q)))))))))"

text \<open>Virtual machines: the hourly price of the instance, or a price per virtual core.\<close>

definition iaas_keys :: "string \<Rightarrow> string \<times> string" where
  "iaas_keys model =
     (if model = ''ec2'' then (''aws'', ''ec2'') else if model = ''gce'' then (''gcp'', ''gce'') else (''azure'', ''vm''))"

definition instance_rate :: "json \<Rightarrow> string option \<Rightarrow> string option \<Rightarrow> string list \<Rightarrow> py_error + dec quote option" where
  "instance_rate block region instance name =
     bind_ok (json_get block ''regions'' (JObj [])) (\<lambda>regions.
       case (region, instance) of
         (Some g, _) \<Rightarrow>
           bind_ok (json_has regions g) (\<lambda>present.
             case instance of
               Some i \<Rightarrow>
                 if \<not> present then Inr None
                 else bind_ok (json_item regions g) (\<lambda>rb. bind_ok (json_get rb ''instance_types'' (JObj [])) (\<lambda>types.
                   bind_ok (json_get types i JNull) (\<lambda>sku.
                     if \<not> truthy sku then Inr None
                     else handle key_or_number
                       (map_sum id (\<lambda>x. Some (quoted x (source_text (name @ [g, i])) ''computed'')) (number_at sku ''hourly_usd''))
                       (Inr None))))
             | None \<Rightarrow> Inr None)
       | (None, _) \<Rightarrow> Inr None)"

definition resolve_iaas_rate :: "obj \<Rightarrow> string \<Rightarrow> string option \<Rightarrow> string option \<Rightarrow> py_error + dec quote" where
  "resolve_iaas_rate c model region instance =
     (let (provider, runtime) = iaas_keys model
      in bind_ok (runtime_block c provider runtime) (\<lambda>block.
           or_else
             (if \<not> is_object block then Inr None
              else bind_ok (instance_rate block region instance [provider, runtime]) (\<lambda>q.
                case q of
                  Some x \<Rightarrow> Inr (Some x)
                | None \<Rightarrow> handle key_or_number
                    (map_sum id (\<lambda>x. Some (quoted x (source_text [provider, runtime, ''default'']) ''estimated''))
                      (number_at block ''default_vcpu_hour_usd'')) (Inr None)))
             (handle key_or_number
               (map_sum id (\<lambda>x. quoted x (source_text [''default'', model]) ''estimated'')
                 (number_at (catalog_entry c ''_meta'') ''default_ec2_vcpu_hour_usd''))
               (Inr (quoted (the (map_of (hardcoded model) ''vcpu_hour_usd''))
                      (source_text [''hardcoded'', model]) ''estimated'')))))"

definition iaas_share :: "compute_engine \<Rightarrow> string \<Rightarrow> obj \<Rightarrow> string option \<Rightarrow> dec option \<Rightarrow> py_error + compute_cost" where
  "iaas_share e model d instance window0 =
     bind_ok (window_of d window0) (\<lambda>window.
     bind_ok (resolve_iaas_rate (ce_catalog e) model (text_at d ''region'') (nonempty instance)) (\<lambda>q.
       case map_of (ce_overrides e) (model, ''vcpu_hour'') of
         Some x \<Rightarrow>
           bind_ok (scaled_at d ''vcpu_seconds_used'' hour_s) (\<lambda>hours.
             Inr \<lparr>cc_cost = dec_mul hours x,
                  cc_source = ''workspace_overlay:compute:'' @ model @ '':vcpu_hour'', cc_confidence = ''computed''\<rparr>)
       | None \<Rightarrow>
           bind_ok (number_at (JObj d) ''vcpu_count'') (\<lambda>count. bind_ok (number_at (JObj d) ''vcpu_seconds_used'') (\<lambda>used.
             if coeff count \<le> 0 \<or> coeff window \<le> 0 then Inr (cost_of dec0 q)
             else bind_ok (divided used (dec_mul count window)) (\<lambda>share. bind_ok (divided window hour_s) (\<lambda>hours.
               Inr (cost_of (dec_mul (dec_mul share hours) (qt_rate q)) q)))))))"

definition k8s_pod_rate :: "obj \<Rightarrow> py_error + dec quote" where
  "k8s_pod_rate c =
     handle key_or_number
       (map_sum id (\<lambda>x. quoted x (source_text [''k8s_pod'', ''limits'']) ''computed'')
         (number_at (catalog_entry c ''_meta'') ''default_k8s_pod_vcpu_hour_usd''))
       (Inr (quoted (the (map_of (hardcoded ''k8s_pod'') ''vcpu_hour_usd''))
              (source_text [''hardcoded'', ''k8s_pod'']) ''estimated''))"

definition k8s_pod_cost :: "compute_engine \<Rightarrow> obj \<Rightarrow> dec option \<Rightarrow> py_error + compute_cost" where
  "k8s_pod_cost e d window0 =
     bind_ok (window_of d window0) (\<lambda>window. bind_ok (k8s_pod_rate (ce_catalog e)) (\<lambda>q0.
       let q = (case map_of (ce_overrides e) (''k8s_pod'', ''vcpu_hour'') of
                  Some x \<Rightarrow> quoted x ''workspace_overlay:compute:k8s_pod:vcpu_hour'' ''computed''
                | None \<Rightarrow> q0)
       in bind_ok (number_at (JObj d) ''vcpu_count'') (\<lambda>count. bind_ok (divided window hour_s) (\<lambda>hours.
            Inr (cost_of (dec_mul (dec_mul count hours) (qt_rate q)) q)))))"

section \<open>Dispatch\<close>

definition zero_cost :: "string \<Rightarrow> string \<Rightarrow> compute_cost" where
  "zero_cost reason model =
     \<lparr>cc_cost = dec0, cc_source = source_text [reason, model], cc_confidence = ''unknown''\<rparr>"

definition dispatch_compute ::
    "compute_engine \<Rightarrow> string \<Rightarrow> obj \<Rightarrow> string option \<Rightarrow> (string \<times> string) list \<Rightarrow> dec option \<Rightarrow> py_error + compute_cost" where
  "dispatch_compute e model d instance billing window =
     (if model = ''cloud_run_request'' \<and> map_of billing ''cloud_run'' = Some ''instance''
      then cloud_run_instance_cost e d window
      else if model = ''lambda'' then lambda_cost e d
      else if model = ''fargate'' then fargate_cost e d window
      else if model = ''cloud_run_request'' then cloud_run_request_cost e d
      else if model = ''cloud_run_instance'' then cloud_run_instance_cost e d window
      else if model = ''cloud_functions'' then cloud_functions_cost e d
      else if model = ''azure_functions'' then azure_functions_cost e d
      else if model = ''vercel_fluid'' then vercel_cost e d
      else if model \<in> {''ec2'', ''gce'', ''azure_vm''} then iaas_share e model d instance window
      else if model = ''k8s_pod'' then k8s_pod_cost e d window
      else Inr (zero_cost ''unsupported'' model))"

definition billing_model :: "obj \<Rightarrow> string" where
  "billing_model d = (let v = dict_get d ''billing_model'' in if truthy v then py_str v else ''unknown'')"

definition resolve_compute_cost ::
    "compute_engine \<Rightarrow> obj \<Rightarrow> string option \<Rightarrow> (string \<times> string) list \<Rightarrow> dec option \<Rightarrow> compute_cost" where
  "resolve_compute_cost e d instance billing window =
     (case dispatch_compute e (billing_model d) d instance billing window of
        Inr c \<Rightarrow> c
      | Inl err \<Rightarrow> zero_cost ''error'' (billing_model d))"

end
