(* ===== verification/Compute_Costs.thy ===== *)
theory Compute_Costs
  imports Compute_Pricing
begin

text \<open>
  What holds of the compute costs of \<open>compute_pricing.py\<close>: they are never negative, whatever the
  shape of the catalogue and of the event, and the price of a virtual machine of unknown type is
  too low.
\<close>

section \<open>Amounts that are not negative\<close>

named_theorems nonneg_intros \<open>amounts that are not negative\<close>

abbreviation nonneg :: "dec \<Rightarrow> bool" where "nonneg d \<equiv> 0 \<le> coeff d"

lemma dec_fix_nonneg: "nonneg d \<Longrightarrow> nonneg (dec_fix d)"
proof -
  assume "nonneg d"
  then have "0 \<le> sgn (coeff d)" by (simp add: sgn_if)
  with \<open>nonneg d\<close> show ?thesis by (auto simp: dec_fix_def Let_def intro: mult_nonneg_nonneg)
qed

lemma dec_add_nonneg [nonneg_intros]: "nonneg a \<Longrightarrow> nonneg b \<Longrightarrow> nonneg (dec_add a b)"
  unfolding dec_add_def Let_def by (intro dec_fix_nonneg) simp

lemma dec_mul_nonneg [nonneg_intros]: "nonneg a \<Longrightarrow> nonneg b \<Longrightarrow> nonneg (dec_mul a b)"
  unfolding dec_mul_def by (intro dec_fix_nonneg) simp

lemma strip_to_nonneg: "0 \<le> c \<Longrightarrow> nonneg (strip_to n c e)"
proof (induction n arbitrary: c e)
  case (Suc n)
  then have "0 \<le> c div 10" by (simp add: pos_imp_zdiv_nonneg_iff)
  from Suc.IH [OF this, of "e + 1"] Suc.prems show ?case by (subst strip_to.simps) (simp del: strip_to.simps)
qed simp

lemma signed_strip_nonneg:
  assumes "0 \<le> s"
  shows "nonneg (case strip_to n (int c) e of Dec c' e' \<Rightarrow> Dec (s * c') e')"
  using strip_to_nonneg [of "int c" n e] assms by (cases "strip_to n (int c) e") (simp del: strip_to.simps)

lemma dec_div_nonneg:
  assumes "nonneg a" "nonneg b" "dec_div a b = Some q"
  shows "nonneg q"
proof -
  have s: "0 \<le> sgn (coeff a) * sgn (coeff b)" using assms(1,2) by (simp add: sgn_if)
  have t: "nonneg (Dec (sgn (coeff a) * sgn (coeff b) * int m) e)" for m e using s by simp
  have general: "nonneg (the (dec_div a b))" if "coeff a \<noteq> 0" "coeff b \<noteq> 0"
    unfolding dec_div_def Let_def if_not_P [OF that(1)] if_not_P [OF that(2)] option.sel
    by (rule dec_fix_nonneg) (split if_split, intro conjI impI; (rule t | rule signed_strip_nonneg [OF s]))
  show ?thesis
  proof (cases "coeff a = 0 \<or> coeff b = 0")
    case True
    have "nonneg (dec_fix (Dec 0 e))" for e by (simp add: dec_fix_exact)
    with True assms(3) show ?thesis by (auto simp: dec_div_def split: if_splits)
  next
    case False
    with general assms(3) show ?thesis by simp
  qed
qed

lemma divided_nonneg: "divided a b = Inr q \<Longrightarrow> nonneg a \<Longrightarrow> nonneg b \<Longrightarrow> nonneg q"
  by (auto simp: divided_def intro: dec_div_nonneg split: option.splits)

lemma constants_nonneg [nonneg_intros]:
  "nonneg thousand" "nonneg gib" "nonneg gb_decimal" "nonneg hour_s" "nonneg lambda_gb" "nonneg dec0"
  by (simp_all add: thousand_def gib_def gb_decimal_def hour_s_def lambda_gb_def)

lemma number_of_object: "number_of (JObj kvs) = Inl bad_number"
proof -
  obtain t where t: "py_str (JObj kvs) = CHR ''{'' # t" "t \<noteq> []" "last t = CHR ''}''"
    by (simp add: py_str_def)
  have "py_strip (CHR ''{'' # t) = CHR ''{'' # t" by (rule py_strip_id) (use t in \<open>simp add: is_space_def\<close>)
  moreover have "dec_parse (CHR ''{'' # u) = None" for u by (simp add: dec_parse_def Let_def digit_value.simps)
  ultimately show ?thesis by (simp add: number_of_def decimal_of_text_def t(1) is_e_def Let_def)
qed

lemma number_of_null: "number_of JNull = Inl bad_number"
  by (simp add: number_of_def decimal_of_text_def Let_def py_str_def py_strip_def is_space_def is_e_def dec_parse_def
      digit_value.simps)

definition nonneg_number :: "json \<Rightarrow> bool" where
  "nonneg_number v \<longleftrightarrow> (\<forall>d. number_of v = Inr d \<longrightarrow> nonneg d)"

text \<open>No number anywhere in the objects of a document is negative.\<close>

fun nonneg_json :: "json \<Rightarrow> bool" where
  "nonneg_json (JObj kvs) \<longleftrightarrow> (\<forall>(k, v) \<in> set kvs. nonneg_json v)"
| "nonneg_json v \<longleftrightarrow> nonneg_number v"

lemma nonneg_json_number: "nonneg_json v \<Longrightarrow> nonneg_number v"
  by (cases v rule: nonneg_json.cases) (simp_all add: nonneg_number_def number_of_object)

lemma nonneg_simple [simp]: "nonneg_json JNull" "nonneg_json (JObj [])" "nonneg_number JNull"
  by (simp_all add: nonneg_number_def number_of_null)

lemma nonneg_json_get: "json_get v k d = Inr x \<Longrightarrow> nonneg_json v \<Longrightarrow> nonneg_json d \<Longrightarrow> nonneg_json x"
  by (auto simp: json_get_def split: json.splits option.splits dest: map_of_SomeD)

lemma nonneg_json_item: "json_item v k = Inr x \<Longrightarrow> nonneg_json v \<Longrightarrow> nonneg_json x"
  by (auto simp: json_item_def split: json.splits option.splits dest: map_of_SomeD)

lemma number_at_nonneg: "number_at v k = Inr d \<Longrightarrow> nonneg_json v \<Longrightarrow> nonneg d"
  by (auto simp: number_at_def bind_ok_Inr) (metis nonneg_json_item nonneg_json_number nonneg_number_def)

lemma catalog_entry_nonneg: "nonneg_json (JObj c) \<Longrightarrow> nonneg_json (catalog_entry c k)"
  by (auto simp: catalog_entry_def split: option.split dest: map_of_SomeD)

definition nonneg_rates :: "rate_block \<Rightarrow> bool" where
  "nonneg_rates r \<longleftrightarrow> (\<forall>d \<in> snd ` set r. nonneg d)"

lemma collect_set: "collect f xs = Inr ys \<Longrightarrow> y \<in> set ys \<Longrightarrow> \<exists>x \<in> set xs. f x = Inr y"
  unfolding collect_map by (metis image_iff list.set_map)

lemma parse_rate_block_nonneg: "parse_rate_block block ks = Inr r \<Longrightarrow> nonneg_json block \<Longrightarrow> nonneg_rates r"
  by (auto simp: parse_rate_block_def nonneg_rates_def map_sum_def dest!: collect_set split: sum.splits
      intro: number_at_nonneg)

lemma rate_of_nonneg: "rate_of q k = Inr d \<Longrightarrow> nonneg_rates (qt_rate q) \<Longrightarrow> nonneg d"
  by (auto simp: rate_of_def nonneg_rates_def split: option.splits dest!: map_of_SomeD)

lemma hardcoded_nonneg: "nonneg_rates (hardcoded m)" if "m \<in> {''lambda'', ''fargate'', ''cloud_run_request'', ''azure_functions'', ''vercel_fluid''}"
  using that by (auto simp: hardcoded_def nonneg_rates_def)

lemma meta_rates_nonneg:
  assumes "meta_rates c ks constant name table = Inr q" "nonneg_json (JObj c)" "nonneg_rates constant" "nonneg_rates table"
  shows "nonneg_rates (qt_rate q)"
  using assms(1,3,4) number_at_nonneg [OF _ catalog_entry_nonneg [OF assms(2)]]
  by (auto simp: meta_rates_def handle_Inr nonneg_rates_def map_sum_def split: sum.splits dest!: collect_set)

lemma block_quote_nonneg:
  "block_quote b ks parts conf = Inr (Some q) \<Longrightarrow> nonneg_json b \<Longrightarrow> nonneg_rates (qt_rate q)"
  by (auto simp: block_quote_def map_sum_def parse_rate_block_nonneg split: sum.splits)

lemma region_block_nonneg: "region_block b g = Inr (Some x) \<Longrightarrow> nonneg_json b \<Longrightarrow> nonneg_json x"
  by (auto simp: region_block_def bind_ok_Inr map_sum_def split: option.splits if_splits sum.splits
      dest!: nonneg_json_get nonneg_json_item)

lemma arch_tiers_nonneg:
  assumes "arch_tiers b name ks region arch = Inr (Some q)" "nonneg_json b"
  shows "nonneg_rates (qt_rate q)"
proof -
  have d: "json_get b ''default'' (JObj []) = Inr d \<Longrightarrow> nonneg_json d" for d
    using nonneg_json_get assms(2) by (metis nonneg_simple(2))
  have a: "json_get x arch JNull = Inr y \<Longrightarrow> nonneg_json x \<Longrightarrow> nonneg_json y" for x y
    using nonneg_json_get by (metis nonneg_simple(1))
  show ?thesis
    using assms(1) a d region_block_nonneg [OF _ assms(2)]
    by (fastforce simp: arch_tiers_def bind_ok_Inr split: if_splits option.splits dest!: block_quote_nonneg)
qed

lemma region_tiers_nonneg:
  assumes "region_tiers b name ks region = Inr (Some q)" "nonneg_json b"
  shows "nonneg_rates (qt_rate q)"
proof -
  have d: "json_get b ''default'' JNull = Inr d \<Longrightarrow> nonneg_json d" for d
    using nonneg_json_get assms(2) by (metis nonneg_simple(1))
  show ?thesis
    using assms(1) d region_block_nonneg [OF _ assms(2)]
    by (fastforce simp: region_tiers_def bind_ok_Inr split: if_splits option.splits dest!: block_quote_nonneg)
qed

lemma runtime_block_nonneg: "runtime_block c p r = Inr b \<Longrightarrow> nonneg_json (JObj c) \<Longrightarrow> nonneg_json b"
  unfolding runtime_block_def by (erule nonneg_json_get) (simp_all add: catalog_entry_nonneg del: nonneg_json.simps)

lemma or_else_Inr: "or_else x y = Inr z \<longleftrightarrow> x = Inr (Some z) \<or> x = Inr None \<and> y = Inr z"
  by (auto simp: or_else_def bind_ok_Inr split: option.splits)

lemma resolved_nonneg:
  assumes c: "nonneg_json (JObj c)"
  shows "resolve_lambda_rate c g a = Inr q \<Longrightarrow> nonneg_rates (qt_rate q)"
    and "resolve_fargate_rate c g a = Inr q \<Longrightarrow> nonneg_rates (qt_rate q)"
    and "resolve_cloud_run_rate c g = Inr q \<Longrightarrow> nonneg_rates (qt_rate q)"
    and "resolve_azure_functions_rate c g = Inr q \<Longrightarrow> nonneg_rates (qt_rate q)"
    and "resolve_vercel_rate c = Inr q \<Longrightarrow> nonneg_rates (qt_rate q)"
proof -
  have none: "nonneg_rates []" "nonneg_rates [(''invocation_usd'', Dec 600 (- 9))]" by (simp_all add: nonneg_rates_def)
  note hc = hardcoded_nonneg [OF insertI1] hardcoded_nonneg
  note tiers = arch_tiers_nonneg region_tiers_nonneg runtime_block_nonneg [OF _ c] meta_rates_nonneg [OF _ c]
  show "resolve_lambda_rate c g a = Inr q \<Longrightarrow> nonneg_rates (qt_rate q)"
    "resolve_fargate_rate c g a = Inr q \<Longrightarrow> nonneg_rates (qt_rate q)"
    "resolve_cloud_run_rate c g = Inr q \<Longrightarrow> nonneg_rates (qt_rate q)"
    "resolve_azure_functions_rate c g = Inr q \<Longrightarrow> nonneg_rates (qt_rate q)"
    by (auto simp: resolve_lambda_rate_def resolve_fargate_rate_def resolve_cloud_run_rate_def
        resolve_azure_functions_rate_def bind_ok_Inr or_else_Inr intro: tiers none hc
        simp del: nonneg_json.simps)
  assume v: "resolve_vercel_rate c = Inr q"
  then obtain block where block: "runtime_block c ''vercel'' ''fluid'' = Inr block"
    by (auto simp: resolve_vercel_rate_def bind_ok_Inr)
  note nb = runtime_block_nonneg [OF block c]
  show "nonneg_rates (qt_rate q)"
  proof (cases "\<exists>d. json_get block ''default'' JNull = Inr d \<and> block_quote d vercel_fields [''vercel'', ''fluid''] ''computed'' = Inr (Some q)")
    case True
    then obtain d where "json_get block ''default'' JNull = Inr d"
        "block_quote d vercel_fields [''vercel'', ''fluid''] ''computed'' = Inr (Some q)" by blast
    moreover from this(1) have "nonneg_json d" by (rule nonneg_json_get) (simp_all add: nb)
    ultimately show ?thesis using block_quote_nonneg by blast
  next
    case False
    with v have "meta_rates c [(''active_cpu_hour_usd'', ''default_vercel_cpu_hour_usd''),
        (''memory_gb_hour_usd'', ''default_vercel_memory_gb_hour_usd'')] [(''invocation_usd'', Dec 600 (- 9))]
        ''vercel'' (hardcoded ''vercel_fluid'') = Inr q"
      by (auto simp: resolve_vercel_rate_def block or_else_Inr bind_ok_Inr split: if_splits)
    then show ?thesis by (rule meta_rates_nonneg [OF _ c]) (simp_all add: none hc)
  qed
qed

lemma override_nonneg:
  assumes "\<forall>d \<in> snd ` set (ce_overrides e). nonneg d" "nonneg_rates (qt_rate q)"
  shows "nonneg_rates (qt_rate (apply_component_overrides e model q))"
proof -
  have os: "nonneg d" if "(u, f, d) \<in> set (applied_overrides e model (qt_rate q))" for u f d
    using that assms(1)
    by (force simp: applied_overrides_def List.map_filter_def split: option.splits if_splits dest!: map_of_SomeD)
  have "nonneg (snd (override_field (applied_overrides e model (qt_rate q)) fd))" if "fd \<in> set (qt_rate q)" for fd
    using that assms(2) os
    by (auto simp: override_field_def nonneg_rates_def split: option.split dest!: map_of_SomeD)
  with assms(2) show ?thesis by (auto simp: apply_component_overrides_def Let_def nonneg_rates_def)
qed

lemma scaled_at_nonneg: "scaled_at d k s = Inr x \<Longrightarrow> nonneg_json (JObj d) \<Longrightarrow> nonneg s \<Longrightarrow> nonneg x"
  by (auto simp: scaled_at_def bind_ok_Inr intro: divided_nonneg number_at_nonneg simp del: nonneg_json.simps)

lemma window_nonneg: "window_of d w = Inr x \<Longrightarrow> nonneg_json (JObj d) \<Longrightarrow> nonneg x"
  by (auto simp: window_of_def duration_s_def intro: scaled_at_nonneg constants_nonneg
      split: option.splits if_splits simp del: nonneg_json.simps)

lemma duration_nonneg: "duration_s d = Inr x \<Longrightarrow> nonneg_json (JObj d) \<Longrightarrow> nonneg x"
  by (auto simp: duration_s_def intro: scaled_at_nonneg constants_nonneg simp del: nonneg_json.simps)

lemma nonneg_iaas:
  assumes "resolve_iaas_rate c model g i = Inr q" "nonneg_json (JObj c)" "model \<in> {''ec2'', ''gce'', ''azure_vm''}"
  shows "nonneg (qt_rate q)"
proof -
  obtain p r where pr: "iaas_keys model = (p, r)" by fastforce
  obtain block where b: "runtime_block c p r = Inr block"
    using assms(1) by (auto simp: resolve_iaas_rate_def pr bind_ok_Inr)
  note nb = runtime_block_nonneg [OF b assms(2)]
  have inst: "nonneg (qt_rate x)" if x: "instance_rate block g i [p, r] = Inr (Some x)" for x
  proof -
    obtain sku where "nonneg_json sku" "number_at sku ''hourly_usd'' = Inr (qt_rate x)"
    proof -
      from x obtain rs g' i' rb types sku where s: "json_get block ''regions'' (JObj []) = Inr rs" "json_item rs g' = Inr rb"
          "json_get rb ''instance_types'' (JObj []) = Inr types" "json_get types i' JNull = Inr sku"
          "number_at sku ''hourly_usd'' = Inr (qt_rate x)"
        by (cases g; cases i) (auto simp: instance_rate_def bind_ok_Inr handle_Inr map_sum_def split: if_splits sum.splits)
      have "nonneg_json rs" using nonneg_json_get [OF s(1) nb] by simp
      from nonneg_json_item [OF s(2) this] have "nonneg_json rb" .
      then have "nonneg_json types" using nonneg_json_get [OF s(3)] by simp
      then have "nonneg_json sku" using nonneg_json_get [OF s(4)] by simp
      with s(5) that show thesis by blast
    qed
    then show ?thesis using number_at_nonneg by blast
  qed
  have "nonneg (the (map_of (hardcoded model) ''vcpu_hour_usd''))" using assms(3) by (auto simp: hardcoded_def)
  with assms(1) inst number_at_nonneg [OF _ nb] number_at_nonneg [OF _ catalog_entry_nonneg [OF assms(2)]] show ?thesis
    by (auto simp: resolve_iaas_rate_def pr b or_else_Inr bind_ok_Inr handle_Inr map_sum_def
        split: if_splits option.splits sum.splits)
qed

lemma k8s_nonneg: "k8s_pod_rate c = Inr q \<Longrightarrow> nonneg_json (JObj c) \<Longrightarrow> nonneg (qt_rate q)"
  by (auto simp: k8s_pod_rate_def handle_Inr map_sum_def hardcoded_def split: sum.splits simp del: nonneg_json.simps
      dest: catalog_entry_nonneg number_at_nonneg)

definition nonneg_engine :: "compute_engine \<Rightarrow> bool" where
  "nonneg_engine e \<longleftrightarrow> nonneg_json (JObj (ce_catalog e)) \<and> (\<forall>d \<in> snd ` set (ce_overrides e). nonneg d)"

lemma cost_of_simps [simp]:
  "cc_cost (cost_of x q) = x" "cc_confidence (cost_of x q) = qt_confidence q" "cc_source (cost_of x q) = qt_source q"
  by (simp_all add: cost_of_def)

text \<open>What a computation gives, if it does not raise.\<close>

definition gives :: "('a \<Rightarrow> bool) \<Rightarrow> py_error + 'a \<Rightarrow> bool" where
  "gives P x \<longleftrightarrow> (\<forall>y. x = Inr y \<longrightarrow> P y)"

lemma gives_bind: "gives Q x \<Longrightarrow> (\<And>y. Q y \<Longrightarrow> gives P (f y)) \<Longrightarrow> gives P (bind_ok x f)"
  by (auto simp: gives_def bind_ok_Inr)

lemma gives_Inr: "P y \<Longrightarrow> gives P (Inr y)"
  by (simp add: gives_def)

abbreviation priced :: "py_error + compute_cost \<Rightarrow> bool" where
  "priced \<equiv> gives (\<lambda>c. nonneg (cc_cost c))"

lemma gives_cost: "nonneg x \<Longrightarrow> priced (Inr (cost_of x q))"
  by (simp add: gives_def)

lemma gives_detail:
  assumes "nonneg_json (JObj d)"
  shows "gives nonneg (number_at (JObj d) k)" "nonneg s \<Longrightarrow> gives nonneg (scaled_at d k s)"
    "gives nonneg (duration_s d)" "gives nonneg (window_of d w)"
  using assms number_at_nonneg scaled_at_nonneg duration_nonneg window_nonneg unfolding gives_def by blast+

lemma gives_rate: "nonneg_rates (qt_rate q) \<Longrightarrow> gives nonneg (rate_of q k)"
  using rate_of_nonneg unfolding gives_def by blast

lemma gives_divided: "nonneg a \<Longrightarrow> nonneg b \<Longrightarrow> gives nonneg (divided a b)"
  using divided_nonneg unfolding gives_def by blast

abbreviation block_ok :: "rate_block quote \<Rightarrow> bool" where
  "block_ok q \<equiv> nonneg_rates (qt_rate q)"

lemma gives_resolved:
  assumes "nonneg_engine e"
  shows "gives block_ok (resolve_lambda_rate (ce_catalog e) g a)" "gives block_ok (resolve_fargate_rate (ce_catalog e) g a)"
    "gives block_ok (resolve_cloud_run_rate (ce_catalog e) g)" "gives block_ok (resolve_azure_functions_rate (ce_catalog e) g)"
    "gives block_ok (resolve_vercel_rate (ce_catalog e))"
    "block_ok q \<Longrightarrow> block_ok (apply_component_overrides e m q)"
proof -
  from assms have c: "nonneg_json (JObj (ce_catalog e))" and os: "\<forall>d \<in> snd ` set (ce_overrides e). nonneg d"
    by (simp_all add: nonneg_engine_def del: nonneg_json.simps)
  show "gives block_ok (resolve_lambda_rate (ce_catalog e) g a)" "gives block_ok (resolve_fargate_rate (ce_catalog e) g a)"
    "gives block_ok (resolve_cloud_run_rate (ce_catalog e) g)" "gives block_ok (resolve_azure_functions_rate (ce_catalog e) g)"
    "gives block_ok (resolve_vercel_rate (ce_catalog e))"
    unfolding gives_def using resolved_nonneg [OF c] by blast+
  show "block_ok q \<Longrightarrow> block_ok (apply_component_overrides e m q)" by (rule override_nonneg [OF os])
qed

lemma held_cost_nonneg: "nonneg_json (JObj d) \<Longrightarrow> nonneg w \<Longrightarrow> block_ok q \<Longrightarrow> priced (held_cost d w q shown)"
  unfolding held_cost_def
  by (assumption | rule gives_bind gives_detail gives_rate gives_cost nonneg_intros)+

lemma request_cost_nonneg: "nonneg_json (JObj d) \<Longrightarrow> block_ok q \<Longrightarrow> priced (request_cost d q shown)"
  unfolding request_cost_def
  by (assumption | rule gives_bind gives_detail gives_rate gives_cost nonneg_intros)+

lemma component_costs_nonneg:
  assumes e: "nonneg_engine e" and d: "nonneg_json (JObj d)"
  shows "priced (lambda_cost e d)" "priced (azure_functions_cost e d)" "priced (vercel_cost e d)"
    "priced (fargate_cost e d w)" "priced (cloud_run_request_cost e d)" "priced (cloud_run_instance_cost e d w)"
    "priced (cloud_functions_cost e d)"
  unfolding lambda_cost_def azure_functions_cost_def vercel_cost_def fargate_cost_def cloud_run_request_cost_def
    cloud_run_instance_cost_def cloud_functions_cost_def Let_def
  by (assumption | rule gives_bind gives_resolved [OF e] gives_detail [OF d] gives_rate gives_cost gives_divided nonneg_intros
      held_cost_nonneg request_cost_nonneg d)+

lemma machine_nonneg:
  assumes e: "nonneg_engine e" and d: "nonneg_json (JObj d)"
  shows "priced (k8s_pod_cost e d w)" and "m \<in> {''ec2'', ''gce'', ''azure_vm''} \<Longrightarrow> priced (iaas_share e m d i w)"
proof -
  have os: "map_of (ce_overrides e) k = Some x \<Longrightarrow> nonneg x" for k x
    using e by (force simp: nonneg_engine_def dest: map_of_SomeD)
  have c: "nonneg_json (JObj (ce_catalog e))" using e by (simp add: nonneg_engine_def)
  let ?ok = "\<lambda>q :: dec quote. nonneg (qt_rate q)"
  have k8s: "gives ?ok (k8s_pod_rate (ce_catalog e))" using k8s_nonneg [OF _ c] by (simp add: gives_def)
  show "priced (k8s_pod_cost e d w)"
  proof (cases "map_of (ce_overrides e) (''k8s_pod'', ''vcpu_hour'')")
    case None
    show ?thesis unfolding k8s_pod_cost_def None option.case Let_def
      by (assumption | rule gives_bind k8s gives_detail [OF d] gives_divided gives_cost nonneg_intros)+
  next
    case (Some x)
    show ?thesis unfolding k8s_pod_cost_def Some option.case Let_def quote.simps
      by (assumption | rule gives_bind k8s gives_detail [OF d] gives_divided gives_cost nonneg_intros os [OF Some])+
  qed
  assume m: "m \<in> {''ec2'', ''gce'', ''azure_vm''}"
  have iaas: "gives ?ok (resolve_iaas_rate (ce_catalog e) m g j)" for g j
    using nonneg_iaas [OF _ c m] by (simp add: gives_def)
  show "priced (iaas_share e m d i w)"
  proof (cases "map_of (ce_overrides e) (m, ''vcpu_hour'')")
    case None
    have inner: "priced (if coeff count \<le> 0 \<or> coeff window \<le> 0 then Inr (cost_of dec0 q)
        else bind_ok (divided used (dec_mul count window)) (\<lambda>share. bind_ok (divided window hour_s) (\<lambda>hours.
          Inr (cost_of (dec_mul (dec_mul share hours) (qt_rate q)) q))))"
      if "nonneg count" "nonneg window" "nonneg used" "?ok q" for count window used q
      using that by (cases "coeff count \<le> 0 \<or> coeff window \<le> 0", simp_all only: if_True if_False)
          (assumption | rule gives_bind gives_divided gives_cost nonneg_intros)+
    show ?thesis unfolding iaas_share_def None option.case
      by (assumption | rule gives_bind iaas gives_detail [OF d] inner)+
  next
    case (Some x)
    have inner: "priced (Inr \<lparr>cc_cost = dec_mul hours x, cc_source = s, cc_confidence = f\<rparr>)" if "nonneg hours" for hours s f
      using dec_mul_nonneg [OF that os [OF Some]] by (simp add: gives_def)
    show ?thesis unfolding iaas_share_def Some option.case
      by (assumption | rule gives_bind iaas gives_detail [OF d] nonneg_intros inner)+
  qed
qed

lemma zero_cost_simps [simp]: "cc_cost (zero_cost r m) = dec0" "cc_confidence (zero_cost r m) = ''unknown''"
  by (simp_all add: zero_cost_def)

text \<open>C24. A compute cost is never negative, provided no number of the catalogue, the overrides and the
  event is: whatever the shape of the catalogue and of the event's details, which nobody has
  checked.\<close>

theorem compute_cost_nonneg:
  assumes "nonneg_engine e" "nonneg_json (JObj d)"
  shows "0 \<le> coeff (cc_cost (resolve_compute_cost e d instance billing window))"
proof (cases "dispatch_compute e (billing_model d) d instance billing window")
  case (Inr c)
  have "priced (dispatch_compute e (billing_model d) d instance billing window)"
    using component_costs_nonneg [OF assms] machine_nonneg [OF assms]
    unfolding dispatch_compute_def by (simp add: gives_Inr split: if_split)
  with Inr show ?thesis by (simp add: resolve_compute_cost_def gives_def)
qed (simp add: resolve_compute_cost_def)

lemma dec_parse_digits:
  assumes "list_all is_digit t" "t \<noteq> []" "read_digits 0 t = Some n"
  shows "dec_parse t = Some (Dec (int n) 0)" "dec_parse (CHR ''-'' # t) = Some (Dec (- int n) 0)"
proof -
  have "CHR ''.'' \<notin> set t" using no_dot_digits [OF assms(1)] .
  then have t: "takeWhile (\<lambda>c. c \<noteq> CHR ''.'') t = t" "dropWhile (\<lambda>c. c \<noteq> CHR ''.'') t = []" by auto
  show "dec_parse t = Some (Dec (int n) 0)" "dec_parse (CHR ''-'' # t) = Some (Dec (- int n) 0)"
    using no_sign_digits [OF assms(1)] assms(2,3) by (simp_all add: dec_parse_def Let_def t)
qed

lemma number_of_int [simp]: "number_of (JInt i) = Inr (Dec i 0)"
proof -
  have "dec_parse (show_int i) = Some (Dec i 0)"
    using dec_parse_digits [OF show_nat_digits show_nat_not_Nil read_show_nat] by (simp add: show_int_def)
  then show ?thesis by (simp add: number_of_def py_str_def decimal_of_plain)
qed

theorem compute_cost_nonneg_witness:
  "0 \<le> coeff (cc_cost (resolve_compute_cost \<lparr>ce_catalog = [], ce_overrides = []\<rparr>
     [(''billing_model'', JStr ''k8s_pod''), (''vcpu_count'', JInt 2)] None [] (Some (Dec 60 0))))"
proof (rule compute_cost_nonneg)
  have "number_of (JStr ''k8s_pod'') = Inl bad_number"
    by (simp add: number_of_def decimal_of_text_def Let_def py_strip_def is_space_def is_e_def dec_parse_def digit_value.simps)
  then show "nonneg_json (JObj [(''billing_model'', JStr ''k8s_pod''), (''vcpu_count'', JInt 2)])"
    by (simp add: nonneg_number_def)
qed (simp add: nonneg_engine_def)

section \<open>Exact divisions\<close>

lemma strip_to_shifted: "strip_to n (c * 10 ^ n) e = Dec c (e + int n)"
proof (induction n arbitrary: e)
  case (Suc n)
  have "c * 10 ^ Suc n mod 10 = 0" "c * 10 ^ Suc n div 10 = c * 10 ^ n" by simp_all
  with Suc show ?case by (subst strip_to.simps) (simp del: strip_to.simps)
qed simp

lemma dec_div_exact:
  assumes "0 < q" "0 < y" "ndigits (q * y) \<le> ndigits y + 29"
  shows "dec_div (Dec (int (q * y)) e) (Dec (int y) e') = Some (dec_fix (Dec (int q) (e - e')))"
proof -
  define shift where "shift = nat (int (ndigits y) - int (ndigits (q * y)) + 29)"
  have sh: "int (ndigits y) - int (ndigits (q * y)) + int dec_prec + 1 = int shift"
    using assms(3) by (simp add: shift_def dec_prec_def)
  have n: "nat \<bar>int (q * y)\<bar> = q * y" "nat \<bar>int y\<bar> = y" by (simp_all flip: of_nat_mult del: of_nat_mult)
  have c: "q * y * 10 ^ shift div y = q * 10 ^ shift" "q * y * 10 ^ shift mod y = 0" using assms(2) by simp_all
  have s: "strip_to shift (int (q * 10 ^ shift)) (e - e' - int shift) = Dec (int q) (e - e')"
    using strip_to_shifted [of shift "int q" "e - e' - int shift"] by simp
  have "nat (e - e' - (e - e' - int shift)) = shift" by simp
  moreover have "sgn (int (q * y)) * sgn (int y) = 1" "int (q * y) \<noteq> 0" "int y \<noteq> 0" using assms(1,2) by (simp_all add: sgn_mult)
  ultimately show ?thesis
    unfolding dec_div_def Let_def dec.sel n sh by (simp add: c s del: of_nat_mult strip_to.simps)
qed

section \<open>The fallback price of a virtual machine\<close>

definition busy_hour :: "int \<Rightarrow> obj" where
  "busy_hour n = [(''billing_model'', JStr ''ec2''), (''vcpu_count'', JInt n), (''vcpu_seconds_used'', JInt (n * 3600))]"

definition default_only :: "json \<Rightarrow> obj" where
  "default_only v = [(''aws'', JObj [(''ec2'', JObj [(''default_vcpu_hour_usd'', v)])])]"

lemma dec_mul_int: "\<bar>coeff a * coeff b\<bar> < 10 ^ 28 \<Longrightarrow> dec_mul a b = Dec (coeff a * coeff b) (expo a + expo b)"
  unfolding dec_mul_def by (rule dec_fix_exact) simp

lemma busy_hour_parts:
  assumes "0 < n" "n < 10 ^ 6"
  shows "divided (Dec (n * 3600) 0) (dec_mul (Dec n 0) hour_s) = Inr (Dec 1 0)"
    "divided hour_s hour_s = Inr (Dec 1 0)" "divided (Dec (n * 3600) 0) hour_s = Inr (Dec n 0)"
proof -
  obtain m where m: "n = int m" "0 < m" "m < 10 ^ 6" using assms by (metis nat_eq_iff nat_less_iff of_nat_0_less_iff zero_less_imp_eq_int of_nat_less_iff of_nat_numeral of_nat_power)
  have one: "dec_fix (Dec k 0) = Dec k 0" if "\<bar>k\<bar> < 10 ^ 28" for k using dec_fix_exact [of "Dec k 0"] that by simp
  have "dec_mul (Dec n 0) hour_s = Dec (int (1 * (m * 3600))) 0"
    using m assms by (subst dec_mul_int) (simp_all add: hour_s_def)
  moreover have "dec_div (Dec (int (1 * (m * 3600))) 0) (Dec (int (m * 3600)) 0) = Some (Dec 1 0)"
    using m(2) dec_div_exact [of 1 "m * 3600" 0 0] one [of 1] by simp
  ultimately show "divided (Dec (n * 3600) 0) (dec_mul (Dec n 0) hour_s) = Inr (Dec 1 0)"
    by (simp add: divided_def m(1))
  show "divided hour_s hour_s = Inr (Dec 1 0)"
    using dec_div_exact [of 1 3600 0 0] one [of 1] by (simp add: divided_def hour_s_def)
  have "m * 3600 < 10 ^ Suc 9" using m(3) by simp
  then have "ndigits (m * 3600) \<le> ndigits 3600 + 29" using ndigits_le [of "m * 3600" 9] by linarith
  then show "divided (Dec (n * 3600) 0) hour_s = Inr (Dec n 0)"
    using dec_div_exact [of m 3600 0 0] one [of n] m assms by (simp add: divided_def hour_s_def)
qed

text \<open>C39. The price of a virtual machine of unknown type is too low by the number of its cores. The
  fallback rate is a price per core and hour, but it is multiplied by the share of the whole
  machine: a machine with \<open>n\<close> cores, all busy for an hour, costs one core-hour instead of the
  \<open>n\<close> it costs when the workspace sets the same price per core.\<close>

theorem iaas_fallback_undercounts:
  assumes "0 < n" "n < 10 ^ 6" "number_of v = Inr r" "\<bar>coeff r\<bar> < 10 ^ 20"
  shows "dec_val (cc_cost (resolve_compute_cost \<lparr>ce_catalog = default_only v, ce_overrides = []\<rparr>
           (busy_hour n) None [] (Some hour_s))) = dec_val r \<and>
         dec_val (cc_cost (resolve_compute_cost \<lparr>ce_catalog = default_only v, ce_overrides = [((''ec2'', ''vcpu_hour''), r)]\<rparr>
           (busy_hour n) None [] (Some hour_s))) = of_int n * dec_val r"
proof -
  have model: "billing_model (busy_hour n) = ''ec2''"
    by (simp add: billing_model_def busy_hour_def dict_get_def py_str_def)
  have window: "window_of (busy_hour n) (Some hour_s) = Inr hour_s" by (simp add: window_of_def hour_s_def)
  have rate: "resolve_iaas_rate (default_only v) ''ec2'' g None =
      Inr (quoted r (source_text [''aws'', ''ec2'', ''default'']) ''estimated'')" for g
    using assms(3)
    by (simp add: resolve_iaas_rate_def iaas_keys_def runtime_block_def catalog_entry_def default_only_def json_get_def
        is_object_def instance_rate_def number_at_def json_item_def or_else_def json_has_def split: option.split)
  have at: "number_at (JObj (busy_hour n)) ''vcpu_count'' = Inr (Dec n 0)"
      "number_at (JObj (busy_hour n)) ''vcpu_seconds_used'' = Inr (Dec (n * 3600) 0)"
    by (simp_all add: number_at_def json_item_def busy_hour_def)
  have pos: "\<not> (coeff (Dec n 0) \<le> 0 \<or> coeff hour_s \<le> 0)" using assms(1) by (simp add: hour_s_def)
  have one: "dec_mul (Dec 1 0) (Dec 1 0) = Dec 1 0" "dec_mul (Dec 1 0) r = r"
    using assms(4) by (simp_all add: dec_mul_int)
  note unfolded = resolve_compute_cost_def model dispatch_compute_def iaas_share_def window nonempty_def rate at
    scaled_at_def busy_hour_parts [OF assms(1,2)]
  have "\<bar>n * coeff r\<bar> < 10 ^ 6 * 10 ^ 20" unfolding abs_mult
    by (rule mult_strict_mono) (use assms in simp_all)
  then have "dec_mul (Dec n 0) r = Dec (n * coeff r) (expo r)" by (subst dec_mul_int) simp_all
  then show ?thesis using pos by (simp add: unfolded one dec_val_def)
qed

theorem iaas_fallback_undercounts_witness:
  "dec_val (cc_cost (resolve_compute_cost \<lparr>ce_catalog = default_only (JInt 3), ce_overrides = []\<rparr>
     (busy_hour 4) None [] (Some hour_s))) = 3"
proof -
  have "dec_val (Dec 3 0) = 3" by (simp add: dec_val_def)
  with iaas_fallback_undercounts [of 4 "JInt 3" "Dec 3 0"] show ?thesis by simp
qed

end
