(* ===== verification/Gpu_Pricing.thy ===== *)
theory Gpu_Pricing
  imports Compute_Costs
begin

text \<open>
  The cost of GPU time (\<open>gpu_pricing.py\<close>): workspace overrides by SKU, the catalogue's price of
  the SKU or the instance, a default by the class of the device, the \<open>_meta\<close> default and a
  hardcoded price. Texts of the details that are not texts count as absent.
\<close>

record cloud_env =
  env_provider :: "string option"
  env_region :: "string option"
  env_instance :: "string option"

record gpu_engine =
  ge_catalog :: obj
  ge_overrides :: "((string \<times> string) \<times> dec) list"

definition gpu_source :: "string list \<Rightarrow> string" where
  "gpu_source parts = join '':'' (''gpu_catalog'' # parts)"

definition gpu_hardcoded :: "string \<Rightarrow> dec" where
  "gpu_hardcoded model = the (map_of
     [(''per_instance_hour'', Dec 5504 (- 2)), (''per_gpu_second_active'', Dec 694 (- 6)),
      (''per_gpu_hour_reserved'', Dec 399 (- 2)), (''per_vgpu_hour'', Dec 454 (- 3))] model)"

section \<open>Device classes\<close>

definition device_class_patterns :: "(string \<times> string list) list" where
  "device_class_patterns =
     [(''blackwell'', [''b100'', ''b200'', ''gb200'', ''b300'', ''blackwell'']),
      (''hopper'', [''h100'', ''h200'', ''hopper'']),
      (''ada_lovelace'', [''l4'', ''l40'', ''ada lovelace'', ''rtx 4090'', ''rtx 5090'']),
      (''ampere'', [''a100'', ''a40'', ''a10'', ''ampere'', ''rtx 3090'', ''rtx a6000''])]"

definition detect_device_class :: "string option \<Rightarrow> string option" where
  "detect_device_class product =
     (case product of
        None \<Rightarrow> None
      | Some name \<Rightarrow> map_option fst (find (\<lambda>(c, ps). list_ex (\<lambda>p. sublist p name) ps) device_class_patterns))"

definition device_class_defaults :: "string \<Rightarrow> string \<Rightarrow> dec" where
  "device_class_defaults device model = the (map_of (the (map_of
     [(''hopper'', [(''per_instance_hour'', Dec 9832 (- 2)), (''per_gpu_second_active'', Dec 1097 (- 6)),
                    (''per_gpu_hour_reserved'', Dec 399 (- 2)), (''per_vgpu_hour'', Dec 399 (- 2))]),
      (''ampere'', [(''per_instance_hour'', Dec 3277 (- 2)), (''per_gpu_second_active'', Dec 833 (- 6)),
                    (''per_gpu_hour_reserved'', Dec 220 (- 2)), (''per_vgpu_hour'', Dec 220 (- 2))]),
      (''ada_lovelace'', [(''per_instance_hour'', Dec 1200 (- 2)), (''per_gpu_second_active'', Dec 400 (- 6)),
                          (''per_gpu_hour_reserved'', Dec 150 (- 2)), (''per_vgpu_hour'', Dec 150 (- 2))]),
      (''blackwell'', [(''per_instance_hour'', Dec 18000 (- 2)), (''per_gpu_second_active'', Dec 2500 (- 6)),
                       (''per_gpu_hour_reserved'', Dec 650 (- 2)), (''per_vgpu_hour'', Dec 650 (- 2))])] device)) model)"

text \<open>\<open>_device_class_or_meta_fallback\<close>: it can only raise when \<open>_meta\<close> is not a container.\<close>

definition fallback_rate :: "obj \<Rightarrow> obj \<Rightarrow> string \<Rightarrow> py_error + dec quote" where
  "fallback_rate c details model =
     (case detect_device_class (text_at details ''_nvml_product_name_lower'') of
        Some device \<Rightarrow>
          Inr (quoted (device_class_defaults device model) (gpu_source [''device_class_fallback'', device, model]) ''estimated'')
      | None \<Rightarrow>
          (let meta = catalog_entry c ''_meta''; k = ''default_'' @ model @ ''_usd''
           in bind_ok (json_has meta k) (\<lambda>present.
                Inr (case (if present then number_at meta k else Inl (LookupError k)) of
                       Inr x \<Rightarrow> quoted x (gpu_source [''default'', model]) ''estimated''
                     | Inl err \<Rightarrow> quoted (gpu_hardcoded model) (gpu_source [''hardcoded'', model]) ''estimated''))))"

section \<open>Rates\<close>

text \<open>The price in an entry of the SKU, None for another SKU or a missing or malformed price.\<close>

definition sku_price :: "string \<Rightarrow> string \<Rightarrow> json \<Rightarrow> dec option" where
  "sku_price field sku entry =
     (case entry of
        JObj kvs \<Rightarrow> if dict_get kvs ''gpu_sku'' = JStr sku
                    then (case number_at entry field of Inr x \<Rightarrow> Some x | Inl e \<Rightarrow> None) else None
      | _ \<Rightarrow> None)"

fun find_sku :: "string \<Rightarrow> string \<Rightarrow> obj \<Rightarrow> (string \<times> dec) option" where
  "find_sku field sku [] = None"
| "find_sku field sku ((k, entry) # es) =
     (case sku_price field sku entry of Some x \<Rightarrow> Some (k, x) | None \<Rightarrow> find_sku field sku es)"

definition items_of :: "json \<Rightarrow> obj" where
  "items_of v = (case v of JObj kvs \<Rightarrow> kvs | _ \<Rightarrow> [])"

fun find_nested_sku :: "string \<Rightarrow> string \<Rightarrow> obj \<Rightarrow> (string list \<times> dec) option" where
  "find_nested_sku field sku [] = None"
| "find_nested_sku field sku ((k, entry) # es) =
     (case sku_price field sku entry of
        Some x \<Rightarrow> Some ([k], x)
      | None \<Rightarrow> (case find_sku field sku (items_of entry) of
                   Some (k', x) \<Rightarrow> Some ([k, k'], x)
                 | None \<Rightarrow> find_nested_sku field sku es))"

text \<open>\<open>v.items()\<close>, and \<open>block.get("default", {}).items()\<close>.\<close>

definition json_items :: "json \<Rightarrow> py_error + obj" where
  "json_items v = (case v of JObj kvs \<Rightarrow> Inr kvs | _ \<Rightarrow> Inl (AttributeError ''object has no attribute items''))"

definition default_items :: "json \<Rightarrow> py_error + obj" where
  "default_items block = bind_ok (json_get block ''default'' (JObj [])) json_items"

definition sku_quote ::
    "obj \<Rightarrow> string option \<Rightarrow> string option \<Rightarrow> string \<Rightarrow> (obj \<Rightarrow> (string list \<times> dec) option) \<Rightarrow> py_error + dec quote option" where
  "sku_quote c provider sku model search =
     (case (nonempty provider, sku) of
        (Some p, Some s) \<Rightarrow>
          bind_ok (json_get (catalog_entry c p) model JNull) (\<lambda>block.
            if \<not> is_object block then Inr None
            else bind_ok (default_items block) (\<lambda>items.
              Inr (map_option (\<lambda>(path, x). quoted x (gpu_source ([p, model] @ path)) ''computed'') (search items))))
      | _ \<Rightarrow> Inr None)"

definition per_gpu_second_rate :: "gpu_engine \<Rightarrow> cloud_env \<Rightarrow> obj \<Rightarrow> py_error + dec quote" where
  "per_gpu_second_rate e env d =
     or_else
       (sku_quote (ge_catalog e) (env_provider env) (text_at d ''gpu_sku'') ''per_gpu_second_active''
         (find_nested_sku ''gpu_second_usd'' (text_of (text_at d ''gpu_sku''))))
       (fallback_rate (ge_catalog e) d ''per_gpu_second_active'')"

text \<open>\<open>block.get("regions", {}).get(region, {}).get(k, {})\<close>.\<close>

definition region_path :: "json \<Rightarrow> string \<Rightarrow> string \<Rightarrow> py_error + json" where
  "region_path block region k =
     bind_ok (json_get block ''regions'' (JObj [])) (\<lambda>rs.
     bind_ok (json_get rs region (JObj [])) (\<lambda>rb. json_get rb k (JObj [])))"

definition instance_price :: "json \<Rightarrow> string \<Rightarrow> string \<Rightarrow> string \<Rightarrow> string list \<Rightarrow> py_error + dec quote option" where
  "instance_price block region instance field name =
     bind_ok (region_path block region ''instance_types'') (\<lambda>types.
     bind_ok (json_get types instance JNull) (\<lambda>entry.
       if \<not> truthy entry then Inr None
       else handle key_or_number
         (map_sum id (\<lambda>x. Some (quoted x (gpu_source (name @ [region, instance])) ''computed'')) (number_at entry field))
         (Inr None)))"

definition gpu_blocks :: "(string \<times> string) list" where
  "gpu_blocks = [(''aws'', ''ec2_gpu''), (''gcp'', ''gce_gpu_bundled''), (''azure'', ''vm_gpu'')]"

definition instance_of :: "cloud_env \<Rightarrow> obj \<Rightarrow> string option" where
  "instance_of env d = (case text_at d ''instance_type'' of Some i \<Rightarrow> Some i | None \<Rightarrow> nonempty (env_instance env))"

definition per_instance_rate :: "gpu_engine \<Rightarrow> cloud_env \<Rightarrow> obj \<Rightarrow> py_error + dec quote" where
  "per_instance_rate e env d =
     or_else
       (case (env_provider env, instance_of env d, text_at d ''region'') of
          (Some p, Some i, Some g) \<Rightarrow>
            (case map_of gpu_blocks p of
               None \<Rightarrow> Inr None
             | Some b \<Rightarrow> bind_ok (json_get (catalog_entry (ge_catalog e) p) b (JObj [])) (\<lambda>block.
                           instance_price block g i ''hourly_usd'' [p, b]))
        | _ \<Rightarrow> Inr None)
       (fallback_rate (ge_catalog e) d ''per_instance_hour'')"

text \<open>The accelerators attached to a GCE machine: every entry must be an object.\<close>

fun find_accelerator :: "string \<Rightarrow> obj \<Rightarrow> py_error + (string \<times> dec) option" where
  "find_accelerator sku [] = Inr None"
| "find_accelerator sku ((k, entry) # es) =
     bind_ok (json_get entry ''gpu_sku'' JNull) (\<lambda>s.
       case sku_price ''gpu_hour_usd'' sku entry of Some x \<Rightarrow> Inr (Some (k, x)) | None \<Rightarrow> find_accelerator sku es)"

definition accelerator_quote :: "obj \<Rightarrow> string option \<Rightarrow> string option \<Rightarrow> string option \<Rightarrow> py_error + dec quote option" where
  "accelerator_quote c provider sku region =
     (case (provider, sku) of
        (Some p, Some s) \<Rightarrow>
          if p \<noteq> ''gcp'' then Inr None
          else
            bind_ok (json_item (JObj c) ''gcp'') (\<lambda>gcp. bind_ok (json_get gcp ''gce_gpu_attached'' (JObj [])) (\<lambda>block.
              case region of
                None \<Rightarrow> Inr None
              | Some g \<Rightarrow>
                  bind_ok (region_path block g ''accelerator_types'') (\<lambda>types.
                  bind_ok (json_items types) (\<lambda>items.
                    map_sum id (map_option (\<lambda>(k, x). quoted x (gpu_source [''gcp'', ''gce_gpu_attached'', g, k]) ''computed''))
                      (find_accelerator s items)))))
      | _ \<Rightarrow> Inr None)"

definition per_gpu_hour_rate :: "gpu_engine \<Rightarrow> cloud_env \<Rightarrow> obj \<Rightarrow> py_error + dec quote" where
  "per_gpu_hour_rate e env d =
     or_else
       (sku_quote (ge_catalog e) (env_provider env) (text_at d ''gpu_sku'') ''per_gpu_hour_reserved''
         (\<lambda>items. map_option (\<lambda>(k, x). ([k], x)) (find_sku ''gpu_hour_usd'' (text_of (text_at d ''gpu_sku'')) items)))
       (or_else
         (accelerator_quote (ge_catalog e) (env_provider env) (text_at d ''gpu_sku'') (text_at d ''region''))
         (fallback_rate (ge_catalog e) d ''per_gpu_hour_reserved''))"

definition per_vgpu_rate :: "gpu_engine \<Rightarrow> cloud_env \<Rightarrow> obj \<Rightarrow> py_error + dec quote" where
  "per_vgpu_rate e env d =
     or_else
       (case (instance_of env d, text_at d ''region'') of
          (Some i, Some g) \<Rightarrow>
            if env_provider env \<noteq> Some ''azure'' then Inr None
            else bind_ok (json_item (JObj (ge_catalog e)) ''azure'') (\<lambda>azure.
                 bind_ok (json_get azure ''vm_vgpu'' (JObj [])) (\<lambda>block.
                   instance_price block g i ''vgpu_hour_usd'' [''azure'', ''vm_vgpu'']))
        | _ \<Rightarrow> Inr None)
       (fallback_rate (ge_catalog e) d ''per_vgpu_hour'')"

section \<open>Costs\<close>

definition per_gpu_second :: "gpu_engine \<Rightarrow> cloud_env \<Rightarrow> obj \<Rightarrow> py_error + compute_cost" where
  "per_gpu_second e env d =
     bind_ok (per_gpu_second_rate e env d) (\<lambda>q. bind_ok (number_at (JObj d) ''gpu_seconds_used'') (\<lambda>s.
       Inr (cost_of (dec_mul s (qt_rate q)) q)))"

text \<open>The share of the GPUs over the window, in hours; None when nothing is left to divide by.\<close>

definition shared_hours :: "dec \<Rightarrow> dec \<Rightarrow> dec \<Rightarrow> py_error + dec" where
  "shared_hours gpu_seconds capacity window =
     bind_ok (divided gpu_seconds capacity) (\<lambda>share. bind_ok (divided window hour_s) (\<lambda>hours. Inr (dec_mul share hours)))"

definition per_instance_hour :: "gpu_engine \<Rightarrow> cloud_env \<Rightarrow> obj \<Rightarrow> dec option \<Rightarrow> py_error + compute_cost" where
  "per_instance_hour e env d window0 =
     bind_ok (window_of d window0) (\<lambda>window. bind_ok (per_instance_rate e env d) (\<lambda>q.
     bind_ok (number_at (JObj d) ''gpu_count'') (\<lambda>n. bind_ok (number_at (JObj d) ''gpu_seconds_used'') (\<lambda>s.
       if coeff n \<le> 0 \<or> coeff window \<le> 0 then Inr (cost_of dec0 q)
       else bind_ok (shared_hours s (dec_mul n window) window) (\<lambda>hours. Inr (cost_of (dec_mul hours (qt_rate q)) q))))))"

definition per_gpu_hour :: "gpu_engine \<Rightarrow> cloud_env \<Rightarrow> obj \<Rightarrow> dec option \<Rightarrow> py_error + compute_cost" where
  "per_gpu_hour e env d window0 =
     bind_ok (window_of d window0) (\<lambda>window. bind_ok (per_gpu_hour_rate e env d) (\<lambda>q.
     bind_ok (number_at (JObj d) ''gpu_count'') (\<lambda>n. bind_ok (number_at (JObj d) ''gpu_seconds_used'') (\<lambda>s.
       if coeff n \<le> 0 \<or> coeff window \<le> 0 then Inr (cost_of dec0 q)
       else bind_ok (shared_hours s (dec_mul n window) window) (\<lambda>hours.
         Inr (cost_of (dec_mul (dec_mul hours n) (qt_rate q)) q))))))"

definition per_vgpu_hour :: "gpu_engine \<Rightarrow> cloud_env \<Rightarrow> obj \<Rightarrow> dec option \<Rightarrow> py_error + compute_cost" where
  "per_vgpu_hour e env d window0 =
     bind_ok (window_of d window0) (\<lambda>window. bind_ok (per_vgpu_rate e env d) (\<lambda>q.
     bind_ok (number_at (JObj d) ''gpu_seconds_used'') (\<lambda>s.
       if coeff window \<le> 0 then Inr (cost_of dec0 q)
       else bind_ok (shared_hours s window window) (\<lambda>hours. Inr (cost_of (dec_mul hours (qt_rate q)) q)))))"

definition gpu_zero :: "string \<Rightarrow> compute_cost" where
  "gpu_zero source = \<lparr>cc_cost = dec0, cc_source = source, cc_confidence = ''unknown''\<rparr>"

definition unit_by_model :: "(string \<times> string) list" where
  "unit_by_model =
     [(''per_gpu_second_active'', ''gpu_second''), (''per_instance_hour'', ''instance_hour''),
      (''per_gpu_hour_reserved'', ''gpu_hour''), (''per_vgpu_hour'', ''vgpu_hour'')]"

text \<open>The quantity an override is the price of.\<close>

definition override_quantity :: "obj \<Rightarrow> string \<Rightarrow> dec \<Rightarrow> py_error + dec" where
  "override_quantity d unit s =
     (if unit = ''gpu_second'' then Inr s
      else if unit = ''gpu_hour'' \<or> unit = ''vgpu_hour'' then divided s hour_s
      else bind_ok (number_at (JObj d) ''gpu_count'') (\<lambda>n.
        if coeff n \<le> 0 then Inr dec0 else bind_ok (divided s n) (\<lambda>x. divided x hour_s)))"

definition workspace_override :: "gpu_engine \<Rightarrow> string \<Rightarrow> obj \<Rightarrow> py_error + compute_cost option" where
  "workspace_override e model d =
     (case (map_of unit_by_model model, text_at d ''gpu_sku'') of
        (Some unit, Some sku) \<Rightarrow>
          (case map_of (ge_overrides e) (sku, unit) of
             None \<Rightarrow> Inr None
           | Some amount \<Rightarrow>
               bind_ok (number_at (JObj d) ''gpu_seconds_used'') (\<lambda>s. bind_ok (override_quantity d unit s) (\<lambda>x.
                 Inr (Some \<lparr>cc_cost = dec_mul x amount,
                            cc_source = join '':'' [''workspace_overlay'', ''gpu'', sku, unit], cc_confidence = ''computed''\<rparr>))))
      | _ \<Rightarrow> Inr None)"

definition dispatch_gpu :: "gpu_engine \<Rightarrow> string \<Rightarrow> obj \<Rightarrow> cloud_env \<Rightarrow> dec option \<Rightarrow> py_error + compute_cost" where
  "dispatch_gpu e model d env window =
     (if model = ''local_gpu_usage_only'' then Inr (gpu_zero ''unpriced:local_gpu'')
      else if model = ''per_gpu_second_active'' then per_gpu_second e env d
      else if model = ''per_instance_hour'' then per_instance_hour e env d window
      else if model = ''per_gpu_hour_reserved'' then per_gpu_hour e env d window
      else if model = ''per_vgpu_hour'' then per_vgpu_hour e env d window
      else Inr (gpu_zero (gpu_source [''unsupported'', model])))"

text \<open>A cost whose measurement fell back to a narrower scope is an estimate, and says so.\<close>

definition scoped :: "obj \<Rightarrow> compute_cost \<Rightarrow> compute_cost" where
  "scoped d c =
     (let scope = dict_get d ''_cgroup_scope_fallback''
      in if truthy scope
         then \<lparr>cc_cost = cc_cost c, cc_source = cc_source c @ '':'' @ py_str scope,
               cc_confidence = (if cc_confidence c = ''unknown'' then ''unknown'' else ''estimated'')\<rparr>
         else c)"

definition resolve_gpu_cost :: "gpu_engine \<Rightarrow> obj \<Rightarrow> cloud_env \<Rightarrow> dec option \<Rightarrow> compute_cost" where
  "resolve_gpu_cost e d env window =
     (let model = billing_model d
      in case or_else (workspace_override e model d) (dispatch_gpu e model d env window) of
           Inl err \<Rightarrow> gpu_zero (gpu_source [''error'', model])
         | Inr c \<Rightarrow> scoped d c)"

end
