(* ===== verification/Gpu_Costs.thy ===== *)
theory Gpu_Costs
  imports Gpu_Pricing
begin

text \<open>
  What holds of the GPU costs of \<open>gpu_pricing.py\<close>: they are never negative, their confidence is
  one of the three levels and is lowered when the measurement fell back, and where the ladder of
  prices stops short of its hardcoded rung.
\<close>

section \<open>What every GPU cost satisfies\<close>

lemma map_sum_Inr: "map_sum id f x = Inr y \<longleftrightarrow> (\<exists>z. x = Inr z \<and> f z = y)"
  by (cases x) auto

lemma json_items_Inr: "json_items v = Inr kvs \<longleftrightarrow> v = JObj kvs"
  by (simp add: json_items_def split: json.split)

definition rate_ok :: "dec quote \<Rightarrow> bool" where
  "rate_ok q \<longleftrightarrow> nonneg (qt_rate q) \<and> qt_confidence q \<in> {''computed'', ''estimated''}"

definition if_some :: "('a \<Rightarrow> bool) \<Rightarrow> 'a option \<Rightarrow> bool" where
  "if_some P x \<longleftrightarrow> (\<forall>y. x = Some y \<longrightarrow> P y)"

lemma gives_or_else: "gives (if_some P) x \<Longrightarrow> gives P y \<Longrightarrow> gives P (or_else x y)"
  by (auto simp: gives_def or_else_Inr if_some_def)

lemma gives_none: "gives (if_some P) (Inr None)"
  by (simp add: gives_def if_some_def)

definition model_ok :: "string \<Rightarrow> bool" where
  "model_ok model \<longleftrightarrow> model \<in> {''per_instance_hour'', ''per_gpu_second_active'', ''per_gpu_hour_reserved'', ''per_vgpu_hour''}"

lemma default_nonneg:
  assumes "model_ok model" "detect_device_class p = Some device"
  shows "nonneg (device_class_defaults device model)"
proof -
  have "device \<in> set (map fst device_class_patterns)"
    using assms(2) by (auto simp: detect_device_class_def find_Some_iff split: option.splits intro: rev_image_eqI [OF nth_mem])
  with assms(1) show ?thesis
    by (auto simp: device_class_patterns_def device_class_defaults_def model_ok_def)
qed

lemma gives_fallback:
  assumes c: "nonneg_json (JObj c)" and m: "model_ok model"
  shows "gives rate_ok (fallback_rate c d model)"
proof (cases "detect_device_class (text_at d ''_nvml_product_name_lower'')")
  case None
  have "rate_ok (case x of Inr y \<Rightarrow> quoted y s ''estimated'' | Inl err \<Rightarrow> quoted (gpu_hardcoded model) t ''estimated'')"
    if "\<forall>y. x = Inr y \<longrightarrow> nonneg y" for x :: "py_error + dec" and s t
    using that m by (auto simp: rate_ok_def model_ok_def gpu_hardcoded_def split: sum.split)
  moreover have "\<forall>y. (if present then number_at (catalog_entry c ''_meta'') k else Inl err) = Inr y \<longrightarrow> nonneg y"
    for present k err
    using number_at_nonneg [OF _ catalog_entry_nonneg [OF c]] by auto
  ultimately show ?thesis
    unfolding fallback_rate_def None option.case Let_def
    by (intro gives_bind [where Q = "\<lambda>_. True"] gives_Inr) (simp add: gives_def, blast)
qed (simp add: fallback_rate_def gives_def rate_ok_def default_nonneg [OF m])

lemma sku_price_nonneg: "sku_price f s v = Some x \<Longrightarrow> nonneg_json v \<Longrightarrow> nonneg x"
  by (auto simp: sku_price_def simp del: nonneg_json.simps split: json.splits if_splits sum.splits intro: number_at_nonneg)

lemma find_sku_nonneg: "find_sku f s es = Some (k, x) \<Longrightarrow> \<forall>(k, v) \<in> set es. nonneg_json v \<Longrightarrow> nonneg x"
  by (induction f s es rule: find_sku.induct) (auto split: option.splits dest: sku_price_nonneg)

lemma items_nonneg: "nonneg_json v \<Longrightarrow> \<forall>(k, v) \<in> set (items_of v). nonneg_json v"
  by (auto simp: items_of_def split: json.split)

lemma find_nested_nonneg: "find_nested_sku f s es = Some (k, x) \<Longrightarrow> \<forall>(k, v) \<in> set es. nonneg_json v \<Longrightarrow> nonneg x"
proof (induction f s es rule: find_nested_sku.induct)
  case (2 f s k entry es)
  then have "nonneg_json entry" by simp
  with 2 sku_price_nonneg [of f s entry] find_sku_nonneg [OF _ items_nonneg, of f s entry] show ?case
    by (auto split: option.splits prod.splits)
qed simp

lemma find_accelerator_nonneg:
  "find_accelerator s es = Inr (Some (k, x)) \<Longrightarrow> \<forall>(k, v) \<in> set es. nonneg_json v \<Longrightarrow> nonneg x"
  by (induction s es rule: find_accelerator.induct)
    (auto simp: bind_ok_Inr split: option.splits dest: sku_price_nonneg)

lemma gives_sku:
  assumes c: "nonneg_json (JObj c)"
    and search: "\<And>items path x. search items = Some (path, x) \<Longrightarrow> \<forall>(k, v) \<in> set items. nonneg_json v \<Longrightarrow> nonneg x"
  shows "gives (if_some rate_ok) (sku_quote c p s model search)"
proof -
  have items: "\<forall>(k, v) \<in> set items. nonneg_json v"
    if i: "json_get (catalog_entry c q) model JNull = Inr b" "default_items b = Inr items" for q b items
  proof -
    have b: "nonneg_json b" using nonneg_json_get [OF i(1)] catalog_entry_nonneg [OF c] by simp
    obtain d where d: "json_get b ''default'' (JObj []) = Inr d" "d = JObj items"
      using i(2) by (auto simp: default_items_def bind_ok_Inr json_items_Inr)
    from nonneg_json_get [OF d(1) b] d(2) show ?thesis by simp
  qed
  show ?thesis
    unfolding sku_quote_def gives_def if_some_def
    by (auto simp: rate_ok_def bind_ok_Inr split: option.splits if_splits intro: search [OF _ items])
qed

lemma gives_instance: "nonneg_json b \<Longrightarrow> gives (if_some rate_ok) (instance_price b g i f name)"
proof -
  assume b: "nonneg_json b"
  have "nonneg x" if i: "region_path b g ''instance_types'' = Inr ts" "json_get ts i JNull = Inr v" "number_at v f = Inr x" for ts v x
  proof -
    from i(1) obtain rs rb where "json_get b ''regions'' (JObj []) = Inr rs" "json_get rs g (JObj []) = Inr rb"
        "json_get rb ''instance_types'' (JObj []) = Inr ts" by (auto simp: region_path_def bind_ok_Inr)
    with b have "nonneg_json ts" using nonneg_json_get nonneg_simple(2) by metis
    then have "nonneg_json v" using nonneg_json_get [OF i(2)] by simp
    with i(3) show ?thesis using number_at_nonneg by blast
  qed
  then show ?thesis
    unfolding instance_price_def gives_def if_some_def
    by (auto simp: rate_ok_def bind_ok_Inr handle_Inr map_sum_Inr split: if_splits)
qed

lemma gives_accelerator:
  assumes c: "nonneg_json (JObj c)"
  shows "gives (if_some rate_ok) (accelerator_quote c p s g)"
proof -
  have "nonneg x"
    if i: "json_item (JObj c) ''gcp'' = Inr gcp" "json_get gcp ''gce_gpu_attached'' (JObj []) = Inr b"
      "region_path b g' ''accelerator_types'' = Inr (JObj items)" "find_accelerator s' items = Inr (Some (k, x))"
    for gcp b g' items s' k x
  proof -
    have "nonneg_json gcp" by (rule nonneg_json_item [OF i(1) c])
    then have "nonneg_json b" using nonneg_json_get [OF i(2)] by simp
    moreover obtain rs rb where "json_get b ''regions'' (JObj []) = Inr rs" "json_get rs g' (JObj []) = Inr rb"
        "json_get rb ''accelerator_types'' (JObj []) = Inr (JObj items)"
      using i(3) by (auto simp: region_path_def bind_ok_Inr)
    ultimately have "nonneg_json (JObj items)" using nonneg_json_get nonneg_simple(2) by metis
    then show ?thesis using find_accelerator_nonneg [OF i(4)] by simp
  qed
  then show ?thesis
    unfolding accelerator_quote_def gives_def if_some_def
    by (auto simp: rate_ok_def bind_ok_Inr map_sum_Inr json_items_Inr simp del: nonneg_json.simps split: option.splits if_splits)
qed

definition nonneg_gpu :: "gpu_engine \<Rightarrow> bool" where
  "nonneg_gpu e \<longleftrightarrow> nonneg_json (JObj (ge_catalog e)) \<and> (\<forall>d \<in> snd ` set (ge_overrides e). nonneg d)"

lemma gives_gpu_rates:
  assumes "nonneg_gpu e"
  shows "gives rate_ok (per_gpu_second_rate e env d)" "gives rate_ok (per_instance_rate e env d)"
    "gives rate_ok (per_gpu_hour_rate e env d)" "gives rate_ok (per_vgpu_rate e env d)"
proof -
  have c: "nonneg_json (JObj (ge_catalog e))" using assms by (simp add: nonneg_gpu_def)
  have m: "model_ok ''per_gpu_second_active''" "model_ok ''per_instance_hour''" "model_ok ''per_gpu_hour_reserved''"
      "model_ok ''per_vgpu_hour''" by (simp_all add: model_ok_def)
  note fb = gives_fallback [OF c]
  show "gives rate_ok (per_gpu_second_rate e env d)"
    unfolding per_gpu_second_rate_def
    by (intro gives_or_else gives_sku [OF c] fb m) (rule find_nested_nonneg)
  show "gives rate_ok (per_gpu_hour_rate e env d)"
    unfolding per_gpu_hour_rate_def
    by (intro gives_or_else gives_sku [OF c] gives_accelerator [OF c] fb m) (auto intro: find_sku_nonneg)
  have b: "nonneg_json b" if "json_get (catalog_entry (ge_catalog e) p) k (JObj []) = Inr b" for p k b
    using nonneg_json_get [OF that] catalog_entry_nonneg [OF c] by simp
  show "gives rate_ok (per_instance_rate e env d)"
    unfolding per_instance_rate_def
    by (intro gives_or_else fb m)
      (auto simp: gives_none split: option.split intro!: gives_bind [where Q = nonneg_json] gives_instance, simp add: gives_def b)
  have v: "nonneg_json b" if "json_item (JObj (ge_catalog e)) p = Inr a" "json_get a k (JObj []) = Inr b" for p a k b
    using nonneg_json_get [OF that(2) nonneg_json_item [OF that(1) c]] by simp
  have a: "gives nonneg_json (json_item (JObj (ge_catalog e)) p)" for p using nonneg_json_item [OF _ c] by (simp add: gives_def)
  have g: "gives nonneg_json (json_get x k (JObj []))" if "nonneg_json x" for x k
    using nonneg_json_get [OF _ that] by (simp add: gives_def)
  show "gives rate_ok (per_vgpu_rate e env d)"
    unfolding per_vgpu_rate_def
    by (intro gives_or_else fb m)
      (auto simp: gives_none split: option.split intro!: gives_bind [OF a] gives_bind [OF g] gives_instance)
qed

abbreviation gpu_cost_ok :: "compute_cost \<Rightarrow> bool" where
  "gpu_cost_ok c \<equiv> nonneg (cc_cost c) \<and> cc_confidence c \<in> {''computed'', ''estimated'', ''unknown''} \<and>
     (cc_confidence c = ''unknown'' \<longrightarrow> cc_cost c = dec0)"

lemma gives_gpu_cost: "nonneg x \<Longrightarrow> rate_ok q \<Longrightarrow> gives gpu_cost_ok (Inr (cost_of x q))"
  by (auto simp: gives_def rate_ok_def)

lemma gives_shared: "nonneg s \<Longrightarrow> nonneg c \<Longrightarrow> nonneg w \<Longrightarrow> gives nonneg (shared_hours s c w)"
  unfolding shared_hours_def
  by (assumption | rule gives_bind gives_divided gives_Inr nonneg_intros)+

lemma gives_if: "(b \<Longrightarrow> gives P x) \<Longrightarrow> (\<not> b \<Longrightarrow> gives P y) \<Longrightarrow> gives P (if b then x else y)"
  by simp

lemma gives_gpu:
  assumes e: "nonneg_gpu e" and d: "nonneg_json (JObj d)"
  shows "gives gpu_cost_ok (per_gpu_second e env d)" "gives gpu_cost_ok (per_instance_hour e env d w)"
    "gives gpu_cost_ok (per_gpu_hour e env d w)" "gives gpu_cost_ok (per_vgpu_hour e env d w)"
proof -
  have rate: "rate_ok q \<Longrightarrow> nonneg (qt_rate q)" for q by (simp add: rate_ok_def)
  show "gives gpu_cost_ok (per_gpu_second e env d)" "gives gpu_cost_ok (per_instance_hour e env d w)"
    "gives gpu_cost_ok (per_gpu_hour e env d w)" "gives gpu_cost_ok (per_vgpu_hour e env d w)"
    unfolding per_gpu_second_def per_instance_hour_def per_gpu_hour_def per_vgpu_hour_def
    by (assumption | rule gives_bind gives_if gives_gpu_rates [OF e] gives_detail [OF d] gives_gpu_cost gives_shared
        nonneg_intros rate)+
qed

lemma gives_override:
  assumes e: "nonneg_gpu e" and d: "nonneg_json (JObj d)"
  shows "gives (if_some gpu_cost_ok) (workspace_override e model d)"
proof (cases "map_of unit_by_model model = None \<or> text_at d ''gpu_sku'' = None")
  case False
  then obtain unit sku where us: "map_of unit_by_model model = Some unit" "text_at d ''gpu_sku'' = Some sku" by auto
  show ?thesis
  proof (cases "map_of (ge_overrides e) (sku, unit)")
    case (Some amount)
    then have a: "nonneg amount" using e by (force simp: nonneg_gpu_def dest: map_of_SomeD)
    have quantity: "gives nonneg (override_quantity d unit s)" if "nonneg s" for s
      unfolding override_quantity_def
      by (assumption | rule that gives_if gives_bind gives_detail [OF d] gives_divided gives_Inr nonneg_intros)+
    have fin: "gives (if_some gpu_cost_ok) (Inr (Some \<lparr>cc_cost = dec_mul x amount, cc_source = src, cc_confidence = ''computed''\<rparr>))"
      if "nonneg x" for x src
      using dec_mul_nonneg [OF that a] by (simp add: gives_def if_some_def)
    show ?thesis unfolding workspace_override_def us option.case prod.case Some
      by (assumption | rule gives_bind gives_detail [OF d] quantity fin)+
  qed (simp add: workspace_override_def us gives_none)
qed (auto simp: workspace_override_def gives_none split: option.split)

text \<open>C25. Whatever the catalogue and the event look like, a GPU cost is not negative if no number in them
  is, its confidence is one of the three levels, an unknown cost is zero, and a measurement
  that fell back to a narrower scope never yields a computed price.\<close>

theorem gpu_cost_sane:
  assumes "nonneg_gpu e" "nonneg_json (JObj d)" "c = resolve_gpu_cost e d env window"
  shows "0 \<le> coeff (cc_cost c) \<and> cc_confidence c \<in> {''computed'', ''estimated'', ''unknown''} \<and>
    (cc_confidence c = ''unknown'' \<longrightarrow> cc_cost c = dec0) \<and>
    (truthy (dict_get d ''_cgroup_scope_fallback'') \<longrightarrow> cc_confidence c \<noteq> ''computed'')"
proof -
  let ?r = "or_else (workspace_override e (billing_model d) d) (dispatch_gpu e (billing_model d) d env window)"
  have "gives gpu_cost_ok (dispatch_gpu e (billing_model d) d env window)"
    unfolding dispatch_gpu_def
    by (intro gives_if gives_gpu [OF assms(1,2)] gives_Inr) (simp_all add: gpu_zero_def)
  then have r: "gives gpu_cost_ok ?r" by (intro gives_or_else gives_override [OF assms(1,2)])
  show ?thesis
  proof (cases ?r)
    case (Inl err)
    then show ?thesis unfolding assms(3) by (simp add: resolve_gpu_cost_def Let_def gpu_zero_def)
  next
    case (Inr x)
    with r have "gpu_cost_ok x" by (simp add: gives_def)
    with Inr show ?thesis unfolding assms(3) by (auto simp: resolve_gpu_cost_def Let_def scoped_def)
  qed
qed

definition reserved_hour :: obj where
  "reserved_hour = [(''billing_model'', JStr ''per_gpu_hour_reserved''), (''gpu_sku'', JStr ''l4''),
     (''gpu_count'', JInt 1), (''gpu_seconds_used'', JInt 3600)]"

lemma not_number: "number_of (JStr ''per_gpu_hour_reserved'') = Inl bad_number" "number_of (JStr ''l4'') = Inl bad_number"
  by (simp_all add: number_of_def decimal_of_text_def Let_def py_strip_def is_space_def is_e_def dec_parse_def
      digit_value.simps)

theorem gpu_cost_sane_witness:
  "0 \<le> coeff (cc_cost (resolve_gpu_cost \<lparr>ge_catalog = [], ge_overrides = []\<rparr> reserved_hour
     \<lparr>env_provider = None, env_region = None, env_instance = None\<rparr> None))"
proof -
  have "nonneg_json (JObj reserved_hour)" by (simp add: reserved_hour_def nonneg_number_def not_number)
  with gpu_cost_sane [OF _ this refl] show ?thesis by (simp add: nonneg_gpu_def)
qed


end
