(* ===== verification/Network_Accountant.thy ===== *)
theory Network_Accountant
  imports Json
begin

text \<open>
  The byte accounting of one task (\<open>network_accountant.py\<close>): totals, a breakdown by host with an
  overflow bucket, and the snapshot taken once when the task ends.

  The lock only makes the operations atomic; a copied task gets a new accountant.
\<close>

definition finalize_cap :: nat where "finalize_cap = 20"
definition live_cap :: nat where "live_cap = 500"

text \<open>Calls, bytes in, bytes out, and the bytes out that leave the network.\<close>

record traffic =
  tr_calls :: int
  tr_in :: int
  tr_out :: int
  tr_external :: int

definition no_traffic :: traffic where
  "no_traffic = \<lparr>tr_calls = 0, tr_in = 0, tr_out = 0, tr_external = 0\<rparr>"

definition add_traffic :: "traffic \<Rightarrow> traffic \<Rightarrow> traffic" where
  "add_traffic a b =
     \<lparr>tr_calls = tr_calls a + tr_calls b, tr_in = tr_in a + tr_in b, tr_out = tr_out a + tr_out b,
      tr_external = tr_external a + tr_external b\<rparr>"

record accountant =
  ac_total :: traffic
  ac_hosts :: "(string \<times> traffic) list"
  ac_other :: traffic
  ac_frozen :: bool

definition new_accountant :: accountant where
  "new_accountant = \<lparr>ac_total = no_traffic, ac_hosts = [], ac_other = no_traffic, ac_frozen = False\<rparr>"

text \<open>The traffic of one call: \<open>is_internal\<close> is None for a host that could not be classified.\<close>

definition call_traffic :: "int \<Rightarrow> int \<Rightarrow> bool option \<Rightarrow> traffic" where
  "call_traffic bytes_in bytes_out is_internal =
     \<lparr>tr_calls = 1, tr_in = max 0 bytes_in, tr_out = max 0 bytes_out,
      tr_external = (if is_internal = Some True then 0 else max 0 bytes_out)\<rparr>"

fun bump :: "string \<Rightarrow> traffic \<Rightarrow> (string \<times> traffic) list \<Rightarrow> (string \<times> traffic) list" where
  "bump k c [] = [(k, c)]"
| "bump k c ((k', c') # hs) = (if k' = k then (k', add_traffic c' c) # hs else (k', c') # bump k c hs)"

definition record_call :: "string \<Rightarrow> int \<Rightarrow> int \<Rightarrow> bool option \<Rightarrow> accountant \<Rightarrow> accountant" where
  "record_call host bytes_in bytes_out is_internal a =
     (let c = call_traffic bytes_in bytes_out is_internal;
          key = (if host = [] then ''_unknown'' else host);
          a1 = a\<lparr>ac_total := add_traffic (ac_total a) c\<rparr>
      in if ac_frozen a then a
         else if key \<in> fst ` set (ac_hosts a) \<or> length (ac_hosts a) < live_cap
         then a1\<lparr>ac_hosts := bump key c (ac_hosts a)\<rparr>
         else a1\<lparr>ac_other := add_traffic (ac_other a) c\<rparr>)"

definition sum_traffic :: "traffic list \<Rightarrow> traffic" where
  "sum_traffic cs = foldr add_traffic cs no_traffic"

text \<open>The snapshot: the hosts with most bytes, the rest in one bucket. The sort is stable and descending.\<close>

definition ranked_hosts :: "accountant \<Rightarrow> (string \<times> traffic) list" where
  "ranked_hosts a = sort_key (\<lambda>(h, c). - (tr_in c + tr_out c)) (ac_hosts a)"

definition other_traffic :: "accountant \<Rightarrow> traffic" where
  "other_traffic a =
     add_traffic (ac_other a)
       (add_traffic (sum_traffic (map snd (drop finalize_cap (ranked_hosts a))))
         (sum_traffic (map snd (filter (\<lambda>(h, c). h = ''_other'') (take finalize_cap (ranked_hosts a))))))"

definition by_host :: "accountant \<Rightarrow> (string \<times> traffic) list" where
  "by_host a =
     filter (\<lambda>(h, c). h \<noteq> ''_other'') (take finalize_cap (ranked_hosts a)) @
     (if 0 < tr_calls (other_traffic a) then [(''_other'', other_traffic a)] else [])"

definition freeze :: "accountant \<Rightarrow> accountant" where
  "freeze a = a\<lparr>ac_frozen := True\<rparr>"

definition host_entry :: "string \<times> traffic \<Rightarrow> obj" where
  "host_entry hc =
     (case hc of (h, c) \<Rightarrow>
        [(''host'', JStr h), (''calls'', JInt (tr_calls c)), (''bytes_in'', JInt (tr_in c)),
         (''bytes_out'', JInt (tr_out c)), (''external_bytes_out'', JInt (tr_external c))])"

text \<open>What \<open>finalize\<close> returns.\<close>

definition network_snapshot :: "accountant \<Rightarrow> obj" where
  "network_snapshot a =
     [(''bytes_in'', JInt (tr_in (ac_total a))), (''bytes_out'', JInt (tr_out (ac_total a))),
      (''external_bytes_out'', JInt (tr_external (ac_total a))), (''call_count'', JInt (tr_calls (ac_total a))),
      (''by_host'', JObj [(''hosts'', JArr (map (\<lambda>hc. JObj (host_entry hc)) (by_host a)))])]"

definition finalize :: "accountant \<Rightarrow> obj \<times> accountant" where
  "finalize a = (network_snapshot (freeze a), freeze a)"

section \<open>Sums\<close>

lemma add_traffic_simps [simp]:
  "add_traffic no_traffic c = c" "add_traffic c no_traffic = c"
  by (cases c; simp add: add_traffic_def no_traffic_def)+

lemma add_traffic_ac:
  "add_traffic (add_traffic a b) c = add_traffic a (add_traffic b c)" "add_traffic a b = add_traffic b a"
  "add_traffic a (add_traffic b c) = add_traffic b (add_traffic a c)"
  by (simp_all add: add_traffic_def)

lemma sum_traffic_simps [simp]:
  "sum_traffic [] = no_traffic" "sum_traffic (c # cs) = add_traffic c (sum_traffic cs)"
  by (simp_all add: sum_traffic_def)

lemma sum_traffic_append: "sum_traffic (cs @ ds) = add_traffic (sum_traffic cs) (sum_traffic ds)"
  by (induction cs) (simp_all add: add_traffic_ac)

lemma sum_traffic_mset: "mset cs = mset ds \<Longrightarrow> sum_traffic cs = sum_traffic ds"
proof (induction cs arbitrary: ds)
  case (Cons c cs)
  from Cons.prems have "c \<in> set ds" by (metis list.set_intros(1) set_mset_mset)
  then obtain xs ys where ds: "ds = xs @ c # ys" by (auto dest: split_list)
  with Cons.prems have "mset cs = mset (xs @ ys)" by simp
  from Cons.IH [OF this] show ?case by (simp add: ds sum_traffic_append add_traffic_ac)
qed simp

lemma sum_traffic_filter:
  "sum_traffic (map snd xs) =
     add_traffic (sum_traffic (map snd (filter P xs))) (sum_traffic (map snd (filter (\<lambda>x. \<not> P x) xs)))"
  by (induction xs) (simp_all add: add_traffic_ac)

lemma bump_sum: "sum_traffic (map snd (bump k c hs)) = add_traffic c (sum_traffic (map snd hs))"
  by (induction k c hs rule: bump.induct) (simp_all add: add_traffic_ac)

lemma bump_keys: "map fst (bump k c hs) = (if k \<in> fst ` set hs then map fst hs else map fst hs @ [k])"
  by (induction k c hs rule: bump.induct) auto

definition plausible :: "traffic \<Rightarrow> bool" where
  "plausible c \<longleftrightarrow> 0 \<le> tr_calls c \<and> 0 \<le> tr_in c \<and> 0 \<le> tr_external c \<and> tr_external c \<le> tr_out c \<and>
     (tr_calls c = 0 \<longrightarrow> c = no_traffic)"

lemma plausible_add: "plausible a \<Longrightarrow> plausible b \<Longrightarrow> plausible (add_traffic a b)"
  by (cases a; cases b) (auto simp: plausible_def add_traffic_def no_traffic_def)

lemma plausible_none [simp]: "plausible no_traffic"
  by (simp add: plausible_def no_traffic_def)

lemma plausible_call [simp]: "plausible (call_traffic i out internal)"
  by (simp add: plausible_def call_traffic_def)

lemma plausible_sum: "\<forall>c \<in> set cs. plausible c \<Longrightarrow> plausible (sum_traffic cs)"
  by (induction cs) (simp_all add: plausible_add)

lemma bump_plausible: "plausible c \<Longrightarrow> \<forall>(h, d) \<in> set hs. plausible d \<Longrightarrow> \<forall>(h, d) \<in> set (bump k c hs). plausible d"
  by (induction k c hs rule: bump.induct) (auto simp: plausible_add)

section \<open>The invariant\<close>

definition accountant_ok :: "accountant \<Rightarrow> bool" where
  "accountant_ok a \<longleftrightarrow>
     ac_total a = add_traffic (ac_other a) (sum_traffic (map snd (ac_hosts a))) \<and>
     distinct (map fst (ac_hosts a)) \<and> length (ac_hosts a) \<le> live_cap \<and>
     plausible (ac_other a) \<and> (\<forall>(h, c) \<in> set (ac_hosts a). plausible c)"

lemma new_accountant_ok: "accountant_ok new_accountant"
  by (simp add: accountant_ok_def new_accountant_def)

lemma bump_length: "length (bump k c hs) = (if k \<in> fst ` set hs then length hs else length hs + 1)"
  by (induction k c hs rule: bump.induct) auto

lemma record_call_ok:
  assumes "accountant_ok a"
  shows "accountant_ok (record_call host i out internal a)"
proof -
  define key where "key = (if host = [] then ''_unknown'' else host)"
  define c where "c = call_traffic i out internal"
  have r: "record_call host i out internal a =
      (if ac_frozen a then a
       else if key \<in> fst ` set (ac_hosts a) \<or> length (ac_hosts a) < live_cap
       then a\<lparr>ac_total := add_traffic (ac_total a) c, ac_hosts := bump key c (ac_hosts a)\<rparr>
       else a\<lparr>ac_total := add_traffic (ac_total a) c, ac_other := add_traffic (ac_other a) c\<rparr>)"
    by (simp add: record_call_def Let_def key_def c_def)
  have ok: "ac_total a = add_traffic (ac_other a) (sum_traffic (map snd (ac_hosts a)))"
      "distinct (map fst (ac_hosts a))" "length (ac_hosts a) \<le> live_cap" "plausible (ac_other a)"
      "\<forall>(h, d) \<in> set (ac_hosts a). plausible d" "plausible c"
    using assms by (simp_all add: accountant_ok_def c_def)
  have "distinct (map fst (bump key c (ac_hosts a)))"
    unfolding bump_keys using ok(2) by (cases "key \<in> fst ` set (ac_hosts a)") simp_all
  moreover have "length (bump key c (ac_hosts a)) \<le> live_cap"
    if "key \<in> fst ` set (ac_hosts a) \<or> length (ac_hosts a) < live_cap"
    unfolding bump_length using that ok(3) by (cases "key \<in> fst ` set (ac_hosts a)") simp_all
  moreover note bump_plausible [OF ok(6,5), of key]
  ultimately show ?thesis
    unfolding r accountant_ok_def using ok by (simp add: bump_sum add_traffic_ac plausible_add)
qed

lemma freeze_ok: "accountant_ok a \<Longrightarrow> accountant_ok (freeze a)"
  by (simp add: accountant_ok_def freeze_def)

text \<open>Calls in the order they were recorded.\<close>

fun record_calls :: "(string \<times> int \<times> int \<times> bool option) list \<Rightarrow> accountant \<Rightarrow> accountant" where
  "record_calls [] a = a"
| "record_calls ((h, i, out, internal) # cs) a = record_calls cs (record_call h i out internal a)"

lemma record_calls_ok: "accountant_ok a \<Longrightarrow> accountant_ok (record_calls cs a)"
  by (induction cs a rule: record_calls.induct) (simp_all add: record_call_ok)

lemma by_host_sum:
  assumes "accountant_ok a"
  shows "sum_traffic (map snd (by_host a)) = ac_total a"
proof -
  let ?R = "ranked_hosts a" and ?isother = "\<lambda>hc. fst hc = ''_other''"
  have mset: "mset (map snd ?R) = mset (map snd (ac_hosts a))"
    by (simp add: ranked_hosts_def)
  let ?T = "take finalize_cap ?R" and ?D = "drop finalize_cap ?R"
  have split: "sum_traffic (map snd ?R) = add_traffic (sum_traffic (map snd ?T)) (sum_traffic (map snd ?D))"
    by (metis append_take_drop_id map_append sum_traffic_append)
  have T: "sum_traffic (map snd ?T) = add_traffic (sum_traffic (map snd (filter ?isother ?T)))
      (sum_traffic (map snd (filter (\<lambda>hc. \<not> ?isother hc) ?T)))"
    by (rule sum_traffic_filter)
  have P: "(\<lambda>(h, c :: traffic). h = ''_other'') = ?isother" "(\<lambda>(h, c :: traffic). h \<noteq> ''_other'') = (\<lambda>hc. \<not> ?isother hc)"
    by auto
  have all: "\<forall>c \<in> set (map snd ?R). plausible c"
    using assms by (auto simp: ranked_hosts_def accountant_ok_def)
  then have "\<forall>c \<in> set (map snd ?D). plausible c" "\<forall>c \<in> set (map snd (filter ?isother ?T)). plausible c"
    by (fastforce dest: in_set_takeD in_set_dropD)+
  then have pl: "plausible (other_traffic a)"
    using assms by (simp add: other_traffic_def P plausible_add plausible_sum accountant_ok_def)
  have "sum_traffic (map snd (by_host a)) =
      add_traffic (sum_traffic (map snd (filter (\<lambda>hc. \<not> ?isother hc) ?T))) (other_traffic a)"
    using pl by (auto simp: by_host_def P sum_traffic_append plausible_def)
  also have "\<dots> = add_traffic (ac_other a) (sum_traffic (map snd ?R))"
    unfolding split T other_traffic_def P by (simp only: add_traffic_ac)
  also have "\<dots> = ac_total a"
    using sum_traffic_mset [OF mset] assms by (simp add: accountant_ok_def)
  finally show ?thesis .
qed

lemma by_host_shape:
  assumes "accountant_ok a"
  shows "distinct (map fst (by_host a)) \<and> length (by_host a) \<le> finalize_cap + 1 \<and>
    (\<forall>(h, c) \<in> set (by_host a). plausible c)"
proof -
  have R: "distinct (map fst (ranked_hosts a))" "\<forall>(h, c) \<in> set (ranked_hosts a). plausible c"
    using assms by (simp_all add: ranked_hosts_def accountant_ok_def distinct_map)
  then have T: "distinct (map fst (take finalize_cap (ranked_hosts a)))" by (simp add: take_map [symmetric] distinct_take)
  have "length (filter (\<lambda>(h, c). h \<noteq> ''_other'') (take finalize_cap (ranked_hosts a))) \<le> finalize_cap"
    by (rule order_trans [OF length_filter_le]) simp
  moreover have "plausible (other_traffic a)"
    unfolding other_traffic_def using assms R(2)
    by (intro plausible_add plausible_sum) (fastforce simp: accountant_ok_def dest: in_set_takeD in_set_dropD)+
  ultimately show ?thesis
    using T R(2) distinct_map_filter [OF T, of "\<lambda>(h, c). h \<noteq> ''_other''"]
    by (auto simp: by_host_def dest: in_set_takeD)
qed

section \<open>Property\<close>

text \<open>C19. No byte is lost or counted twice: whatever calls a task makes, the breakdown by host adds up to
  the totals in every column, has at most twenty hosts and the overflow bucket, names no host
  twice (not even a real host called \<open>_other\<close>), and no host has more external than outgoing
  bytes. Once the snapshot is taken, later calls change nothing.\<close>

theorem traffic_conserved:
  assumes "a = record_calls calls new_accountant"
  shows "sum_traffic (map snd (by_host a)) = ac_total a \<and>
    tr_calls (ac_total a) = int (length calls) \<and>
    length (by_host a) \<le> 21 \<and> distinct (map fst (by_host a)) \<and>
    (\<forall>(h, c) \<in> set (by_host a). 0 \<le> tr_external c \<and> tr_external c \<le> tr_out c) \<and>
    record_calls later (freeze a) = freeze a"
proof -
  have ok: "accountant_ok a" unfolding assms by (rule record_calls_ok [OF new_accountant_ok])
  have calls: "ac_frozen b = False \<Longrightarrow> tr_calls (ac_total (record_calls cs b)) = tr_calls (ac_total b) + int (length cs)"
    for cs b
    by (induction cs b rule: record_calls.induct)
      (simp_all add: record_call_def Let_def add_traffic_def call_traffic_def)
  have "record_calls later b = b" if "ac_frozen b" for b
    using that by (induction later b rule: record_calls.induct) (simp_all add: record_call_def)
  then show ?thesis
    using by_host_sum [OF ok] by_host_shape [OF ok] calls [of new_accountant calls] assms
    by (auto simp: finalize_cap_def new_accountant_def no_traffic_def freeze_def plausible_def)
qed

theorem traffic_conserved_witness:
  "sum_traffic (map snd (by_host (record_calls [(''a'', 5, 7, None), (''_other'', 1, 2, Some True)] new_accountant))) =
     \<lparr>tr_calls = 2, tr_in = 6, tr_out = 9, tr_external = 7\<rparr>"
proof -
  have "ac_total (record_calls [(''a'', 5, 7, None), (''_other'', 1, 2, Some True)] new_accountant) =
      \<lparr>tr_calls = 2, tr_in = 6, tr_out = 9, tr_external = 7\<rparr>"
    by (simp add: record_call_def call_traffic_def add_traffic_def new_accountant_def no_traffic_def live_cap_def Let_def)
  with traffic_conserved [OF refl, of "[(''a'', 5, 7, None), (''_other'', 1, 2, Some True)]"] show ?thesis by simp
qed

end
