(* ===== verification/Rates.thy ===== *)
theory Rates
  imports Redaction "HOL-Library.AList"
begin

text \<open>
  The registry of user-defined rates (\<open>rates.py\<close>): unit rates of services, explicit rates of
  GPUs and networks, the cached pricing version, and the YAML form they are loaded from and
  exported to.

  A dict is the association list of its items. The YAML library is not modelled: a file is the
  value \<open>safe_load\<close> returns, and the export is the value handed to \<open>dump\<close>. SHA-256 is the
  argument \<open>sha256hex\<close>. Amounts arrive as the text \<open>str(cost_usd)\<close>.
\<close>

section \<open>Amounts\<close>

text \<open>
  \<open>register\<close> takes whatever \<open>Decimal\<close> accepts, so a rate can be an infinity or a NaN; it is
  kept as its text. Only a signalling NaN has no canonical text.
\<close>

datatype amount = Finite dec | NonFinite string

definition non_finite_text :: "string \<Rightarrow> string" where
  "non_finite_text s =
     (let t = map lower_char (strip_sign s);
          sign = (if take 1 s = ''-'' then ''-'' else []);
          payload = (\<lambda>k. dropWhile (\<lambda>c. c = CHR ''0'') (drop k t))
      in if take 3 t = ''inf'' then sign @ ''Infinity''
         else if take 3 t = ''nan'' then sign @ ''NaN'' @ payload 3
         else sign @ ''sNaN'' @ payload 4)"

definition conversion_syntax :: py_error where
  "conversion_syntax = InvalidOperation ''[<class 'decimal.ConversionSyntax'>]''"

text \<open>\<open>Decimal(text)\<close>.\<close>

definition amount_of_text :: "string \<Rightarrow> py_error + amount" where
  "amount_of_text s =
     (case decimal_of_text s of
        DecInvalid \<Rightarrow> Inl conversion_syntax
      | DecNonFinite \<Rightarrow> Inr (NonFinite (non_finite_text (filter (\<lambda>c. c \<noteq> CHR ''_'') (py_strip s))))
      | DecFinite d \<Rightarrow> Inr (Finite d))"

definition signalling :: "string \<Rightarrow> bool" where
  "signalling t \<longleftrightarrow> take 1 (strip_sign t) = ''s''"

text \<open>\<open>_decimal_text\<close>.\<close>

definition amount_text :: "amount \<Rightarrow> py_error + string" where
  "amount_text a =
     (case a of
        Finite d \<Rightarrow> Inr (decimal_text d)
      | NonFinite t \<Rightarrow>
          if signalling t then Inl (InvalidOperation ''[<class 'decimal.InvalidOperation'>]'') else Inr t)"

text \<open>\<open>_positive_decimal\<close>.\<close>

definition positive_decimal :: "string \<Rightarrow> py_error + dec" where
  "positive_decimal s =
     (case decimal_of_text s of
        DecFinite d \<Rightarrow> if 0 < coeff d then Inr d else Inl (ValueError '' must be a positive finite decimal.'')
      | _ \<Rightarrow> Inl (ValueError '' must be a positive finite decimal.''))"

section \<open>The registry\<close>

record rate_entry =
  re_service :: string
  re_per :: string
  re_cost :: amount

record infra_entry =
  ie_kind :: string
  ie_key :: string
  ie_per :: string
  ie_cost :: dec

record registry =
  rg_rates :: "(string \<times> rate_entry) list"
  rg_infra :: "((string \<times> string) \<times> infra_entry) list"
  rg_version :: "string option"

definition empty_registry :: registry where
  "empty_registry = \<lparr>rg_rates = [], rg_infra = [], rg_version = None\<rparr>"

definition infrastructure_units :: "(string \<times> string list) list" where
  "infrastructure_units =
     [(''gpu'', [''gpu_second'', ''gpu_hour'']), (''network'', [''gb_transferred'', ''gb_egress''])]"

text \<open>\<open>re.sub("[^a-z0-9]+", "-", s)\<close>; the flag tells whether a run has already been replaced.\<close>

fun dash_runs :: "bool \<Rightarrow> string \<Rightarrow> string" where
  "dash_runs run [] = []"
| "dash_runs run (c # cs) =
     (if is_lower_alnum c then c # dash_runs False cs
      else if run then dash_runs True cs
      else CHR ''-'' # dash_runs True cs)"

definition normalize_infrastructure_key :: "string \<Rightarrow> string" where
  "normalize_infrastructure_key value =
     strip_set {CHR ''-''} (dash_runs False (py_lower (py_strip value)))"

text \<open>The registering operations return the exception they raise, and the registry.\<close>

definition register :: "string \<Rightarrow> string \<Rightarrow> string \<Rightarrow> registry \<Rightarrow> py_error option \<times> registry" where
  "register service per cost r =
     (case amount_of_text cost of
        Inl e \<Rightarrow> (Some e, r)
      | Inr a \<Rightarrow>
          (None, r\<lparr>rg_rates := AList.update service \<lparr>re_service = service, re_per = per, re_cost = a\<rparr> (rg_rates r),
                   rg_version := None\<rparr>))"

definition get_rate :: "string \<Rightarrow> registry \<Rightarrow> rate_entry option" where
  "get_rate service r = map_of (rg_rates r) service"

text \<open>The entry \<open>register_infrastructure\<close> builds, its checks in order.\<close>

definition infra_entry_of :: "string \<Rightarrow> string \<Rightarrow> string \<Rightarrow> string \<Rightarrow> py_error + infra_entry" where
  "infra_entry_of kind key per cost =
     (let kd = py_lower (py_strip kind); ky = normalize_infrastructure_key key; pr = py_lower (py_strip per)
      in case map_of infrastructure_units kd of
           None \<Rightarrow> Inl (ValueError ''Infrastructure kind must be 'gpu' or 'network'.'')
         | Some units \<Rightarrow>
             if ky = [] then Inl (ValueError ''Infrastructure rate key cannot be empty.'')
             else if pr \<notin> set units then Inl (ValueError ''Infrastructure rate .per must be one of: '')
             else map_sum id (\<lambda>d. \<lparr>ie_kind = kd, ie_key = ky, ie_per = pr, ie_cost = d\<rparr>) (positive_decimal cost))"

definition register_infrastructure ::
    "string \<Rightarrow> string \<Rightarrow> string \<Rightarrow> string \<Rightarrow> registry \<Rightarrow> py_error option \<times> registry" where
  "register_infrastructure kind key per cost r =
     (case infra_entry_of kind key per cost of
        Inl e \<Rightarrow> (Some e, r)
      | Inr x \<Rightarrow> (None, r\<lparr>rg_infra := AList.update (ie_kind x, ie_key x) x (rg_infra r), rg_version := None\<rparr>))"

definition get_infrastructure :: "string \<Rightarrow> string \<Rightarrow> registry \<Rightarrow> infra_entry option" where
  "get_infrastructure kind key r =
     map_of (rg_infra r) (py_lower (py_strip kind), normalize_infrastructure_key key)"

section \<open>The pricing version\<close>

definition rate_part :: "registry \<Rightarrow> string \<Rightarrow> py_error + string" where
  "rate_part r service =
     (let x = the (get_rate service r)
      in map_sum id (\<lambda>c. service @ '':'' @ re_per x @ '':'' @ c) (amount_text (re_cost x)))"

definition infra_part :: "registry \<Rightarrow> string \<times> string \<Rightarrow> py_error + string" where
  "infra_part r k =
     (let x = the (map_of (rg_infra r) k)
      in Inr (''infrastructure:'' @ fst k @ '':'' @ snd k @ '':'' @ ie_per x @ '':'' @ decimal_text (ie_cost x)))"

definition version_text :: "registry \<Rightarrow> py_error + string" where
  "version_text r =
     (case collect (rate_part r) (sort (map fst (rg_rates r))) of
        Inl e \<Rightarrow> Inl e
      | Inr ps \<Rightarrow>
          map_sum id (\<lambda>qs. join ''|'' (ps @ qs)) (collect (infra_part r) (sort (map fst (rg_infra r)))))"

definition compute_version :: "(string \<Rightarrow> string) \<Rightarrow> registry \<Rightarrow> py_error + string" where
  "compute_version sha256hex r = map_sum id (\<lambda>raw. take 12 (sha256hex raw)) (version_text r)"

definition pricing_version :: "(string \<Rightarrow> string) \<Rightarrow> registry \<Rightarrow> (py_error + string) \<times> registry" where
  "pricing_version sha256hex r =
     (case rg_version r of
        Some v \<Rightarrow> (Inr v, r)
      | None \<Rightarrow> (case compute_version sha256hex r of
                   Inl e \<Rightarrow> (Inl e, r)
                 | Inr v \<Rightarrow> (Inr v, r\<lparr>rg_version := Some v\<rparr>)))"

section \<open>YAML\<close>

text \<open>
  What \<open>safe_load\<close> returns; \<open>YOther\<close> is any other object (float, date, list), known by its
  \<open>str\<close>, its \<open>repr\<close> and its truth value. Keys of a mapping are distinct.
\<close>

datatype yaml =
    YNull
  | YBool bool
  | YInt int
  | YStr string
  | YMap "(yaml \<times> yaml) list"
  | YOther string string bool

fun yaml_repr :: "yaml \<Rightarrow> string" where
  "yaml_repr YNull = ''None''"
| "yaml_repr (YBool b) = (if b then ''True'' else ''False'')"
| "yaml_repr (YInt i) = show_int i"
| "yaml_repr (YStr s) = repr_str s"
| "yaml_repr (YMap kvs) =
     ''{'' @ join '', '' (map (\<lambda>(k, v). yaml_repr k @ '': '' @ yaml_repr v) kvs) @ ''}''"
| "yaml_repr (YOther s r t) = r"

definition yaml_str :: "yaml \<Rightarrow> string" where
  "yaml_str y = (case y of YStr s \<Rightarrow> s | YOther s r t \<Rightarrow> s | _ \<Rightarrow> yaml_repr y)"

definition yaml_truthy :: "yaml \<Rightarrow> bool" where
  "yaml_truthy y =
     (case y of YNull \<Rightarrow> False | YBool b \<Rightarrow> b | YInt i \<Rightarrow> i \<noteq> 0 | YStr s \<Rightarrow> s \<noteq> []
      | YMap kvs \<Rightarrow> kvs \<noteq> [] | YOther s r t \<Rightarrow> t)"

definition yaml_get :: "(yaml \<times> yaml) list \<Rightarrow> string \<Rightarrow> yaml option" where
  "yaml_get kvs k = map_of kvs (YStr k)"

definition yaml_default :: "(yaml \<times> yaml) list \<Rightarrow> string \<Rightarrow> yaml \<Rightarrow> yaml" where
  "yaml_default kvs k d = (case yaml_get kvs k of None \<Rightarrow> d | Some v \<Rightarrow> v)"

text \<open>The entries of the file, read before any of them is registered.\<close>

definition pending_rate :: "yaml \<times> yaml \<Rightarrow> py_error + (string \<times> string \<times> string)" where
  "pending_rate = (\<lambda>(service, info).
     case info of
       YMap i \<Rightarrow> (case yaml_get i ''cost_usd'' of
           None \<Rightarrow> Inl (ValueError '' must be a mapping with at least 'cost_usd'.'')
         | Some c \<Rightarrow> Inr (yaml_str service, yaml_str (yaml_default i ''per'' (YStr ''unit'')), yaml_str c))
     | _ \<Rightarrow> Inl (ValueError '' must be a mapping with at least 'cost_usd'.''))"

fun pending_infra ::
    "string \<Rightarrow> string set \<Rightarrow> (yaml \<times> yaml) list \<Rightarrow> py_error + (string \<times> string \<times> string \<times> string) list" where
  "pending_infra kind seen [] = Inr []"
| "pending_infra kind seen ((k, info) # kvs) =
     (case k of
        YStr key \<Rightarrow>
          (let n = normalize_infrastructure_key key
           in if n \<in> seen then Inl (ValueError '' duplicates normalized key '')
              else (case info of
                      YMap i \<Rightarrow>
                        (case (yaml_get i ''per'', yaml_get i ''cost_usd'') of
                           (Some p, Some c) \<Rightarrow>
                             map_sum id (Cons (kind, key, yaml_str p, yaml_str c))
                               (pending_infra kind (insert n seen) kvs)
                         | _ \<Rightarrow> Inl (ValueError '' must contain 'per' and 'cost_usd'.''))
                    | _ \<Rightarrow> Inl (ValueError '' must contain 'per' and 'cost_usd'.'')))
      | _ \<Rightarrow> Inl (ValueError '' must be a string.''))"

definition pending_kind :: "yaml \<times> yaml \<Rightarrow> py_error + (string \<times> string \<times> string \<times> string) list" where
  "pending_kind = (\<lambda>(kind, entries).
     case entries of
       YMap kvs \<Rightarrow> pending_infra (yaml_str kind) {} kvs
     | _ \<Rightarrow> Inl (ValueError ''Expected 'infrastructure.' to be a mapping.''))"

type_synonym rates_file = "(string \<times> string \<times> string) list \<times> (string \<times> string \<times> string \<times> string) list"

definition read_infrastructure ::
    "int \<Rightarrow> yaml \<Rightarrow> py_error + (string \<times> string \<times> string \<times> string) list" where
  "read_infrastructure version data =
     (case data of
        YMap kinds \<Rightarrow>
          if kinds \<noteq> [] \<and> version \<noteq> 2
          then Inl (ValueError ''Infrastructure rates require rates YAML version: 2.'')
          else if \<exists>(k, v) \<in> set kinds. k \<notin> (YStr \<circ> fst) ` set infrastructure_units
          then Inl (ValueError ''Unsupported infrastructure rate kind(s): '')
          else map_sum id concat (collect pending_kind kinds)
      | _ \<Rightarrow> Inl (ValueError ''Expected 'infrastructure' to be a mapping in the YAML file.''))"

definition read_rates :: "yaml \<Rightarrow> py_error + rates_file" where
  "read_rates doc =
     (case (if yaml_truthy doc then doc else YMap []) of
        YMap parsed \<Rightarrow>
          (case yaml_default parsed ''version'' (YInt 1) of
             YInt version \<Rightarrow>
               if version \<noteq> 1 \<and> version \<noteq> 2 then Inl (ValueError ''Rates YAML 'version' must be 1 or 2.'')
               else (case yaml_default parsed ''rates'' (YMap []) of
                       YMap rates \<Rightarrow>
                         (case collect pending_rate rates of
                            Inl e \<Rightarrow> Inl e
                          | Inr ps \<Rightarrow>
                              map_sum id (Pair ps)
                                (read_infrastructure version (yaml_default parsed ''infrastructure'' (YMap []))))
                     | _ \<Rightarrow> Inl (ValueError ''Expected 'rates' key with a mapping in the YAML file.''))
           | _ \<Rightarrow> Inl (ValueError ''Rates YAML 'version' must be 1 or 2.''))
      | _ \<Rightarrow> Inl (ValueError ''Expected a mapping at the root of the YAML file.''))"

fun register_all :: "(string \<times> string \<times> string) list \<Rightarrow> registry \<Rightarrow> py_error option \<times> registry" where
  "register_all [] r = (None, r)"
| "register_all ((s, p, c) # ps) r =
     (case register s p c r of (None, r') \<Rightarrow> register_all ps r' | failed \<Rightarrow> failed)"

fun register_infra_all ::
    "(string \<times> string \<times> string \<times> string) list \<Rightarrow> registry \<Rightarrow> py_error option \<times> registry" where
  "register_infra_all [] r = (None, r)"
| "register_infra_all ((k, y, p, c) # qs) r =
     (case register_infrastructure k y p c r of (None, r') \<Rightarrow> register_infra_all qs r' | failed \<Rightarrow> failed)"

definition register_file :: "rates_file \<Rightarrow> registry \<Rightarrow> py_error option \<times> registry" where
  "register_file f r =
     (case register_all (fst f) r of (None, r') \<Rightarrow> register_infra_all (snd f) r' | failed \<Rightarrow> failed)"

text \<open>\<open>load\<close>, after the file has been read: everything is tried on an empty registry first.\<close>

definition load_rates :: "yaml \<Rightarrow> registry \<Rightarrow> py_error option \<times> registry" where
  "load_rates doc r =
     (case read_rates doc of
        Inl e \<Rightarrow> (Some e, r)
      | Inr f \<Rightarrow> (case register_file f empty_registry of
                    (Some e, _) \<Rightarrow> (Some e, r)
                  | (None, _) \<Rightarrow> register_file f r))"

section \<open>Export\<close>

definition rate_yaml :: "string \<Rightarrow> string \<Rightarrow> yaml" where
  "rate_yaml per cost = YMap [(YStr ''per'', YStr per), (YStr ''cost_usd'', YStr cost)]"

definition export_rate :: "registry \<Rightarrow> string \<Rightarrow> py_error + (yaml \<times> yaml)" where
  "export_rate r service =
     (let x = the (get_rate service r)
      in map_sum id (\<lambda>c. (YStr service, rate_yaml (re_per x) c)) (amount_text (re_cost x)))"

definition export_kind :: "registry \<Rightarrow> string \<Rightarrow> (yaml \<times> yaml) list" where
  "export_kind r kind =
     map (\<lambda>k. let x = the (map_of (rg_infra r) k)
              in (YStr (snd k), rate_yaml (ie_per x) (decimal_text (ie_cost x))))
       (filter (\<lambda>k. fst k = kind) (sort (map fst (rg_infra r))))"

definition export_infrastructure :: "registry \<Rightarrow> (yaml \<times> yaml) list" where
  "export_infrastructure r =
     map (\<lambda>kind. (YStr kind, YMap (export_kind r kind)))
       (filter (\<lambda>kind. export_kind r kind \<noteq> []) (sort (map fst infrastructure_units)))"

definition export_rates :: "registry \<Rightarrow> py_error + yaml" where
  "export_rates r =
     map_sum id (\<lambda>rates.
         YMap ([(YStr ''version'', YInt 2), (YStr ''rates'', YMap rates)] @
               (if export_infrastructure r = [] then []
                else [(YStr ''infrastructure'', YMap (export_infrastructure r))])))
       (collect (export_rate r) (sort (map fst (rg_rates r))))"

section \<open>Keys\<close>

fun no_double :: "string \<Rightarrow> bool" where
  "no_double (a # b # s) \<longleftrightarrow> \<not> (a = CHR ''-'' \<and> b = CHR ''-'') \<and> no_double (b # s)"
| "no_double s \<longleftrightarrow> True"

definition key_char :: "char \<Rightarrow> bool" where
  "key_char c \<longleftrightarrow> is_lower_alnum c \<or> c = CHR ''-''"

lemma dash_not_alnum: "\<not> is_lower_alnum CHR ''-''"
  by (simp add: is_lower_alnum_def less_eq_char_def)

lemma dash_runs_shape:
  "list_all key_char (dash_runs run s) \<and> no_double (dash_runs run s) \<and>
   (run \<longrightarrow> dash_runs run s = [] \<or> hd (dash_runs run s) \<noteq> CHR ''-'')"
proof (induction run s rule: dash_runs.induct)
  case (2 run c cs)
  then show ?case
    using dash_not_alnum
    by (cases "dash_runs False cs"; cases "dash_runs True cs"; cases run) (auto simp: key_char_def)
qed (simp add: key_char_def)

lemma no_double_append: "no_double (xs @ ys) \<Longrightarrow> no_double xs \<and> no_double ys"
proof (induction xs)
  case (Cons a xs)
  then show ?case by (cases xs; cases ys) simp_all
qed simp

lemma strip_set_factor: "\<exists>a b. s = a @ strip_set cs s @ b"
proof -
  let ?d = "dropWhile (\<lambda>c. c \<in> cs) s"
  have "s = takeWhile (\<lambda>c. c \<in> cs) s @ ?d" by simp
  moreover have "?d = strip_set cs s @ rev (takeWhile (\<lambda>c. c \<in> cs) (rev ?d))"
    unfolding strip_set_def by (metis rev_append rev_rev_ident takeWhile_dropWhile_id)
  ultimately show ?thesis by metis
qed

lemma strip_set_ends: "strip_set cs s \<noteq> [] \<Longrightarrow> hd (strip_set cs s) \<notin> cs \<and> last (strip_set cs s) \<notin> cs"
proof -
  define d where "d = dropWhile (\<lambda>c. c \<in> cs) s"
  define r where "r = dropWhile (\<lambda>c. c \<in> cs) (rev d)"
  have st: "strip_set cs s = rev r" by (simp add: strip_set_def d_def r_def)
  assume "strip_set cs s \<noteq> []"
  then have r: "r \<noteq> []" by (simp add: st)
  then have l: "hd r \<notin> cs" unfolding r_def by (rule hd_dropWhile)
  have "d \<noteq> []" using r by (auto simp: r_def)
  then have h: "hd d \<notin> cs" unfolding d_def by (rule hd_dropWhile)
  obtain b where "d = rev r @ b" unfolding r_def by (metis rev_append rev_rev_ident takeWhile_dropWhile_id)
  then have "hd d = hd (rev r)" using r by (simp add: hd_append)
  with h l r show ?thesis by (simp add: st last_rev)
qed

lemma dash_runs_id: "list_all key_char s \<Longrightarrow> no_double s \<Longrightarrow> dash_runs False s = s"
proof (induction s rule: no_double.induct)
  case (1 a b s)
  then show ?case using dash_not_alnum by (auto simp: key_char_def)
qed (auto simp: key_char_def)

lemma key_char_lower: "key_char c \<Longrightarrow> lower_char c = c \<and> \<not> is_space c"
proof -
  assume "key_char c"
  then have "of_char c = (45 :: nat) \<or> (97 \<le> (of_char c :: nat) \<and> (of_char c :: nat) \<le> 122) \<or>
      (48 \<le> (of_char c :: nat) \<and> (of_char c :: nat) \<le> 57)"
    by (auto simp: key_char_def is_lower_alnum_def less_eq_char_def)
  then show ?thesis by (auto simp: lower_char_def is_space_def)
qed

lemma normalize_key_idem:
  "normalize_infrastructure_key (normalize_infrastructure_key v) = normalize_infrastructure_key v"
proof -
  define s where "s = dash_runs False (py_lower (py_strip v))"
  define n where "n = strip_set {CHR ''-''} s"
  obtain a b where "s = a @ n @ b" unfolding n_def using strip_set_factor by blast
  moreover have "list_all key_char s" "no_double s" using dash_runs_shape unfolding s_def by blast+
  ultimately have n: "list_all key_char n" "no_double n" by (auto dest!: no_double_append)
  have ends: "n = [] \<or> hd n \<noteq> CHR ''-'' \<and> last n \<noteq> CHR ''-''" using strip_set_ends [of "{CHR ''-''}" s] by (auto simp: n_def)
  have "py_lower n = n" using n(1) key_char_lower by (simp add: py_lower_def list_all_iff map_idI)
  moreover have "py_strip n = n"
    by (rule py_strip_id) (use n(1) key_char_lower in \<open>auto simp: list_all_iff\<close>)
  moreover have "strip_set {CHR ''-''} n = n"
  proof (cases "n = []")
    case False
    with ends have "dropWhile (\<lambda>c. c \<in> {CHR ''-''}) n = n" by (cases n) simp_all
    moreover have "dropWhile (\<lambda>c. c \<in> {CHR ''-''}) (rev n) = rev n"
      using False ends by (cases n rule: rev_cases) simp_all
    ultimately show ?thesis by (simp add: strip_set_def)
  qed (simp add: strip_set_def)
  ultimately have "normalize_infrastructure_key n = n"
    by (simp add: normalize_infrastructure_key_def dash_runs_id [OF n])
  then show ?thesis by (simp add: n_def s_def normalize_infrastructure_key_def)
qed

section \<open>Registering\<close>

lemma set_alist_update: "set (AList.update k v al) \<subseteq> insert (k, v) (set al)"
  by (induction al) auto

definition infra_ok :: "infra_entry \<Rightarrow> bool" where
  "infra_ok x \<longleftrightarrow>
     (\<exists>units. map_of infrastructure_units (ie_kind x) = Some units \<and> ie_per x \<in> set units) \<and> ie_key x \<noteq> [] \<and>
     normalize_infrastructure_key (ie_key x) = ie_key x \<and> 0 < coeff (ie_cost x)"

definition registry_ok :: "registry \<Rightarrow> bool" where
  "registry_ok r \<longleftrightarrow>
     distinct (map fst (rg_rates r)) \<and> distinct (map fst (rg_infra r)) \<and>
     (\<forall>(s, x) \<in> set (rg_rates r). re_service x = s) \<and>
     (\<forall>(k, x) \<in> set (rg_infra r). k = (ie_kind x, ie_key x) \<and> infra_ok x)"

definition cache_ok :: "(string \<Rightarrow> string) \<Rightarrow> registry \<Rightarrow> bool" where
  "cache_ok sha r \<longleftrightarrow> (\<forall>v. rg_version r = Some v \<longrightarrow> compute_version sha r = Inr v)"

lemma positive_decimal_pos: "positive_decimal s = Inr d \<Longrightarrow> 0 < coeff d"
  by (auto simp: positive_decimal_def split: dec_result.splits if_splits)

lemma infra_entry_ok: "infra_entry_of kind key per cost = Inr x \<Longrightarrow> infra_ok x"
  by (auto simp: infra_entry_of_def infra_ok_def Let_def normalize_key_idem positive_decimal_pos map_sum_def
      split: option.splits if_splits sum.splits)

lemma empty_registry_ok: "registry_ok empty_registry" "cache_ok sha empty_registry"
  by (simp_all add: registry_ok_def cache_ok_def empty_registry_def)

lemma register_keeps:
  assumes "registry_ok r" "cache_ok sha r"
  shows "registry_ok (snd (register s p c r)) \<and> cache_ok sha (snd (register s p c r))"
proof (cases "amount_of_text c")
  case (Inr a)
  let ?x = "\<lparr>re_service = s, re_per = p, re_cost = a\<rparr>"
  have "set (AList.update s ?x (rg_rates r)) \<subseteq> insert (s, ?x) (set (rg_rates r))" by (rule set_alist_update)
  with Inr assms show ?thesis
    by (fastforce simp: register_def registry_ok_def cache_ok_def distinct_update)
qed (use assms in \<open>simp add: register_def\<close>)

lemma register_infrastructure_keeps:
  assumes "registry_ok r" "cache_ok sha r"
  shows "registry_ok (snd (register_infrastructure k y p c r)) \<and> cache_ok sha (snd (register_infrastructure k y p c r))"
proof (cases "infra_entry_of k y p c")
  case (Inr x)
  have "set (AList.update (ie_kind x, ie_key x) x (rg_infra r)) \<subseteq> insert ((ie_kind x, ie_key x), x) (set (rg_infra r))"
    by (rule set_alist_update)
  with Inr assms infra_entry_ok [OF Inr] show ?thesis
    by (fastforce simp: register_infrastructure_def registry_ok_def cache_ok_def distinct_update)
qed (use assms in \<open>simp add: register_infrastructure_def\<close>)

lemma register_all_rule:
  assumes "P r" "\<And>s p c r. P r \<Longrightarrow> P (snd (register s p c r))"
  shows "P (snd (register_all ps r))"
  using assms(1)
proof (induction ps r rule: register_all.induct)
  case (2 s p c ps r)
  show ?case
  proof (cases "register s p c r")
    case (Pair e r')
    with assms(2) [OF 2(2), of s p c] 2(1) show ?thesis by (cases e) simp_all
  qed
qed simp

lemma register_infra_all_rule:
  assumes "P r" "\<And>k y p c r. P r \<Longrightarrow> P (snd (register_infrastructure k y p c r))"
  shows "P (snd (register_infra_all qs r))"
  using assms(1)
proof (induction qs r rule: register_infra_all.induct)
  case (2 k y p c qs r)
  show ?case
  proof (cases "register_infrastructure k y p c r")
    case (Pair e r')
    with assms(2) [OF 2(2), of k y p c] 2(1) show ?thesis by (cases e) simp_all
  qed
qed simp

lemma register_file_rule:
  assumes "P r" "\<And>s p c r. P r \<Longrightarrow> P (snd (register s p c r))"
    "\<And>k y p c r. P r \<Longrightarrow> P (snd (register_infrastructure k y p c r))"
  shows "P (snd (register_file f r))"
proof -
  have "P (snd (register_all (fst f) r))" by (rule register_all_rule [of P, OF assms(1,2)])
  then show ?thesis
    using register_infra_all_rule [of P _ "snd f", OF _ assms(3)]
    by (cases "register_all (fst f) r"; cases "fst (register_all (fst f) r)") (auto simp: register_file_def)
qed

lemma load_rates_keeps:
  assumes "registry_ok r" "cache_ok sha r"
  shows "registry_ok (snd (load_rates doc r)) \<and> cache_ok sha (snd (load_rates doc r))"
proof -
  have "registry_ok (snd (register_file f r)) \<and> cache_ok sha (snd (register_file f r))" for f
    by (rule register_file_rule [of "\<lambda>r. registry_ok r \<and> cache_ok sha r"])
      (use assms register_keeps register_infrastructure_keeps in auto)
  with assms show ?thesis by (auto simp: load_rates_def split: sum.split prod.split option.split)
qed

lemma version_text_update [simp]: "version_text (r\<lparr>rg_version := v\<rparr>) = version_text r"
proof -
  have "rate_part (r\<lparr>rg_version := v\<rparr>) = rate_part r" "infra_part (r\<lparr>rg_version := v\<rparr>) = infra_part r"
    by (simp_all add: fun_eq_iff rate_part_def infra_part_def get_rate_def)
  then show ?thesis by (simp add: version_text_def cong: sum.case_cong)
qed

lemma pricing_version_keeps:
  assumes "registry_ok r" "cache_ok sha r"
  shows "registry_ok (snd (pricing_version sha r)) \<and> cache_ok sha (snd (pricing_version sha r)) \<and>
    fst (pricing_version sha r) = compute_version sha r"
  using assms
  by (auto simp: pricing_version_def registry_ok_def cache_ok_def compute_version_def split: option.split sum.split)

subsection \<open>A whole file\<close>

definition rate_item :: "string \<times> string \<times> string \<Rightarrow> string \<times> rate_entry" where
  "rate_item = (\<lambda>(s, p, c). (s, \<lparr>re_service = s, re_per = p, re_cost = projr (amount_of_text c)\<rparr>))"

definition infra_item :: "string \<times> string \<times> string \<times> string \<Rightarrow> (string \<times> string) \<times> infra_entry" where
  "infra_item = (\<lambda>(k, y, p, c). let x = projr (infra_entry_of k y p c) in ((ie_kind x, ie_key x), x))"

definition valid_rate :: "string \<times> string \<times> string \<Rightarrow> bool" where
  "valid_rate = (\<lambda>(s, p, c). \<not> isl (amount_of_text c))"

definition valid_infra :: "string \<times> string \<times> string \<times> string \<Rightarrow> bool" where
  "valid_infra = (\<lambda>(k, y, p, c). \<not> isl (infra_entry_of k y p c))"

lemma register_all_None: "fst (register_all ps r) = None \<longleftrightarrow> list_all valid_rate ps"
proof (induction ps r rule: register_all.induct)
  case (2 s p c ps r)
  then show ?case by (cases "amount_of_text c") (auto simp: register_def valid_rate_def)
qed simp

lemma register_infra_all_None: "fst (register_infra_all qs r) = None \<longleftrightarrow> list_all valid_infra qs"
proof (induction qs r rule: register_infra_all.induct)
  case (2 k y p c qs r)
  then show ?case by (cases "infra_entry_of k y p c") (auto simp: register_infrastructure_def valid_infra_def)
qed simp

lemma upd_map_add: "m(k \<mapsto> v) ++ map_of (rev xs) = m ++ map_of (rev ((k, v) # xs))"
  by (auto simp: map_add_def fun_eq_iff split: option.split)

lemma register_all_maps:
  "list_all valid_rate ps \<Longrightarrow>
   map_of (rg_rates (snd (register_all ps r))) = map_of (rg_rates r) ++ map_of (rev (map rate_item ps)) \<and>
   rg_infra (snd (register_all ps r)) = rg_infra r"
proof (induction ps r rule: register_all.induct)
  case (2 s p c ps r)
  then obtain a where a: "amount_of_text c = Inr a" by (cases "amount_of_text c") (auto simp: valid_rate_def)
  define x where "x = \<lparr>re_service = s, re_per = p, re_cost = a\<rparr>"
  define r1 where "r1 = r\<lparr>rg_rates := AList.update s x (rg_rates r), rg_version := None\<rparr>"
  have reg: "register s p c r = (None, r1)" by (simp add: register_def a r1_def x_def)
  have r1: "map_of (rg_rates r1) = (map_of (rg_rates r))(s \<mapsto> x)" "rg_infra r1 = rg_infra r"
    by (simp_all add: r1_def update_conv')
  have "rate_item (s, p, c) = (s, x)" by (simp add: rate_item_def x_def a)
  then show ?case
    using 2(1) [OF reg [symmetric] refl] 2(2) upd_map_add [of "map_of (rg_rates r)" s x "map rate_item ps"]
    by (simp add: reg r1 fun_upd_def)
qed simp

lemma register_infra_all_maps:
  "list_all valid_infra qs \<Longrightarrow>
   map_of (rg_infra (snd (register_infra_all qs r))) = map_of (rg_infra r) ++ map_of (rev (map infra_item qs)) \<and>
   rg_rates (snd (register_infra_all qs r)) = rg_rates r"
proof (induction qs r rule: register_infra_all.induct)
  case (2 k y p c qs r)
  then obtain x where x: "infra_entry_of k y p c = Inr x" by (cases "infra_entry_of k y p c") (auto simp: valid_infra_def)
  define ky where "ky = (ie_kind x, ie_key x)"
  define r1 where "r1 = r\<lparr>rg_infra := AList.update ky x (rg_infra r), rg_version := None\<rparr>"
  have reg: "register_infrastructure k y p c r = (None, r1)"
    by (simp add: register_infrastructure_def x r1_def ky_def)
  have r1: "map_of (rg_infra r1) = (map_of (rg_infra r))(ky \<mapsto> x)" "rg_rates r1 = rg_rates r"
    by (simp_all add: r1_def update_conv')
  have "infra_item (k, y, p, c) = (ky, x)" by (simp add: infra_item_def x ky_def)
  then show ?case
    using 2(1) [OF reg [symmetric] refl] 2(2) upd_map_add [of "map_of (rg_infra r)" ky x "map infra_item qs"]
    by (simp add: reg r1 fun_upd_def)
qed simp

definition valid_file :: "rates_file \<Rightarrow> bool" where
  "valid_file f \<longleftrightarrow> list_all valid_rate (fst f) \<and> list_all valid_infra (snd f)"

lemma register_file_None: "fst (register_file f r) = None \<longleftrightarrow> valid_file f"
  using register_all_None [of "fst f" r] register_infra_all_None [of "snd f"]
  by (auto simp: register_file_def valid_file_def split: prod.split option.split)

lemma register_file_maps:
  assumes "valid_file f"
  shows "map_of (rg_rates (snd (register_file f r))) = map_of (rg_rates r) ++ map_of (rev (map rate_item (fst f))) \<and>
    map_of (rg_infra (snd (register_file f r))) = map_of (rg_infra r) ++ map_of (rev (map infra_item (snd f)))"
proof -
  obtain r1 where r1: "register_all (fst f) r = (None, r1)"
    using register_all_None [of "fst f" r] assms by (cases "register_all (fst f) r") (auto simp: valid_file_def)
  then show ?thesis
    using register_all_maps [of "fst f" r] register_infra_all_maps [of "snd f" r1] assms
    by (simp add: register_file_def valid_file_def)
qed

lemma load_rates_cases:
  "load_rates doc r =
     (case read_rates doc of
        Inl e \<Rightarrow> (Some e, r)
      | Inr f \<Rightarrow> if valid_file f then (None, snd (register_file f r))
                 else (fst (register_file f empty_registry), r))"
proof (cases "read_rates doc")
  case (Inr f)
  then show ?thesis
    using register_file_None [of f r] register_file_None [of f empty_registry]
    by (cases "register_file f r"; cases "register_file f empty_registry") (auto simp: load_rates_def)
qed (simp add: load_rates_def)

section \<open>Runs\<close>

datatype registry_op =
    Register string string string
  | Register_Infrastructure string string string string
  | Load yaml
  | Ask_Version

definition apply_op :: "(string \<Rightarrow> string) \<Rightarrow> registry_op \<Rightarrow> registry \<Rightarrow> registry" where
  "apply_op sha op r =
     (case op of
        Register s p c \<Rightarrow> snd (register s p c r)
      | Register_Infrastructure k y p c \<Rightarrow> snd (register_infrastructure k y p c r)
      | Load doc \<Rightarrow> snd (load_rates doc r)
      | Ask_Version \<Rightarrow> snd (pricing_version sha r))"

definition run_registry :: "(string \<Rightarrow> string) \<Rightarrow> registry_op list \<Rightarrow> registry" where
  "run_registry sha ops = fold (apply_op sha) ops empty_registry"

lemma run_registry_ok: "registry_ok (run_registry sha ops) \<and> cache_ok sha (run_registry sha ops)"
  unfolding run_registry_def
proof (induction ops rule: rev_induct)
  case (snoc op ops)
  then show ?case
    using register_keeps register_infrastructure_keeps load_rates_keeps pricing_version_keeps
    by (cases op) (auto simp: apply_op_def)
qed (simp add: empty_registry_ok)

section \<open>Properties\<close>

text \<open>C20. Loading a file is all or nothing: whether it succeeds does not depend on the rates already
  registered; when it fails they are unchanged, and when it succeeds they are overridden by
  the entries of the file, a later entry winning over an earlier one.\<close>

theorem rates_load_atomic:
  "fst (load_rates doc r) = fst (load_rates doc r2) \<and>
   (case load_rates doc r of
      (Some e, r') \<Rightarrow> r' = r
    | (None, r') \<Rightarrow> \<exists>f. read_rates doc = Inr f \<and>
        map_of (rg_rates r') = map_of (rg_rates r) ++ map_of (rev (map rate_item (fst f))) \<and>
        map_of (rg_infra r') = map_of (rg_infra r) ++ map_of (rev (map infra_item (snd f))))"
proof (cases "read_rates doc")
  case (Inr f)
  show ?thesis
  proof (cases "valid_file f")
    case True
    then show ?thesis using Inr register_file_maps [OF True, of r] by (simp add: load_rates_cases)
  next
    case False
    then have "fst (register_file f empty_registry) \<noteq> None" by (simp add: register_file_None)
    with Inr False show ?thesis by (auto simp: load_rates_cases)
  qed
qed (simp add: load_rates_cases)

text \<open>C21. Whatever operations built a registry, its keys are canonical and its infrastructure rates
  positive with a known unit, and the pricing version it reports is the one of its current
  rates: the cached version is never stale.\<close>

theorem pricing_version_current:
  "registry_ok (run_registry sha ops) \<and>
   fst (pricing_version sha (run_registry sha ops)) = compute_version sha (run_registry sha ops)"
  using run_registry_ok pricing_version_keeps by blast

end
