(* ===== verification/Rates_Export.thy ===== *)
theory Rates_Export
  imports Rates
begin

text \<open>
  Exporting a registry and loading it again (\<open>export\<close>, \<open>load\<close> and \<open>pricing_version\<close> of
  \<open>rates.py\<close>): what is written reads back as the same prices, and where the pricing version
  is too coarse.
\<close>

section \<open>Canonical texts of amounts\<close>

lemma decimal_text_fix: "decimal_text d = (if coeff d = 0 then ''0'' else if coeff (dec_fix d) = 0 then format_f (Dec 0 0) else canonical_decimal (dec_fix d))"
proof (cases "coeff d = 0 \<or> coeff (dec_fix d) = 0")
  case True
  then show ?thesis by (auto simp: decimal_text_def dec_normalize_def Let_def)
next
  case False
  let ?n = "strip_to (ndigits (nat \<bar>coeff (dec_fix d)\<bar>)) (coeff (dec_fix d)) (expo (dec_fix d))"
  have "coeff ?n mod 10 \<noteq> 0" using False by (intro strip_to_no_zero) simp_all
  then have "format_f ?n = canonical_decimal ?n" by (intro format_f_normal) auto
  with False show ?thesis
    by (simp add: decimal_text_def dec_normalize_def Let_def strip_to_canonical)
qed

text \<open>Rounding to the context precision loses nothing of a value that fits it.\<close>

lemma dec_fix_multiple:
  assumes "nat \<bar>c\<bar> = m * 10 ^ j" "m < 10 ^ 28"
  shows "dec_val (dec_fix (Dec c e)) = dec_val (Dec c e)"
proof -
  define n where "n = nat \<bar>c\<bar>"
  define k where "k = ndigits n - dec_prec"
  have "n < 10 ^ Suc (27 + j)"
  proof -
    have "m * 10 ^ j < 10 ^ 28 * 10 ^ j" using assms(2) by simp
    then show ?thesis using assms(1) by (simp add: n_def power_add algebra_simps)
  qed
  then have "k \<le> j" using ndigits_le [of n "27 + j"] by (simp add: k_def dec_prec_def)
  then have dv: "10 ^ k dvd n" unfolding n_def assms(1) by (simp add: le_imp_power_dvd)
  show ?thesis
  proof (cases "ndigits n \<le> dec_prec")
    case True
    then show ?thesis by (simp add: dec_fix_def n_def Let_def)
  next
    case False
    then have "ndigits n \<le> Suc (27 + k)" by (simp add: k_def dec_prec_def)
    then have "n < 10 ^ 28 * 10 ^ k" using ndigits_le [of n "27 + k"] by (simp add: power_add algebra_simps)
    then have "n div 10 ^ k < 10 ^ Suc 27" by (simp add: div_less_iff_less_mult)
    then have small: "ndigits (n div 10 ^ k) \<le> dec_prec" using ndigits_le [of "n div 10 ^ k" 27] by (simp add: dec_prec_def)
    have "round_half_even k n = n div 10 ^ k" using dv by (simp add: round_half_even_def Let_def)
    with False small have "dec_fix (Dec c e) = Dec (sgn c * int (n div 10 ^ k)) (e + int k)"
      by (simp add: dec_fix_def Let_def n_def [symmetric] k_def [symmetric])
    moreover have "sgn c * int (n div 10 ^ k) * 10 ^ k = c"
    proof -
      have "int (n div 10 ^ k) * 10 ^ k = int n" using dv by (metis dvd_div_mult_self of_nat_mult of_nat_numeral of_nat_power)
      moreover have "sgn c * int n = c" by (simp add: n_def sgn_mult_abs)
      ultimately show ?thesis by (simp add: mult.assoc)
    qed
    ultimately show ?thesis
      using dec_val_rescale [of e "Dec (sgn c * int (n div 10 ^ k)) (e + int k)"] by simp
  qed
qed

lemma dec_fix_value:
  assumes "dec_val d' = dec_val d" "\<bar>coeff d\<bar> < 10 ^ 28"
  shows "dec_val (dec_fix d') = dec_val d'"
proof (cases "expo d' \<le> expo d")
  case True
  have "dec_eq d' d" using assms(1) by (simp add: dec_eq_iff)
  with True have "coeff d' = coeff d * 10 ^ nat (expo d - expo d')" by (simp add: dec_eq_def Let_def min_def)
  then have "nat \<bar>coeff d'\<bar> = nat \<bar>coeff d\<bar> * 10 ^ nat (expo d - expo d')"
    by (simp add: abs_mult nat_mult_distrib nat_power_eq)
  moreover have "nat \<bar>coeff d\<bar> < 10 ^ 28" using assms(2) by (simp add: nat_less_iff)
  ultimately show ?thesis using dec_fix_multiple [of "coeff d'" "nat \<bar>coeff d\<bar>" "nat (expo d - expo d')" "expo d'"] by simp
next
  case False
  have "dec_eq d' d" using assms(1) by (simp add: dec_eq_iff)
  with False have c: "coeff d = coeff d' * 10 ^ nat (expo d' - expo d)" by (simp add: dec_eq_def Let_def min_def)
  have "(1::int) \<le> 10 ^ nat (expo d' - expo d)" by simp
  then have "\<bar>coeff d'\<bar> * 1 \<le> \<bar>coeff d'\<bar> * 10 ^ nat (expo d' - expo d)" by (rule mult_left_mono) simp
  then have "\<bar>coeff d'\<bar> \<le> \<bar>coeff d\<bar>" by (simp add: c abs_mult)
  with assms(2) show ?thesis by (simp add: dec_fix_exact)
qed

lemma coeff_zero_iff: "coeff d = 0 \<longleftrightarrow> dec_val d = 0"
  by (simp add: dec_val_def)

lemma decimal_text_value:
  assumes "dec_val d' = dec_val d" "\<bar>coeff d\<bar> < 10 ^ 28"
  shows "decimal_text d' = canonical_decimal d"
proof -
  have v: "dec_val (dec_fix d') = dec_val d" using dec_fix_value [OF assms] assms(1) by simp
  then have "canonical_decimal (dec_fix d') = canonical_decimal d" by (simp add: canonical_eq_iff_aux)
  moreover have "coeff d' = 0 \<longleftrightarrow> coeff d = 0" "coeff (dec_fix d') = 0 \<longleftrightarrow> coeff d = 0"
    using v assms(1) by (simp_all add: coeff_zero_iff)
  ultimately show ?thesis by (simp add: decimal_text_fix canonical_decimal_def [of d])
qed

text \<open>The text of a rate reads back as the same rate, with the same text.\<close>

lemma amount_reread:
  assumes "\<bar>coeff d\<bar> < 10 ^ 28"
  obtains d' where "decimal_of_text (decimal_text d) = DecFinite d'" "dec_val d' = dec_val d"
    "decimal_text d' = decimal_text d"
proof -
  obtain d' where d': "dec_parse (canonical_decimal d) = Some d'" "dec_val d' = dec_val d"
    using canonical_roundtrip_aux by blast
  have t: "decimal_text d = canonical_decimal d" by (rule decimal_text_canonical_aux [OF assms])
  have "decimal_of_text (decimal_text d) = DecFinite d'" unfolding t by (rule decimal_of_plain [OF d'(1)])
  moreover have "decimal_text d' = decimal_text d" unfolding t by (rule decimal_text_value [OF d'(2) assms])
  ultimately show ?thesis using d'(2) that by blast
qed

section \<open>Export and load\<close>

text \<open>The prices two registries quote.\<close>

definition same_amount :: "amount \<Rightarrow> amount \<Rightarrow> bool" where
  "same_amount a b \<longleftrightarrow> (\<exists>c d. a = Finite c \<and> b = Finite d \<and> dec_val c = dec_val d)"

definition same_rate :: "rate_entry \<Rightarrow> rate_entry \<Rightarrow> bool" where
  "same_rate x y \<longleftrightarrow> re_service x = re_service y \<and> re_per x = re_per y \<and> same_amount (re_cost x) (re_cost y)"

definition same_infra :: "infra_entry \<Rightarrow> infra_entry \<Rightarrow> bool" where
  "same_infra x y \<longleftrightarrow>
     ie_kind x = ie_kind y \<and> ie_key x = ie_key y \<and> ie_per x = ie_per y \<and> dec_val (ie_cost x) = dec_val (ie_cost y)"

text \<open>Every amount is finite and has at most 28 digits.\<close>

definition exact_rates :: "registry \<Rightarrow> bool" where
  "exact_rates r \<longleftrightarrow>
     (\<forall>x \<in> snd ` set (rg_rates r). \<exists>d. re_cost x = Finite d \<and> \<bar>coeff d\<bar> < 10 ^ 28) \<and>
     (\<forall>x \<in> snd ` set (rg_infra r). \<bar>coeff (ie_cost x)\<bar> < 10 ^ 28)"

definition finite_of :: "amount \<Rightarrow> dec" where
  "finite_of a = (case a of Finite d \<Rightarrow> d | NonFinite t \<Rightarrow> dec0)"

text \<open>What an entry becomes when its exported text is registered again.\<close>

definition reread :: "dec \<Rightarrow> dec" where
  "reread d = (case decimal_of_text (decimal_text d) of DecFinite d' \<Rightarrow> d' | _ \<Rightarrow> dec0)"

lemma reread:
  assumes "\<bar>coeff d\<bar> < 10 ^ 28"
  shows "decimal_of_text (decimal_text d) = DecFinite (reread d)" "dec_val (reread d) = dec_val d"
    "decimal_text (reread d) = decimal_text d" "0 < coeff d \<Longrightarrow> 0 < coeff (reread d)"
proof -
  obtain d' where d': "decimal_of_text (decimal_text d) = DecFinite d'" "dec_val d' = dec_val d"
      "decimal_text d' = decimal_text d" using amount_reread [OF assms] .
  then have r: "reread d = d'" by (simp add: reread_def)
  show "decimal_of_text (decimal_text d) = DecFinite (reread d)" "dec_val (reread d) = dec_val d"
    "decimal_text (reread d) = decimal_text d" using d' by (simp_all add: r)
  have "\<not> (10::rat) powi e < 0" for e by (simp add: not_less)
  then have pos: "0 < coeff x \<longleftrightarrow> 0 < dec_val x" for x by (auto simp: dec_val_def zero_less_mult_iff)
  show "0 < coeff d \<Longrightarrow> 0 < coeff (reread d)" using d'(2) by (simp add: pos r)
qed

definition reread_rate :: "rate_entry \<Rightarrow> rate_entry" where
  "reread_rate x = x\<lparr>re_cost := Finite (reread (finite_of (re_cost x)))\<rparr>"

definition reread_infra :: "infra_entry \<Rightarrow> infra_entry" where
  "reread_infra x = x\<lparr>ie_cost := reread (ie_cost x)\<rparr>"

definition export_triple :: "registry \<Rightarrow> string \<Rightarrow> string \<times> string \<times> string" where
  "export_triple r s = (let x = the (get_rate s r) in (s, re_per x, decimal_text (finite_of (re_cost x))))"

definition export_infra_item :: "registry \<Rightarrow> string \<times> string \<Rightarrow> string \<times> string \<times> string \<times> string" where
  "export_infra_item r k = (let x = the (map_of (rg_infra r) k) in (fst k, snd k, ie_per x, decimal_text (ie_cost x)))"

definition rate_keys :: "registry \<Rightarrow> string list" where
  "rate_keys r = sort (map fst (rg_rates r))"

definition infra_keys :: "registry \<Rightarrow> string \<Rightarrow> (string \<times> string) list" where
  "infra_keys r kind = filter (\<lambda>k. fst k = kind) (sort (map fst (rg_infra r)))"

definition exported :: "registry \<Rightarrow> rates_file" where
  "exported r =
     (map (export_triple r) (rate_keys r),
      map (export_infra_item r) (infra_keys r ''gpu'' @ infra_keys r ''network''))"

lemma rate_keyD:
  assumes "registry_ok r" "exact_rates r" "s \<in> set (rate_keys r)"
  obtains x d where "get_rate s r = Some x" "re_service x = s" "re_cost x = Finite d" "\<bar>coeff d\<bar> < 10 ^ 28"
proof -
  have "s \<in> fst ` set (rg_rates r)" using assms(3) by (simp add: rate_keys_def)
  then obtain x where x: "map_of (rg_rates r) s = Some x" by (metis domD dom_map_of_conv_image_fst)
  then have "(s, x) \<in> set (rg_rates r)" by (rule map_of_SomeD)
  with assms(1,2) have "re_service x = s" "\<exists>d. re_cost x = Finite d \<and> \<bar>coeff d\<bar> < 10 ^ 28"
    by (fastforce simp: registry_ok_def exact_rates_def)+
  with x that show thesis by (auto simp: get_rate_def)
qed

lemma infra_keyD:
  assumes "registry_ok r" "exact_rates r" "k \<in> fst ` set (rg_infra r)"
  obtains x where "map_of (rg_infra r) k = Some x" "k = (ie_kind x, ie_key x)" "infra_ok x"
    "\<bar>coeff (ie_cost x)\<bar> < 10 ^ 28"
proof -
  obtain x where x: "map_of (rg_infra r) k = Some x" using assms(3) by (metis domD dom_map_of_conv_image_fst)
  then have m: "(k, x) \<in> set (rg_infra r)" by (rule map_of_SomeD)
  with assms(1) have "k = (ie_kind x, ie_key x)" "infra_ok x" by (auto simp: registry_ok_def)
  moreover have "\<bar>coeff (ie_cost x)\<bar> < 10 ^ 28" using assms(2) m by (force simp: exact_rates_def)
  ultimately show thesis using x that by blast
qed

lemma export_rate_eq:
  assumes "registry_ok r" "exact_rates r" "s \<in> set (rate_keys r)"
  shows "export_rate r s = Inr (case export_triple r s of (s, p, c) \<Rightarrow> (YStr s, rate_yaml p c))"
proof -
  obtain x d where "get_rate s r = Some x" "re_cost x = Finite d" using rate_keyD [OF assms] by metis
  then show ?thesis by (simp add: export_rate_def export_triple_def amount_text_def finite_of_def Let_def)
qed

lemma yaml_fields [simp]:
  "yaml_get [(YStr ''per'', YStr p), (YStr ''cost_usd'', YStr c)] ''per'' = Some (YStr p)"
  "yaml_get [(YStr ''per'', YStr p), (YStr ''cost_usd'', YStr c)] ''cost_usd'' = Some (YStr c)"
  by (simp_all add: yaml_get_def)

lemma pending_export_rate: "pending_rate (YStr s, rate_yaml p c) = Inr (s, p, c)"
  by (simp add: pending_rate_def rate_yaml_def yaml_str_def yaml_default_def)

lemma pending_export_infra:
  assumes "distinct ks" "\<forall>k \<in> set ks. normalize_infrastructure_key k = k \<and> k \<notin> seen"
  shows "pending_infra kind seen (map (\<lambda>k. (YStr k, rate_yaml (p k) (c k))) ks) = Inr (map (\<lambda>k. (kind, k, p k, c k)) ks)"
  using assms
proof (induction ks arbitrary: seen)
  case (Cons k ks)
  then have "\<forall>k' \<in> set ks. normalize_infrastructure_key k' = k' \<and> k' \<notin> insert k seen" by auto
  with Cons show ?case by (simp add: rate_yaml_def yaml_str_def)
qed simp

lemma export_infra_key:
  assumes "registry_ok r" "exact_rates r" "k \<in> fst ` set (rg_infra r)"
  shows "fst k \<in> {''gpu'', ''network''}" "normalize_infrastructure_key (snd k) = snd k"
    "infra_item (export_infra_item r k) = (k, reread_infra (the (map_of (rg_infra r) k)))"
    "valid_infra (export_infra_item r k)"
proof -
  obtain x where x: "map_of (rg_infra r) k = Some x" "k = (ie_kind x, ie_key x)" "infra_ok x"
      "\<bar>coeff (ie_cost x)\<bar> < 10 ^ 28" using infra_keyD [OF assms] .
  then obtain units where u: "map_of infrastructure_units (ie_kind x) = Some units" "ie_per x \<in> set units"
      "ie_key x \<noteq> []" "normalize_infrastructure_key (ie_key x) = ie_key x" "0 < coeff (ie_cost x)"
    unfolding infra_ok_def by blast
  then have kind: "ie_kind x \<in> {''gpu'', ''network''}" by (auto simp: infrastructure_units_def split: if_splits)
  with x(2) u(4) show "fst k \<in> {''gpu'', ''network''}" "normalize_infrastructure_key (snd k) = snd k" by simp_all
  have "ie_per x \<in> {''gpu_second'', ''gpu_hour'', ''gb_transferred'', ''gb_egress''}"
    using u(1,2) by (auto simp: infrastructure_units_def split: if_splits)
  then have per: "py_lower (py_strip (ie_per x)) = ie_per x"
    by (elim insertE emptyE) (simp_all add: py_lower_def py_strip_def is_space_def lower_char_def)
  from kind have kd: "py_lower (py_strip (ie_kind x)) = ie_kind x"
    by (elim insertE emptyE) (simp_all add: py_lower_def py_strip_def is_space_def lower_char_def)
  have "positive_decimal (decimal_text (ie_cost x)) = Inr (reread (ie_cost x))"
    using reread [OF x(4)] u(5) by (simp add: positive_decimal_def)
  then have e: "infra_entry_of (ie_kind x) (ie_key x) (ie_per x) (decimal_text (ie_cost x)) = Inr (reread_infra x)"
    using u by (simp add: infra_entry_of_def Let_def kd per reread_infra_def)
  then show "infra_item (export_infra_item r k) = (k, reread_infra (the (map_of (rg_infra r) k)))"
    "valid_infra (export_infra_item r k)"
    using x(1,2)
    by (simp_all add: infra_item_def export_infra_item_def valid_infra_def Let_def reread_infra_def)
qed

lemma export_rate_key:
  assumes "registry_ok r" "exact_rates r" "s \<in> set (rate_keys r)"
  shows "rate_item (export_triple r s) = (s, reread_rate (the (get_rate s r)))" "valid_rate (export_triple r s)"
proof -
  obtain x d where x: "get_rate s r = Some x" "re_service x = s" "re_cost x = Finite d" "\<bar>coeff d\<bar> < 10 ^ 28"
    using rate_keyD [OF assms] .
  then have "amount_of_text (decimal_text d) = Inr (Finite (reread d))"
    using reread(1) [OF x(4)] by (simp add: amount_of_text_def)
  with x show "rate_item (export_triple r s) = (s, reread_rate (the (get_rate s r)))" "valid_rate (export_triple r s)"
    by (simp_all add: rate_item_def export_triple_def Let_def finite_of_def valid_rate_def reread_rate_def)
qed

lemma pending_export_kind:
  assumes "registry_ok r" "exact_rates r"
  shows "pending_kind (YStr kind, YMap (export_kind r kind)) = Inr (map (export_infra_item r) (infra_keys r kind))"
proof -
  let ?x = "\<lambda>y. the (map_of (rg_infra r) (kind, y))"
  let ?ys = "map snd (infra_keys r kind)"
  have keys: "infra_keys r kind = map (Pair kind) ?ys"
    by (rule nth_equalityI) (auto simp: infra_keys_def in_set_conv_nth dest!: nth_mem split: prod.split)
  have "distinct (infra_keys r kind)" using assms(1) by (simp add: infra_keys_def registry_ok_def)
  moreover have "inj_on snd (set (infra_keys r kind))" by (auto simp: inj_on_def infra_keys_def)
  ultimately have d: "distinct ?ys" by (simp add: distinct_map)
  have n: "\<forall>y \<in> set ?ys. normalize_infrastructure_key y = y \<and> y \<notin> {}"
    using export_infra_key(2) [OF assms] by (auto simp: infra_keys_def)
  have "export_kind r kind = map (\<lambda>k. (YStr (snd k), rate_yaml (ie_per (the (map_of (rg_infra r) k)))
      (decimal_text (ie_cost (the (map_of (rg_infra r) k)))))) (infra_keys r kind)"
    by (simp add: export_kind_def infra_keys_def Let_def)
  also have "\<dots> = map (\<lambda>y. (YStr y, rate_yaml (ie_per (?x y)) (decimal_text (ie_cost (?x y))))) ?ys"
    by (subst keys) (simp add: comp_def)
  finally have e: "export_kind r kind = \<dots>" .
  have "map (export_infra_item r) (infra_keys r kind) =
      map (\<lambda>y. (kind, y, ie_per (?x y), decimal_text (ie_cost (?x y)))) ?ys"
    by (subst keys) (simp add: comp_def export_infra_item_def Let_def)
  then show ?thesis
    unfolding e pending_kind_def
    using pending_export_infra [OF d n, of kind "\<lambda>y. ie_per (?x y)" "\<lambda>y. decimal_text (ie_cost (?x y))"]
    by (simp add: yaml_str_def)
qed

lemma collect_Inr: "(\<And>x. x \<in> set xs \<Longrightarrow> f x = Inr (g x)) \<Longrightarrow> collect f xs = Inr (map g xs)"
  by (induction xs) simp_all

lemma collect_cong: "(\<And>x. x \<in> set xs \<Longrightarrow> f x = g x) \<Longrightarrow> collect f xs = collect g xs"
  by (induction xs) (simp_all cong: sum.case_cong)

lemma sorted_kinds: "sort (map fst infrastructure_units) = [''gpu'', ''network'']"
  by (simp add: infrastructure_units_def less_eq_char_def)

lemma read_exported_infrastructure:
  assumes "registry_ok r" "exact_rates r"
  shows "read_infrastructure 2 (YMap (export_infrastructure r)) = Inr (snd (exported r))"
proof -
  let ?kinds = "filter (\<lambda>kind. export_kind r kind \<noteq> []) [''gpu'', ''network'']"
  have none: "infra_keys r kind = [] \<longleftrightarrow> export_kind r kind = []" for kind
    by (simp add: infra_keys_def export_kind_def)
  have e: "export_infrastructure r = map (\<lambda>kind. (YStr kind, YMap (export_kind r kind))) ?kinds"
    by (simp only: export_infrastructure_def sorted_kinds)
  have "\<not> (\<exists>(k, v) \<in> set (export_infrastructure r). k \<notin> (YStr \<circ> fst) ` set infrastructure_units)"
    by (auto simp: e infrastructure_units_def)
  moreover have "collect pending_kind (export_infrastructure r) =
      Inr (map (\<lambda>kind. map (export_infra_item r) (infra_keys r kind)) ?kinds)"
    using pending_export_kind [OF assms] by (auto simp: e)
  moreover have "concat (map (\<lambda>kind. map (export_infra_item r) (infra_keys r kind)) ?kinds) = snd (exported r)"
    by (simp add: exported_def none)
  ultimately show ?thesis by (simp add: read_infrastructure_def)
qed

lemma read_exported:
  assumes "registry_ok r" "exact_rates r"
  obtains doc where "export_rates r = Inr doc" "read_rates doc = Inr (exported r)"
proof -
  let ?g = "\<lambda>s. case export_triple r s of (s, p, c) \<Rightarrow> (YStr s, rate_yaml p c)"
  have c: "collect (export_rate r) (rate_keys r) = Inr (map ?g (rate_keys r))"
    by (rule collect_Inr) (rule export_rate_eq [OF assms])
  have p: "collect pending_rate (map ?g ss) = Inr (map (export_triple r) ss)" for ss
    by (induction ss) (simp_all add: pending_export_rate split: prod.split)
  define doc where "doc = YMap ([(YStr ''version'', YInt 2), (YStr ''rates'', YMap (map ?g (rate_keys r)))] @
    (if export_infrastructure r = [] then [] else [(YStr ''infrastructure'', YMap (export_infrastructure r))]))"
  have "export_rates r = Inr doc" using c by (simp add: export_rates_def rate_keys_def [symmetric] doc_def)
  moreover have "read_rates doc = Inr (exported r)"
    using read_exported_infrastructure [OF assms] p
    by (cases "export_infrastructure r = []")
      (simp_all add: read_rates_def doc_def yaml_truthy_def yaml_default_def yaml_get_def exported_def)
  ultimately show thesis by (rule that)
qed

lemma map_of_keyed:
  assumes "\<And>x. x \<in> set xs \<Longrightarrow> f x = (x, g x)"
  shows "map_of (rev (map f xs)) = (\<lambda>x. if x \<in> set xs then Some (g x) else None)"
proof -
  have "map_of (map f ys) = (\<lambda>x. if x \<in> set ys then Some (g x) else None)" if "set ys \<subseteq> set xs" for ys
    using that assms by (induction ys) (auto simp: fun_eq_iff)
  then show ?thesis by (simp add: rev_map)
qed

lemma map_of_the: "(if k \<in> fst ` set xs then Some (f (the (map_of xs k))) else None) = map_option f (map_of xs k)"
  by (cases "map_of xs k") (auto simp: map_of_eq_None_iff rev_image_eqI dest: map_of_SomeD)

lemma reload_exported:
  assumes ok: "registry_ok r" and ex: "exact_rates r"
  defines "r' \<equiv> snd (register_file (exported r) empty_registry)"
  shows "valid_file (exported r)"
    and "map_of (rg_rates r') = map_option reread_rate \<circ> map_of (rg_rates r)"
    and "map_of (rg_infra r') = map_option reread_infra \<circ> map_of (rg_infra r)"
proof -
  let ?ks = "infra_keys r ''gpu'' @ infra_keys r ''network''"
  have "k \<in> set ?ks \<longleftrightarrow> k \<in> fst ` set (rg_infra r)" for k
    using export_infra_key(1) [OF ok ex, of k] by (cases "k \<in> fst ` set (rg_infra r)") (auto simp: infra_keys_def)
  then have ks: "set ?ks = fst ` set (rg_infra r)" by blast
  have "valid_infra (export_infra_item r k)" if "k \<in> set ?ks" for k
    using that export_infra_key(4) [OF ok ex, of k] unfolding ks by blast
  then show valid: "valid_file (exported r)"
    using export_rate_key(2) [OF ok ex] by (auto simp: valid_file_def exported_def list_all_iff)
  note maps = register_file_maps [OF valid, of empty_registry]
  have "map_of (rg_rates r') = map_of (rev (map (rate_item \<circ> export_triple r) (rate_keys r)))"
    using maps by (simp add: r'_def exported_def empty_registry_def)
  also have "\<dots> = (\<lambda>s. if s \<in> set (rate_keys r) then Some (reread_rate (the (get_rate s r))) else None)"
    by (rule map_of_keyed) (simp add: export_rate_key(1) [OF ok ex])
  also have "\<dots> = map_option reread_rate \<circ> map_of (rg_rates r)"
    by (simp add: fun_eq_iff rate_keys_def get_rate_def map_of_the [symmetric])
  finally show "map_of (rg_rates r') = map_option reread_rate \<circ> map_of (rg_rates r)" .
  have "map_of (rg_infra r') = map_of (rev (map (infra_item \<circ> export_infra_item r) ?ks))"
    using maps by (simp add: r'_def exported_def empty_registry_def)
  also have "\<dots> = (\<lambda>k. if k \<in> set ?ks then Some (reread_infra (the (map_of (rg_infra r) k))) else None)"
  proof (rule map_of_keyed)
    fix k assume "k \<in> set ?ks"
    then have "k \<in> fst ` set (rg_infra r)" unfolding ks .
    from export_infra_key(3) [OF ok ex this]
    show "(infra_item \<circ> export_infra_item r) k = (k, reread_infra (the (map_of (rg_infra r) k)))" by simp
  qed
  also have "\<dots> = map_option reread_infra \<circ> map_of (rg_infra r)"
    unfolding ks by (simp add: fun_eq_iff map_of_the [symmetric])
  finally show "map_of (rg_infra r') = map_option reread_infra \<circ> map_of (rg_infra r)" .
qed

lemma same_domain:
  assumes "map_of xs = map_option f \<circ> map_of ys" "distinct (map fst xs)" "distinct (map fst ys)"
  shows "sort (map fst xs) = sort (map fst ys)"
proof -
  have "dom (map_of xs) = dom (map_of ys)" unfolding assms(1) by (auto simp: dom_def)
  then have "fst ` set xs = fst ` set ys" by (simp add: dom_map_of_conv_image_fst)
  with assms(2,3) show ?thesis by (intro sorted_distinct_set_unique) simp_all
qed

lemma version_text_reload:
  assumes ok: "registry_ok r" "registry_ok r'" and ex: "exact_rates r"
    and m: "map_of (rg_rates r') = map_option reread_rate \<circ> map_of (rg_rates r)"
      "map_of (rg_infra r') = map_option reread_infra \<circ> map_of (rg_infra r)"
  shows "version_text r' = version_text r"
proof -
  have keys: "rate_keys r' = rate_keys r" "sort (map fst (rg_infra r')) = sort (map fst (rg_infra r))"
    using same_domain [OF m(1)] same_domain [OF m(2)] ok by (simp_all add: registry_ok_def rate_keys_def)
  have "rate_part r' s = rate_part r s" if s: "s \<in> set (rate_keys r)" for s
  proof -
    obtain x d where x: "get_rate s r = Some x" "re_service x = s" "re_cost x = Finite d" "\<bar>coeff d\<bar> < 10 ^ 28"
      using rate_keyD [OF ok(1) ex s] .
    with m(1) have "get_rate s r' = Some (reread_rate x)" by (simp add: get_rate_def)
    with x reread(3) [OF x(4)] show ?thesis
      by (simp add: rate_part_def reread_rate_def amount_text_def finite_of_def Let_def)
  qed
  then have "collect (rate_part r') (rate_keys r) = collect (rate_part r) (rate_keys r)" by (rule collect_cong)
  moreover have "infra_part r' k = infra_part r k" if "k \<in> set (sort (map fst (rg_infra r)))" for k
  proof -
    have "k \<in> fst ` set (rg_infra r)" using that by simp
    then obtain x where "map_of (rg_infra r) k = Some x" "\<bar>coeff (ie_cost x)\<bar> < 10 ^ 28"
      using infra_keyD [OF ok(1) ex] by metis
    then show ?thesis using m(2) reread(3) by (simp add: infra_part_def reread_infra_def Let_def)
  qed
  then have "collect (infra_part r') (sort (map fst (rg_infra r))) = collect (infra_part r) (sort (map fst (rg_infra r)))"
    by (rule collect_cong)
  ultimately show ?thesis by (simp add: version_text_def keys rate_keys_def [symmetric] cong: sum.case_cong)
qed

section \<open>Properties\<close>

text \<open>C22. A registry whose amounts have at most 28 digits survives export and load: the file loads
  into an empty registry, which then quotes the same prices and has the same pricing version.\<close>

theorem rates_export_roundtrip:
  assumes "r = run_registry sha ops" "exact_rates r"
  shows "\<exists>doc r'. export_rates r = Inr doc \<and> load_rates doc empty_registry = (None, r') \<and>
    (\<forall>s. rel_option same_rate (get_rate s r) (get_rate s r')) \<and>
    (\<forall>k y. rel_option same_infra (get_infrastructure k y r) (get_infrastructure k y r')) \<and>
    fst (pricing_version sha r') = fst (pricing_version sha r)"
proof -
  have ok: "registry_ok r" "cache_ok sha r" using run_registry_ok assms(1) by blast+
  obtain doc where doc: "export_rates r = Inr doc" "read_rates doc = Inr (exported r)"
    using read_exported [OF ok(1) assms(2)] .
  define r' where "r' = snd (register_file (exported r) empty_registry)"
  note m = reload_exported [OF ok(1) assms(2), folded r'_def]
  have load: "load_rates doc empty_registry = (None, r')" using doc(2) m(1) by (simp add: load_rates_cases r'_def)
  have ok': "registry_ok r'" "cache_ok sha r'"
    using load_rates_keeps [OF empty_registry_ok, where doc = doc and sha = sha] load by simp_all
  have "fst (pricing_version sha r') = fst (pricing_version sha r)"
    using pricing_version_keeps [OF ok] pricing_version_keeps [OF ok'] version_text_reload [OF ok(1) ok'(1) assms(2) m(2,3)]
    by (simp add: compute_version_def)
  moreover have "rel_option same_rate (get_rate s r) (get_rate s r')" for s
  proof (cases "get_rate s r")
    case (Some x)
    then have s: "s \<in> set (rate_keys r)" by (auto simp: get_rate_def rate_keys_def rev_image_eqI dest: map_of_SomeD)
    obtain y d where y: "get_rate s r = Some y" "re_service y = s" "re_cost y = Finite d" "\<bar>coeff d\<bar> < 10 ^ 28"
      using rate_keyD [OF ok(1) assms(2) s] .
    with m(2) have "get_rate s r' = Some (reread_rate y)" by (simp add: get_rate_def)
    with y reread(2) [OF y(4)] show ?thesis
      by (simp add: same_rate_def same_amount_def reread_rate_def finite_of_def)
  qed (use m(2) in \<open>simp add: get_rate_def\<close>)
  moreover have "rel_option same_infra (get_infrastructure k y r) (get_infrastructure k y r')" for k y
  proof (cases "get_infrastructure k y r")
    case (Some x)
    then have "\<bar>coeff (ie_cost x)\<bar> < 10 ^ 28"
      using assms(2) by (force simp: get_infrastructure_def exact_rates_def dest: map_of_SomeD)
    with m(3) Some reread(2) show ?thesis by (simp add: get_infrastructure_def same_infra_def reread_infra_def)
  qed (use m(3) in \<open>simp add: get_infrastructure_def\<close>)
  ultimately show ?thesis using doc(1) load by blast
qed

lemmas dec_parse_eval = dec_parse_def digit_value.simps Let_def

lemma amount_of_plain: "dec_parse s = Some d \<Longrightarrow> amount_of_text s = Inr (Finite d)"
  by (simp add: amount_of_text_def decimal_of_plain)

lemma infra_025: "infra_entry_of ''gpu'' ''rtx 5060'' ''gpu_hour'' ''0.25'' =
    Inr \<lparr>ie_kind = ''gpu'', ie_key = ''rtx-5060'', ie_per = ''gpu_hour'', ie_cost = Dec 25 (- 2)\<rparr>"
  by (simp add: infra_entry_of_def Let_def py_lower_def py_strip_def is_space_def lower_char_def
     normalize_infrastructure_key_def strip_set_def is_lower_alnum_def less_eq_char_def infrastructure_units_def
     positive_decimal_def decimal_of_plain [of _ "Dec 25 (- 2)"] dec_parse_eval)
theorem rates_export_roundtrip_witness:
  "\<exists>doc r'. export_rates (run_registry (\<lambda>s. s) [Register ''maps'' ''request'' ''0.005'', Register_Infrastructure ''gpu'' ''rtx 5060'' ''gpu_hour'' ''0.25'']) = Inr doc \<and>
     load_rates doc empty_registry = (None, r')"
proof -
  have "exact_rates (run_registry (\<lambda>s. s) [Register ''maps'' ''request'' ''0.005'',
      Register_Infrastructure ''gpu'' ''rtx 5060'' ''gpu_hour'' ''0.25''])"
    by (simp add: exact_rates_def run_registry_def apply_op_def register_def register_infrastructure_def
        amount_of_plain [of _ "Dec 5 (- 3)"] dec_parse_eval infra_025 empty_registry_def)
  from rates_export_roundtrip [OF refl this] show ?thesis by blast
qed

text \<open>The pricing version does not change with every change of the rates, although the
  documentation of the registry says so: the parts of the hashed text are not escaped, so two services can be
  replaced by one with the same version, whatever the hash function.\<close>

lemma pricing_version_collision:
  "let two = run_registry sha [Register ''a'' ''b'' ''1'', Register ''c'' ''d'' ''2''];
       one = run_registry sha [Register ''a'' ''b:1|c:d'' ''2'']
   in get_rate ''c'' two \<noteq> None \<and> get_rate ''c'' one = None \<and>
      fst (pricing_version sha one) = fst (pricing_version sha two)"
proof -
  have a: "amount_of_text ''1'' = Inr (Finite (Dec 1 0))" "amount_of_text ''2'' = Inr (Finite (Dec 2 0))"
    by (rule amount_of_plain, simp add: dec_parse_eval)+
  have t: "decimal_text (Dec 1 0) = ''1''" "decimal_text (Dec 2 0) = ''2''"
    by (simp_all add: decimal_text_canonical_aux canonical_decimal_def format_f_def Let_def show_nat.simps digit_char_def)
  note reg = run_registry_def apply_op_def register_def a empty_registry_def
  show ?thesis unfolding Let_def
    by (simp add: reg get_rate_def pricing_version_def compute_version_def version_text_def rate_part_def Let_def
        amount_text_def t less_eq_char_def)
qed

end
