(* ===== verification/Roll_Up.thy ===== *)
theory Roll_Up
  imports Gpu_Costs Network_Accountant Rates_Export Job_Observations
begin

text \<open>
  The roll-up of a task (\<open>_aggregate_costs\<close>, \<open>_finalize_compute\<close> and \<open>_finalize_gpu\<close> of
  \<open>tracker.py\<close>): the sums over the recorded events and the provider jobs, the price of the
  traffic, and the prices of the compute and GPU events that were recorded as pending.

  The accountants of compute and GPU time read the operating system: what they measured is an
  argument. A failure that the code logs and swallows leaves the changes made before it.
\<close>

section \<open>Sums\<close>

definition cleared :: "task \<Rightarrow> task" where
  "cleared t = t\<lparr>tk_llm_cost := dec0, tk_external_cost := dec0, tk_compute_cost := dec0, tk_total_cost := dec0,
     tk_input_tokens := 0, tk_output_tokens := 0, tk_cached_tokens := 0, tk_retry_count := 0,
     tk_retry_cost := dec0, tk_network_cost := dec0, tk_gpu_cost := dec0\<rparr>"

definition add_llm :: "task \<Rightarrow> dec \<Rightarrow> int option \<Rightarrow> int option \<Rightarrow> int option \<Rightarrow> task" where
  "add_llm t cost i out c =
     t\<lparr>tk_llm_cost := dec_add (tk_llm_cost t) cost, tk_input_tokens := tk_input_tokens t + or_zero i,
       tk_output_tokens := tk_output_tokens t + or_zero out, tk_cached_tokens := tk_cached_tokens t + or_zero c\<rparr>"

definition add_total :: "task \<Rightarrow> dec \<Rightarrow> task" where
  "add_total t cost = t\<lparr>tk_total_cost := dec_add (tk_total_cost t) cost\<rparr>"

definition by_kind :: "task \<Rightarrow> event \<Rightarrow> task" where
  "by_kind t e =
     (if ev_type e = ''llm_call'' then add_llm t (ev_cost e) (ev_input_tokens e) (ev_output_tokens e) (ev_cached_tokens e)
      else if ev_type e = ''external_cost'' then t\<lparr>tk_external_cost := dec_add (tk_external_cost t) (ev_cost e)\<rparr>
      else if ev_type e = ''compute_cost'' then t\<lparr>tk_compute_cost := dec_add (tk_compute_cost t) (ev_cost e)\<rparr>
      else if ev_type e = ''gpu_cost'' then t\<lparr>tk_gpu_cost := dec_add (tk_gpu_cost t) (ev_cost e)\<rparr>
      else t)"

text \<open>The network cost of an event is not part of the total: the traffic is priced as a whole.\<close>

definition add_event :: "task \<Rightarrow> event \<Rightarrow> task" where
  "add_event t e =
     (let t1 = by_kind t e;
          t2 = (if ev_is_retry e
                then t1\<lparr>tk_retry_count := tk_retry_count t1 + 1, tk_retry_cost := dec_add (tk_retry_cost t1) (ev_cost e)\<rparr>
                else t1)
      in if ev_type e = ''network'' then t2 else add_total t2 (ev_cost e))"

definition job_cost :: "provider_job \<Rightarrow> dec" where
  "job_cost j = (case job_cost_amount j of Some c \<Rightarrow> if coeff c = 0 then dec0 else c | None \<Rightarrow> dec0)"

definition add_job :: "task \<Rightarrow> provider_job \<Rightarrow> task" where
  "add_job t j =
     (if \<not> terminal_status (job_status j) then t
      else add_total
        (if job_event_type j = ''llm_call''
         then add_llm t (job_cost j) (job_input_tokens j) (job_output_tokens j) (job_cached_tokens j)
         else if job_event_type j = ''external_cost''
         then t\<lparr>tk_external_cost := dec_add (tk_external_cost t) (job_cost j)\<rparr>
         else if job_event_type j = ''compute_cost''
         then t\<lparr>tk_compute_cost := dec_add (tk_compute_cost t) (job_cost j)\<rparr>
         else t) (job_cost j))"

definition recorded :: "task \<Rightarrow> event list \<Rightarrow> provider_job list \<Rightarrow> task" where
  "recorded t es js = fold (\<lambda>j t. add_job t j) js (fold (\<lambda>e t. add_event t e) es (cleared t))"

section \<open>Network\<close>

text \<open>What the prices come from: the engines, their versions, the modes of billing, the cloud.\<close>

record prices =
  px_egress :: egress_engine
  px_egress_version :: string
  px_compute :: compute_engine
  px_compute_version :: string
  px_gpu :: gpu_engine
  px_gpu_version :: string
  px_billing :: "(string \<times> string) list"
  px_cloud :: cloud_env

record network_rate =
  nr_rate :: dec
  nr_unit :: string
  nr_source :: string
  nr_confidence :: string
  nr_version :: "string option"

definition network_keys :: "cloud_env \<Rightarrow> string list" where
  "network_keys env =
     (case env_provider env of
        None \<Rightarrow> [''local'']
      | Some p \<Rightarrow> filter (\<lambda>k. k \<noteq> [])
          [case nonempty (env_region env) of Some g \<Rightarrow> p @ '':'' @ g | None \<Rightarrow> [], p])"

fun find_infra :: "string \<Rightarrow> string list \<Rightarrow> Rates.registry \<Rightarrow> infra_entry option" where
  "find_infra kind [] r = None"
| "find_infra kind (k # ks) r =
     (case get_infrastructure kind k r of Some x \<Rightarrow> Some x | None \<Rightarrow> find_infra kind ks r)"

definition network_rate_for ::
    "(string \<Rightarrow> string) \<Rightarrow> prices \<Rightarrow> Rates.registry \<Rightarrow> (py_error + network_rate) \<times> Rates.registry" where
  "network_rate_for sha256hex px r =
     (let env = px_cloud px
      in case find_infra ''network'' (network_keys env) r of
           Some x \<Rightarrow>
             (case pricing_version sha256hex r of
                (v, r') \<Rightarrow>
                  (map_sum id (\<lambda>w. \<lparr>nr_rate = ie_cost x, nr_unit = ie_per x, nr_source = ''rate_registry'',
                                     nr_confidence = ''computed'', nr_version = Some w\<rparr>) v, r'))
         | None \<Rightarrow>
             (if env_provider env = None
              then Inr \<lparr>nr_rate = dec0, nr_unit = ''gb_egress'', nr_source = ''unpriced:local_network'',
                        nr_confidence = ''unknown'', nr_version = None\<rparr>
              else map_sum id
                     (\<lambda>q. \<lparr>nr_rate = eg_rate q, nr_unit = eg_unit q, nr_source = eg_source q,
                            nr_confidence = eg_confidence q, nr_version = Some (''egress:'' @ px_egress_version px)\<rparr>)
                     (resolve_rate (px_egress px) (env_provider env) (env_region env)), r))"

text \<open>\<open>Decimal(n) / Decimal("1000000000") * rate\<close>, and the bytes that are billed.\<close>

definition price_bytes :: "network_rate \<Rightarrow> int \<Rightarrow> dec" where
  "price_bytes r n = dec_mul (the (dec_div (Dec n 0) gb_decimal)) (nr_rate r)"

definition billed :: "network_rate \<Rightarrow> traffic \<Rightarrow> int" where
  "billed r c = (if nr_unit r = ''gb_transferred'' then tr_in c + tr_out c else tr_external c)"

text \<open>\<open>str\<close> of an amount, which writes very small and very large amounts with an exponent.\<close>

definition dec_str :: "dec \<Rightarrow> string" where
  "dec_str d =
     (let digits = show_nat (nat \<bar>coeff d\<bar>); n = int (length digits); left = expo d + n;
          dot = (if expo d \<le> 0 \<and> - 6 < left then left else 1);
          body = (if dot \<le> 0 then ''0.'' @ replicate (nat (- dot)) (CHR ''0'') @ digits
                  else if n \<le> dot then digits @ replicate (nat (dot - n)) (CHR ''0'')
                  else take (nat dot) digits @ ''.'' @ drop (nat dot) digits)
      in (if coeff d < 0 then ''-'' else []) @ body @
         (if left = dot then [] else ''E'' @ (if dot \<le> left then ''+'' else []) @ show_int (left - dot)))"

definition stamped_host :: "network_rate \<Rightarrow> string \<times> traffic \<Rightarrow> obj" where
  "stamped_host r hc = host_entry hc @ [(''egress_cost_usd'', JStr (dec_str (price_bytes r (billed r (snd hc)))))]"

definition hosts_json :: "(string \<times> traffic \<Rightarrow> obj) \<Rightarrow> accountant \<Rightarrow> obj" where
  "hosts_json f a = [(''hosts'', JArr (map (\<lambda>hc. JObj (f hc)) (by_host a)))]"

text \<open>\<open>int(details.get(k, 0) or 0)\<close>.\<close>

definition byte_count :: "obj \<Rightarrow> string \<Rightarrow> py_error + int" where
  "byte_count d k =
     (let v = dict_get d k
      in if \<not> truthy v then Inr 0
         else case py_int v of Some n \<Rightarrow> Inr n | None \<Rightarrow> Inl (ValueError ''invalid literal for int()''))"

definition internal_traffic :: "event \<Rightarrow> bool" where
  "internal_traffic e \<longleftrightarrow> dict_get (ev_details e) ''is_internal_traffic'' = JBool True"

definition price_network_event :: "network_rate \<Rightarrow> event \<Rightarrow> py_error + event" where
  "price_network_event r e =
     bind_ok (byte_count (ev_details e) ''response_bytes'') (\<lambda>resp.
     bind_ok (byte_count (ev_details e) ''request_bytes'') (\<lambda>req.
       let free = internal_traffic e \<and> nr_unit r = ''gb_egress'';
           n = (if nr_unit r = ''gb_transferred'' then resp + req else if internal_traffic e then 0 else req)
       in Inr (e\<lparr>ev_cost := price_bytes r n,
                 ev_confidence := (if free then ''exact'' else nr_confidence r),
                 ev_pricing_source := Some (if free then ''egress_catalog:internal'' else nr_source r),
                 ev_pricing_version := nr_version r,
                 ev_details := dict_pop (ev_details e) ''cost_pending''\<rparr>)))"

text \<open>The events of the task are priced until one raises.\<close>

fun price_network_events :: "network_rate \<Rightarrow> event list \<Rightarrow> event_rows \<Rightarrow> event_rows \<times> bool" where
  "price_network_events r [] rows = (rows, True)"
| "price_network_events r (e # es) rows =
     (if ev_type e \<noteq> ''network'' then price_network_events r es rows
      else case price_network_event r e of
             Inl err \<Rightarrow> (rows, False)
           | Inr e' \<Rightarrow> price_network_events r es (update_event e' rows))"

definition with_traffic :: "accountant \<Rightarrow> task \<Rightarrow> task" where
  "with_traffic a t =
     t\<lparr>tk_bytes_in := tr_in (ac_total a), tk_bytes_out := tr_out (ac_total a), tk_call_count := tr_calls (ac_total a)\<rparr>"

definition price_network ::
    "(string \<Rightarrow> string) \<Rightarrow> prices \<Rightarrow> accountant \<Rightarrow> event list \<Rightarrow> task \<Rightarrow> event_rows \<Rightarrow> Rates.registry \<Rightarrow>
       task \<times> event_rows \<times> Rates.registry" where
  "price_network sha256hex px a es t0 rows reg =
     (let t = with_traffic a t0
      in case network_rate_for sha256hex px reg of
           (Inl err, reg') \<Rightarrow> (t\<lparr>tk_network_cost := dec0, tk_by_host := hosts_json host_entry a\<rparr>, rows, reg')
         | (Inr r, reg') \<Rightarrow>
             (let cost = price_bytes r (billed r (ac_total a)); hosts = hosts_json (stamped_host r) a;
                  (rows', ok) = price_network_events r es rows
              in (if ok
                  then t\<lparr>tk_network_cost := cost, tk_by_host := hosts, tk_total_cost := dec_add (tk_total_cost t) cost\<rparr>
                  else t\<lparr>tk_network_cost := dec0, tk_by_host := hosts\<rparr>, rows', reg')))"

section \<open>Compute and GPU time\<close>

text \<open>\<open>Decimal(str((ended_at - started_at).total_seconds()))\<close>: the shortest text of the
  float, which is exact for durations of less than thirty years, has at least one decimal place.\<close>

definition window_seconds :: "task \<Rightarrow> dec" where
  "window_seconds t =
     (case tk_ended_at t of
        None \<Rightarrow> dec0
      | Some ended \<Rightarrow> strip_to 5 (instant ended - instant (tk_started_at t)) (- 6))"

definition pending :: "string \<Rightarrow> event \<Rightarrow> bool" where
  "pending kind e \<longleftrightarrow> ev_type e = kind \<and> truthy (dict_get (ev_details e) ''cost_pending'')"

definition new_event :: "uuid \<Rightarrow> dt \<Rightarrow> uuid \<Rightarrow> string \<Rightarrow> obj \<Rightarrow> event" where
  "new_event eid now task_id kind details =
     \<lparr>ev_id = eid, ev_task_id = task_id, ev_type = kind, ev_occurred_at = now, ev_cost = dec0,
      ev_confidence = ''exact'', ev_pricing_source = None, ev_pricing_version = None, ev_service_name = None,
      ev_provider = None, ev_model = None, ev_input_tokens = None, ev_output_tokens = None,
      ev_cached_tokens = None, ev_latency_ms = None, ev_is_retry = False, ev_retry_reason = None,
      ev_retry_of = None, ev_details = details, ev_schema = ''1''\<rparr>"

text \<open>The books: the tables of events and tasks, the provider jobs, the ambient context of insertion,
  the rates. Identities and times of new events are drawn from \<open>bk_fresh\<close>.\<close>

record books =
  bo_tasks :: task_rows
  bo_events :: event_rows
  bo_jobs :: job_rows
  bo_ambient :: ambient
  bo_rates :: "Rates.registry"
  bo_fresh :: "(uuid \<times> dt) list"

definition task_events :: "books \<Rightarrow> uuid \<Rightarrow> event list" where
  "task_events b tid = query_events (bo_tasks b) (bo_events b)
     \<lparr>ef_task_id = Some tid, ef_event_id = None, ef_event_type = None, ef_customer_id = None,
      ef_after = None, ef_before = None\<rparr>"

text \<open>Insert an event with the next fresh identity; the identity it was stored under.\<close>

definition add_measured ::
    "(string \<Rightarrow> string) \<Rightarrow> (string \<Rightarrow> uuid) \<Rightarrow> uuid \<Rightarrow> string \<Rightarrow> obj \<Rightarrow> books \<Rightarrow> (py_error + uuid) \<times> books" where
  "add_measured sha256hex uuid5 task_id kind details b =
     (let (eid, now) = hd (bo_fresh b); b1 = b\<lparr>bo_fresh := tl (bo_fresh b)\<rparr>
      in case insert_event sha256hex uuid5 (bo_ambient b) (bo_events b) (new_event eid now task_id kind details) of
           (Inl err, amb) \<Rightarrow> (Inl err, b1\<lparr>bo_ambient := amb\<rparr>)
         | (Inr (e, rows), amb) \<Rightarrow> (Inr (ev_id e), b1\<lparr>bo_ambient := amb, bo_events := rows\<rparr>))"

text \<open>The change of the total when an event gets a new price; \<open>added\<close> are the events just inserted.\<close>

definition delta_of :: "uuid list \<Rightarrow> event \<Rightarrow> event \<Rightarrow> dec \<Rightarrow> dec" where
  "delta_of added old e d =
     (let d1 = dec_add d (dec_sub (ev_cost e) (ev_cost old))
      in if ev_id e \<in> set added then dec_add d1 (ev_cost old) else d1)"

definition price_compute_event :: "prices \<Rightarrow> dec \<Rightarrow> event \<Rightarrow> event" where
  "price_compute_event px window e =
     (let c = resolve_compute_cost (px_compute px) (ev_details e) (env_instance (px_cloud px)) (px_billing px) (Some window)
      in e\<lparr>ev_cost := cc_cost c, ev_pricing_source := Some (cc_source c), ev_confidence := cc_confidence c,
           ev_pricing_version := Some (''compute:'' @ px_compute_version px),
           ev_details := dict_pop (ev_details e) ''cost_pending''\<rparr>)"

fun price_compute_events :: "prices \<Rightarrow> dec \<Rightarrow> uuid list \<Rightarrow> event list \<Rightarrow> event_rows \<Rightarrow> dec \<Rightarrow> event_rows \<times> dec" where
  "price_compute_events px window added [] rows d = (rows, d)"
| "price_compute_events px window added (e # es) rows d =
     (if \<not> pending ''compute_cost'' e then price_compute_events px window added es rows d
      else (let e' = price_compute_event px window e
            in price_compute_events px window added es (update_event e' rows) (delta_of added e e' d)))"

text \<open>What an accountant measured: its runtime, and what \<open>snapshot_end_and_build\<close> returns.\<close>

definition long_running :: "string list" where
  "long_running = [''fargate'', ''ec2'', ''gce'', ''azure_vm'', ''k8s_pod'']"

definition measured :: "string list \<Rightarrow> string \<Rightarrow> bool \<Rightarrow> (string \<times> 'a) option \<Rightarrow> 'a option" where
  "measured kinds ec2 invoice_ec2 m =
     (case m of
        Some (kind, x) \<Rightarrow> if kind \<in> set kinds \<and> \<not> (invoice_ec2 \<and> kind = ec2) then Some x else None
      | None \<Rightarrow> None)"

definition add_cost_event ::
    "(string \<Rightarrow> string) \<Rightarrow> (string \<Rightarrow> uuid) \<Rightarrow> uuid \<Rightarrow> string \<Rightarrow> obj option \<Rightarrow> books \<Rightarrow> (py_error + uuid list) \<times> books" where
  "add_cost_event sha256hex uuid5 task_id kind details b =
     (case details of
        None \<Rightarrow> (Inr [], b)
      | Some d \<Rightarrow> (case add_measured sha256hex uuid5 task_id kind d b of (r, b') \<Rightarrow> (map_sum id (\<lambda>i. [i]) r, b')))"

definition record_compute ::
    "(string \<Rightarrow> string) \<Rightarrow> (string \<Rightarrow> uuid) \<Rightarrow> bool \<Rightarrow> (string \<times> (py_error + obj option)) option \<Rightarrow>
       uuid \<Rightarrow> books \<Rightarrow> (py_error + uuid list) \<times> books" where
  "record_compute sha256hex uuid5 invoice_ec2 m task_id b =
     (case measured long_running ''ec2'' invoice_ec2 m of
        None \<Rightarrow> (Inr [], b)
      | Some (Inl err) \<Rightarrow> (Inl err, b)
      | Some (Inr details) \<Rightarrow> add_cost_event sha256hex uuid5 task_id ''compute_cost'' details b)"

definition finalize_compute ::
    "(string \<Rightarrow> string) \<Rightarrow> (string \<Rightarrow> uuid) \<Rightarrow> prices \<Rightarrow> bool \<Rightarrow> (string \<times> (py_error + obj option)) option \<Rightarrow>
       task \<Rightarrow> books \<Rightarrow> task \<times> books" where
  "finalize_compute sha256hex uuid5 px invoice_ec2 m t b =
     (case record_compute sha256hex uuid5 invoice_ec2 m (tk_id t) b of
        (Inl err, b1) \<Rightarrow> (t, b1)
      | (Inr added, b1) \<Rightarrow>
          (let (rows, d) = price_compute_events px (window_seconds t) added (task_events b1 (tk_id t)) (bo_events b1) dec0
           in (t\<lparr>tk_compute_cost := dec_add (tk_compute_cost t) d, tk_total_cost := dec_add (tk_total_cost t) d\<rparr>,
               b1\<lparr>bo_events := rows\<rparr>)))"

section \<open>GPU time\<close>

definition gpu_keys :: "obj \<Rightarrow> string list" where
  "gpu_keys d =
     (if dict_get d ''billing_model'' = JStr ''local_gpu_usage_only''
      then List.map_filter (\<lambda>k. case dict_get d k of JStr s \<Rightarrow> if py_strip s = [] then None else Some s | _ \<Rightarrow> None)
             [''gpu_sku'', ''_nvml_product_name_lower'']
      else [])"

text \<open>The price of owned hardware, with the amount of seconds it is the price of: None without a
  registered rate, with an unreadable amount, and for an amount that is not positive.\<close>

definition custom_gpu :: "obj \<Rightarrow> Rates.registry \<Rightarrow> (infra_entry \<times> dec) option" where
  "custom_gpu d reg =
     (case find_infra ''gpu'' (gpu_keys d) reg of
        None \<Rightarrow> None
      | Some x \<Rightarrow>
          (case json_get (JObj d) ''gpu_seconds_used'' (JStr ''0'') of
             Inl err \<Rightarrow> None
           | Inr v \<Rightarrow> (case number_of v of
                         Inl err \<Rightarrow> None
                       | Inr s \<Rightarrow> if 0 < coeff s then Some (x, s) else None)))"

definition gpu_private :: "string list" where
  "gpu_private = [''cost_pending'', ''_cgroup_scope_fallback'', ''_nvml_product_name_lower'']"

definition without_private :: "obj \<Rightarrow> obj" where
  "without_private d = filter (\<lambda>(k, v). k \<notin> set gpu_private) d"

definition gpu_second_rate :: "infra_entry \<Rightarrow> dec" where
  "gpu_second_rate x = (if ie_per x = ''gpu_hour'' then the (dec_div (ie_cost x) hour_s) else ie_cost x)"

definition price_gpu_event ::
    "(string \<Rightarrow> string) \<Rightarrow> prices \<Rightarrow> dec \<Rightarrow> event \<Rightarrow> Rates.registry \<Rightarrow> (py_error + event) \<times> Rates.registry" where
  "price_gpu_event sha256hex px window e reg =
     (let d = ev_details e
      in case custom_gpu d reg of
           Some (x, s) \<Rightarrow>
             (case pricing_version sha256hex reg of
                (v, reg') \<Rightarrow>
                  (map_sum id (\<lambda>w. e\<lparr>ev_cost := dec_mul s (gpu_second_rate x), ev_pricing_source := Some ''rate_registry'',
                                     ev_confidence := ''computed'', ev_pricing_version := Some w,
                                     ev_details := without_private d\<rparr>) v, reg'))
         | None \<Rightarrow>
             (let c = resolve_gpu_cost (px_gpu px) d (px_cloud px) (Some window)
              in (Inr (e\<lparr>ev_cost := cc_cost c, ev_pricing_source := Some (cc_source c), ev_confidence := cc_confidence c,
                         ev_pricing_version := (if dict_get d ''billing_model'' = JStr ''local_gpu_usage_only'' then None
                                                else Some (''gpu:'' @ px_gpu_version px)),
                         ev_details := without_private d\<rparr>), reg)))"

text \<open>None for the difference: an event raised, and the difference found so far is lost.\<close>

fun price_gpu_events ::
    "(string \<Rightarrow> string) \<Rightarrow> prices \<Rightarrow> dec \<Rightarrow> uuid list \<Rightarrow> event list \<Rightarrow> event_rows \<Rightarrow> Rates.registry \<Rightarrow> dec \<Rightarrow>
       event_rows \<times> Rates.registry \<times> dec option" where
  "price_gpu_events sha256hex px window added [] rows reg d = (rows, reg, Some d)"
| "price_gpu_events sha256hex px window added (e # es) rows reg d =
     (if \<not> pending ''gpu_cost'' e then price_gpu_events sha256hex px window added es rows reg d
      else case price_gpu_event sha256hex px window e reg of
             (Inl err, reg') \<Rightarrow> (rows, reg', None)
           | (Inr e', reg') \<Rightarrow>
               price_gpu_events sha256hex px window added es (update_event e' rows) reg' (delta_of added e e' d))"

definition long_running_gpu :: "string list" where
  "long_running_gpu = [''aws_ec2_gpu'', ''gcp_gce_bundled'', ''gcp_gce_n1_attached'', ''azure_vm_gpu'',
     ''azure_vm_vgpu'', ''lambda_labs'', ''coreweave'', ''local_gpu'']"

fun add_signals :: "(string \<Rightarrow> string) \<Rightarrow> (string \<Rightarrow> uuid) \<Rightarrow> uuid \<Rightarrow> obj list \<Rightarrow> books \<Rightarrow> py_error option \<times> books" where
  "add_signals sha256hex uuid5 task_id [] b = (None, b)"
| "add_signals sha256hex uuid5 task_id (d # ds) b =
     (case add_measured sha256hex uuid5 task_id ''gpu_utilization_signal'' d b of
        (Inl err, b') \<Rightarrow> (Some err, b')
      | (Inr i, b') \<Rightarrow> add_signals sha256hex uuid5 task_id ds b')"

definition record_gpu ::
    "(string \<Rightarrow> string) \<Rightarrow> (string \<Rightarrow> uuid) \<Rightarrow> bool \<Rightarrow> (string \<times> (py_error + obj option \<times> obj list)) option \<Rightarrow>
       uuid \<Rightarrow> books \<Rightarrow> (py_error + uuid list) \<times> books" where
  "record_gpu sha256hex uuid5 invoice_ec2 m task_id b =
     (case measured long_running_gpu ''aws_ec2_gpu'' invoice_ec2 m of
        None \<Rightarrow> (Inr [], b)
      | Some (Inl err) \<Rightarrow> (Inl err, b)
      | Some (Inr (details, signals)) \<Rightarrow>
          (case add_cost_event sha256hex uuid5 task_id ''gpu_cost'' details b of
             (Inl err, b1) \<Rightarrow> (Inl err, b1)
           | (Inr added, b1) \<Rightarrow>
               (case add_signals sha256hex uuid5 task_id signals b1 of
                  (None, b2) \<Rightarrow> (Inr added, b2)
                | (Some err, b2) \<Rightarrow> (Inl err, b2))))"

definition finalize_gpu ::
    "(string \<Rightarrow> string) \<Rightarrow> (string \<Rightarrow> uuid) \<Rightarrow> prices \<Rightarrow> bool \<Rightarrow>
       (string \<times> (py_error + obj option \<times> obj list)) option \<Rightarrow> task \<Rightarrow> books \<Rightarrow> task \<times> books" where
  "finalize_gpu sha256hex uuid5 px invoice_ec2 m t b =
     (case record_gpu sha256hex uuid5 invoice_ec2 m (tk_id t) b of
        (Inl err, b1) \<Rightarrow> (t, b1)
      | (Inr added, b1) \<Rightarrow>
          (case price_gpu_events sha256hex px (window_seconds t) added (task_events b1 (tk_id t)) (bo_events b1) (bo_rates b1) dec0 of
             (rows, reg, None) \<Rightarrow> (t, b1\<lparr>bo_events := rows, bo_rates := reg\<rparr>)
           | (rows, reg, Some d) \<Rightarrow>
               (t\<lparr>tk_gpu_cost := dec_add (tk_gpu_cost t) d, tk_total_cost := dec_add (tk_total_cost t) d\<rparr>,
                b1\<lparr>bo_events := rows, bo_rates := reg\<rparr>)))"

section \<open>The roll-up\<close>

record measurements =
  ms_network :: accountant
  ms_compute :: "(string \<times> (py_error + obj option)) option"
  ms_gpu :: "(string \<times> (py_error + obj option \<times> obj list)) option"
  ms_invoice_ec2 :: bool

definition aggregate_costs ::
    "(string \<Rightarrow> string) \<Rightarrow> (string \<Rightarrow> uuid) \<Rightarrow> prices \<Rightarrow> measurements \<Rightarrow> task \<Rightarrow> books \<Rightarrow> task \<times> books" where
  "aggregate_costs sha256hex uuid5 px ms t b =
     (let es = task_events b (tk_id t);
          js = query_current_provider_jobs_for_task (bo_jobs b) (tk_id t);
          a = snd (finalize (ms_network ms));
          (t1, rows, reg) = price_network sha256hex px a es (recorded t es js) (bo_events b) (bo_rates b);
          (t2, b2) = finalize_compute sha256hex uuid5 px (ms_invoice_ec2 ms) (ms_compute ms) t1
                       (b\<lparr>bo_events := rows, bo_rates := reg\<rparr>)
      in finalize_gpu sha256hex uuid5 px (ms_invoice_ec2 ms) (ms_gpu ms) t2 b2)"

end
