(* ===== verification/Roll_Up_Updates.thy ===== *)
theory Roll_Up_Updates
  imports Roll_Up
begin

text \<open>
  The roll-up as a list of updates of the event table: exact addition of amounts, sums over the rows
  of a task, what several updates do to them and to the differences that are added to a total,
  and what recording a measurement keeps.
\<close>

section \<open>Exact sums\<close>

text \<open>Amounts on the grid of \<open>10 ^ - q\<close>, no larger than \<open>m\<close>.\<close>

definition fits :: "nat \<Rightarrow> rat \<Rightarrow> dec \<Rightarrow> bool" where
  "fits q m d \<longleftrightarrow> - int q \<le> expo d \<and> \<bar>dec_val d\<bar> \<le> m"

lemma fits_mono: "fits q m d \<Longrightarrow> m \<le> n \<Longrightarrow> fits q n d"
  by (simp add: fits_def)

lemma fits_zero: "0 \<le> m \<Longrightarrow> fits q m dec0"
  by (simp add: fits_def dec_val_def)

definition small :: "nat \<Rightarrow> rat \<Rightarrow> bool" where
  "small q m \<longleftrightarrow> m * 10 ^ q < 10 ^ 28"

lemma small_mono: "small q n \<Longrightarrow> m \<le> n \<Longrightarrow> small q m"
  unfolding small_def by (rule order.strict_trans1 [OF mult_right_mono]) auto

lemma grid_exact:
  assumes "- int q \<le> e" "\<bar>of_int c * (10::rat) powi e\<bar> * 10 ^ q < 10 ^ 28"
  shows "dec_fix (Dec c e) = Dec c e"
proof -
  have "(1::rat) \<le> 10 powi (e + int q)" using assms(1) by (intro one_le_power_int) auto
  moreover have "(10::rat) powi (e + int q) = 10 powi e * 10 ^ q" by (simp add: power_int_add)
  ultimately have "\<bar>of_int c :: rat\<bar> * 1 \<le> \<bar>of_int c\<bar> * (10 powi e * 10 ^ q)" by (intro mult_left_mono) auto
  also have "\<dots> = \<bar>of_int c * (10::rat) powi e\<bar> * 10 ^ q" by (simp add: abs_mult)
  finally have "\<bar>of_int c :: rat\<bar> < 10 ^ 28" using assms(2) by simp
  then have "of_int \<bar>c\<bar> < (of_int (10 ^ 28) :: rat)" by simp
  then have "\<bar>c\<bar> < 10 ^ 28" by (simp only: of_int_less_iff)
  then show ?thesis by (intro dec_fix_exact) simp
qed

lemma fits_add:
  assumes "fits q m a" "fits q n b" "small q (m + n)"
  shows "fits q (m + n) (dec_add a b) \<and> dec_val (dec_add a b) = dec_val a + dec_val b"
proof -
  let ?e = "min (expo a) (expo b)"
  let ?c = "coeff a * 10 ^ nat (expo a - ?e) + coeff b * 10 ^ nat (expo b - ?e)"
  have v: "dec_val (Dec ?c ?e) = dec_val a + dec_val b" by (rule dec_val_add_unfixed)
  have "\<bar>dec_val (Dec ?c ?e)\<bar> \<le> m + n" using assms(1,2) unfolding v fits_def by linarith
  moreover have e: "- int q \<le> ?e" using assms(1,2) by (simp add: fits_def)
  moreover have "small q \<bar>dec_val (Dec ?c ?e)\<bar>" by (rule small_mono [OF assms(3) calculation(1)])
  then have "dec_fix (Dec ?c ?e) = Dec ?c ?e"
    unfolding dec_val_Dec small_def by (rule grid_exact [OF e])
  ultimately show ?thesis using v by (simp add: dec_add_def Let_def fits_def)
qed

lemma fits_sub:
  assumes "fits q m a" "fits q n b" "small q (m + n)"
  shows "fits q (m + n) (dec_sub a b) \<and> dec_val (dec_sub a b) = dec_val a - dec_val b"
proof -
  have "dec_val (dec_neg b) = - dec_val b" by (simp add: dec_neg_def dec_val_def)
  moreover have "fits q n (dec_neg b)" using assms(2) calculation by (simp add: fits_def dec_neg_def)
  ultimately show ?thesis using fits_add [OF assms(1) _ assms(3)] by (simp add: dec_sub_def)
qed

section \<open>Sums over the event table\<close>

text \<open>The sum over the rows of a task of a quantity of the kind and the cost.\<close>

definition row_sum :: "(string \<Rightarrow> dec \<Rightarrow> rat) \<Rightarrow> uuid \<Rightarrow> event_rows \<Rightarrow> rat" where
  "row_sum g tid rows = (\<Sum>r\<leftarrow>rows. if ev_task_id (body r) = tid then g (ev_type (body r)) (ev_cost (body r)) else 0)"

abbreviation row_ids :: "event_rows \<Rightarrow> uuid list" where "row_ids rows \<equiv> map (\<lambda>r. ev_id (body r)) rows"

abbreviation event_sum :: "(string \<Rightarrow> dec \<Rightarrow> rat) \<Rightarrow> event list \<Rightarrow> rat" where
  "event_sum g es \<equiv> (\<Sum>e\<leftarrow>es. g (ev_type e) (ev_cost e))"

lemma sum_list_sort_key: "(\<Sum>x\<leftarrow>sort_key k xs. (f x :: rat)) = (\<Sum>x\<leftarrow>xs. f x)"
  by (metis mset_map mset_sort sum_mset_sum_list)

lemma sum_list_filter: "(\<Sum>x\<leftarrow>filter p xs. (f x :: rat)) = (\<Sum>x\<leftarrow>xs. if p x then f x else 0)"
  by (induction xs) auto

lemma task_events_rows:
  "task_events b tid =
     map body (rev (sort_key (\<lambda>r. isoformat (ev_occurred_at (body r))) (filter (\<lambda>r. ev_task_id (body r) = tid) (bo_events b))))"
  by (simp add: task_events_def query_events_def event_matches_def holds_opt_def)

lemma row_sum_events: "event_sum g (task_events b tid) = row_sum g tid (bo_events b)"
  by (simp add: task_events_rows row_sum_def rev_map [symmetric] sum_list_rev sum_list_sort_key sum_list_filter comp_def del: rev_map)

lemma row_ids_update: "row_ids (update_event e rows) = row_ids rows"
  by (auto simp: update_event_def update_where_def stored_event_def)

lemma row_sum_update:
  assumes "distinct (row_ids rows)" "r \<in> set rows" "body r = e" "ev_id n = ev_id e" "ev_task_id e = tid"
  shows "row_sum g tid (update_event n rows) = row_sum g tid rows - g (ev_type e) (ev_cost e) + g (ev_type n) (ev_cost n)"
  using assms
proof (induction rows)
  case (Cons x rows)
  have other: "update_event n rows = rows" if "ev_id n \<notin> set (row_ids rows)"
    using that by (induction rows) (auto simp: update_event_def update_where_def)
  show ?case
  proof (cases "x = r")
    case True
    then have "update_event n rows = rows" using Cons.prems by (intro other) auto
    with True Cons.prems show ?thesis by (simp add: row_sum_def update_event_def update_where_def stored_event_def)
  next
    case False
    then have "ev_id (body x) \<noteq> ev_id e" using Cons.prems by force
    with False Cons show ?thesis by (simp add: row_sum_def update_event_def update_where_def)
  qed
qed simp

section \<open>Several updates\<close>

text \<open>Events of the task, each with its new form.\<close>

definition run_updates :: "(event \<times> event) list \<Rightarrow> event_rows \<Rightarrow> event_rows" where
  "run_updates us rows = fold (\<lambda>(e, n). update_event n) us rows"

definition run_delta :: "uuid list \<Rightarrow> (event \<times> event) list \<Rightarrow> dec \<Rightarrow> dec" where
  "run_delta added us d = fold (\<lambda>(e, n). delta_of added e n) us d"

definition updates_ok :: "uuid \<Rightarrow> (event \<times> event) list \<Rightarrow> event_rows \<Rightarrow> bool" where
  "updates_ok tid us rows \<longleftrightarrow> distinct (row_ids rows) \<and> distinct (map (\<lambda>(e, n). ev_id e) us) \<and>
     (\<forall>(e, n) \<in> set us. e \<in> body ` set rows \<and> ev_task_id e = tid \<and> ev_id n = ev_id e \<and> ev_type n = ev_type e)"

lemma run_updates_simps [simp]:
  "run_updates [] rows = rows" "run_updates ((e, n) # us) rows = run_updates us (update_event n rows)"
  by (simp_all add: run_updates_def)

lemma run_delta_simps [simp]:
  "run_delta added [] d = d" "run_delta added ((e, n) # us) d = run_delta added us (delta_of added e n d)"
  by (simp_all add: run_delta_def)

lemma row_ids_run: "row_ids (run_updates us rows) = row_ids rows"
  by (induction us arbitrary: rows) (auto simp: row_ids_update)

lemma updates_ok_Cons:
  assumes "updates_ok tid ((e, n) # us) rows"
  shows "updates_ok tid us (update_event n rows)"
proof -
  have "x \<in> body ` set (update_event n rows)" if x: "x \<in> body ` set rows" "ev_id x \<noteq> ev_id n" for x
  proof -
    obtain r where r: "r \<in> set rows" "x = body r" using x by blast
    with x(2) have "r \<in> set (update_event n rows)" by (force simp: update_event_def update_where_def)
    with r show ?thesis by blast
  qed
  note kept = this
  have head: "ev_id n = ev_id e" "ev_id e \<notin> set (map (\<lambda>(e, n). ev_id e) us)" and ok: "distinct (row_ids rows)" "distinct (map (\<lambda>(e, n). ev_id e) us)"
      "\<forall>(e, n) \<in> set us. e \<in> body ` set rows \<and> ev_task_id e = tid \<and> ev_id n = ev_id e \<and> ev_type n = ev_type e"
    using assms by (simp_all add: updates_ok_def)
  have "e' \<in> body ` set (update_event n rows)" if "(e', n') \<in> set us" for e' n'
  proof (rule kept)
    show "e' \<in> body ` set rows" using ok(3) that by fast
    have "ev_id e' \<in> set (map (\<lambda>(e, n). ev_id e) us)" using that by force
    with head show "ev_id e' \<noteq> ev_id n" by metis
  qed
  with ok show ?thesis unfolding updates_ok_def row_ids_update by fast
qed

lemma row_sum_run:
  assumes "updates_ok tid us rows"
  shows "row_sum g tid (run_updates us rows) =
    row_sum g tid rows + (\<Sum>(e, n)\<leftarrow>us. g (ev_type e) (ev_cost n) - g (ev_type e) (ev_cost e))"
  using assms
proof (induction us arbitrary: rows)
  case (Cons u us)
  obtain e n where u: "u = (e, n)" by fastforce
  from Cons.prems obtain r where "r \<in> set rows" "body r = e" "ev_id n = ev_id e" "ev_task_id e = tid" "ev_type n = ev_type e"
      "distinct (row_ids rows)"
    unfolding u by (auto simp: updates_ok_def)
  then show ?case using Cons.IH [OF updates_ok_Cons [OF Cons.prems [unfolded u]]]
    by (simp add: u row_sum_update)
qed simp

text \<open>The difference is exact, and so is what the events added contribute: they had no cost.\<close>

abbreviation change :: "event \<times> event \<Rightarrow> rat" where
  "change \<equiv> \<lambda>(e, n). dec_val (ev_cost n) - dec_val (ev_cost e)"

abbreviation weight :: "event \<times> event \<Rightarrow> rat" where
  "weight \<equiv> \<lambda>(e, n). \<bar>dec_val (ev_cost n)\<bar> + \<bar>dec_val (ev_cost e)\<bar>"

lemma delta_exact:
  assumes "fits q m d" "- int q \<le> expo (ev_cost e)" "- int q \<le> expo (ev_cost n)" "small q (m + weight (e, n))"
    and "ev_id n \<in> set added \<Longrightarrow> dec_val (ev_cost e) = 0"
  shows "fits q (m + weight (e, n)) (delta_of added e n d) \<and> dec_val (delta_of added e n d) = dec_val d + change (e, n)"
proof -
  let ?o = "\<bar>dec_val (ev_cost e)\<bar>" and ?n = "\<bar>dec_val (ev_cost n)\<bar>"
  have m: "0 \<le> m" using assms(1) by (auto simp: fits_def)
  have fo: "fits q ?o (ev_cost e)" and fn: "fits q ?n (ev_cost n)" using assms by (simp_all add: fits_def)
  have lt: "small q (?n + ?o)" by (rule small_mono [OF assms(4)]) (use m in simp)
  have s: "fits q (?n + ?o) (dec_sub (ev_cost n) (ev_cost e))"
      "dec_val (dec_sub (ev_cost n) (ev_cost e)) = dec_val (ev_cost n) - dec_val (ev_cost e)"
    using fits_sub [OF fn fo lt] by blast+
  have a: "fits q (m + (?n + ?o)) (dec_add d (dec_sub (ev_cost n) (ev_cost e)))"
      "dec_val (dec_add d (dec_sub (ev_cost n) (ev_cost e))) = dec_val d + (dec_val (ev_cost n) - dec_val (ev_cost e))"
    using fits_add [OF assms(1) s(1)] assms(4) unfolding s(2) prod.case by blast+
  show ?thesis
  proof (cases "ev_id n \<in> set added")
    case True
    then have "fits q 0 (ev_cost e)" using assms by (simp add: fits_def)
    from fits_add [OF a(1) this] assms(4,5) a(2) True show ?thesis by (simp add: delta_of_def)
  qed (use a in \<open>simp add: delta_of_def\<close>)
qed

lemma run_delta_exact:
  assumes "fits q m d" "\<forall>(e, n) \<in> set us. - int q \<le> expo (ev_cost e) \<and> - int q \<le> expo (ev_cost n) \<and>
      (ev_id n \<in> set added \<longrightarrow> dec_val (ev_cost e) = 0)" "small q (m + (\<Sum>u\<leftarrow>us. weight u))"
  shows "fits q (m + (\<Sum>u\<leftarrow>us. weight u)) (run_delta added us d) \<and>
    dec_val (run_delta added us d) = dec_val d + (\<Sum>u\<leftarrow>us. change u)"
  using assms
proof (induction us arbitrary: m d)
  case (Cons u us)
  obtain e n where u: "u = (e, n)" by fastforce
  have w: "0 \<le> (\<Sum>u\<leftarrow>us. weight u)" by (intro sum_list_nonneg) auto
  have "small q (m + weight (e, n))" by (rule small_mono [OF Cons.prems(3)]) (use w in \<open>simp add: u\<close>)
  moreover have "- int q \<le> expo (ev_cost e)" "- int q \<le> expo (ev_cost n)" "ev_id n \<in> set added \<Longrightarrow> dec_val (ev_cost e) = 0"
    using Cons.prems(2) by (auto simp: u)
  ultimately have d: "fits q (m + weight (e, n)) (delta_of added e n d)" "dec_val (delta_of added e n d) = dec_val d + change (e, n)"
    using delta_exact [OF Cons.prems(1)] by blast+
  have sum: "m + weight (e, n) + (\<Sum>u\<leftarrow>us. weight u) = m + (\<Sum>u\<leftarrow>u # us. weight u)" by (simp add: u)
  have "\<forall>(e, n) \<in> set us. - int q \<le> expo (ev_cost e) \<and> - int q \<le> expo (ev_cost n) \<and>
      (ev_id n \<in> set added \<longrightarrow> dec_val (ev_cost e) = 0)" using Cons.prems(2) by simp
  from Cons.IH [OF d(1) this] Cons.prems(3) show ?case unfolding sum by (simp add: u d(2))
qed simp

section \<open>The prices as updates\<close>

lemma price_compute_keeps [simp]:
  "ev_id (price_compute_event px w e) = ev_id e" "ev_type (price_compute_event px w e) = ev_type e"
  "ev_task_id (price_compute_event px w e) = ev_task_id e"
  by (simp_all add: price_compute_event_def Let_def)

lemma compute_loop:
  "price_compute_events px w added es rows d =
     (let us = map (\<lambda>e. (e, price_compute_event px w e)) (filter (pending ''compute_cost'') es)
      in (run_updates us rows, run_delta added us d))"
  by (induction es arbitrary: rows d) (simp_all add: Let_def)

lemma price_network_keeps:
  "price_network_event r e = Inr n \<Longrightarrow> ev_id n = ev_id e \<and> ev_type n = ev_type e \<and> ev_task_id n = ev_task_id e"
  by (auto simp: price_network_event_def Let_def bind_ok_Inr)

lemma network_loop:
  "\<exists>us k. fst (price_network_events r es rows) = run_updates us rows \<and>
     map fst us = take k (filter (\<lambda>e. ev_type e = ''network'') es) \<and> (\<forall>(e, n) \<in> set us. price_network_event r e = Inr n) \<and>
     (snd (price_network_events r es rows) \<longrightarrow> length (filter (\<lambda>e. ev_type e = ''network'') es) \<le> k)"
proof (induction es arbitrary: rows)
  case Nil
  show ?case by (intro exI [of _ "[]"]) auto
next
  case (Cons e es)
  show ?case
  proof (cases "ev_type e = ''network''")
    case False
    then show ?thesis using Cons.IH by simp
  next
    case net: True
    show ?thesis
    proof (cases "price_network_event r e")
      case (Inl err)
      then show ?thesis using net by (intro exI [of _ "[]"] exI [of _ "0::nat"]) simp
    next
      case (Inr n)
      obtain us k where us: "fst (price_network_events r es (update_event n rows)) = run_updates us (update_event n rows)"
          "map fst us = take k (filter (\<lambda>e. ev_type e = ''network'') es)" "\<forall>(e, n) \<in> set us. price_network_event r e = Inr n"
          "snd (price_network_events r es (update_event n rows)) \<longrightarrow> length (filter (\<lambda>e. ev_type e = ''network'') es) \<le> k"
        using Cons.IH by blast
      then show ?thesis using net Inr by (intro exI [of _ "(e, n) # us"] exI [of _ "Suc k"]) simp
    qed
  qed
qed

text \<open>Registries that quote the same, with a pricing version that is known.\<close>

definition same_rates :: "(string \<Rightarrow> string) \<Rightarrow> string \<Rightarrow> Rates.registry \<Rightarrow> Rates.registry \<Rightarrow> bool" where
  "same_rates sha v r s \<longleftrightarrow> rg_infra r = rg_infra s \<and> fst (pricing_version sha r) = Inr v \<and> fst (pricing_version sha s) = Inr v"

lemma find_infra_same: "rg_infra r = rg_infra s \<Longrightarrow> find_infra k ks r = find_infra k ks s"
  by (induction ks) (simp_all add: get_infrastructure_def split: option.split)

lemma pricing_version_again:
  assumes "fst (pricing_version sha r) = Inr v"
  shows "same_rates sha v r (snd (pricing_version sha r))"
  using assms by (auto simp: same_rates_def pricing_version_def split: option.splits sum.splits)

lemma price_gpu_same:
  assumes "same_rates sha v r s"
  shows "\<exists>n. price_gpu_event sha px w e r = (Inr n, snd (price_gpu_event sha px w e r)) \<and> fst (price_gpu_event sha px w e s) = Inr n \<and>
    ev_id n = ev_id e \<and> ev_type n = ev_type e \<and> ev_task_id n = ev_task_id e \<and>
    same_rates sha v r (snd (price_gpu_event sha px w e r))"
proof -
  have c: "custom_gpu (ev_details e) s = custom_gpu (ev_details e) r"
    using find_infra_same [of r s] assms by (simp add: custom_gpu_def same_rates_def)
  show ?thesis
  proof (cases "custom_gpu (ev_details e) r")
    case None
    then show ?thesis using c assms by (simp add: price_gpu_event_def Let_def same_rates_def)
  next
    case (Some xs)
    obtain x a where xs: "xs = (x, a)" by fastforce
    obtain r' where r: "pricing_version sha r = (Inr v, r')" using assms by (metis same_rates_def prod.collapse)
    obtain s' where s: "pricing_version sha s = (Inr v, s')" using assms by (metis same_rates_def prod.collapse)
    have "same_rates sha v r r'" using pricing_version_again [of sha r v] r by simp
    then show ?thesis using Some c r s by (simp add: price_gpu_event_def Let_def xs)
  qed
qed

definition gpu_price :: "(string \<Rightarrow> string) \<Rightarrow> prices \<Rightarrow> dec \<Rightarrow> Rates.registry \<Rightarrow> event \<Rightarrow> event" where
  "gpu_price sha px w r e = projr (fst (price_gpu_event sha px w e r))"

lemma gpu_price_keeps:
  assumes "fst (pricing_version sha r) = Inr v"
  shows "ev_id (gpu_price sha px w r e) = ev_id e" "ev_type (gpu_price sha px w r e) = ev_type e"
    "ev_task_id (gpu_price sha px w r e) = ev_task_id e"
proof -
  have "same_rates sha v r r" using assms by (simp add: same_rates_def)
  from price_gpu_same [OF this, of px w e] show "ev_id (gpu_price sha px w r e) = ev_id e"
      "ev_type (gpu_price sha px w r e) = ev_type e" "ev_task_id (gpu_price sha px w r e) = ev_task_id e"
    by (auto simp: gpu_price_def)
qed

lemma gpu_loop:
  assumes "same_rates sha v r s"
  shows "\<exists>r'. same_rates sha v r r' \<and> price_gpu_events sha px w added es rows s d =
     (let us = map (\<lambda>e. (e, gpu_price sha px w r e)) (filter (pending ''gpu_cost'') es)
      in (run_updates us rows, r', Some (run_delta added us d)))"
  using assms
proof (induction es arbitrary: rows s d)
  case (Cons e es)
  show ?case
  proof (cases "pending ''gpu_cost'' e")
    case True
    have sr: "same_rates sha v s r" using Cons.prems by (simp add: same_rates_def)
    obtain n where n: "price_gpu_event sha px w e s = (Inr n, snd (price_gpu_event sha px w e s))"
        "fst (price_gpu_event sha px w e r) = Inr n" "same_rates sha v s (snd (price_gpu_event sha px w e s))"
      using price_gpu_same [OF sr] by blast
    let ?s = "snd (price_gpu_event sha px w e s)"
    have "gpu_price sha px w r e = n" using n(2) by (simp add: gpu_price_def)
    moreover have "same_rates sha v r ?s" using n(3) Cons.prems by (simp add: same_rates_def)
    moreover have "price_gpu_events sha px w added (e # es) rows s d =
        price_gpu_events sha px w added es (update_event n rows) ?s (delta_of added e n d)"
      using True by (subst price_gpu_events.simps, subst n(1)) simp
    ultimately show ?thesis using Cons.IH [of ?s "update_event n rows" "delta_of added e n d"] True
      by (simp add: Let_def)
  qed (use Cons in simp)
qed simp

section \<open>Insertion\<close>

lemma stamp_on_insert_keeps:
  assumes "stamp_on_insert sha u5 amb e = (Inr x, amb')"
  shows "ev_cost x = ev_cost e \<and> ev_type x = ev_type e \<and> ev_task_id x = ev_task_id e"
proof -
  have c: "apply_event_capability a e k = Inr x \<Longrightarrow> ev_cost x = ev_cost e \<and> ev_type x = ev_type e \<and> ev_task_id x = ev_task_id e" for a k e x
    by (auto simp: apply_event_capability_def Let_def split: option.splits json.splits sum.splits)
  have p: "apply_event_provenance r e = Inr x \<Longrightarrow> ev_cost x = ev_cost e \<and> ev_type x = ev_type e \<and> ev_task_id x = ev_task_id e" for r e x
    by (auto simp: apply_event_provenance_def Let_def split: option.splits sum.splits)
  have i: "apply_event_idempotency sha u5 s e k = (Inr x, s') \<Longrightarrow> ev_cost x = ev_cost e \<and> ev_type x = ev_type e \<and> ev_task_id x = ev_task_id e" for s e k x s'
    by (auto simp: apply_event_idempotency_def Let_def stamp_event_def split: if_splits option.splits idem_key.splits prod.splits)
  from assms show ?thesis unfolding stamp_on_insert_def Let_def
    by (auto split: sum.splits prod.splits dest!: c p i)
qed

text \<open>An event that counts as stored already has the same cost.\<close>

lemma py_eq_entry:
  assumes "py_eq (JObj d) (JObj d')" "(k, v) \<in> set d"
  shows "\<exists>w. map_of d' k = Some w \<and> py_eq v w"
  using assms by (auto simp: list_all_iff split: option.splits)

lemma same_event_cost:
  assumes "py_eq (JObj (event_to_dict s)) (JObj (event_to_dict e)) \<or> equivalent_idempotent_event s e"
  shows "dec_val (ev_cost s) = dec_val (ev_cost e)"
proof -
  let ?c = "\<lambda>x. (''cost_usd'', JStr (canonical_decimal (ev_cost x)))"
  have "\<exists>w. w = JStr (canonical_decimal (ev_cost e)) \<and> py_eq (JStr (canonical_decimal (ev_cost s))) w"
    using assms
  proof
    assume eq: "py_eq (JObj (event_to_dict s)) (JObj (event_to_dict e))"
    have "?c s \<in> set (event_to_dict s)" by (simp add: event_to_dict_def)
    from py_eq_entry [OF eq this] show ?thesis by (simp add: event_to_dict_def)
  next
    assume "equivalent_idempotent_event s e"
    then have eq: "py_eq (JObj (dict_pop (event_to_dict s) ''occurred_at'')) (JObj (dict_pop (event_to_dict e) ''occurred_at''))"
      by (simp add: equivalent_idempotent_event_def split: if_splits)
    have "?c s \<in> set (dict_pop (event_to_dict s) ''occurred_at'')" by (simp add: event_to_dict_def dict_pop_def)
    from py_eq_entry [OF eq this] show ?thesis by (simp add: event_to_dict_def dict_pop_def)
  qed
  then show ?thesis using canonical_eq_iff_aux [of "ev_cost s" "ev_cost e"] by auto
qed

lemma insert_stamped_rows:
  assumes "insert_stamped rows e = Inr (x, rows')" "distinct (row_ids rows)" "ev_cost e = dec0" "\<And>k. g k dec0 = 0"
  shows "distinct (row_ids rows') \<and> row_sum g tid rows' = row_sum g tid rows \<and>
    (\<exists>new. rows' = rows @ new \<and> (\<forall>r \<in> set new. status r = Pending \<and> ev_task_id (body r) = ev_task_id e)) \<and> (\<forall>r \<in> set rows'. ev_id (body r) = ev_id x \<longrightarrow> dec_val (ev_cost (body r)) = 0) \<and>
    ev_id x \<in> set (row_ids rows')"
proof (cases "find (\<lambda>r. ev_id (body r) = ev_id e) rows")
  case None
  have "\<forall>r \<in> set rows. ev_id (body r) \<noteq> ev_id e" using None by (auto simp: find_None_iff)
  moreover have "rows' = rows @ [new_vrow (stored_event e)]" "x = e"
    using assms(1) None by (auto simp: insert_stamped_def)
  ultimately show ?thesis using assms(2-4) by (auto simp: new_vrow_def stored_event_def row_sum_def dec_val_def)
next
  case (Some r)
  then have r: "r \<in> set rows" "ev_id (body r) = ev_id e" by (auto simp: find_Some_iff)
  have x: "rows' = rows" "ev_id x = ev_id e" and
    "py_eq (JObj (event_to_dict (body r))) (JObj (event_to_dict e)) \<or> equivalent_idempotent_event (body r) e"
    using assms(1) Some by (auto simp: insert_stamped_def Let_def split: if_splits)
  then have "dec_val (ev_cost (body r)) = 0" using same_event_cost assms(3) by (fastforce simp: dec_val_def)
  moreover have "r' = r" if "r' \<in> set rows" "ev_id (body r') = ev_id e" for r'
    using assms(2) r that inj_onD [of "\<lambda>r. ev_id (body r)" "set rows" r' r] by (simp add: distinct_map)
  ultimately have "\<forall>r' \<in> set rows. ev_id (body r') = ev_id e \<longrightarrow> dec_val (ev_cost (body r')) = 0" by metis
  moreover have "ev_id e \<in> set (row_ids rows)" using r by force
  ultimately show ?thesis using assms(2) unfolding x by simp
qed

text \<open>What every recorded measurement keeps of the books, and what it adds.\<close>

definition grown :: "uuid \<Rightarrow> books \<Rightarrow> books \<Rightarrow> bool" where
  "grown tid b b' \<longleftrightarrow> distinct (row_ids (bo_events b')) \<and>
     (\<exists>new. bo_events b' = bo_events b @ new \<and> (\<forall>r \<in> set new. status r = Pending \<and> ev_task_id (body r) = tid)) \<and>
     (\<forall>g t. (\<forall>k. g k dec0 = 0) \<longrightarrow> row_sum g t (bo_events b') = row_sum g t (bo_events b)) \<and>
     bo_jobs b' = bo_jobs b \<and> bo_rates b' = bo_rates b \<and> bo_tasks b' = bo_tasks b"

definition costless :: "uuid list \<Rightarrow> books \<Rightarrow> bool" where
  "costless ids b \<longleftrightarrow> set ids \<subseteq> set (row_ids (bo_events b)) \<and> (\<forall>r \<in> set (bo_events b). ev_id (body r) \<in> set ids \<longrightarrow> dec_val (ev_cost (body r)) = 0)"

lemma grown_refl: "distinct (row_ids (bo_events b)) \<Longrightarrow> grown tid b b"
  by (simp add: grown_def)

lemma grown_trans: "grown tid a b \<Longrightarrow> grown tid b c \<Longrightarrow> grown tid a c"
  by (fastforce simp: grown_def)

lemma add_measured_grown:
  assumes "add_measured sha u5 tid k d b = (r, b')" "distinct (row_ids (bo_events b))"
  shows "grown tid b b' \<and> (\<forall>i. r = Inr i \<longrightarrow> costless [i] b')"
proof -
  obtain eid now where h: "hd (bo_fresh b) = (eid, now)" by fastforce
  let ?e = "new_event eid now tid k d"
  show ?thesis
  proof (cases "insert_event sha u5 (bo_ambient b) (bo_events b) ?e")
    case (Pair res amb)
    show ?thesis
    proof (cases res)
      case (Inl err)
      then show ?thesis using assms h Pair by (auto simp: add_measured_def grown_def)
    next
      case (Inr xr)
      obtain x rows where xr: "xr = (x, rows)" by fastforce
      obtain e where e: "stamp_on_insert sha u5 (bo_ambient b) ?e = (Inr e, amb)" "insert_stamped (bo_events b) e = Inr (x, rows)"
        using Pair Inr xr by (auto simp: insert_event_def split: prod.splits sum.splits)
      have task: "ev_task_id e = tid" using stamp_on_insert_keeps [OF e(1)] by (simp add: new_event_def)
      have "ev_cost e = dec0" using stamp_on_insert_keeps [OF e(1)] by (simp add: new_event_def)
      note ins = insert_stamped_rows [OF e(2) assms(2) this]
      have b': "b' = b\<lparr>bo_fresh := tl (bo_fresh b), bo_ambient := amb, bo_events := rows\<rparr>" "r = Inr (ev_id x)"
        using assms(1) h Pair Inr xr by (auto simp: add_measured_def)
      show ?thesis using ins [of "\<lambda>_ _. 0"] ins by (auto simp: b' grown_def costless_def task)
    qed
  qed
qed

lemma add_cost_event_grown:
  assumes "add_cost_event sha u5 tid k d b = (r, b')" "distinct (row_ids (bo_events b))"
  shows "grown tid b b' \<and> (\<forall>ids. r = Inr ids \<longrightarrow> costless ids b')"
proof (cases d)
  case None
  then show ?thesis using assms by (auto simp: add_cost_event_def grown_def costless_def)
next
  case (Some x)
  obtain r1 b1 where m: "add_measured sha u5 tid k x b = (r1, b1)" by fastforce
  with assms Some have "b' = b1" "r = map_sum id (\<lambda>i. [i]) r1" by (auto simp: add_cost_event_def)
  then show ?thesis using add_measured_grown [OF m assms(2)] by (cases r1) auto
qed

lemma add_signals_grown:
  "add_signals sha u5 tid ds b = (r, b') \<Longrightarrow> distinct (row_ids (bo_events b)) \<Longrightarrow> grown tid b b'"
proof (induction ds arbitrary: b)
  case (Cons d ds)
  obtain r1 b1 where m: "add_measured sha u5 tid ''gpu_utilization_signal'' d b = (r1, b1)" by fastforce
  note g = add_measured_grown [OF this Cons.prems(2)]
  show ?case
  proof (cases r1)
    case (Inr i)
    then have "add_signals sha u5 tid ds b1 = (r, b')" using Cons.prems(1) m by simp
    moreover have "distinct (row_ids (bo_events b1))" using g by (simp add: grown_def)
    ultimately show ?thesis using Cons.IH g grown_trans by blast
  qed (use Cons.prems m g in auto)
qed (simp add: grown_refl)

lemma costless_grown: "costless ids b \<Longrightarrow> grown tid b b' \<Longrightarrow> costless ids b'"
proof -
  assume a: "costless ids b" "grown tid b b'"
  then obtain new where new: "bo_events b' = bo_events b @ new" "distinct (row_ids (bo_events b'))" by (auto simp: grown_def)
  then have "ev_id (body r) \<notin> set ids" if "r \<in> set new" for r using a(1) that by (fastforce simp: costless_def)
  then show ?thesis using a(1) new by (auto simp: costless_def)
qed

lemma record_compute_grown:
  assumes "record_compute sha u5 ec2 m tid b = (r, b')" "distinct (row_ids (bo_events b))"
  shows "grown tid b b' \<and> (\<forall>ids. r = Inr ids \<longrightarrow> costless ids b')"
  using assms add_cost_event_grown [OF _ assms(2)]
  by (auto simp: record_compute_def grown_refl costless_def split: option.splits sum.splits)

lemma record_gpu_grown:
  assumes "record_gpu sha u5 ec2 m tid b = (r, b')" "distinct (row_ids (bo_events b))"
  shows "grown tid b b' \<and> (\<forall>ids. r = Inr ids \<longrightarrow> costless ids b')"
proof (cases "\<exists>d ss. measured long_running_gpu ''aws_ec2_gpu'' ec2 m = Some (Inr (d, ss))")
  case False
  then show ?thesis using assms by (auto simp: record_gpu_def grown_refl costless_def split: option.splits sum.splits)
next
  case True
  then obtain d ss where m: "measured long_running_gpu ''aws_ec2_gpu'' ec2 m = Some (Inr (d, ss))" by blast
  obtain r1 b1 where c: "add_cost_event sha u5 tid ''gpu_cost'' d b = (r1, b1)" by fastforce
  note g1 = add_cost_event_grown [OF c assms(2)]
  show ?thesis
  proof (cases r1)
    case (Inr ids)
    obtain r2 b2 where s: "add_signals sha u5 tid ss b1 = (r2, b2)" by fastforce
    have g2: "grown tid b1 b2" using add_signals_grown [OF s] g1 by (auto simp: grown_def)
    have b2: "b' = b2 \<and> (\<forall>x. r = Inr x \<longrightarrow> x = ids)" using assms(1) m c s Inr by (cases r2) (auto simp: record_gpu_def)
    have "grown tid b b2" using g1 g2 by (blast intro: grown_trans)
    moreover have "costless ids b2" using g1 g2 Inr by (blast intro: costless_grown)
    ultimately show ?thesis using b2 by blast
  qed (use assms m c g1 in \<open>auto simp: record_gpu_def\<close>)
qed

section \<open>One kind of events gets its prices\<close>

lemma task_events_body:
  assumes "e \<in> set (task_events b tid)"
  shows "e \<in> body ` set (bo_events b) \<and> ev_task_id e = tid"
  using assms by (auto simp: task_events_rows)

lemma task_events_distinct:
  assumes "distinct (row_ids (bo_events b))"
  shows "distinct (map ev_id (task_events b tid))"
proof -
  let ?k = "\<lambda>r. isoformat (ev_occurred_at (body r))" and ?f = "filter (\<lambda>r. ev_task_id (body r) = tid) (bo_events b)"
  have "distinct (row_ids ?f)" using assms by (simp add: distinct_map_filter)
  then have "distinct ?f" "inj_on (\<lambda>r. ev_id (body r)) (set ?f)" by (auto simp: distinct_map)
  then have "distinct (row_ids (sort_key ?k ?f))" unfolding distinct_map by simp
  then show ?thesis by (simp add: task_events_rows rev_map [symmetric] comp_def del: rev_map)
qed

lemma updates_of_events:
  assumes "distinct (row_ids (bo_events b))" "distinct (map ev_id (map fst us))" "set (map fst us) \<subseteq> set (task_events b tid)"
    and "\<forall>(e, n) \<in> set us. ev_id n = ev_id e \<and> ev_type n = ev_type e"
  shows "updates_ok tid us (bo_events b)"
proof -
  have "map (\<lambda>(e, n). ev_id e) us = map ev_id (map fst us)" by (simp add: comp_def case_prod_unfold)
  moreover have "fst u \<in> body ` set (bo_events b) \<and> ev_task_id (fst u) = tid" if "u \<in> set us" for u
    using assms(3) that by (intro task_events_body) force
  ultimately show ?thesis using assms(1,2,4) unfolding updates_ok_def by (simp add: case_prod_unfold comp_def)
qed

lemma updates_of_filter:
  assumes "distinct (row_ids (bo_events b))" "\<And>e. ev_id (f e) = ev_id e \<and> ev_type (f e) = ev_type e"
  shows "updates_ok tid (map (\<lambda>e. (e, f e)) (filter p (task_events b tid))) (bo_events b)"
proof (rule updates_of_events [OF assms(1)])
  show "distinct (map ev_id (map fst (map (\<lambda>e. (e, f e)) (filter p (task_events b tid)))))"
    using task_events_distinct [OF assms(1), of tid] by (simp add: comp_def distinct_map_filter)
qed (use assms(2) in auto)

text \<open>What leaves one kind of events alone, and what the updates were given does not exceed what is stored.\<close>

lemma row_sum_other:
  assumes "updates_ok tid us rows" "\<forall>(e, n) \<in> set us. ev_type e = k" "\<And>c. g k c = 0"
  shows "row_sum g tid (run_updates us rows) = row_sum g tid rows"
proof -
  have "(\<Sum>(e, n)\<leftarrow>us. g (ev_type e) (ev_cost n) - g (ev_type e) (ev_cost e)) = (\<Sum>u\<leftarrow>us. 0)"
    by (intro arg_cong [where f = sum_list] map_cong) (use assms(2,3) in auto)
  then show ?thesis using row_sum_run [OF assms(1), of g] by simp
qed

lemma row_sum_nonneg: "(\<And>k c. 0 \<le> g k c) \<Longrightarrow> 0 \<le> row_sum g tid rows"
  unfolding row_sum_def by (intro sum_list_nonneg) auto

lemma old_sum_le:
  assumes "updates_ok tid us rows" "\<And>k c. 0 \<le> g k c" "\<And>k. g k dec0 = 0"
  shows "(\<Sum>(e, n)\<leftarrow>us. g (ev_type e) (ev_cost e)) \<le> row_sum g tid rows"
proof -
  let ?us = "map (\<lambda>(e, n). (e, e\<lparr>ev_cost := dec0\<rparr>)) us"
  have map_eq: "map (\<lambda>(e, n). ev_id e) ?us = map (\<lambda>(e, n). ev_id e) us" by auto
  have "updates_ok tid ?us rows" using assms(1) unfolding updates_ok_def map_eq by (auto split: prod.splits)
  from row_sum_run [OF this, of g]
  have "row_sum g tid (run_updates ?us rows) = row_sum g tid rows - (\<Sum>(e, n)\<leftarrow>us. g (ev_type e) (ev_cost e))"
    using assms(3) by (simp add: comp_def case_prod_unfold uminus_sum_list_map)
  then show ?thesis using row_sum_nonneg [of g tid "run_updates ?us rows"] assms(2) by simp
qed

definition size_of :: "string \<Rightarrow> string \<Rightarrow> dec \<Rightarrow> rat" where
  "size_of kind k c = (if k = kind then \<bar>dec_val c\<bar> else 0)"

definition off_grid :: "nat \<Rightarrow> string \<Rightarrow> string \<Rightarrow> dec \<Rightarrow> rat" where
  "off_grid q kind k c = (if k = kind \<and> expo c < - int q then 1 else 0)"

definition charged :: "string \<Rightarrow> dec \<Rightarrow> rat" where
  "charged k c = (if k = ''network'' then 0 else dec_val c)"

lemma size_simps [simp]: "0 \<le> size_of kind k c" "size_of kind k dec0 = 0"
  by (simp_all add: size_of_def dec_val_def)

lemma off_grid_simps [simp]: "0 \<le> off_grid q kind k c" "off_grid q kind k dec0 = 0"
  by (simp_all add: off_grid_def)

lemma charged_zero [simp]: "charged k dec0 = 0"
  by (simp add: charged_def dec_val_def)

lemma sum_list_zero_nonneg:
  fixes f :: "'a \<Rightarrow> rat"
  assumes "(\<Sum>x\<leftarrow>xs. f x) \<le> 0" "\<And>x. 0 \<le> f x" "x \<in> set xs"
  shows "f x = 0"
proof -
  have "f x \<le> (\<Sum>x\<leftarrow>xs. f x)" using assms(2,3) by (intro member_le_sum_list) auto
  then show ?thesis using assms(1) assms(2) [of x] by simp
qed

lemma stage_grid:
  assumes "updates_ok tid us rows" "\<forall>(e, n) \<in> set us. ev_type e = kind"
    and "row_sum (off_grid q kind) tid rows = 0" "row_sum (off_grid q kind) tid (run_updates us rows) = 0"
  shows "\<forall>(e, n) \<in> set us. - int q \<le> expo (ev_cost e) \<and> - int q \<le> expo (ev_cost n)"
proof -
  let ?g = "off_grid q kind"
  have old: "(\<Sum>u\<leftarrow>us. ?g (ev_type (fst u)) (ev_cost (fst u))) \<le> 0"
    using old_sum_le [OF assms(1), of ?g] assms(3) by (simp add: case_prod_unfold)
  have "0 \<le> (\<Sum>u\<leftarrow>us. ?g (ev_type (fst u)) (ev_cost (fst u)))" by (intro sum_list_nonneg) auto
  then have new: "(\<Sum>u\<leftarrow>us. ?g (ev_type (fst u)) (ev_cost (snd u))) \<le> 0"
    using row_sum_run [OF assms(1), of ?g] assms(3,4) old by (simp add: case_prod_unfold sum_list_subtractf)
  have "- int q \<le> expo (ev_cost e) \<and> - int q \<le> expo (ev_cost n)" if "(e, n) \<in> set us" for e n
  proof -
    have "?g (ev_type e) (ev_cost e) = 0" "?g (ev_type e) (ev_cost n) = 0"
      using sum_list_zero_nonneg [OF old _ that] sum_list_zero_nonneg [OF new _ that] by simp_all
    then show ?thesis using assms(2) that by (auto simp: off_grid_def split: if_splits)
  qed
  then show ?thesis by blast
qed

lemma stage_exact:
  assumes "updates_ok tid us rows" "\<forall>(e, n) \<in> set us. ev_type e = kind" "kind \<noteq> ''network''"
    and "row_sum (off_grid q kind) tid rows = 0" "row_sum (off_grid q kind) tid (run_updates us rows) = 0"
    and "\<forall>(e, n) \<in> set us. ev_id n \<in> set added \<longrightarrow> dec_val (ev_cost e) = 0"
    and "fits q m t" "small q (m + row_sum (size_of kind) tid rows + row_sum (size_of kind) tid (run_updates us rows))"
  shows "fits q (m + row_sum (size_of kind) tid rows + row_sum (size_of kind) tid (run_updates us rows)) (dec_add t (run_delta added us dec0)) \<and>
    dec_val (dec_add t (run_delta added us dec0)) =
      dec_val t + row_sum charged tid (run_updates us rows) - row_sum charged tid rows"
proof -
  let ?s = "size_of kind" and ?w = "\<Sum>u\<leftarrow>us. weight u" and ?d = "run_delta added us dec0"
  have n: "\<forall>(e, n) \<in> set us. ev_type n = ev_type e" using assms(1) by (auto simp: updates_ok_def)
  have sizes: "(\<Sum>(e, n)\<leftarrow>us. ?s (ev_type e) (ev_cost n) - ?s (ev_type e) (ev_cost e)) =
      ?w - 2 * (\<Sum>(e, n)\<leftarrow>us. ?s (ev_type e) (ev_cost e))"
    using assms(2) by (induction us) (auto simp: size_of_def)
  have w: "?w \<le> row_sum ?s tid rows + row_sum ?s tid (run_updates us rows)"
    using row_sum_run [OF assms(1), of ?s] old_sum_le [OF assms(1), of ?s] unfolding sizes by simp
  have m: "0 \<le> m" using assms(7) by (auto simp: fits_def)
  then have "small q (0 + ?w)" using w by (intro small_mono [OF assms(8)]) simp
  moreover have "\<forall>(e, n) \<in> set us. - int q \<le> expo (ev_cost e) \<and> - int q \<le> expo (ev_cost n) \<and>
      (ev_id n \<in> set added \<longrightarrow> dec_val (ev_cost e) = 0)"
    using stage_grid [OF assms(1,2,4,5)] assms(6) by fast
  ultimately have d: "fits q (0 + ?w) ?d" "dec_val ?d = dec_val dec0 + (\<Sum>u\<leftarrow>us. change u)"
    using run_delta_exact [OF fits_zero [OF order_refl]] by blast+
  have "small q (m + (0 + ?w))" using w by (intro small_mono [OF assms(8)]) simp
  note sum = fits_add [OF assms(7) d(1) this]
  have "(\<Sum>(e, n)\<leftarrow>us. charged (ev_type e) (ev_cost n) - charged (ev_type e) (ev_cost e)) = (\<Sum>u\<leftarrow>us. change u)"
    using assms(2,3) by (induction us) (auto simp: charged_def)
  then have "row_sum charged tid (run_updates us rows) = row_sum charged tid rows + (\<Sum>u\<leftarrow>us. change u)"
    using row_sum_run [OF assms(1), of charged] by simp
  moreover have "fits q (m + row_sum ?s tid rows + row_sum ?s tid (run_updates us rows)) (dec_add t ?d)"
    by (rule fits_mono [OF conjunct1 [OF sum]]) (use w in simp)
  ultimately show ?thesis using sum d(2) by (simp add: dec_val_def)
qed

end
