(* ===== verification/Roll_Up_Balance.thy ===== *)
theory Roll_Up_Balance
  imports Roll_Up_Updates
begin

text \<open>
  What holds of the roll-up of a task: the total is the sum of the stored records, no price is left
  open, and no other row is written.
\<close>

section \<open>The stages of the roll-up\<close>

text \<open>What a stage does to the total, when amounts stay on a grid: it follows the stored events.\<close>

definition follows :: "string \<Rightarrow> uuid \<Rightarrow> task \<Rightarrow> event_rows \<Rightarrow> task \<Rightarrow> event_rows \<Rightarrow> bool" where
  "follows kind tid t rows t' rows' \<longleftrightarrow>
     distinct (row_ids rows') \<and> tk_id t' = tk_id t \<and> tk_network_cost t' = tk_network_cost t \<and>
     (\<forall>g. (\<forall>k. g k dec0 = 0) \<and> (\<forall>c. g kind c = 0) \<longrightarrow> row_sum g tid rows' = row_sum g tid rows) \<and>
     (\<forall>q m. row_sum (off_grid q kind) tid rows = 0 \<and> row_sum (off_grid q kind) tid rows' = 0 \<and> fits q m (tk_total_cost t) \<and>
        small q (m + row_sum (size_of kind) tid rows + row_sum (size_of kind) tid rows') \<longrightarrow>
        fits q (m + row_sum (size_of kind) tid rows + row_sum (size_of kind) tid rows') (tk_total_cost t') \<and>
        dec_val (tk_total_cost t') = dec_val (tk_total_cost t) + row_sum charged tid rows' - row_sum charged tid rows)"

lemma follows_same:
  assumes "distinct (row_ids rows')" "\<And>g. (\<And>k. g k dec0 = 0) \<Longrightarrow> row_sum g tid rows' = row_sum g tid rows"
  shows "follows kind tid t rows t rows'"
  unfolding follows_def using assms(2) [of charged] assms row_sum_nonneg [of "size_of kind" tid rows]
    row_sum_nonneg [of "size_of kind" tid rows']
  by (auto intro: fits_mono)

lemma grown_rows: "grown s b b' \<Longrightarrow> distinct (row_ids (bo_events b')) \<and> ((\<forall>k. g k dec0 = 0) \<longrightarrow> row_sum g tid (bo_events b') = row_sum g tid (bo_events b))"
  by (simp add: grown_def)

lemma follows_prices:
  assumes "grown tid b b1" "updates_ok tid us (bo_events b1)" "\<forall>(e, n) \<in> set us. ev_type e = kind" "kind \<noteq> ''network''"
    and "costless added b1" "tk_id t' = tk_id t" "tk_network_cost t' = tk_network_cost t"
    and "tk_total_cost t' = dec_add (tk_total_cost t) (run_delta added us dec0)"
  shows "follows kind tid t (bo_events b) t' (run_updates us (bo_events b1))"
proof -
  let ?r = "bo_events b" and ?r1 = "bo_events b1" and ?r2 = "run_updates us (bo_events b1)"
  have same: "row_sum g tid ?r1 = row_sum g tid ?r" if "\<And>k. g k dec0 = 0" for g
    using grown_rows [OF assms(1)] that by blast
  have zero: "\<forall>(e, n) \<in> set us. ev_id n \<in> set added \<longrightarrow> dec_val (ev_cost e) = 0"
    using assms(2,5) by (fastforce simp: updates_ok_def costless_def)
  have ids: "distinct (row_ids ?r2)" using assms(2) by (simp add: row_ids_run updates_ok_def)
  show ?thesis unfolding follows_def
  proof (intro conjI allI impI ids assms(6,7))
    fix g :: "string \<Rightarrow> dec \<Rightarrow> rat" assume g: "(\<forall>k. g k dec0 = 0) \<and> (\<forall>c. g kind c = 0)"
    then show "row_sum g tid ?r2 = row_sum g tid ?r" using row_sum_other [OF assms(2,3), of g] same by simp
  next
    fix q m assume a: "row_sum (off_grid q kind) tid ?r = 0 \<and> row_sum (off_grid q kind) tid ?r2 = 0 \<and>
        fits q m (tk_total_cost t) \<and> small q (m + row_sum (size_of kind) tid ?r + row_sum (size_of kind) tid ?r2)"
    have s: "row_sum (off_grid q kind) tid ?r1 = row_sum (off_grid q kind) tid ?r"
        "row_sum (size_of kind) tid ?r1 = row_sum (size_of kind) tid ?r" "row_sum charged tid ?r1 = row_sum charged tid ?r"
      by (simp_all add: same)
    have "small q (m + row_sum (size_of kind) tid ?r1 + row_sum (size_of kind) tid ?r2)" "row_sum (off_grid q kind) tid ?r1 = 0"
      using a by (simp_all add: s)
    note ex = stage_exact [OF assms(2,3,4) this(2) _ zero _ this(1), of "tk_total_cost t", unfolded s]
    show "fits q (m + row_sum (size_of kind) tid ?r + row_sum (size_of kind) tid ?r2) (tk_total_cost t')"
      using ex a assms(8) by simp
    show "dec_val (tk_total_cost t') = dec_val (tk_total_cost t) + row_sum charged tid ?r2 - row_sum charged tid ?r"
      using ex a assms(8) by simp
  qed
qed

lemma compute_stage:
  assumes "finalize_compute sha u5 px ec2 m t b = (t', b')" "distinct (row_ids (bo_events b))"
  shows "follows ''compute_cost'' (tk_id t) t (bo_events b) t' (bo_events b') \<and> bo_rates b' = bo_rates b"
proof -
  obtain r b1 where rec: "record_compute sha u5 ec2 m (tk_id t) b = (r, b1)" by fastforce
  note g = record_compute_grown [OF rec assms(2)]
  show ?thesis
  proof (cases r)
    case (Inl err)
    then have "t' = t" "b' = b1" using assms(1) rec by (simp_all add: finalize_compute_def)
    moreover have "follows ''compute_cost'' (tk_id t) t (bo_events b) t (bo_events b1)"
      by (rule follows_same) (use grown_rows g in blast)+
    moreover have "bo_rates b1 = bo_rates b" using g by (simp add: grown_def)
    ultimately show ?thesis by simp
  next
    case (Inr added)
    let ?w = "window_seconds t"
    let ?us = "map (\<lambda>e. (e, price_compute_event px ?w e)) (filter (pending ''compute_cost'') (task_events b1 (tk_id t)))"
    have "(t', b') = (t\<lparr>tk_compute_cost := dec_add (tk_compute_cost t) (run_delta added ?us dec0),
        tk_total_cost := dec_add (tk_total_cost t) (run_delta added ?us dec0)\<rparr>, b1\<lparr>bo_events := run_updates ?us (bo_events b1)\<rparr>)"
      unfolding assms(1) [symmetric] finalize_compute_def rec Inr prod.case sum.case compute_loop Let_def by (rule refl)
    then have t': "t' = t\<lparr>tk_compute_cost := dec_add (tk_compute_cost t) (run_delta added ?us dec0),
        tk_total_cost := dec_add (tk_total_cost t) (run_delta added ?us dec0)\<rparr>"
      and b': "b' = b1\<lparr>bo_events := run_updates ?us (bo_events b1)\<rparr>" by blast+
    have gr: "grown (tk_id t) b b1" "costless added b1" "distinct (row_ids (bo_events b1))" using g Inr by (simp_all add: grown_def)
    have ok: "updates_ok (tk_id t) ?us (bo_events b1)" by (rule updates_of_filter [OF gr(3)]) simp
    have "\<forall>(e, n) \<in> set ?us. ev_type e = ''compute_cost''" by (auto simp: pending_def)
    then have "follows ''compute_cost'' (tk_id t) t (bo_events b) t' (run_updates ?us (bo_events b1))"
      by (rule follows_prices [OF gr(1) ok _ _ gr(2)]) (simp_all add: t')
    then show ?thesis using g by (simp add: b' grown_def)
  qed
qed

lemma gpu_stage:
  assumes "finalize_gpu sha u5 px ec2 m t b = (t', b')" "distinct (row_ids (bo_events b))"
    and "fst (pricing_version sha (bo_rates b)) = Inr v"
  shows "follows ''gpu_cost'' (tk_id t) t (bo_events b) t' (bo_events b')"
proof -
  obtain r b1 where rec: "record_gpu sha u5 ec2 m (tk_id t) b = (r, b1)" by fastforce
  note g = record_gpu_grown [OF rec assms(2)]
  show ?thesis
  proof (cases r)
    case (Inl err)
    then have "t' = t" "b' = b1" using assms(1) rec by (simp_all add: finalize_gpu_def)
    moreover have "follows ''gpu_cost'' (tk_id t) t (bo_events b) t (bo_events b1)"
      by (rule follows_same) (use grown_rows g in blast)+
    ultimately show ?thesis by simp
  next
    case (Inr added)
    let ?w = "window_seconds t" and ?r = "bo_rates b1"
    let ?us = "map (\<lambda>e. (e, gpu_price sha px ?w ?r e)) (filter (pending ''gpu_cost'') (task_events b1 (tk_id t)))"
    have v: "fst (pricing_version sha ?r) = Inr v" using g assms(3) by (simp add: grown_def)
    then have "same_rates sha v ?r ?r" by (simp add: same_rates_def)
    from gpu_loop [OF this, of px ?w added "task_events b1 (tk_id t)" "bo_events b1" dec0]
    obtain r' where loop: "price_gpu_events sha px ?w added (task_events b1 (tk_id t)) (bo_events b1) ?r dec0 =
        (run_updates ?us (bo_events b1), r', Some (run_delta added ?us dec0))" by (auto simp: Let_def)
    have t': "t' = t\<lparr>tk_gpu_cost := dec_add (tk_gpu_cost t) (run_delta added ?us dec0),
        tk_total_cost := dec_add (tk_total_cost t) (run_delta added ?us dec0)\<rparr>"
      and b': "b' = b1\<lparr>bo_events := run_updates ?us (bo_events b1), bo_rates := r'\<rparr>"
      using assms(1) rec Inr by (simp_all add: finalize_gpu_def loop)
    have gr: "grown (tk_id t) b b1" "costless added b1" "distinct (row_ids (bo_events b1))" using g Inr by (simp_all add: grown_def)
    have ok: "updates_ok (tk_id t) ?us (bo_events b1)"
      by (rule updates_of_filter [OF gr(3)]) (simp add: gpu_price_keeps [OF v])
    have "\<forall>(e, n) \<in> set ?us. ev_type e = ''gpu_cost''" by (auto simp: pending_def)
    then have "follows ''gpu_cost'' (tk_id t) t (bo_events b) t' (run_updates ?us (bo_events b1))"
      by (rule follows_prices [OF gr(1) ok _ _ gr(2)]) (simp_all add: t')
    then show ?thesis by (simp add: b')
  qed
qed

lemma network_rate_version:
  assumes "fst (pricing_version sha r) = Inr v" "network_rate_for sha px r = (x, r')"
  shows "fst (pricing_version sha r') = Inr v"
  using pricing_version_again [OF assms(1)] assms
  by (auto simp: network_rate_for_def Let_def same_rates_def split: option.splits prod.splits)

lemma network_stage:
  assumes "price_network sha px a (task_events b (tk_id t)) t (bo_events b) (bo_rates b) = (t', rows, reg)"
    and "distinct (row_ids (bo_events b))" "fst (pricing_version sha (bo_rates b)) = Inr v"
  shows "distinct (row_ids rows) \<and> (\<forall>g. (\<forall>c. g ''network'' c = 0) \<longrightarrow> row_sum g (tk_id t) rows = row_sum g (tk_id t) (bo_events b)) \<and>
    tk_id t' = tk_id t \<and> fst (pricing_version sha reg) = Inr v \<and>
    (tk_total_cost t' = dec_add (tk_total_cost t) (tk_network_cost t') \<or>
     tk_total_cost t' = tk_total_cost t \<and> tk_network_cost t' = dec0)"
proof -
  obtain x reg' where r: "network_rate_for sha px (bo_rates b) = (x, reg')" by fastforce
  note v = network_rate_version [OF assms(3) r]
  show ?thesis
  proof (cases x)
    case (Inl err)
    then show ?thesis using assms r v by (auto simp: price_network_def Let_def with_traffic_def)
  next
    case (Inr nr)
    let ?es = "task_events b (tk_id t)"
    obtain rows' ok where p: "price_network_events nr ?es (bo_events b) = (rows', ok)" by fastforce
    obtain us k where us: "rows' = run_updates us (bo_events b)" "map fst us = take k (filter (\<lambda>e. ev_type e = ''network'') ?es)"
        "\<forall>(e, n) \<in> set us. price_network_event nr e = Inr n"
      using network_loop [of nr ?es "bo_events b"] unfolding p by auto
    have keeps: "\<forall>(e, n) \<in> set us. ev_id n = ev_id e \<and> ev_type n = ev_type e" using us(3) price_network_keeps by fast
    have "distinct (map ev_id (take k (filter (\<lambda>e. ev_type e = ''network'') ?es)))"
      using task_events_distinct [OF assms(2), of "tk_id t"] by (simp add: take_map [symmetric] distinct_map_filter)
    moreover have sub: "set (map fst us) \<subseteq> set (filter (\<lambda>e. ev_type e = ''network'') ?es)" unfolding us(2) by (rule set_take_subset)
    ultimately have ok: "updates_ok (tk_id t) us (bo_events b)"
      by (intro updates_of_events [OF assms(2)] keeps) (auto simp: us(2))
    have "\<forall>(e, n) \<in> set us. ev_type e = ''network''" using sub by force
    note other = row_sum_other [OF ok this]
    have "rows = rows'" "reg = reg'" "tk_id t' = tk_id t" and tot: "tk_total_cost t' = dec_add (tk_total_cost t) (tk_network_cost t') \<or>
        tk_total_cost t' = tk_total_cost t \<and> tk_network_cost t' = dec0"
      using assms(1) r Inr p by (auto simp: price_network_def Let_def with_traffic_def split: if_splits)
    then show ?thesis using other v assms(2) by (simp add: us(1) row_ids_run)
  qed
qed

section \<open>The total of a task\<close>

lemma add_event_total:
  "tk_total_cost (add_event t e) = (if ev_type e = ''network'' then tk_total_cost t else dec_add (tk_total_cost t) (ev_cost e))"
  "tk_id (add_event t e) = tk_id t"
  by (simp_all add: add_event_def by_kind_def add_llm_def add_total_def Let_def)

lemma add_job_total:
  "tk_total_cost (add_job t j) = (if terminal_status (job_status j) then dec_add (tk_total_cost t) (job_cost j) else tk_total_cost t)"
  "tk_id (add_job t j) = tk_id t"
  by (simp_all add: add_job_def add_llm_def add_total_def)

abbreviation sizes :: "dec list \<Rightarrow> rat" where "sizes ds \<equiv> (\<Sum>d\<leftarrow>ds. \<bar>dec_val d\<bar>)"

lemma sizes_nonneg: "0 \<le> sizes ds"
  by (intro sum_list_nonneg) auto

lemma fold_total:
  assumes "\<And>t x. tk_total_cost (f x t) = (if p x then dec_add (tk_total_cost t) (c x) else tk_total_cost t)" "\<And>t x. tk_id (f x t) = tk_id t"
    and "\<forall>x \<in> set xs. p x \<longrightarrow> - int q \<le> expo (c x)" "fits q m (tk_total_cost t)" "small q (m + sizes (map c (filter p xs)))"
  shows "fits q (m + sizes (map c (filter p xs))) (tk_total_cost (fold f xs t)) \<and>
    dec_val (tk_total_cost (fold f xs t)) = dec_val (tk_total_cost t) + (\<Sum>x\<leftarrow>filter p xs. dec_val (c x)) \<and> tk_id (fold f xs t) = tk_id t"
  using assms(3-5)
proof (induction xs arbitrary: t m)
  case (Cons x xs)
  show ?case
  proof (cases "p x")
    case True
    let ?n = "\<bar>dec_val (c x)\<bar>"
    have sum: "m + sizes (map c (filter p (x # xs))) = m + ?n + sizes (map c (filter p xs))" using True by simp
    have "small q (m + ?n)" by (rule small_mono [OF Cons.prems(3)]) (use True sizes_nonneg [of "map c (filter p xs)"] in simp)
    moreover have "fits q ?n (c x)" using Cons.prems(1) True by (simp add: fits_def)
    ultimately have "fits q (m + ?n) (dec_add (tk_total_cost t) (c x))"
        "dec_val (dec_add (tk_total_cost t) (c x)) = dec_val (tk_total_cost t) + dec_val (c x)"
      using fits_add [OF Cons.prems(2)] by blast+
    then show ?thesis using Cons.IH [of "m + ?n" "f x t"] Cons.prems(1,3) True unfolding sum by (simp add: assms(1,2))
  qed (use Cons assms(1,2) in simp)
qed simp

text \<open>The amounts a roll-up works with: the costs of the task's events before and after, the costs
  of its finished jobs, the cost of its traffic. They are exact if they lie on a grid and are not
  too large together, for then no addition rounds.\<close>

abbreviation charged_events :: "books \<Rightarrow> uuid \<Rightarrow> event list" where
  "charged_events b tid \<equiv> filter (\<lambda>e. ev_type e \<noteq> ''network'') (task_events b tid)"

abbreviation finished_jobs :: "books \<Rightarrow> uuid \<Rightarrow> provider_job list" where
  "finished_jobs b tid \<equiv>
     filter (\<lambda>j. terminal_status (job_status j)) (query_current_provider_jobs_for_task (bo_jobs b) tid)"

definition amounts :: "books \<Rightarrow> books \<Rightarrow> task \<Rightarrow> dec list" where
  "amounts b b' t =
     map ev_cost (charged_events b (tk_id t)) @ map ev_cost (charged_events b' (tk_id t)) @
     map job_cost (finished_jobs b (tk_id t)) @ [tk_network_cost t]"

definition exact_amounts :: "nat \<Rightarrow> dec list \<Rightarrow> bool" where
  "exact_amounts q ds \<longleftrightarrow> (\<forall>d \<in> set ds. - int q \<le> expo d) \<and> small q (2 * sizes ds)"

lemma recorded_total:
  assumes "\<forall>d \<in> set (map ev_cost (filter (\<lambda>e. ev_type e \<noteq> ''network'') es)) \<union> set (map job_cost (filter (\<lambda>j. terminal_status (job_status j)) js)).
      - int q \<le> expo d"
    and "small q (sizes (map ev_cost (filter (\<lambda>e. ev_type e \<noteq> ''network'') es)) +
      sizes (map job_cost (filter (\<lambda>j. terminal_status (job_status j)) js)))" (is "small q (?E + ?J)")
  shows "fits q (?E + ?J) (tk_total_cost (recorded t es js)) \<and>
    dec_val (tk_total_cost (recorded t es js)) = (\<Sum>e\<leftarrow>filter (\<lambda>e. ev_type e \<noteq> ''network'') es. dec_val (ev_cost e)) +
      (\<Sum>j\<leftarrow>filter (\<lambda>j. terminal_status (job_status j)) js. dec_val (job_cost j)) \<and> tk_id (recorded t es js) = tk_id t"
proof -
  have z: "fits q 0 (tk_total_cost (cleared t))" "dec_val (tk_total_cost (cleared t)) = 0" "tk_id (cleared t) = tk_id t"
    by (simp_all add: cleared_def fits_zero dec_val_def)
  have e: "small q (0 + ?E)" by (rule small_mono [OF assms(2)]) (use sizes_nonneg [of "map job_cost (filter (\<lambda>j. terminal_status (job_status j)) js)"] in simp)
  note first = fold_total [where f = "\<lambda>e t. add_event t e" and p = "\<lambda>e. ev_type e \<noteq> ''network''" and c = ev_cost, OF _ _ _ z(1) e]
  have first: "fits q (0 + ?E) (tk_total_cost (fold (\<lambda>e t. add_event t e) es (cleared t))) \<and>
      dec_val (tk_total_cost (fold (\<lambda>e t. add_event t e) es (cleared t))) =
        dec_val (tk_total_cost (cleared t)) + (\<Sum>e\<leftarrow>filter (\<lambda>e. ev_type e \<noteq> ''network'') es. dec_val (ev_cost e)) \<and>
      tk_id (fold (\<lambda>e t. add_event t e) es (cleared t)) = tk_id (cleared t)"
    by (rule first) (use assms(1) in \<open>auto simp: add_event_total\<close>)
  have "small q (0 + ?E + ?J)" using assms(2) by simp
  note second = fold_total [where f = "\<lambda>j t. add_job t j" and p = "\<lambda>j. terminal_status (job_status j)" and c = job_cost,
      OF _ _ _ conjunct1 [OF first] this]
  have "fits q (0 + ?E + ?J) (tk_total_cost (recorded t es js)) \<and>
      dec_val (tk_total_cost (recorded t es js)) =
        dec_val (tk_total_cost (fold (\<lambda>e t. add_event t e) es (cleared t))) +
        (\<Sum>j\<leftarrow>filter (\<lambda>j. terminal_status (job_status j)) js. dec_val (job_cost j)) \<and>
      tk_id (recorded t es js) = tk_id (fold (\<lambda>e t. add_event t e) es (cleared t))"
    unfolding recorded_def by (rule second) (use assms(1) in \<open>auto simp: add_job_total\<close>)
  then show ?thesis using first z by simp
qed

definition any_size :: "string \<Rightarrow> dec \<Rightarrow> rat" where
  "any_size k c = (if k = ''network'' then 0 else \<bar>dec_val c\<bar>)"

definition any_off :: "nat \<Rightarrow> string \<Rightarrow> dec \<Rightarrow> rat" where
  "any_off q k c = (if k \<noteq> ''network'' \<and> expo c < - int q then 1 else 0)"

lemma row_sum_mono: "(\<And>k c. g k c \<le> h k c) \<Longrightarrow> row_sum g tid rows \<le> row_sum h tid rows"
  unfolding row_sum_def by (intro sum_list_mono) auto

lemma row_sum_plus: "row_sum (\<lambda>k c. g k c + h k c) tid rows = row_sum g tid rows + row_sum h tid rows"
  unfolding row_sum_def sum_list_addf [symmetric] by (intro arg_cong [where f = sum_list] map_cong) auto

lemma kinds_le: "row_sum (size_of ''compute_cost'') tid rows + row_sum (size_of ''gpu_cost'') tid rows \<le> row_sum any_size tid rows"
  unfolding row_sum_plus [symmetric] by (intro row_sum_mono) (simp add: size_of_def any_size_def)

lemma charged_events_sum: "(\<Sum>e\<leftarrow>charged_events b tid. dec_val (ev_cost e)) = row_sum charged tid (bo_events b)"
  unfolding row_sum_events [symmetric] charged_def sum_list_filter by (intro arg_cong [where f = sum_list] map_cong) auto

lemma charged_events_size: "sizes (map ev_cost (charged_events b tid)) = row_sum any_size tid (bo_events b)"
proof -
  have "sizes (map ev_cost (charged_events b tid)) = (\<Sum>e\<leftarrow>charged_events b tid. \<bar>dec_val (ev_cost e)\<bar>)" by (simp add: comp_def)
  then show ?thesis unfolding row_sum_events [symmetric] any_size_def sum_list_filter
    by (simp only:) (intro arg_cong [where f = sum_list] map_cong, auto)
qed

lemma grid_rows:
  assumes "\<forall>d \<in> set (map ev_cost (charged_events b tid)). - int q \<le> expo d" "kind \<noteq> ''network''"
  shows "row_sum (off_grid q kind) tid (bo_events b) = 0"
proof -
  have "row_sum (off_grid q kind) tid (bo_events b) = (\<Sum>e\<leftarrow>task_events b tid. 0)"
    unfolding row_sum_events [symmetric] by (intro arg_cong [where f = sum_list] map_cong refl) (use assms in \<open>auto simp: off_grid_def\<close>)
  then show ?thesis by simp
qed

lemma recorded_id: "tk_id (recorded t es js) = tk_id t"
proof -
  have "tk_id (fold (\<lambda>j t. add_job t j) js t) = tk_id t" for t by (induction js arbitrary: t) (simp_all add: add_job_total)
  moreover have "tk_id (fold (\<lambda>e t. add_event t e) es t) = tk_id t" for t by (induction es arbitrary: t) (simp_all add: add_event_total)
  ultimately show ?thesis by (simp add: recorded_def cleared_def)
qed

lemma follows_other:
  assumes "follows kind tid t rows t' rows'" "\<And>k. g k dec0 = 0" "\<And>c. g kind c = 0"
  shows "row_sum g tid rows' = row_sum g tid rows"
  using assms unfolding follows_def by blast

text \<open>The compute and the GPU stage together.\<close>

lemma priced_total:
  assumes c: "follows ''compute_cost'' tid t1 rows t2 rows2" and g: "follows ''gpu_cost'' tid t2 rows2 t3 rows3"
    and grid: "row_sum (off_grid q ''compute_cost'') tid rows = 0" "row_sum (off_grid q ''gpu_cost'') tid rows = 0"
      "row_sum (off_grid q ''compute_cost'') tid rows3 = 0" "row_sum (off_grid q ''gpu_cost'') tid rows3 = 0"
    and t1: "fits q m (tk_total_cost t1)" "small q (m + (row_sum any_size tid rows + row_sum any_size tid rows3))"
  shows "tk_id t3 = tk_id t1 \<and> tk_network_cost t3 = tk_network_cost t1 \<and>
    dec_val (tk_total_cost t3) = dec_val (tk_total_cost t1) + row_sum charged tid rows3 - row_sum charged tid rows"
proof -
  let ?C = "size_of ''compute_cost''" and ?G = "size_of ''gpu_cost''"
  have kept: "row_sum (off_grid q ''gpu_cost'') tid rows2 = row_sum (off_grid q ''gpu_cost'') tid rows"
      "row_sum ?G tid rows2 = row_sum ?G tid rows"
    by (rule follows_other [OF c]; simp add: off_grid_def size_of_def dec_val_def)+
  have kept': "row_sum (off_grid q ''compute_cost'') tid rows3 = row_sum (off_grid q ''compute_cost'') tid rows2"
      "row_sum ?C tid rows3 = row_sum ?C tid rows2"
    by (rule follows_other [OF g]; simp add: off_grid_def size_of_def dec_val_def)+
  have le: "row_sum ?C tid rows + row_sum ?G tid rows \<le> row_sum any_size tid rows"
      "row_sum ?C tid rows3 + row_sum ?G tid rows3 \<le> row_sum any_size tid rows3" by (rule kinds_le)+
  have pos: "0 \<le> row_sum ?G tid rows" "0 \<le> row_sum ?G tid rows3" by (rule row_sum_nonneg, simp)+
  have "small q (m + row_sum ?C tid rows + row_sum ?C tid rows2)"
    by (rule small_mono [OF t1(2)]) (use le pos kept' in linarith)
  then have t2: "fits q (m + row_sum ?C tid rows + row_sum ?C tid rows2) (tk_total_cost t2)"
      "dec_val (tk_total_cost t2) = dec_val (tk_total_cost t1) + row_sum charged tid rows2 - row_sum charged tid rows"
    using c grid t1(1) kept' unfolding follows_def by simp_all
  have "small q (m + row_sum ?C tid rows + row_sum ?C tid rows2 + row_sum ?G tid rows2 + row_sum ?G tid rows3)"
    by (rule small_mono [OF t1(2)]) (use le kept kept' in linarith)
  then have "dec_val (tk_total_cost t3) = dec_val (tk_total_cost t2) + row_sum charged tid rows3 - row_sum charged tid rows2"
    using g grid t2(1) kept unfolding follows_def by simp
  then show ?thesis using t2(2) c g unfolding follows_def by simp
qed


lemma network_total:
  assumes "tk_total_cost t1 = dec_add (tk_total_cost t0) (tk_network_cost t1) \<or>
      tk_total_cost t1 = tk_total_cost t0 \<and> tk_network_cost t1 = dec0"
    and "fits q m (tk_total_cost t0)" "- int q \<le> expo (tk_network_cost t1)" "small q (m + \<bar>dec_val (tk_network_cost t1)\<bar>)"
  shows "fits q (m + \<bar>dec_val (tk_network_cost t1)\<bar>) (tk_total_cost t1)"
    "dec_val (tk_total_cost t1) = dec_val (tk_total_cost t0) + dec_val (tk_network_cost t1)"
proof -
  have "fits q \<bar>dec_val (tk_network_cost t1)\<bar> (tk_network_cost t1)" using assms(3) by (simp add: fits_def)
  note sum = fits_add [OF assms(2) this assms(4)]
  show "fits q (m + \<bar>dec_val (tk_network_cost t1)\<bar>) (tk_total_cost t1)"
      "dec_val (tk_total_cost t1) = dec_val (tk_total_cost t0) + dec_val (tk_network_cost t1)"
    using assms(1,2) sum by (auto simp: dec_val_def intro: fits_mono)
qed

lemma exact_parts:
  assumes "exact_amounts q (amounts b b' t')" "tk_id t' = tid"
  shows "\<forall>d \<in> set (map ev_cost (charged_events b tid)). - int q \<le> expo d" "\<forall>d \<in> set (map ev_cost (charged_events b' tid)). - int q \<le> expo d"
    "\<forall>d \<in> set (map job_cost (finished_jobs b tid)). - int q \<le> expo d" "- int q \<le> expo (tk_network_cost t')"
    "small q (2 * (row_sum any_size tid (bo_events b) + row_sum any_size tid (bo_events b') + sizes (map job_cost (finished_jobs b tid)) +
       \<bar>dec_val (tk_network_cost t')\<bar>))"
  using assms unfolding exact_amounts_def amounts_def charged_events_size [symmetric] by (auto simp: algebra_simps)

lemma aggregate_stages:
  assumes "aggregate_costs sha u5 px ms t b = (t', b')"
  obtains t1 rows reg t2 b2 where
    "price_network sha px (freeze (ms_network ms)) (task_events b (tk_id t))
       (recorded t (task_events b (tk_id t)) (query_current_provider_jobs_for_task (bo_jobs b) (tk_id t)))
       (bo_events b) (bo_rates b) = (t1, rows, reg)"
    "finalize_compute sha u5 px (ms_invoice_ec2 ms) (ms_compute ms) t1 (b\<lparr>bo_events := rows, bo_rates := reg\<rparr>) = (t2, b2)"
    "finalize_gpu sha u5 px (ms_invoice_ec2 ms) (ms_gpu ms) t2 b2 = (t', b')"
proof -
  let ?es = "task_events b (tk_id t)"
  let ?t0 = "recorded t ?es (query_current_provider_jobs_for_task (bo_jobs b) (tk_id t))"
  obtain t1 rows reg where net: "price_network sha px (freeze (ms_network ms)) ?es ?t0 (bo_events b) (bo_rates b) = (t1, rows, reg)"
    by (metis prod.collapse)
  obtain t2 b2 where comp: "finalize_compute sha u5 px (ms_invoice_ec2 ms) (ms_compute ms) t1 (b\<lparr>bo_events := rows, bo_rates := reg\<rparr>) = (t2, b2)"
    by fastforce
  have "finalize_gpu sha u5 px (ms_invoice_ec2 ms) (ms_gpu ms) t2 b2 = (t', b')"
    using assms net comp by (simp add: aggregate_costs_def finalize_def Let_def)
  with net comp show thesis by (rule that)
qed

lemma within:
  fixes A B J N :: rat
  assumes "0 \<le> A" "0 \<le> B" "0 \<le> J" "0 \<le> N"
  shows "A + J \<le> 2 * (A + B + J + N)" "A + J + N \<le> 2 * (A + B + J + N)" "A + J + N + (A + B) \<le> 2 * (A + B + J + N)"
  using assms by (simp_all add: algebra_simps)

text \<open>C8. The books balance. Whatever was measured and however often the roll-up runs, the total it
  gives a task is the sum of what is stored when it is done: the costs of the task's events other
  than the network's, as they are after the pending ones got their prices, the cost of the last
  snapshot of every finished provider job, and the price of the traffic. Nothing is counted twice
  and nothing is left out, provided the amounts are decimals that add without rounding and the
  rates have a pricing version.\<close>

theorem books_balance:
  assumes "aggregate_costs sha u5 px ms t b = (t', b')" "distinct (row_ids (bo_events b))"
    and "fst (pricing_version sha (bo_rates b)) = Inr v" "exact_amounts q (amounts b b' t')"
  shows "dec_val (tk_total_cost t') =
    (\<Sum>e\<leftarrow>charged_events b' (tk_id t). dec_val (ev_cost e)) + (\<Sum>j\<leftarrow>finished_jobs b (tk_id t). dec_val (job_cost j)) +
    dec_val (tk_network_cost t')"
proof -
  let ?tid = "tk_id t" and ?js = "query_current_provider_jobs_for_task (bo_jobs b) (tk_id t)"
  let ?es = "task_events b ?tid" and ?A = "\<lambda>rows. row_sum any_size (tk_id t) rows" and ?J = "sizes (map job_cost (finished_jobs b (tk_id t)))"
  let ?t0 = "recorded t ?es ?js"
  obtain t1 rows reg t2 b2 where net: "price_network sha px (freeze (ms_network ms)) ?es ?t0 (bo_events b) (bo_rates b) = (t1, rows, reg)"
    and comp: "finalize_compute sha u5 px (ms_invoice_ec2 ms) (ms_compute ms) t1 (b\<lparr>bo_events := rows, bo_rates := reg\<rparr>) = (t2, b2)"
    and gpu: "finalize_gpu sha u5 px (ms_invoice_ec2 ms) (ms_gpu ms) t2 b2 = (t', b')"
    by (rule aggregate_stages [OF assms(1)])
  note n = network_stage [OF _ assms(2,3), where t = ?t0, unfolded recorded_id, OF net]
  have "distinct (row_ids (bo_events (b\<lparr>bo_events := rows, bo_rates := reg\<rparr>)))" using n by simp
  from compute_stage [OF comp this] n have c: "follows ''compute_cost'' ?tid t1 rows t2 (bo_events b2)" and rates: "bo_rates b2 = reg"
    by simp_all
  have t2: "distinct (row_ids (bo_events b2))" "tk_id t2 = ?tid" using c n by (simp_all add: follows_def)
  have g: "follows ''gpu_cost'' ?tid t2 (bo_events b2) t' (bo_events b')"
    using gpu_stage [OF gpu t2(1)] n rates t2(2) by simp
  have ids: "tk_id t' = ?tid" using g t2(2) by (simp add: follows_def)
  note ex = exact_parts [OF assms(4) ids]
  have eq: "row_sum g ?tid rows = row_sum g ?tid (bo_events b)" if "\<And>c. g ''network'' c = 0" for g using n that by blast
  have sums: "?A rows = ?A (bo_events b)" "row_sum charged ?tid rows = row_sum charged ?tid (bo_events b)"
    by (rule eq; simp add: any_size_def charged_def)+
  have off: "row_sum (off_grid q k) ?tid rows = 0" if "k \<noteq> ''network''" for k
    using eq [of "off_grid q k"] grid_rows [OF ex(1) that] that by (simp add: off_grid_def)
  have net': "tk_network_cost t' = tk_network_cost t1" using c g by (simp add: follows_def)
  let ?N = "\<bar>dec_val (tk_network_cost t1)\<bar>"
  have pos: "0 \<le> ?A (bo_events b)" "0 \<le> ?A (bo_events b')" "0 \<le> ?J" "0 \<le> ?N"
    using sizes_nonneg [of "map job_cost (finished_jobs b (tk_id t))"] by (auto intro!: row_sum_nonneg simp: any_size_def)
  have small: "small q m" if "m \<le> 2 * (?A (bo_events b) + ?A (bo_events b') + ?J + ?N)" for m
    by (rule small_mono [OF ex(5)]) (use that net' in simp)
  have r: "fits q (?A (bo_events b) + ?J) (tk_total_cost ?t0)"
      "dec_val (tk_total_cost ?t0) = row_sum charged ?tid (bo_events b) + (\<Sum>j\<leftarrow>finished_jobs b ?tid. dec_val (job_cost j))"
    using recorded_total [of ?es ?js q t] ex(1,3) small [OF within(1) [OF pos]]
    unfolding charged_events_size charged_events_sum by auto
  have "small q (?A (bo_events b) + ?J + ?N)" by (rule small [OF within(2) [OF pos]])
  note t1 = network_total [OF _ r(1) ex(4) [unfolded net'] this]
  have alt: "tk_total_cost t1 = dec_add (tk_total_cost ?t0) (tk_network_cost t1) \<or>
      tk_total_cost t1 = tk_total_cost ?t0 \<and> tk_network_cost t1 = dec0" using n by blast
  have "small q (?A (bo_events b) + ?J + ?N + (?A rows + ?A (bo_events b')))" unfolding sums by (rule small [OF within(3) [OF pos]])
  from priced_total [OF c g off off grid_rows [OF ex(2)] grid_rows [OF ex(2)] t1(1) [OF alt] this]
  show ?thesis unfolding charged_events_sum using t1(2) [OF alt] r(2) sums(2) n net' by simp
qed

section \<open>What the roll-up writes\<close>

text \<open>Every new or changed row belongs to the task and is queued for delivery; rows of other tasks, and
  rows without a \<open>p\<close>-event, stay as they are.\<close>

definition touches :: "uuid \<Rightarrow> (event \<Rightarrow> bool) \<Rightarrow> event_rows \<Rightarrow> event_rows \<Rightarrow> bool" where
  "touches tid p rows rows' \<longleftrightarrow> distinct (row_ids rows') \<and>
     (\<forall>r \<in> set rows'. r \<in> set rows \<or> status r = Pending \<and> ev_task_id (body r) = tid) \<and>
     (\<forall>r \<in> set rows. ev_task_id (body r) \<noteq> tid \<or> \<not> p (body r) \<longrightarrow> r \<in> set rows')"

lemma touches_trans: "touches tid p a b \<Longrightarrow> touches tid s b c \<Longrightarrow> touches tid (\<lambda>e. p e \<or> s e) a c"
  unfolding touches_def by blast

lemma touches_mono: "touches tid p a b \<Longrightarrow> \<forall>e. p e \<longrightarrow> s e \<Longrightarrow> touches tid s a b"
  unfolding touches_def by metis

lemma grown_touches: "grown tid b b' \<Longrightarrow> touches tid p (bo_events b) (bo_events b')"
proof -
  assume g: "grown tid b b'"
  then obtain new where "bo_events b' = bo_events b @ new" "\<forall>r \<in> set new. status r = Pending \<and> ev_task_id (body r) = tid"
    unfolding grown_def by blast
  moreover have "distinct (row_ids (bo_events b'))" using g unfolding grown_def by blast
  ultimately show ?thesis unfolding touches_def by auto
qed

lemma update_event_member:
  "r \<in> set (update_event n rows) \<longleftrightarrow>
     (r \<in> set rows \<and> ev_id (body r) \<noteq> ev_id n) \<or>
     (\<exists>r0 \<in> set rows. ev_id (body r0) = ev_id n \<and>
        r = r0\<lparr>body := (stored_event n)\<lparr>ev_task_id := ev_task_id (body r0)\<rparr>, status := Pending, version := version r0 + 1\<rparr>)"
  by (auto simp: update_event_def update_where_def stored_event_def image_iff)

lemma run_updates_kept:
  "r \<in> set rows \<Longrightarrow> \<forall>(e, n) \<in> set us. ev_id n \<noteq> ev_id (body r) \<Longrightarrow> r \<in> set (run_updates us rows)"
  by (induction us arbitrary: rows) (auto simp: update_event_member)

lemma run_updates_row:
  assumes "r \<in> set (run_updates us rows)"
  shows "r \<in> set rows \<and> (\<forall>(e, n) \<in> set us. ev_id n \<noteq> ev_id (body r)) \<or>
    status r = Pending \<and> (\<exists>(e, n) \<in> set us. ev_type (body r) = ev_type n \<and> ev_details (body r) = ev_details n \<and>
      (\<exists>r0 \<in> set rows. ev_id (body r0) = ev_id n \<and> ev_task_id (body r) = ev_task_id (body r0)))"
  using assms
proof (induction us arbitrary: rows)
  case (Cons u us)
  obtain e n where u: "u = (e, n)" by fastforce
  have orig: "\<exists>r0 \<in> set rows. ev_id (body r0) = i \<and> t = ev_task_id (body r0)"
    if "\<exists>r1 \<in> set (update_event n rows). ev_id (body r1) = i \<and> t = ev_task_id (body r1)" for i t
    using that by (auto simp: update_event_member stored_event_def; metis)
  from Cons.prems have "r \<in> set (run_updates us (update_event n rows))" by (simp add: u)
  from Cons.IH [OF this] show ?case
  proof (elim disjE conjE)
    assume "r \<in> set (update_event n rows)" "\<forall>(e, n) \<in> set us. ev_id n \<noteq> ev_id (body r)"
    then consider "r \<in> set rows" "\<forall>(e, n) \<in> set (u # us). ev_id n \<noteq> ev_id (body r)" |
      r0 where "r0 \<in> set rows" "ev_id (body r0) = ev_id n"
        "r = r0\<lparr>body := (stored_event n)\<lparr>ev_task_id := ev_task_id (body r0)\<rparr>, status := Pending, version := version r0 + 1\<rparr>"
      unfolding update_event_member u by fastforce
    then show ?thesis
    proof cases
      case 2
      then show ?thesis unfolding u by (intro disjI2) (simp add: stored_event_def, metis)
    qed simp
  next
    assume "status r = Pending" "\<exists>(e', n') \<in> set us. ev_type (body r) = ev_type n' \<and> ev_details (body r) = ev_details n' \<and>
      (\<exists>r0 \<in> set (update_event n rows). ev_id (body r0) = ev_id n' \<and> ev_task_id (body r) = ev_task_id (body r0))"
    then show ?thesis using orig by (fastforce simp: u)
  qed
qed simp

lemma row_of_event:
  "distinct (row_ids rows) \<Longrightarrow> r \<in> set rows \<Longrightarrow> r' \<in> set rows \<Longrightarrow> ev_id (body r) = ev_id (body r') \<Longrightarrow> r = r'"
  using inj_onD [of "\<lambda>r. ev_id (body r)" "set rows" r r'] by (simp add: distinct_map)

lemma update_source:
  assumes "updates_ok tid us rows" "(e, n) \<in> set us" "r \<in> set rows" "ev_id n = ev_id (body r)"
  shows "body r = e \<and> ev_task_id (body r) = tid"
proof -
  have d: "distinct (row_ids rows)" and e: "e \<in> body ` set rows" "ev_task_id e = tid" "ev_id n = ev_id e"
    using assms(1,2) by (auto simp: updates_ok_def)
  then obtain r' where "r' \<in> set rows" "body r' = e" by blast
  with row_of_event [OF d assms(3) this(1)] e assms(4) show ?thesis by simp
qed

lemma updates_touch:
  assumes "updates_ok tid us rows" "\<forall>(e, n) \<in> set us. p e"
  shows "touches tid p rows (run_updates us rows)"
  unfolding touches_def
proof (intro conjI ballI impI)
  show "distinct (row_ids (run_updates us rows))" using assms(1) by (simp add: row_ids_run updates_ok_def)
next
  fix r assume "r \<in> set (run_updates us rows)"
  from run_updates_row [OF this] show "r \<in> set rows \<or> status r = Pending \<and> ev_task_id (body r) = tid"
  proof (elim disjE conjE)
    assume p: "status r = Pending" and "\<exists>(e, n) \<in> set us. ev_type (body r) = ev_type n \<and> ev_details (body r) = ev_details n \<and>
      (\<exists>r0 \<in> set rows. ev_id (body r0) = ev_id n \<and> ev_task_id (body r) = ev_task_id (body r0))"
    then obtain e n r0 where "(e, n) \<in> set us" "r0 \<in> set rows" "ev_id n = ev_id (body r0)" "ev_task_id (body r) = ev_task_id (body r0)"
      by (auto split: prod.splits)
    then show ?thesis using update_source [OF assms(1)] p by simp
  qed simp
next
  fix r assume r: "r \<in> set rows" "ev_task_id (body r) \<noteq> tid \<or> \<not> p (body r)"
  have "ev_id n \<noteq> ev_id (body r)" if "(e, n) \<in> set us" for e n
    using update_source [OF assms(1) that r(1)] assms(2) that r(2) by fastforce
  then show "r \<in> set (run_updates us rows)" by (intro run_updates_kept [OF r(1)]) blast
qed

text \<open>No event stays pending among those that were given a price.\<close>

lemma updates_settle:
  assumes "updates_ok tid us rows" "set (map fst us) = {e \<in> body ` set rows. ev_task_id e = tid \<and> p e}"
    and "\<forall>(e, n) \<in> set us. \<not> truthy (dict_get (ev_details n) ''cost_pending'')" "\<And>e. pending kind e \<Longrightarrow> p e"
    and "r \<in> set (run_updates us rows)" "ev_task_id (body r) = tid"
  shows "\<not> pending kind (body r)"
proof
  assume pend: "pending kind (body r)"
  from run_updates_row [OF assms(5)] show False
  proof (elim disjE conjE)
    assume r: "r \<in> set rows" "\<forall>(e, n) \<in> set us. ev_id n \<noteq> ev_id (body r)"
    then have "body r \<in> set (map fst us)" using pend assms(2,4,6) by auto
    then obtain n where "(body r, n) \<in> set us" by force
    then show False using r(2) assms(1) by (force simp: updates_ok_def)
  next
    assume "\<exists>(e, n) \<in> set us. ev_type (body r) = ev_type n \<and> ev_details (body r) = ev_details n \<and>
      (\<exists>r0 \<in> set rows. ev_id (body r0) = ev_id n \<and> ev_task_id (body r) = ev_task_id (body r0))"
    then show False using pend assms(3) by (fastforce simp: pending_def)
  qed
qed

lemma set_task_events: "set (task_events b tid) = {e \<in> body ` set (bo_events b). ev_task_id e = tid}"
  by (auto simp: task_events_rows)

lemma price_gpu_keeps:
  "price_gpu_event sha px w e r = (Inr n, r') \<Longrightarrow>
     ev_id n = ev_id e \<and> ev_type n = ev_type e \<and> ev_details n = without_private (ev_details e)"
  by (auto simp: price_gpu_event_def Let_def map_sum_Inr split: option.splits prod.splits sum.splits)

lemma gpu_loop_any:
  "\<exists>us k. fst (price_gpu_events sha px w added es rows r d) = run_updates us rows \<and>
     map fst us = take k (filter (pending ''gpu_cost'') es) \<and> (\<forall>(e, n) \<in> set us. ev_id n = ev_id e \<and> ev_type n = ev_type e)"
proof (induction es arbitrary: rows r d)
  case Nil
  show ?case by (intro exI [of _ "[]"]) auto
next
  case (Cons e es)
  show ?case
  proof (cases "pending ''gpu_cost'' e")
    case True
    obtain x r' where p: "price_gpu_event sha px w e r = (x, r')" by fastforce
    show ?thesis
    proof (cases x)
      case (Inl err)
      then show ?thesis using True p by (intro exI [of _ "[]"] exI [of _ "0::nat"]) simp
    next
      case (Inr n)
      obtain us k where us: "fst (price_gpu_events sha px w added es (update_event n rows) r' (delta_of added e n d)) = run_updates us (update_event n rows)"
          "map fst us = take k (filter (pending ''gpu_cost'') es)" "\<forall>(e, n) \<in> set us. ev_id n = ev_id e \<and> ev_type n = ev_type e"
        using Cons.IH by blast
      then show ?thesis using True p Inr price_gpu_keeps [of sha px w e r n r'] by (intro exI [of _ "(e, n) # us"] exI [of _ "Suc k"]) simp
    qed
  qed (use Cons.IH in simp)
qed

lemma prefix_updates:
  assumes "distinct (row_ids (bo_events b))" "map fst us = take k (filter p (task_events b tid))"
    and "\<forall>(e, n) \<in> set us. ev_id n = ev_id e \<and> ev_type n = ev_type e"
  shows "updates_ok tid us (bo_events b) \<and> (\<forall>(e, n) \<in> set us. p e)"
proof -
  have sub: "set (map fst us) \<subseteq> set (filter p (task_events b tid))" unfolding assms(2) by (rule set_take_subset)
  have "distinct (map ev_id (map fst us))"
    unfolding assms(2) using task_events_distinct [OF assms(1), of tid] by (simp add: take_map [symmetric] distinct_map_filter)
  then have "updates_ok tid us (bo_events b)" using sub by (intro updates_of_events assms(1,3)) auto
  moreover have "\<forall>(e, n) \<in> set us. p e" using sub by force
  ultimately show ?thesis by blast
qed

section \<open>The stages again\<close>

lemma network_touches:
  assumes "price_network sha px a (task_events b (tk_id t)) t (bo_events b) (bo_rates b) = (t', rows, reg)"
    and "distinct (row_ids (bo_events b))"
  shows "touches (tk_id t) (\<lambda>e. ev_type e = ''network'') (bo_events b) rows"
proof -
  let ?es = "task_events b (tk_id t)"
  obtain x reg' where r: "network_rate_for sha px (bo_rates b) = (x, reg')" by fastforce
  show ?thesis
  proof (cases x)
    case (Inl err)
    then have "rows = bo_events b" using assms(1) r by (simp add: price_network_def Let_def)
    then show ?thesis using assms(2) by (simp add: touches_def)
  next
    case (Inr nr)
    obtain us k where us: "fst (price_network_events nr ?es (bo_events b)) = run_updates us (bo_events b)"
        "map fst us = take k (filter (\<lambda>e. ev_type e = ''network'') ?es)" "\<forall>(e, n) \<in> set us. price_network_event nr e = Inr n"
      using network_loop [of nr ?es "bo_events b"] by blast
    have "\<forall>(e, n) \<in> set us. ev_id n = ev_id e \<and> ev_type n = ev_type e" using us(3) price_network_keeps by fast
    note ok = prefix_updates [OF assms(2) us(2) this]
    have "rows = run_updates us (bo_events b)"
      using assms(1) r Inr us(1) by (auto simp: price_network_def Let_def split: prod.splits)
    then show ?thesis using updates_touch [of "tk_id t" us "bo_events b"] ok by simp
  qed
qed

lemma compute_touches:
  assumes "finalize_compute sha u5 px ec2 m t b = (t', b')" "distinct (row_ids (bo_events b))"
  shows "touches (tk_id t) (pending ''compute_cost'') (bo_events b) (bo_events b') \<and>
    ((\<exists>ids. fst (record_compute sha u5 ec2 m (tk_id t) b) = Inr ids) \<longrightarrow>
      (\<forall>r \<in> set (bo_events b'). ev_task_id (body r) = tk_id t \<longrightarrow> \<not> pending ''compute_cost'' (body r)))"
proof -
  obtain r b1 where rec: "record_compute sha u5 ec2 m (tk_id t) b = (r, b1)" by fastforce
  note g = record_compute_grown [OF rec assms(2)]
  then have gt: "touches (tk_id t) p (bo_events b) (bo_events b1)" for p by (intro grown_touches) blast
  show ?thesis
  proof (cases r)
    case (Inl err)
    then show ?thesis using assms(1) rec gt by (simp add: finalize_compute_def)
  next
    case (Inr added)
    let ?w = "window_seconds t"
    let ?us = "map (\<lambda>e. (e, price_compute_event px ?w e)) (filter (pending ''compute_cost'') (task_events b1 (tk_id t)))"
    have "snd (t', b') = b1\<lparr>bo_events := run_updates ?us (bo_events b1)\<rparr>"
      unfolding assms(1) [symmetric] finalize_compute_def rec Inr prod.case sum.case compute_loop Let_def by (rule snd_conv)
    then have b': "bo_events b' = run_updates ?us (bo_events b1)" by simp
    have ids: "distinct (row_ids (bo_events b1))" using g by (simp add: grown_def)
    have ok: "updates_ok (tk_id t) ?us (bo_events b1)" by (rule updates_of_filter [OF ids]) simp
    have t: "touches (tk_id t) (pending ''compute_cost'') (bo_events b1) (bo_events b')"
      unfolding b' by (rule updates_touch [OF ok]) auto
    have "\<not> pending ''compute_cost'' (body r)" if "r \<in> set (bo_events b')" "ev_task_id (body r) = tk_id t" for r
      by (rule updates_settle [OF ok _ _ _ that(1) [unfolded b'] that(2), where p = "pending ''compute_cost''"])
        (auto simp: set_task_events price_compute_event_def Let_def dict_get_pop)
    then show ?thesis using touches_mono [OF touches_trans [OF gt t], of "pending ''compute_cost''"] by blast
  qed
qed

lemma without_private_pending: "dict_get (without_private d) ''cost_pending'' = JNull"
  by (induction d) (auto simp: without_private_def gpu_private_def dict_get_def)

lemma gpu_touches:
  assumes "finalize_gpu sha u5 px ec2 m t b = (t', b')" "distinct (row_ids (bo_events b))"
  shows "touches (tk_id t) (pending ''gpu_cost'') (bo_events b) (bo_events b')"
proof -
  obtain r b1 where rec: "record_gpu sha u5 ec2 m (tk_id t) b = (r, b1)" by fastforce
  note g = record_gpu_grown [OF rec assms(2)]
  then have gt: "touches (tk_id t) p (bo_events b) (bo_events b1)" for p by (intro grown_touches) blast
  show ?thesis
  proof (cases r)
    case (Inl err)
    then show ?thesis using assms(1) rec gt by (simp add: finalize_gpu_def)
  next
    case (Inr added)
    obtain us k where us: "fst (price_gpu_events sha px (window_seconds t) added (task_events b1 (tk_id t)) (bo_events b1) (bo_rates b1) dec0) =
        run_updates us (bo_events b1)" "map fst us = take k (filter (pending ''gpu_cost'') (task_events b1 (tk_id t)))"
        "\<forall>(e, n) \<in> set us. ev_id n = ev_id e \<and> ev_type n = ev_type e" using gpu_loop_any by blast
    have b': "bo_events b' = run_updates us (bo_events b1)"
      using assms(1) rec Inr us(1) by (auto simp: finalize_gpu_def split: prod.splits option.splits)
    have ids: "distinct (row_ids (bo_events b1))" using g by (simp add: grown_def)
    have t: "touches (tk_id t) (pending ''gpu_cost'') (bo_events b1) (bo_events b')"
      unfolding b' using prefix_updates [OF ids us(2,3)] updates_touch by blast
    then show ?thesis using touches_mono [OF touches_trans [OF gt t], of "pending ''gpu_cost''"] by blast
  qed
qed

lemma gpu_settles:
  assumes "finalize_gpu sha u5 px ec2 m t b = (t', b')" "distinct (row_ids (bo_events b))"
    and "fst (pricing_version sha (bo_rates b)) = Inr v" "fst (record_gpu sha u5 ec2 m (tk_id t) b) = Inr added"
    and "r \<in> set (bo_events b')" "ev_task_id (body r) = tk_id t"
  shows "\<not> pending ''gpu_cost'' (body r)"
proof -
  obtain b1 where rec: "record_gpu sha u5 ec2 m (tk_id t) b = (Inr added, b1)" using assms(4) by (metis prod.collapse)
  note g = record_gpu_grown [OF rec assms(2)]
  let ?w = "window_seconds t" and ?r = "bo_rates b1"
  let ?us = "map (\<lambda>e. (e, gpu_price sha px ?w ?r e)) (filter (pending ''gpu_cost'') (task_events b1 (tk_id t)))"
  have v: "fst (pricing_version sha ?r) = Inr v" using g assms(3) by (simp add: grown_def)
  then have sr: "same_rates sha v ?r ?r" by (simp add: same_rates_def)
  from gpu_loop [OF this, of px ?w added "task_events b1 (tk_id t)" "bo_events b1" dec0]
  have b': "bo_events b' = run_updates ?us (bo_events b1)" using assms(1) rec by (auto simp: finalize_gpu_def Let_def)
  have ids: "distinct (row_ids (bo_events b1))" using g by (simp add: grown_def)
  have ok: "updates_ok (tk_id t) ?us (bo_events b1)" by (rule updates_of_filter [OF ids]) (simp add: gpu_price_keeps [OF v])
  have det: "ev_details (gpu_price sha px ?w ?r e) = without_private (ev_details e)" for e
    using price_gpu_same [OF sr, of px ?w e] price_gpu_keeps [of sha px ?w e ?r] by (auto simp: gpu_price_def)
  show ?thesis
    by (rule updates_settle [OF ok _ _ _ assms(5) [unfolded b'] assms(6), where p = "pending ''gpu_cost''"])
      (auto simp: set_task_events det without_private_pending)
qed


lemma network_keeps_id:
  "price_network sha px a es t rows reg = (t', rows', reg') \<Longrightarrow> tk_id t' = tk_id t"
  by (auto simp: price_network_def Let_def with_traffic_def split: prod.splits sum.splits if_splits)

text \<open>The GPU stage writes no other kinds of events.\<close>

lemma add_measured_kind:
  assumes "add_measured sha u5 tid k d b = (r, b')" "x \<in> set (bo_events b')"
  shows "x \<in> set (bo_events b) \<or> ev_type (body x) = k"
proof -
  obtain eid now where h: "hd (bo_fresh b) = (eid, now)" by fastforce
  have kind: "ev_type e = k" if "stamp_on_insert sha u5 amb (new_event eid now tid k d) = (Inr e, amb')" for e amb amb'
    using stamp_on_insert_keeps [OF that] by (simp add: new_event_def)
  have ins: "x \<in> set rows \<or> ev_type (body x) = ev_type e" if "insert_stamped rows e = Inr (e', rows')" "x \<in> set rows'" for e e' rows rows'
    using that by (auto simp: insert_stamped_def Let_def new_vrow_def stored_event_def split: option.splits if_splits)
  show ?thesis using assms h
    by (auto simp: add_measured_def insert_event_def Let_def split: prod.splits sum.splits dest: ins kind)
qed

lemma add_signals_kind:
  "add_signals sha u5 tid ds b = (r, b') \<Longrightarrow> x \<in> set (bo_events b') \<Longrightarrow>
     x \<in> set (bo_events b) \<or> ev_type (body x) = ''gpu_utilization_signal''"
  by (induction ds arbitrary: b) (auto split: prod.splits sum.splits dest: add_measured_kind)

lemma record_gpu_kind:
  assumes "record_gpu sha u5 ec2 m tid b = (r, b')" "x \<in> set (bo_events b')"
  shows "x \<in> set (bo_events b) \<or> ev_type (body x) \<noteq> ''compute_cost''"
proof -
  have c: "x \<in> set (bo_events b1) \<Longrightarrow> x \<in> set (bo_events b) \<or> ev_type (body x) = ''gpu_cost''"
    if "add_cost_event sha u5 tid ''gpu_cost'' d b = (q, b1)" for d q b1
    using that by (auto simp: add_cost_event_def split: option.splits prod.splits dest: add_measured_kind)
  show ?thesis using assms
    by (auto simp: record_gpu_def split: option.splits sum.splits prod.splits dest!: c add_signals_kind)
qed

lemma gpu_no_new_pending:
  assumes "finalize_gpu sha u5 px ec2 m t b = (t', b')" "r \<in> set (bo_events b')" "pending ''compute_cost'' (body r)"
  shows "r \<in> set (bo_events b)"
proof -
  obtain x b1 where rec: "record_gpu sha u5 ec2 m (tk_id t) b = (x, b1)" by fastforce
  have kind: "ev_type (body r) = ''compute_cost''" using assms(3) by (simp add: pending_def)
  have "r \<in> set (bo_events b1)"
  proof (cases x)
    case (Inl err)
    then show ?thesis using assms(1,2) rec by (simp add: finalize_gpu_def)
  next
    case (Inr added)
    obtain us k where us: "fst (price_gpu_events sha px (window_seconds t) added (task_events b1 (tk_id t)) (bo_events b1) (bo_rates b1) dec0) =
        run_updates us (bo_events b1)" "map fst us = take k (filter (pending ''gpu_cost'') (task_events b1 (tk_id t)))"
        "\<forall>(e, n) \<in> set us. ev_id n = ev_id e \<and> ev_type n = ev_type e" using gpu_loop_any by blast
    have "bo_events b' = run_updates us (bo_events b1)"
      using assms(1) rec Inr us(1) by (auto simp: finalize_gpu_def split: prod.splits option.splits)
    then have r: "r \<in> set (run_updates us (bo_events b1))" using assms(2) by simp
    have "set (map fst us) \<subseteq> set (filter (pending ''gpu_cost'') (task_events b1 (tk_id t)))" unfolding us(2) by (rule set_take_subset)
    then have "ev_type n = ''gpu_cost''" if "(e, n) \<in> set us" for e n using us(3) that by (force simp: pending_def)
    then show ?thesis using run_updates_row [OF r] kind by (auto split: prod.splits)
  qed
  then show ?thesis using record_gpu_kind [OF rec] kind by blast
qed

text \<open>C10. The roll-up of a task writes nothing but events of that task whose price was still open, or
  that are network events: every other row of the table, and every row of another task, is
  afterwards what it was. What it does change or add is queued for delivery again, so no price
  is computed that the control plane never hears of. This holds wherever the roll-up fails.\<close>

theorem roll_up_writes:
  assumes "aggregate_costs sha u5 px ms t b = (t', b')" "distinct (row_ids (bo_events b))"
  shows "(\<forall>r \<in> set (bo_events b'). r \<in> set (bo_events b) \<or> status r = Pending \<and> ev_task_id (body r) = tk_id t) \<and>
    (\<forall>r \<in> set (bo_events b). ev_task_id (body r) \<noteq> tk_id t \<or>
       (ev_type (body r) \<noteq> ''network'' \<and> \<not> pending ''compute_cost'' (body r) \<and> \<not> pending ''gpu_cost'' (body r)) \<longrightarrow>
       r \<in> set (bo_events b'))"
proof -
  let ?t0 = "recorded t (task_events b (tk_id t)) (query_current_provider_jobs_for_task (bo_jobs b) (tk_id t))"
  obtain t1 rows reg t2 b2 where net: "price_network sha px (freeze (ms_network ms)) (task_events b (tk_id t)) ?t0 (bo_events b) (bo_rates b) = (t1, rows, reg)"
    and comp: "finalize_compute sha u5 px (ms_invoice_ec2 ms) (ms_compute ms) t1 (b\<lparr>bo_events := rows, bo_rates := reg\<rparr>) = (t2, b2)"
    and gpu: "finalize_gpu sha u5 px (ms_invoice_ec2 ms) (ms_gpu ms) t2 b2 = (t', b')"
    by (rule aggregate_stages [OF assms(1)])
  have n: "touches (tk_id t) (\<lambda>e. ev_type e = ''network'') (bo_events b) rows" and i1: "tk_id t1 = tk_id t"
    using network_touches [OF _ assms(2), where t = ?t0, unfolded recorded_id, OF net] network_keeps_id [OF net] by (simp_all add: recorded_id)
  then have d1: "distinct (row_ids (bo_events (b\<lparr>bo_events := rows, bo_rates := reg\<rparr>)))" by (simp add: touches_def)
  have c: "touches (tk_id t) (pending ''compute_cost'') rows (bo_events b2)" and i2: "tk_id t2 = tk_id t"
    using compute_touches [OF comp d1] compute_stage [OF comp d1] i1 by (simp_all add: follows_def)
  then have d2: "distinct (row_ids (bo_events b2))" by (simp add: touches_def)
  have g: "touches (tk_id t) (pending ''gpu_cost'') (bo_events b2) (bo_events b')" using gpu_touches [OF gpu d2] i2 by simp
  from touches_trans [OF touches_trans [OF n c] g] show ?thesis unfolding touches_def by blast
qed


section \<open>A small roll-up\<close>

definition sample_cost :: "uuid \<Rightarrow> string \<Rightarrow> dec \<Rightarrow> obj \<Rightarrow> event" where
  "sample_cost eid kind cost details = (new_event eid (sample_time 0) ''t'' kind details)\<lparr>ev_cost := cost\<rparr>"

definition edge_function :: obj where
  "edge_function = [(''billing_model'', JStr ''edge''), (''cost_pending'', JBool True)]"

definition sample_books :: books where
  "sample_books = \<lparr>bo_tasks = [],
     bo_events = map new_vrow [sample_cost ''a'' ''llm_call'' (Dec 25 (- 2)) [], sample_cost ''b'' ''compute_cost'' dec0 edge_function],
     bo_jobs = [], bo_ambient = \<lparr>amb_capability = None, amb_registry = [], amb_scope = None\<rparr>,
     bo_rates = empty_registry, bo_fresh = []\<rparr>"

definition sample_prices :: prices where
  "sample_prices = \<lparr>px_egress = \<lparr>ee_catalog = [], ee_overrides = []\<rparr>, px_egress_version = [],
     px_compute = \<lparr>ce_catalog = [], ce_overrides = []\<rparr>, px_compute_version = ''1'',
     px_gpu = \<lparr>ge_catalog = [], ge_overrides = []\<rparr>, px_gpu_version = [], px_billing = [],
     px_cloud = \<lparr>env_provider = None, env_region = None, env_instance = None\<rparr>\<rparr>"

definition sample_measurements :: measurements where
  "sample_measurements = \<lparr>ms_network = new_accountant, ms_compute = None, ms_gpu = None, ms_invoice_ec2 = False\<rparr>"

definition sample_roll_up :: "task \<times> books" where
  "sample_roll_up = aggregate_costs (\<lambda>s. s) (\<lambda>s. s) sample_prices sample_measurements (new_task ''t'' (sample_time 0)) sample_books"

abbreviation edge_event :: event where "edge_event \<equiv> sample_cost ''b'' ''compute_cost'' dec0 edge_function"
abbreviation llm_event :: event where "llm_event \<equiv> sample_cost ''a'' ''llm_call'' (Dec 25 (- 2)) []"

definition edge_priced :: event where
  "edge_priced = price_compute_event sample_prices dec0 edge_event"

lemma sample_cost_simps [simp]:
  "ev_id (sample_cost i k c d) = i" "ev_type (sample_cost i k c d) = k" "ev_cost (sample_cost i k c d) = c"
  "ev_details (sample_cost i k c d) = d" "ev_task_id (sample_cost i k c d) = ''t''" "ev_occurred_at (sample_cost i k c d) = sample_time 0"
  "ev_is_retry (sample_cost i k c d) = False" "stored_event (sample_cost i k c d) = sample_cost i k c d"
  by (simp_all add: sample_cost_def new_event_def stored_event_def)

lemma edge_cost: "ev_cost edge_priced = dec0"
  by (simp add: edge_priced_def price_compute_event_def Let_def resolve_compute_cost_def billing_model_def edge_function_def
      dict_get_def py_str_def dispatch_compute_def zero_cost_def sample_prices_def)

lemma edge_keeps: "ev_id edge_priced = ''b''" "ev_type edge_priced = ''compute_cost''" "ev_task_id edge_priced = ''t''"
    "ev_occurred_at edge_priced = sample_time 0" "\<not> truthy (dict_get (ev_details edge_priced) ''cost_pending'')"
  by (simp_all add: edge_priced_def price_compute_event_def Let_def dict_get_pop)

lemma edge_pending: "pending ''compute_cost'' edge_event"
  by (simp add: pending_def edge_function_def dict_get_def)

lemma sample_books_events: "task_events sample_books ''t'' = [edge_event, llm_event]"
  by (simp add: task_events_rows sample_books_def new_vrow_def)

definition sample_after :: event_rows where
  "sample_after = [new_vrow llm_event, \<lparr>body = stored_event edge_priced, status = Pending, version = 2\<rparr>]"

lemma price_nothing: "nr_rate r = dec0 \<Longrightarrow> price_bytes r 0 = dec0"
  by (simp add: price_bytes_def dec_div_def gb_decimal_def dec_mul_def dec_fix_exact)

lemma sample_rate:
  "network_rate_for sha sample_prices empty_registry =
     (Inr \<lparr>nr_rate = dec0, nr_unit = ''gb_egress'', nr_source = ''unpriced:local_network'', nr_confidence = ''unknown'', nr_version = None\<rparr>,
      empty_registry)"
  by (simp add: network_rate_for_def Let_def network_keys_def get_infrastructure_def empty_registry_def sample_prices_def)

lemma sample_network:
  assumes "price_network sha sample_prices (freeze new_accountant) [edge_event, llm_event] t rows empty_registry = (t', rows', reg')"
  shows "rows' = rows" "reg' = empty_registry" "tk_id t' = tk_id t" "tk_network_cost t' = dec0"
    "tk_started_at t' = tk_started_at t" "tk_ended_at t' = tk_ended_at t"
  using assms unfolding price_network_def sample_rate Let_def
  by (auto simp: with_traffic_def freeze_def new_accountant_def billed_def no_traffic_def price_nothing)

lemma sample_loop:
  "fst (price_compute_events sample_prices dec0 [] [edge_event, llm_event] (bo_events sample_books) dec0) = sample_after"
proof -
  have "\<not> pending ''compute_cost'' llm_event" by (simp add: pending_def)
  then show ?thesis
    by (simp add: edge_pending edge_priced_def [symmetric] edge_keeps Let_def update_event_def update_where_def
        sample_books_def new_vrow_def sample_after_def stored_event_def)
qed

lemma sample_compute:
  assumes "finalize_compute sha u5 sample_prices False None t sample_books = (t', b')" "tk_id t = ''t''" "window_seconds t = dec0"
  shows "b' = sample_books\<lparr>bo_events := sample_after\<rparr>" "tk_id t' = tk_id t" "tk_network_cost t' = tk_network_cost t"
proof -
  have "measured long_running ''ec2'' False (None :: (string \<times> (py_error + obj option)) option) = None" by (simp add: measured_def)
  then have "b' = sample_books\<lparr>bo_events := fst (price_compute_events sample_prices dec0 [] [edge_event, llm_event] (bo_events sample_books) dec0)\<rparr> \<and>
      tk_id t' = tk_id t \<and> tk_network_cost t' = tk_network_cost t"
    using assms by (auto simp: finalize_compute_def record_compute_def sample_books_events Let_def split: prod.splits)
  then show "b' = sample_books\<lparr>bo_events := sample_after\<rparr>" "tk_id t' = tk_id t" "tk_network_cost t' = tk_network_cost t"
    unfolding sample_loop by blast+
qed

lemma sample_gpu:
  assumes "finalize_gpu sha u5 sample_prices False None t (sample_books\<lparr>bo_events := sample_after\<rparr>) = (t', b')" "tk_id t = ''t''"
  shows "b' = sample_books\<lparr>bo_events := sample_after\<rparr>" "tk_id t' = tk_id t" "tk_network_cost t' = tk_network_cost t"
proof -
  have "measured long_running_gpu ''aws_ec2_gpu'' False (None :: (string \<times> (py_error + obj option \<times> obj list)) option) = None"
    by (simp add: measured_def)
  moreover have "price_gpu_events sha px w [] (task_events (sample_books\<lparr>bo_events := sample_after\<rparr>) ''t'') rows r d = (rows, r, Some d)" for px w rows r d
    by (simp add: task_events_rows sample_after_def new_vrow_def stored_event_def edge_keeps pending_def)
  ultimately show "b' = sample_books\<lparr>bo_events := sample_after\<rparr>" "tk_id t' = tk_id t" "tk_network_cost t' = tk_network_cost t"
    using assms by (auto simp: finalize_gpu_def record_gpu_def)
qed

lemma recorded_ended: "tk_ended_at (recorded t es js) = tk_ended_at t"
proof -
  have "tk_ended_at (fold (\<lambda>j t. add_job t j) js t) = tk_ended_at t" for t
    by (induction js arbitrary: t) (simp_all add: add_job_def add_llm_def add_total_def)
  moreover have "tk_ended_at (fold (\<lambda>e t. add_event t e) es t) = tk_ended_at t" for t
    by (induction es arbitrary: t) (simp_all add: add_event_def by_kind_def add_llm_def add_total_def Let_def)
  ultimately show ?thesis by (simp add: recorded_def cleared_def)
qed

lemma sample_roll_up_result:
  assumes "sample_roll_up = (t', b')"
  shows "b' = sample_books\<lparr>bo_events := sample_after\<rparr>" "tk_id t' = ''t''" "tk_network_cost t' = dec0"
proof -
  let ?t = "new_task ''t'' (sample_time 0)"
  have new: "tk_id ?t = ''t''" "tk_ended_at ?t = None" by (simp_all add: new_task_def)
  from assms have a: "aggregate_costs (\<lambda>s. s) (\<lambda>s. s) sample_prices sample_measurements ?t sample_books = (t', b')"
    by (simp add: sample_roll_up_def)
  obtain t1 rows reg t2 b2 where
    net: "price_network (\<lambda>s. s) sample_prices (freeze (ms_network sample_measurements)) (task_events sample_books (tk_id ?t))
       (recorded ?t (task_events sample_books (tk_id ?t)) (query_current_provider_jobs_for_task (bo_jobs sample_books) (tk_id ?t)))
       (bo_events sample_books) (bo_rates sample_books) = (t1, rows, reg)"
    and comp: "finalize_compute (\<lambda>s. s) (\<lambda>s. s) sample_prices (ms_invoice_ec2 sample_measurements) (ms_compute sample_measurements) t1
       (sample_books\<lparr>bo_events := rows, bo_rates := reg\<rparr>) = (t2, b2)"
    and gpu: "finalize_gpu (\<lambda>s. s) (\<lambda>s. s) sample_prices (ms_invoice_ec2 sample_measurements) (ms_gpu sample_measurements) t2 b2 = (t', b')"
    by (rule aggregate_stages [OF a])
  have reg: "bo_rates sample_books = empty_registry" by (simp add: sample_books_def)
  note n = sample_network [OF net [unfolded new(1) sample_books_events reg sample_measurements_def measurements.simps]]
  have t1: "tk_id t1 = ''t''" "window_seconds t1 = dec0" using n new by (simp_all add: recorded_id recorded_ended window_seconds_def)
  have "sample_books\<lparr>bo_events := rows, bo_rates := reg\<rparr> = sample_books" using n by (simp add: sample_books_def)
  note c = sample_compute [OF comp [unfolded this sample_measurements_def measurements.simps] t1]
  note g = sample_gpu [OF gpu [unfolded c(1) sample_measurements_def measurements.simps]]
  show "b' = sample_books\<lparr>bo_events := sample_after\<rparr>" "tk_id t' = ''t''" "tk_network_cost t' = dec0"
    using g c n t1 by simp_all
qed

lemma sample_ids: "distinct (row_ids (bo_events sample_books))"
  by (simp add: sample_books_def new_vrow_def)

lemma sample_version: "fst (pricing_version (\<lambda>s. s) (bo_rates sample_books)) = Inr []"
  by (simp add: sample_books_def empty_registry_def pricing_version_def compute_version_def version_text_def)

theorem books_balance_witness:
  "dec_val (tk_total_cost (fst sample_roll_up)) = 1 / 4"
proof -
  obtain t' b' where r: "sample_roll_up = (t', b')" by fastforce
  note res = sample_roll_up_result [OF r]
  have ev: "charged_events sample_books ''t'' = [edge_event, llm_event]" by (simp add: sample_books_events)
  have ev': "map ev_cost (charged_events b' ''t'') = [dec0, Dec 25 (- 2)]" unfolding res(1)
    by (simp add: task_events_rows sample_after_def new_vrow_def stored_event_def edge_keeps edge_cost)
  have jobs: "finished_jobs sample_books ''t'' = []"
    by (simp add: sample_books_def query_current_provider_jobs_for_task_def)
  have "exact_amounts 2 (amounts sample_books b' t')"
    unfolding amounts_def res(2,3) ev' jobs ev by (simp add: exact_amounts_def small_def dec_val_def power_int_minus)
  then have "dec_val (tk_total_cost t') = (\<Sum>e\<leftarrow>charged_events b' ''t''. dec_val (ev_cost e)) + 0 + 0"
    using books_balance [OF r [unfolded sample_roll_up_def] sample_ids sample_version] res(2,3) jobs
    by (simp add: new_task_def dec_val_def)
  moreover have "(\<Sum>e\<leftarrow>charged_events b' ''t''. dec_val (ev_cost e)) = sum_list (map dec_val (map ev_cost (charged_events b' ''t'')))"
    by (simp add: comp_def)
  ultimately show ?thesis unfolding ev' r by (simp add: dec_val_def power_int_minus)
qed

theorem roll_up_writes_witness:
  "new_vrow llm_event \<in> set (bo_events (snd sample_roll_up))"
proof -
  obtain t' b' where r: "sample_roll_up = (t', b')" by fastforce
  have "new_vrow llm_event \<in> set (bo_events sample_books)" by (simp add: sample_books_def)
  from bspec [OF conjunct2 [OF roll_up_writes [OF r [unfolded sample_roll_up_def] sample_ids]] this]
  show ?thesis unfolding r by (simp add: new_vrow_def pending_def)
qed


end
