(* ===== verification/Spec2Isabelle.thy ===== *)
theory Spec2Isabelle
  imports Job_Observations Sync_Blocked Sync_Liveness Roll_Up_Balance
begin

text \<open>
  A verification development for the Python SDK of dexcost (\<open>src/python/src/dexcost\<close>).

  The program. An application tracks business tasks; costs are captured as events of a task,
  and outcomes, revenues and asynchronous provider jobs are recorded as revisions. Everything
  is first written to a local SQLite file. A background worker uploads what is pending to a
  control plane and acknowledges, or sets aside, exactly what it uploaded. The development
  models this core: the data, the local store with its five tables, the automatic tasks of
  executions outside an explicit task, and the worker from the scan of the tables to the
  backoff of its loop.

  Data and texts.
  \<^item> \<open>Prelude\<close>: exceptions as values (\<open>py_error\<close>), identifier checks, facts on lists.
  \<^item> \<open>Timestamps\<close>, \<open>Decimals\<close> (\<open>models/_serde.py\<close>, \<open>rates.py\<close>): canonical texts, what
    they read back as, their order.
  \<^item> \<open>Json\<close>, \<open>Python_Text\<close>: JSON values with Python's equality, \<open>json.dumps\<close>, \<open>str\<close>,
    \<open>repr\<close>, \<open>int\<close> and \<open>UUID\<close> of untrusted values.
  \<^item> \<open>Outcomes\<close>, \<open>Revenues\<close>, \<open>Provider_Jobs\<close>, \<open>Events\<close>, \<open>Tasks\<close> (\<open>models/\<close>,
    \<open>idempotency.py\<close>, \<open>pricing_explain.py\<close>, \<open>capabilities.py\<close>): one record per class, its
    \<open>__post_init__\<close> as a list of checks, \<open>to_dict\<close> and \<open>from_dict\<close>.
  \<^item> \<open>Observation_V3\<close>, \<open>Job_Observations\<close> (\<open>attribution/v3_validate.py\<close>): the cross-field
    checks of an observation, and that every valid provider job converts to one that passes.
  \<^item> \<open>Redaction\<close>, \<open>Task_Upload\<close> (\<open>redaction.py\<close>, \<open>_build_task\<close> of \<open>tracker.py\<close>,
    \<open>attribution/convert.py\<close>, the \<open>_prepare_*\<close> methods of \<open>sync.py\<close>): the construction of a
    task, its business identity and what of it leaves the process.

  The store (\<open>storage/sqlite.py\<close>). A table is the list of its rows; a statement is a function
  on it.
  \<^item> \<open>Ledger\<close>: SQL as used (\<open>UPDATE\<close>, \<open>LIMIT\<close>, \<open>executemany\<close>) and the locale
    \<open>revision_ledger\<close>, the contract of an append-only table of revisions; interpreted on the
    outcome, revenue and provider-job tables in their theories.
  \<^item> \<open>Delivery_Queue\<close>: the locale \<open>delivery_queue\<close>, the contract of a \<open>sync_status\<close>
    column; interpreted on all five tables, for events and tasks by version and by id alone.
  \<^item> \<open>Event_Store\<close>: the event and task tables, purging, queue depths.
  \<^item> \<open>Delivery_Safety\<close>: the locale \<open>snapshot_queue\<close> and step relations of the event and the
    task table under concurrent use; a synced row was accepted in its present contents.

  Executions and the worker.
  \<^item> \<open>Sessions\<close> (\<open>context.py\<close>, \<open>auto_task.py\<close>, \<open>session.py\<close>): tasks in a heap, shared by
    reference; the step relation \<open>sessions_reach\<close> and its invariant \<open>sessions_inv\<close>.
  \<^item> \<open>Delivery_Health\<close> (\<open>delivery.py\<close>, the health fields of \<open>sync.py\<close>).
  \<^item> \<open>Sync_Post\<close> (\<open>_post_with_split\<close>, \<open>_post_raw\<close>): a batch is cut in halves until each
    leaf fits into a request. \<open>plan\<close> is its specification, the list of leaves; \<open>store_moved\<close>
    and \<open>store_done\<close> say which rows an upload may and must settle.
  \<^item> \<open>Sync_Worker\<close>: the paged scan for events. \<open>Sync_Cycle\<close>: \<open>_sync_batch\<close> and \<open>_run\<close>, which
    call nearly everything above; \<open>work\<close> bounds what they can still do.

  What the groups of lemmas show. Ledgers: contiguous revisions, immutable identity, legal
  transitions, idempotent insertion (the locale lemmas, used by the history properties). Wire
  forms: round trips, acceptance by the validator, privacy. Delivery: no row is acknowledged
  that was not accepted, a successful upload leaves nothing of its batch pending, splitting
  neither loses nor reorders records, and the worker makes progress in every turn it does not
  wait after, so it cannot spin. Sessions: no shared, finished or unwatched task.
  Some properties state what the code does where that is not what it means to do; they are
  listed as findings in the manifest.

  Recursion and bounds. Every function is total: splitting terminates because a part has
  fewer records (\<open>split_smaller\<close>), a scan because every page that does not end it looks at a
  new event (\<open>scan_page_progress\<close>); no fuel is used. The list of cycles that \<open>run_turns\<close> is
  given is what the worker meets, not a bound on it: the properties hold for every list.
  Integers are unbounded as in Python; the bytes of a digest are 8-bit words.

  Parameters. SHA-256 and \<open>uuid5\<close> (as functions of the text), the JSON-Schema validator
  (\<open>schema_issues\<close>), the network (\<open>net\<close>, the reply to the n-th request), clocks, fresh ids,
  writes by other threads (\<open>app\<close>), and the converter of events to observations (\<open>convert\<close>).
  Of the converter one property asks \<open>keeps_ids\<close>: the observation carries the id of its event,
  as \<open>attribution/v3_convert.py\<close> sets it.

  Not modelled. The converter \<open>attribution/v3_convert.py\<close> itself and the roll-up of task costs
  (\<open>tracker.py\<close>), which are next; pricing, catalogs and rates; the accounting of bytes, CPU and
  GPU; polling of provider APIs. The instruments, integrations and adapters patch
  third-party libraries and read foreign objects; the command line, scanner and console are
  input and output. Of the modelled parts: threads and locks (an operation under a lock is
  one step), migrations and the SQLite file itself, log lines, text outside ASCII where it
  changes lengths or case, and NaN, infinities and the sign of zero.
\<close>

end
